(* ===== verification/Airplay_Prelude.thy ===== *)
theory Airplay_Prelude
  imports Main "HOL-Library.Word" "HOL-Library.Monad_Syntax"
begin

text \<open>
  Shared vocabulary of the development: the C integer types as words, big- and little-endian
  assembly of bytes, C strings as character lists with the library calls the sources use on
  them (\<open>strstr\<close>, \<open>strchr\<close>, \<open>strncmp\<close>, \<open>atoi\<close>), array segment writes, the drain loop over
  a queue-like component together with its interface, and the lemmas about these that several
  components share.
\<close>

unbundle bit_operations_syntax

type_synonym byte = "8 word"
type_synonym u16 = "16 word"
type_synonym u32 = "32 word"
type_synonym u64 = "64 word"

named_theorems defs_unfold \<open>definitions of one-line operations, unfolded together\<close>

section \<open>Bytes and words\<close>

definition be16 :: "byte \<Rightarrow> byte \<Rightarrow> u16" where
  "be16 hi lo = push_bit 8 (ucast hi) OR ucast lo"

definition be32 :: "byte \<Rightarrow> byte \<Rightarrow> byte \<Rightarrow> byte \<Rightarrow> u32" where
  "be32 a b c d = push_bit 24 (ucast a) OR push_bit 16 (ucast b) OR push_bit 8 (ucast c) OR ucast d"

definition hi8 :: "u16 \<Rightarrow> byte" where
  "hi8 w = ucast (drop_bit 8 w)"

definition lo8 :: "u16 \<Rightarrow> byte" where
  "lo8 w = ucast w"

lemma be16_hi8_lo8 [simp]: "be16 (hi8 w) (lo8 w) = w"
  unfolding be16_def hi8_def lo8_def
  by (rule bit_word_eqI) (auto simp: bit_simps)

lemma byte_eqI:
  fixes v w :: byte
  assumes "list_all (\<lambda>n. bit v n = bit w n) [7, 6, 5, 4, 3, 2, 1, 0]"
  shows "v = w"
proof (rule bit_word_eqI)
  fix n :: nat
  assume "n < LENGTH(8)"
  then have "n \<in> set [7, 6, 5, 4, 3, 2, 1, 0]" by (simp, presburger)
  then show "bit v n = bit w n" using assms unfolding list_all_iff by blast
qed

lemma u32_eqI:
  fixes v w :: u32
  assumes "list_all (\<lambda>n. bit v n = bit w n \<and> bit v (8 + n) = bit w (8 + n)
      \<and> bit v (16 + n) = bit w (16 + n) \<and> bit v (24 + n) = bit w (24 + n)) [7, 6, 5, 4, 3, 2, 1, 0]"
  shows "v = w"
proof (rule bit_word_eqI)
  fix n :: nat
  assume n: "n < LENGTH(32)"
  have "n mod 8 < 8" by simp
  then have "n mod 8 \<in> set [7, 6, 5, 4, 3, 2, 1, 0]" by (simp only: list.set insert_iff empty_iff, linarith)
  then have "bit v (n mod 8) = bit w (n mod 8) \<and> bit v (8 + n mod 8) = bit w (8 + n mod 8)
      \<and> bit v (16 + n mod 8) = bit w (16 + n mod 8) \<and> bit v (24 + n mod 8) = bit w (24 + n mod 8)"
    using assms unfolding list_all_iff by blast
  moreover have "n = n mod 8 \<or> n = 8 + n mod 8 \<or> n = 16 + n mod 8 \<or> n = 24 + n mod 8"
    using n by (simp, presburger)
  ultimately show "bit v n = bit w n" by metis
qed

lemma byte_no_high_bit [simp]: "8 \<le> n \<Longrightarrow> \<not> bit (w :: byte) n"
  using bit_imp_le_length [of w n] by auto

lemma unat_byte_lt [simp]: "unat (w :: byte) < 256"
  using unsigned_less [of w, where 'a = nat] by simp

lemma unat_ucast_byte [simp]: "unat (ucast (w :: byte) :: u32) = unat w"
proof -
  have "unat w < 2 ^ 32" using unat_byte_lt [of w] by (rule less_trans) simp
  then show ?thesis by (simp add: unsigned_ucast_eq take_bit_nat_eq_self)
qed

lemma signed_fold16: "(0::int) \<le> x \<Longrightarrow> x < 65536 \<Longrightarrow>
    (x + 32768) mod 65536 - 32768 = (if x < 32768 then x else x - 65536)"
  by (smt (verit) mod_pos_pos_trivial minus_mod_self2)

lemma unat16_lt [simp]: "unat (x :: u16) < 65536"
  using unsigned_less [of x, where 'a = nat] by simp

lemma sint16_unat: "sint (x :: u16) = (if unat x < 32768 then int (unat x) else int (unat x) - 65536)"
proof -
  have "sint x = (uint x + 32768) mod 65536 - 32768"
    using int_word_sint [where 'a = 16, of "uint x"] by simp
  also have "\<dots> = (if uint x < 32768 then uint x else uint x - 65536)"
    using uint_lt2p [of x] by (intro signed_fold16) simp_all
  also have "\<dots> = (if unat x < 32768 then int (unat x) else int (unat x) - 65536)"
  proof -
    have fold: "(if u < 32768 then u else u - 65536) = (if n < 32768 then int n else int n - 65536)"
      if "u = int n" for u :: int and n :: nat
      using that by auto
    show ?thesis by (rule fold) (rule uint_nat)
  qed
  finally show ?thesis .
qed

lemma sint16_neg_iff: "sint (x :: u16) < 0 \<longleftrightarrow> 32768 \<le> unat x"
  by (cases "unat x < 32768") (use uint_lt2p [of x] sint16_unat [of x] in simp_all)

lemma unat_diff16: "unat (a - b :: u16) = (if unat b \<le> unat a then unat a - unat b else unat a + 65536 - unat b)"
  by (simp add: unat_sub_if_size word_size)

lemma unat_add16: "unat (a + b :: u16) = (unat a + unat b) mod 65536"
  by (simp add: unat_word_ariths)

lemma mod32_of_mod65536 [simp]: "(n mod 65536) mod 32 = (n::nat) mod 32"
  by (rule mod_mod_cancel) simp

lemma sint16_eq_0_iff: "sint (x :: u16) = 0 \<longleftrightarrow> x = 0"
  by (fact signed_eq_0_iff)

lemma mod_shift_cancel:
  assumes "(a + c) mod n = (b + c) mod (n::nat)" "a < n" "b < n"
  shows "a = b"
  using assms
proof (induction a b rule: linorder_wlog)
  case (le a b)
  then have "n dvd (b + c) - (a + c)"
    using mod_eq_dvd_iff_nat [of "a + c" "b + c" n] by simp
  then have "n dvd b - a" by simp
  moreover have "b - a < n" using le by simp
  ultimately show ?case using le(1) by (meson dvd_imp_le diff_is_0_eq' leD le_antisym zero_less_diff not_less)
next
  case (sym a b)
  then show ?case by simp
qed

lemma slot_collision:
  assumes "unat (s - f :: u16) < 32" "unat (t - f) < 32" "unat s mod 32 = unat t mod 32"
  shows "s = t"
proof -
  have *: "unat x mod 32 = (unat (x - f) + unat f) mod 32" for x :: u16
  proof -
    have "unat x = unat ((x - f) + f)" by simp
    then show ?thesis by (simp only: unat_add16 mod32_of_mod65536)
  qed
  have "(unat (s - f) + unat f) mod 32 = (unat (t - f) + unat f) mod 32"
    using assms(3) * by metis
  then have "unat (s - f) = unat (t - f)"
    using mod_shift_cancel assms(1,2) by blast
  then have "s - f = t - f" by (simp add: word_unat_eq_iff)
  then show ?thesis by simp
qed

section \<open>C strings\<close>

text \<open>
  A \<open>char *\<close> that the code treats as a NUL-terminated string is the list of its characters
  before the terminator; a pointer into it is the suffix it points to, and NULL is \<open>None\<close>.
\<close>

definition starts_with :: "string \<Rightarrow> string \<Rightarrow> bool" where
  \<comment> \<open>\<open>!strncmp(lit, s, strlen(lit))\<close>\<close>
  "starts_with s lit \<longleftrightarrow> take (length lit) s = lit"

fun c_strstr :: "string \<Rightarrow> string \<Rightarrow> string option" where
  \<comment> \<open>the suffix at the first occurrence of the pattern\<close>
  "c_strstr s pat =
     (if starts_with s pat then Some s
      else case s of [] \<Rightarrow> None | _ # t \<Rightarrow> c_strstr t pat)"

declare c_strstr.simps [simp del]

fun c_strchr :: "string \<Rightarrow> char \<Rightarrow> string option" where
  "c_strchr [] c = None"
| "c_strchr (x # xs) c = (if x = c then Some (x # xs) else c_strchr xs c)"

abbreviation NUL :: char where "NUL \<equiv> CHR 0x00"
abbreviation LF :: char where "LF \<equiv> CHR 0x0A"
abbreviation CR :: char where "CR \<equiv> CHR 0x0D"

definition c_str :: "string \<Rightarrow> nat \<Rightarrow> string" where
  \<comment> \<open>the C string at an offset of a buffer\<close>
  "c_str buf off = takeWhile (\<lambda>c. c \<noteq> NUL) (drop off buf)"

lemma c_str_at:
  assumes "NUL \<notin> set w" "off = length A"
  shows "c_str (A @ w @ NUL # rest) off = w"
proof -
  have "takeWhile (\<lambda>c. c \<noteq> NUL) (w @ NUL # rest) = w" using assms(1) by (induction w) auto
  then show ?thesis by (simp add: c_str_def assms(2))
qed

lemma c_str_prefix:
  assumes "NUL \<in> set (drop off A)"
  shows "c_str (A @ B) off = c_str A off"
proof -
  have "off \<le> length A" using assms by (cases "off \<le> length A") auto
  then show ?thesis
    using assms takeWhile_append1 [of NUL "drop off A" "\<lambda>c. c \<noteq> NUL" B] by (simp add: c_str_def)
qed

definition is_space :: "char \<Rightarrow> bool" where
  "is_space c \<longleftrightarrow> c = CHR '' '' \<or> (9 \<le> (of_char c :: nat) \<and> (of_char c :: nat) \<le> 13)"

definition is_digit :: "char \<Rightarrow> bool" where
  "is_digit c \<longleftrightarrow> 48 \<le> (of_char c :: nat) \<and> (of_char c :: nat) \<le> 57"

fun digits_val :: "int \<Rightarrow> string \<Rightarrow> int" where
  "digits_val acc [] = acc"
| "digits_val acc (c # cs) =
     (if is_digit c then digits_val (10 * acc + (of_char c - 48)) cs else acc)"

definition c_atoi :: "string \<Rightarrow> int" where
  "c_atoi s =
     (case dropWhile is_space s of
        [] \<Rightarrow> 0
      | c # cs \<Rightarrow> if c = CHR ''-'' then - digits_val 0 cs
                  else if c = CHR ''+'' then digits_val 0 cs
                  else digits_val 0 (c # cs))"

lemma c_strstr_Nil [simp]: "pat \<noteq> [] \<Longrightarrow> c_strstr [] pat = None"
  by (simp add: c_strstr.simps starts_with_def)

lemma c_strstr_Cons:
  "c_strstr (x # xs) pat = (if starts_with (x # xs) pat then Some (x # xs) else c_strstr xs pat)"
  by (simp add: c_strstr.simps)

lemma starts_with_single [simp]: "starts_with (x # xs) [c] \<longleftrightarrow> x = c" "\<not> starts_with [] [c]"
  by (auto simp: starts_with_def)

lemma c_strstr_single: "c_strstr s [c] = c_strchr s c"
  by (induction s) (auto simp: c_strstr_Cons)

lemma c_strstr_SomeD:
  "c_strstr s pat = Some t \<Longrightarrow> (\<exists>pre. s = pre @ t) \<and> starts_with t pat"
proof (induction s)
  case Nil
  then show ?case by (auto simp: c_strstr.simps split: if_splits)
next
  case (Cons x xs)
  show ?case
  proof (cases "starts_with (x # xs) pat")
    case True
    with Cons.prems show ?thesis by (simp add: c_strstr_Cons)
  next
    case False
    with Cons obtain pre where "xs = pre @ t" "starts_with t pat"
      by (auto simp: c_strstr_Cons)
    then show ?thesis by (metis append_Cons)
  qed
qed

lemma c_strchr_None_iff: "c_strchr s c = None \<longleftrightarrow> c \<notin> set s"
  by (induction s) auto

lemma c_strchr_append:
  "c \<notin> set pre \<Longrightarrow> c_strchr (pre @ c # post) c = Some (c # post)"
  by (induction pre) auto

lemma c_strchr_SomeD:
  "c_strchr s c = Some t \<Longrightarrow> \<exists>pre post. s = pre @ c # post \<and> t = c # post \<and> c \<notin> set pre"
proof (induction s)
  case Nil
  then show ?case by simp
next
  case (Cons x xs)
  show ?case
  proof (cases "x = c")
    case True
    with Cons.prems have "x # xs = [] @ c # xs \<and> t = c # xs \<and> c \<notin> set []" by simp
    then show ?thesis by metis
  next
    case False
    with Cons obtain pre post where "xs = pre @ c # post" "t = c # post" "c \<notin> set pre"
      by auto
    with False have "x # xs = (x # pre) @ c # post \<and> t = c # post \<and> c \<notin> set (x # pre)" by simp
    then show ?thesis by metis
  qed
qed

section \<open>Writing into arrays\<close>

definition write_at :: "nat \<Rightarrow> 'a list \<Rightarrow> 'a list \<Rightarrow> 'a list" where
  \<comment> \<open>\<open>memcpy(buf + off, xs, n)\<close> for a write that stays inside the array\<close>
  "write_at off xs buf = take off buf @ xs @ drop (off + length xs) buf"

lemma length_write_at [simp]: "off + length xs \<le> length buf \<Longrightarrow> length (write_at off xs buf) = length buf"
  by (simp add: write_at_def)

lemma take_write_at [simp]: "off \<le> length buf \<Longrightarrow> take off (write_at off xs buf) = take off buf"
  by (simp add: write_at_def)

lemma write_at_window: "off \<le> length buf \<Longrightarrow> take (length xs) (drop off (write_at off xs buf)) = xs"
  by (simp add: write_at_def)

lemma take_write_at_end: "off \<le> length buf \<Longrightarrow> take (off + length xs) (write_at off xs buf) = take off buf @ xs"
  by (simp add: write_at_def)

section \<open>Draining a producer\<close>

text \<open>
  The loop \<open>while ((x = take_one(state)) != NULL) consume(x)\<close> that several components run: what it
  consumed and the state it leaves, \<open>None\<close> if it never ends.
\<close>

partial_function (option) drain :: "('s \<Rightarrow> ('a \<times> 's) option) \<Rightarrow> 's \<Rightarrow> ('a list \<times> 's) option" where
  "drain step s =
     (case step s of
        None \<Rightarrow> Some ([], s)
      | Some (x, s') \<Rightarrow>
          do { (xs, s'') \<leftarrow> drain step s'; Some (x # xs, s'') })"

declare drain.simps [code]

lemma drain_stop: "step s = None \<Longrightarrow> drain step s = Some ([], s)"
  by (simp add: drain.simps)

lemma drain_step:
  "step s = Some (x, s') \<Longrightarrow> drain step s' = Some (xs, s'') \<Longrightarrow> drain step s = Some (x # xs, s'')"
  by (subst drain.simps) simp

locale drainable =
  fixes step :: "'s \<Rightarrow> ('a \<times> 's) option" and inv :: "'s \<Rightarrow> bool" and remaining :: "'s \<Rightarrow> nat"
  assumes step_inv: "inv s \<Longrightarrow> step s = Some (x, s') \<Longrightarrow> inv s'"
    and step_decreases: "inv s \<Longrightarrow> step s = Some (x, s') \<Longrightarrow> remaining s' < remaining s"
begin

lemma drain_terminates:
  "inv s \<Longrightarrow> \<exists>xs s'. drain step s = Some (xs, s') \<and> inv s' \<and> step s' = None \<and> length xs \<le> remaining s"
proof (induction "remaining s" arbitrary: s rule: less_induct)
  case less
  show ?case
  proof (cases "step s")
    case None
    then show ?thesis using less.prems by (simp add: drain_stop)
  next
    case (Some p)
    then obtain x s' where s': "step s = Some (x, s')" by (cases p) auto
    note i = step_inv [OF less.prems s'] and d = step_decreases [OF less.prems s']
    then obtain xs s'' where
      r: "drain step s' = Some (xs, s'')" "inv s''" "step s'' = None" "length xs \<le> remaining s'"
      using less.hyps [OF d i] by auto
    then have "drain step s = Some (x # xs, s'')" using drain_step [of step s x s' xs s''] s' by blast
    then show ?thesis using r d by auto
  qed
qed

end

end
