(* ===== verification/Utils_C.thy ===== *)
theory Utils_C
  imports Airplay_Prelude
begin

text \<open>
  The helpers of \<open>libairplay/airplay/utils.c\<close>: hexadecimal conversion, the string splitter
  \<open>utils_strsep\<close>, the hardware address printers, the attribute and line readers used on
  playlists, the eight-byte integer readers and the NTP-to-microsecond conversion.
  Buffers filled by the code are returned; an over-read of a string is an explicit \<open>None\<close>.
\<close>

section \<open>Hexadecimal\<close>

definition hex_char :: "char \<Rightarrow> nat \<Rightarrow> char" where
  "hex_char base val = char_of (if val < 10 then 48 + val else of_char base + (val - 10))"

definition bin2hex :: "byte list \<Rightarrow> string" where
  "bin2hex buf =
     map (\<lambda>i. hex_char CHR ''a''
                (unat (if i mod 2 \<noteq> 0 then buf ! (i div 2) AND 0x0f
                       else drop_bit 4 (buf ! (i div 2) AND 0xf0))))
       [0..<length buf * 2]"

definition c_toupper :: "byte \<Rightarrow> byte" where
  "c_toupper b = (if 97 \<le> b \<and> b \<le> 122 then b - 32 else b)"

definition hex_nibble :: "byte \<Rightarrow> byte" where
  "hex_nibble b = (let u = c_toupper b in if u > 0x39 then u - 0x37 else u - 0x30)"

definition hex2bin :: "byte list \<Rightarrow> byte list" where
  "hex2bin buf =
     map (\<lambda>k. push_bit 4 (hex_nibble (buf ! (2 * k))) OR hex_nibble (buf ! (2 * k + 1)))
       [0..<length buf div 2]"

section \<open>Splitting\<close>

definition utils_strsep :: "string option \<Rightarrow> string \<Rightarrow> string option \<times> string option" where
  \<comment> \<open>(the piece returned, the new value of \<open>*stringp\<close>)\<close>
  "utils_strsep stringp delim =
     (case stringp of
        None \<Rightarrow> (None, None)
      | Some original \<Rightarrow>
          (case c_strstr original delim of
             None \<Rightarrow> (Some original, None)
           | Some strptr \<Rightarrow>
               (Some (take (length original - length strptr) original),
                Some (drop (length delim) strptr))))"

text \<open>The callers' loop \<open>while ((p = utils_strsep(&cur, c)) != NULL)\<close> for a one-character separator.\<close>

lemma utils_strsep_single:
  "utils_strsep None [c] = (None, None)"
  "c \<notin> set s \<Longrightarrow> utils_strsep (Some s) [c] = (Some s, None)"
  "c \<notin> set pre \<Longrightarrow> utils_strsep (Some (pre @ c # post)) [c] = (Some pre, Some post)"
  by (auto simp: utils_strsep_def c_strstr_single c_strchr_append
      split: option.splits dest: c_strchr_SomeD) (auto simp: c_strchr_None_iff dest: c_strchr_SomeD)

lemma utils_strsep_shorter:
  "utils_strsep (Some s) [c] = (r, Some t) \<Longrightarrow> length t < length s"
  by (auto simp: utils_strsep_def c_strstr_single split: option.splits dest!: c_strchr_SomeD)

function strsep_all :: "char \<Rightarrow> string option \<Rightarrow> string list" where
  "strsep_all c stringp =
     (case utils_strsep stringp [c] of
        (None, _) \<Rightarrow> []
      | (Some piece, stringp') \<Rightarrow> piece # strsep_all c stringp')"
  by pat_completeness auto
termination
  by (relation "measure (\<lambda>(c, sp). case sp of None \<Rightarrow> 0 | Some s \<Rightarrow> Suc (length s))")
    (auto simp: utils_strsep_def c_strstr_single split: option.splits dest!: c_strchr_SomeD)

declare strsep_all.simps [simp del]

lemma strsep_all_simps [simp]:
  "strsep_all c None = []"
  "c \<notin> set s \<Longrightarrow> strsep_all c (Some s) = [s]"
  "c \<notin> set pre \<Longrightarrow> strsep_all c (Some (pre @ c # post)) = pre # strsep_all c (Some post)"
  by (simp_all add: strsep_all.simps [of c "None"] strsep_all.simps [of c "Some s"]
      strsep_all.simps [of c "Some (pre @ c # post)"] utils_strsep_single)

lemma concat_strsep_all:
  "strsep_all c (Some s) \<noteq> [] \<and> (\<forall>p \<in> set (strsep_all c (Some s)). c \<notin> set p)
     \<and> concat (map (\<lambda>p. p @ [c]) (strsep_all c (Some s))) = s @ [c]"
proof (induction "length s" arbitrary: s rule: less_induct)
  case less
  show ?case
  proof (cases "c \<in> set s")
    case False
    then show ?thesis by simp
  next
    case True
    then obtain pre post where s: "s = pre @ c # post" "c \<notin> set pre"
      by (meson split_list_first)
    with less [of post] show ?thesis by simp
  qed
qed

section \<open>Hexadecimal round trip\<close>

lemma hex_digits_table:
  "list_all (\<lambda>n. hex_nibble (of_char (hex_char CHR ''a'' n)) = of_nat n
                 \<and> hex_char CHR ''a'' n \<noteq> CHR '':'') [0..<16]"
  by code_simp

lemma hex_nibble_hex_char: "n < 16 \<Longrightarrow> hex_nibble (of_char (hex_char CHR ''a'' n)) = of_nat n"
  using hex_digits_table by (simp add: list_all_iff)

lemma hex_char_neq_colon: "n < 16 \<Longrightarrow> hex_char CHR ''a'' n \<noteq> CHR '':''"
  using hex_digits_table by (simp add: list_all_iff)

lemma bit_0x0f: "bit (0x0f :: int) n \<longleftrightarrow> n < 4"
proof -
  have "(0x0f :: int) = mask 4" by (simp add: mask_eq_exp_minus_1)
  then show ?thesis by (simp only: bit_mask_iff) (simp add: possible_bit_def)
qed

lemma bit_0xf0: "bit (0xf0 :: int) n \<longleftrightarrow> 4 \<le> n \<and> n < 8"
proof -
  have "(0xf0 :: int) = push_bit 4 (mask 4)" by (simp add: mask_eq_exp_minus_1)
  then show ?thesis by (simp only: bit_mask_iff bit_push_bit_iff) (auto simp: possible_bit_def)
qed

lemma byte_split_nibbles:
  "push_bit 4 (drop_bit 4 (b AND 0xf0)) OR (b AND 0x0f) = (b :: byte)"
  by (rule bit_word_eqI) (auto simp: bit_simps bit_0x0f bit_0xf0)

lemma unat_low_nibble: "unat (b AND 0x0f :: byte) < 16"
proof -
  have "b AND 0x0f = take_bit 4 b"
    by (rule bit_word_eqI) (auto simp: bit_simps bit_0x0f)
  then have "unat (b AND 0x0f) = unat b mod 16"
    by (simp only: unsigned_take_bit_eq) (simp add: take_bit_eq_mod)
  then show ?thesis by simp
qed

lemma high_nibble:
  "drop_bit 4 (b AND 0xf0) = drop_bit 4 (b :: byte)" "drop_bit 4 b AND 0x0f = drop_bit 4 b"
proof -
  have bd: "4 + n < 8" if "bit b (4 + n)" for n
    using bit_imp_le_length [OF that] by simp
  show "drop_bit 4 (b AND 0xf0) = drop_bit 4 b"
    by (rule bit_word_eqI) (simp only: bit_drop_bit_eq bit_and_iff comp_def, auto simp: bit_0xf0 dest: bd)
  show "drop_bit 4 b AND 0x0f = drop_bit 4 b"
    by (rule bit_word_eqI) (simp only: bit_drop_bit_eq bit_and_iff comp_def, auto simp: bit_0x0f dest: bd)
qed

lemma unat_high_nibble: "unat (drop_bit 4 (b AND 0xf0) :: byte) < 16"
proof -
  have "unat (drop_bit 4 (b AND 0xf0)) = unat b div 16"
    by (simp only: high_nibble unat_drop_bit_eq) (simp add: drop_bit_eq_div)
  moreover have "unat b < 256" using unsigned_less [of b, where 'a = nat] by simp
  ultimately show ?thesis by (simp add: less_mult_imp_div_less)
qed

lemma bin2hex_single:
  "bin2hex [b] = [hex_char CHR ''a'' (unat (drop_bit 4 (b AND 0xf0))), hex_char CHR ''a'' (unat (b AND 0x0f))]"
  by (simp add: bin2hex_def upt_conv_Cons)

lemma length_bin2hex [simp]: "length (bin2hex buf) = 2 * length buf"
  by (simp add: bin2hex_def)

text \<open>
  \<open>hex2bin\<close> undoes \<open>bin2hex\<close> on every byte buffer.
\<close>

theorem hex2bin_bin2hex: "hex2bin (map of_char (bin2hex buf)) = buf"
proof (rule nth_equalityI)
  show "length (hex2bin (map of_char (bin2hex buf))) = length buf"
    by (simp add: hex2bin_def)
  fix k assume "k < length (hex2bin (map of_char (bin2hex buf)))"
  then have k: "k < length buf" by (simp add: hex2bin_def)
  have hi: "bin2hex buf ! (2 * k) = hex_char CHR ''a'' (unat (drop_bit 4 (buf ! k AND 0xf0)))"
    and lo: "bin2hex buf ! Suc (2 * k) = hex_char CHR ''a'' (unat (buf ! k AND 0x0f))"
    using k by (simp_all add: bin2hex_def)
  show "hex2bin (map of_char (bin2hex buf)) ! k = buf ! k"
    using k hex_nibble_hex_char [OF unat_high_nibble [of "buf ! k"]]
      hex_nibble_hex_char [OF unat_low_nibble [of "buf ! k"]] byte_split_nibbles [of "buf ! k"]
    by (simp add: hex2bin_def hi lo)
qed

section \<open>Hardware addresses\<close>

definition hwaddr_digits :: "char \<Rightarrow> byte \<Rightarrow> string" where
  "hwaddr_digits base b = [hex_char base (unat (drop_bit 4 b AND 0x0f)), hex_char base (unat (b AND 0x0f))]"

definition utils_hwaddr_raop :: "int \<Rightarrow> byte list \<Rightarrow> int \<times> string" where
  \<comment> \<open>(return value, the string written before its terminator)\<close>
  "utils_hwaddr_raop strlen hwaddr =
     (if strlen = 0 \<or> strlen < 2 * int (length hwaddr) + 1 then (-1, [])
      else let str = concat (map (hwaddr_digits CHR ''A'') hwaddr)
           in (int (length str) + 1, str))"

definition utils_hwaddr_airplay :: "int \<Rightarrow> byte list \<Rightarrow> int \<times> string" where
  "utils_hwaddr_airplay strlen hwaddr =
     (if strlen = 0 \<or> strlen < 2 * int (length hwaddr) + int (length hwaddr) then (-1, [])
      else let str = concat (map (\<lambda>b. hwaddr_digits CHR ''a'' b @ '':'') hwaddr);
               str = (if length str \<noteq> 0 then butlast str else str)
           in (int (length str) + 1, str))"

lemma hwaddr_digits_bin2hex: "hwaddr_digits CHR ''a'' b = bin2hex [b]"
  by (simp only: hwaddr_digits_def bin2hex_single high_nibble)

lemma colon_notin_digits: "CHR '':'' \<notin> set (bin2hex [b])"
  using hex_char_neq_colon [OF unat_low_nibble [of b]] hex_char_neq_colon [OF unat_high_nibble [of b]]
  by (auto simp: bin2hex_single)

lemma length_colon_concat:
  "length (concat (map (\<lambda>b. hwaddr_digits CHR ''a'' b @ '':'') hw)) = 3 * length hw"
  by (induction hw) (auto simp: hwaddr_digits_def)

lemma strsep_all_colon_pieces:
  "strsep_all CHR '':'' (Some (butlast (concat (map (\<lambda>b. hwaddr_digits CHR ''a'' b @ '':'') (h # hw)))))
     = map (\<lambda>b. bin2hex [b]) (h # hw)"
proof (induction hw arbitrary: h)
  case Nil
  then show ?case by (simp add: hwaddr_digits_bin2hex butlast_append colon_notin_digits)
next
  case (Cons h2 hw)
  have "butlast (concat (map (\<lambda>b. hwaddr_digits CHR ''a'' b @ '':'') (h # h2 # hw)))
      = bin2hex [h] @ CHR '':'' # butlast (concat (map (\<lambda>b. hwaddr_digits CHR ''a'' b @ '':'') (h2 # hw)))"
    by (simp add: hwaddr_digits_bin2hex butlast_append)
  then show ?case
    using Cons [of h2] colon_notin_digits [of h] by simp
qed

text \<open>
  With a large enough buffer \<open>utils_hwaddr_airplay\<close> never writes past it, and what it writes
  splits at its colons into exactly the two-digit hexadecimal images of the address bytes.
\<close>

theorem hwaddr_airplay_pieces:
  assumes "3 * int (length hwaddr) \<le> strlen" "hwaddr \<noteq> []"
  shows "fst (utils_hwaddr_airplay strlen hwaddr) = 3 * int (length hwaddr)
    \<and> strsep_all CHR '':'' (Some (snd (utils_hwaddr_airplay strlen hwaddr))) = map (\<lambda>b. bin2hex [b]) hwaddr"
proof -
  obtain h hw where h: "hwaddr = h # hw" using assms(2) by (cases hwaddr) auto
  let ?c = "concat (map (\<lambda>b. hwaddr_digits CHR ''a'' b @ '':'') hwaddr)"
  have "utils_hwaddr_airplay strlen hwaddr = (int (length (butlast ?c)) + 1, butlast ?c)"
    using assms length_colon_concat [of hwaddr] by (auto simp: utils_hwaddr_airplay_def Let_def)
  then show ?thesis
    using strsep_all_colon_pieces [of h hw] length_colon_concat [of hwaddr] h by simp
qed

theorem hwaddr_airplay_pieces_witness:
  "fst (utils_hwaddr_airplay 18 [0x00, 0x1a, 0xff]) = 9
    \<and> strsep_all CHR '':'' (Some (snd (utils_hwaddr_airplay 18 [0x00, 0x1a, 0xff])))
        = map (\<lambda>b. bin2hex [b]) [0x00, 0x1a, 0xff]"
  using hwaddr_airplay_pieces [of "[0x00, 0x1a, 0xff]" 18] by simp

section \<open>Attributes and lines of playlists\<close>

fun skip_quotes :: "char option \<Rightarrow> string \<Rightarrow> char option \<times> string" where
  "skip_quotes flag [] = (flag, [])"
| "skip_quotes flag (c # cs) =
     (if c = CHR ''='' then skip_quotes flag cs
      else if c = CHR 0x22 \<or> c = CHR 0x27 then skip_quotes (Some c) cs
      else (flag, c # cs))"

definition getValue :: "string \<Rightarrow> string \<Rightarrow> string \<Rightarrow> (int \<times> string) option" where
  \<comment> \<open>\<open>getValue str param value\<close>: the return code and the new contents of \<open>value\<close>;
     \<open>None\<close> when \<open>while (*p_end != flag) p_end++\<close> runs past the terminator of \<open>str\<close>\<close>
  "getValue str param val =
     (if param = [] then Some (-1, val)
      else case c_strstr str param of
        None \<Rightarrow> Some (0, val)
      | Some p \<Rightarrow>
          (let (flag, p_start) = skip_quotes None (drop (length param) p);
               stop = (case flag of Some q \<Rightarrow> q | None \<Rightarrow> CHR '','')
           in case c_strchr p_start stop of
                None \<Rightarrow> None
              | Some p_end \<Rightarrow>
                  (let n = length p_start - length p_end;
                       val' = take n p_start @ drop n val
                   in Some (int (length val'), val'))))"

abbreviation CR :: char where "CR \<equiv> CHR 0x0D"
abbreviation LF :: char where "LF \<equiv> CHR 0x0A"

fun line_len :: "int \<Rightarrow> string \<Rightarrow> nat" where
  \<comment> \<open>steps of \<open>while (--size && *p != 0 && *p != '\r' && *p != '\n') p++\<close>\<close>
  "line_len sz [] = 0"
| "line_len sz (c # cs) =
     (if sz - 1 = 0 \<or> c = CR \<or> c = LF then 0 else Suc (line_len (sz - 1) cs))"

definition get_line :: "string \<Rightarrow> int \<Rightarrow> string \<Rightarrow> (string \<times> string) option" where
  \<comment> \<open>\<open>get_line line sz src\<close>: the new contents of \<open>line\<close> and the pointer returned, \<open>None\<close> for NULL\<close>
  "get_line line sz src =
     (let n = line_len sz src in
      if n = 0 then None
      else Some (take n src @ drop n line, dropWhile (\<lambda>c. c = CR \<or> c = LF) (drop n src)))"

lemma line_len_le: "line_len sz s \<le> length s \<and> (0 < sz \<longrightarrow> int (line_len sz s) \<le> sz - 1)"
  by (induction sz s rule: line_len.induct) auto

lemma line_len_clean: "c \<in> set (take (line_len sz s) s) \<Longrightarrow> c \<noteq> CR \<and> c \<noteq> LF"
  by (induction sz s rule: line_len.induct) (auto split: if_splits)

text \<open>
  One call of \<open>get_line\<close> into a cleared buffer returns a non-empty line without line ends that
  fits the buffer with its terminator, and the source pointer moves strictly forward, so a loop
  over the lines of a playlist ends.
\<close>

theorem get_line_progress:
  assumes "0 < sz" "get_line [] sz src = Some (line, rest)"
  shows "line \<noteq> [] \<and> int (length line) < sz \<and> CR \<notin> set line \<and> LF \<notin> set line
    \<and> take (length line) src = line \<and> length rest < length src"
proof -
  let ?n = "line_len sz src"
  have n: "?n \<noteq> 0" and line: "line = take ?n src"
    and rest: "rest = dropWhile (\<lambda>c. c = CR \<or> c = LF) (drop ?n src)"
    using assms by (auto simp: get_line_def Let_def split: if_splits)
  have le: "?n \<le> length src" "int ?n \<le> sz - 1" using line_len_le assms(1) by auto
  have "length rest \<le> length (drop ?n src)"
    unfolding rest by (rule length_dropWhile_le)
  moreover have "length (drop ?n src) < length src" using n le by simp
  ultimately show ?thesis
    using n le line line_len_clean [of _ sz src] by auto
qed

theorem get_line_progress_witness:
  "get_line [] 2048 (''ab'' @ LF # ''cd'') = Some (''ab'', ''cd'') \<and> int (length ''ab'') < 2048"
proof -
  have e: "get_line [] 2048 (''ab'' @ LF # ''cd'') = Some (''ab'', ''cd'')"
    by (simp add: get_line_def)
  show ?thesis using e get_line_progress [OF _ e] by simp
qed

section \<open>Memory and sockets\<close>

definition memdup :: "byte list option \<Rightarrow> nat \<Rightarrow> byte list option" where
  "memdup src sz =
     (case src of None \<Rightarrow> None | Some bs \<Rightarrow> if sz = 0 then None else Some (take sz bs))"

definition recv_wait :: "int \<Rightarrow> int \<Rightarrow> int \<Rightarrow> (int \<Rightarrow> int) \<Rightarrow> int" where
  \<comment> \<open>\<open>select_ret\<close> and \<open>recv\<close> stand for what the two system calls answer\<close>
  "recv_wait sockt len select_ret recv =
     (if sockt = -1 then 0
      else if select_ret \<ge> 0 then
        (if select_ret = 0 then 0
         else let read_size = (if len \<ge> 0x8000 then 0x8000 else len);
                  ret = recv read_size
              in if ret = 0 then -1 else ret)
      else select_ret)"

section \<open>Eight-byte integers and NTP time\<close>

definition bytes_to_little_long :: "byte list \<Rightarrow> nat \<Rightarrow> u64" where
  "bytes_to_little_long bb index =
     push_bit 56 (ucast (bb ! (index + 7))) OR push_bit 48 (ucast (bb ! (index + 6)))
     OR push_bit 40 (ucast (bb ! (index + 5))) OR push_bit 32 (ucast (bb ! (index + 4)))
     OR push_bit 24 (ucast (bb ! (index + 3))) OR push_bit 16 (ucast (bb ! (index + 2)))
     OR push_bit 8 (ucast (bb ! (index + 1))) OR ucast (bb ! index)"

definition bytes_to_bigger_long :: "byte list \<Rightarrow> nat \<Rightarrow> u64" where
  "bytes_to_bigger_long bb index =
     push_bit 56 (ucast (bb ! index)) OR push_bit 48 (ucast (bb ! (index + 1)))
     OR push_bit 40 (ucast (bb ! (index + 2))) OR push_bit 32 (ucast (bb ! (index + 3)))
     OR push_bit 24 (ucast (bb ! (index + 4))) OR push_bit 16 (ucast (bb ! (index + 5)))
     OR push_bit 8 (ucast (bb ! (index + 6))) OR ucast (bb ! (index + 7))"

definition le_bytes64 :: "u64 \<Rightarrow> byte list" where
  "le_bytes64 w = map (\<lambda>k. ucast (drop_bit (8 * k) w)) [0..<8]"

definition ntp_to_pts :: "u64 \<Rightarrow> u64" where
  "ntp_to_pts ntp =
     (let m = signed_drop_bit 32 ntp * 1000000;
          l = ntp AND 0xffffffff;
          l = (l * 1000 div 4294967296) * 1000
      in m + l)"

lemma length_le_bytes64 [simp]: "length (le_bytes64 w) = 8"
  by (simp add: le_bytes64_def)

lemma nth_le_bytes64: "k < 8 \<Longrightarrow> le_bytes64 w ! k = ucast (drop_bit (8 * k) w)"
  by (simp add: le_bytes64_def)

lemma window8:
  assumes "length ys = 8"
  shows "(xs @ ys @ zs) ! length xs = ys ! 0" "(xs @ ys @ zs) ! (length xs + 1) = ys ! 1"
    "(xs @ ys @ zs) ! (length xs + 2) = ys ! 2" "(xs @ ys @ zs) ! (length xs + 3) = ys ! 3"
    "(xs @ ys @ zs) ! (length xs + 4) = ys ! 4" "(xs @ ys @ zs) ! (length xs + 5) = ys ! 5"
    "(xs @ ys @ zs) ! (length xs + 6) = ys ! 6" "(xs @ ys @ zs) ! (length xs + 7) = ys ! 7"
  using assms by (simp_all add: nth_append)

lemma rev8:
  assumes "length ys = 8"
  shows "rev ys ! 0 = ys ! 7" "rev ys ! 1 = ys ! 6" "rev ys ! 2 = ys ! 5" "rev ys ! 3 = ys ! 4"
    "rev ys ! 4 = ys ! 3" "rev ys ! 5 = ys ! 2" "rev ys ! 6 = ys ! 1" "rev ys ! 7 = ys ! 0"
  using assms by (simp_all add: rev_nth)

lemma le_bytes64_digits:
  "le_bytes64 w ! 0 = ucast w" "le_bytes64 w ! 1 = ucast (drop_bit 8 w)"
  "le_bytes64 w ! 2 = ucast (drop_bit 16 w)" "le_bytes64 w ! 3 = ucast (drop_bit 24 w)"
  "le_bytes64 w ! 4 = ucast (drop_bit 32 w)" "le_bytes64 w ! 5 = ucast (drop_bit 40 w)"
  "le_bytes64 w ! 6 = ucast (drop_bit 48 w)" "le_bytes64 w ! 7 = ucast (drop_bit 56 w)"
  by (simp_all add: nth_le_bytes64)

lemma join_bytes64:
  "push_bit 56 (ucast (ucast (drop_bit 56 w) :: byte)) OR push_bit 48 (ucast (ucast (drop_bit 48 w) :: byte))
   OR push_bit 40 (ucast (ucast (drop_bit 40 w) :: byte)) OR push_bit 32 (ucast (ucast (drop_bit 32 w) :: byte))
   OR push_bit 24 (ucast (ucast (drop_bit 24 w) :: byte)) OR push_bit 16 (ucast (ucast (drop_bit 16 w) :: byte))
   OR push_bit 8 (ucast (ucast (drop_bit 8 w) :: byte)) OR ucast (ucast w :: byte) = (w :: u64)"
proof (rule bit_word_eqI)
  fix n assume "n < LENGTH(64)"
  then have n: "n < 64" by simp
  let ?b = "\<lambda>k. push_bit k (ucast (ucast (drop_bit k w) :: byte)) :: u64"
  have b: "bit (?b k) n \<longleftrightarrow> k \<le> n \<and> n < k + 8 \<and> bit w n" for k
    using n by (auto simp: bit_simps)
  have c: "bit (ucast (ucast w :: byte) :: u64) n \<longleftrightarrow> n < 8 \<and> bit w n"
    using n by (auto simp: bit_simps)
  show "bit (?b 56 OR ?b 48 OR ?b 40 OR ?b 32 OR ?b 24 OR ?b 16 OR ?b 8 OR ucast (ucast w :: byte)) n = bit w n"
    unfolding bit_or_iff b c using n by (cases "bit w n") (simp_all, arith)
qed

text \<open>
  \<open>bytes_to_little_long\<close> and \<open>bytes_to_bigger_long\<close> read back every 64-bit value from its
  little-endian and its big-endian image at any offset of a buffer.
\<close>

theorem bytes_to_long_roundtrip:
  "bytes_to_little_long (pre @ le_bytes64 w @ post) (length pre) = w
   \<and> bytes_to_bigger_long (pre @ rev (le_bytes64 w) @ post) (length pre) = w"
  by (simp only: bytes_to_little_long_def bytes_to_bigger_long_def window8 length_le_bytes64 length_rev rev8
      le_bytes64_digits join_bytes64 simp_thms)

lemma unat_and_ffffffff: "unat (w AND 0xffffffff :: u64) = unat w mod 4294967296"
proof -
  have "w AND 0xffffffff = take_bit 32 w"
    by (simp add: take_bit_eq_mask mask_eq_exp_minus_1)
  then show ?thesis by (simp only: unsigned_take_bit_eq) (simp add: take_bit_eq_mod)
qed

lemma signed_drop_bit32_nonneg:
  assumes "unat (w :: u64) < 2 ^ 63"
  shows "unat (signed_drop_bit 32 w) = unat w div 4294967296"
proof -
  have "\<not> bit w 63"
  proof
    assume "bit w 63"
    then have "bit (unat w) 63" by (simp add: bit_unsigned_iff)
    then have "odd (unat w div 2 ^ 63)" unfolding bit_iff_odd .
    moreover have "unat w div 2 ^ 63 = 0" using assms by (rule div_less)
    ultimately show False by simp
  qed
  moreover have bd: "n < 32" if "bit w (32 + n)" for n
    using bit_imp_le_length [OF that] by simp
  ultimately have "signed_drop_bit 32 w = drop_bit 32 w"
    by (intro bit_word_eqI) (auto simp: bit_simps dest!: bd)
  then show ?thesis by (simp only: unat_drop_bit_eq) (simp add: drop_bit_eq_div)
qed

text \<open>
  For a time stamp below \<open>2^63\<close> the conversion of 32.32 fixed-point seconds to microseconds
  never overshoots and loses less than a millisecond: its 64-bit products do not wrap.
\<close>

theorem ntp_to_pts_accuracy:
  assumes "unat ntp < 2 ^ 63"
  shows "unat (ntp_to_pts ntp) * 2 ^ 32 \<le> unat ntp * 10 ^ 6
    \<and> unat ntp * 10 ^ 6 < (unat (ntp_to_pts ntp) + 1000) * 2 ^ 32"
proof -
  define q r where "q = unat ntp div 4294967296" and "r = unat ntp mod 4294967296"
  have n: "unat ntp = q * 4294967296 + r" and r: "r < 4294967296" and q: "q < 2147483648"
    using assms by (simp_all add: q_def r_def div_less_iff_less_mult)
  have m: "unat (signed_drop_bit 32 ntp * 1000000) = q * 1000000"
    using q by (simp add: unat_word_ariths signed_drop_bit32_nonneg [OF assms] q_def [symmetric])
  have l: "unat ((ntp AND 0xffffffff) * 1000 div 4294967296 * 1000) = r * 1000 div 4294967296 * 1000"
  proof -
    have "unat ((ntp AND 0xffffffff) * 1000) = r * 1000"
      using r by (simp only: unat_word_ariths unat_and_ffffffff r_def [symmetric]) simp
    moreover have "r * 1000 div 4294967296 < 1000" using r by (simp add: div_less_iff_less_mult)
    ultimately show ?thesis by (simp add: unat_word_ariths unat_div)
  qed
  have lt: "r * 1000 div 4294967296 < 1000" using r by (simp add: div_less_iff_less_mult)
  have p: "unat (ntp_to_pts ntp) = q * 1000000 + r * 1000 div 4294967296 * 1000"
    using q lt m l by (simp add: ntp_to_pts_def unat_word_ariths Let_def)
  have "r * 1000 div 4294967296 * 4294967296 \<le> r * 1000"
    "r * 1000 < (r * 1000 div 4294967296 + 1) * 4294967296"
    by (simp_all add: dividend_less_div_times add.commute)
  then show ?thesis unfolding p n by (simp add: algebra_simps)
qed

theorem ntp_to_pts_accuracy_witness:
  "unat (0x83aa7e8012345678 div 2 :: u64) < 2 ^ 63
   \<and> unat (ntp_to_pts (0x83aa7e8012345678 div 2)) * 2 ^ 32 \<le> unat (0x83aa7e8012345678 div 2 :: u64) * 10 ^ 6"
  using ntp_to_pts_accuracy [of "0x83aa7e8012345678 div 2"] by simp

end
