(* ===== verification/C_Float.thy ===== *)
theory C_Float
  imports Complex_Main Airplay_Prelude
begin

text \<open>
  The values of a C \<open>float\<close> or \<open>double\<close>, with their infinities and NaN. Rounding is not modelled: a
  conversion keeps the value and a product is the exact one.
\<close>

datatype cfloat = Fin real | PosInf | NegInf | NaN

fun cfloat_times :: "cfloat \<Rightarrow> real \<Rightarrow> cfloat" where
  \<comment> \<open>the product with a positive constant\<close>
  "cfloat_times (Fin r) k = Fin (r * k)"
| "cfloat_times v k = v"

end
