(* ===== verification/Raop_Buffer.thy ===== *)
theory Raop_Buffer
  imports Utils_C
begin

text \<open>
  The audio jitter buffer of \<open>libairplay/airplay/raop_buffer.c\<close>: 32 entries indexed by the RTP
  sequence number modulo 32, between \<open>first_seqnum\<close> and \<open>last_seqnum\<close>. Packets arrive in any
  order; they leave in order. The decryption routine and the two audio decoders are the
  parameters collected in the record \<open>codec\<close>; every lemma holds for every choice of them.
\<close>

abbreviation RAOP_BUFFER_LENGTH :: nat where "RAOP_BUFFER_LENGTH \<equiv> 32"
abbreviation RAOP_PACKET_LEN :: nat where "RAOP_PACKET_LEN \<equiv> 32768"

section \<open>Data\<close>

record raop_buffer_entry =
  e_available :: bool
  e_resending :: bool
  e_flags :: byte
  e_type :: byte
  e_seqnum :: u16
  e_timestamp :: u32
  e_ssrc :: u32
  e_audio_buffer_size :: int
  e_audio_buffer_len :: int
  e_audio_buffer :: "byte list"

record alac_config =
  frameLength :: u32
  compatibleVersion :: byte
  bitDepth :: byte
  pb :: byte
  mb :: byte
  kb :: byte
  numChannels :: byte
  maxRun :: u16
  maxFrameBytes :: u32
  avgBitRate :: u32
  sampleRate :: u32

text \<open>
  \<open>'d\<close> is the state of the decoder in use. A decoder takes the packet, the old contents of the
  output buffer and the output length variable and returns its new state, the output buffer and
  the output length.
\<close>

record 'd codec =
  aes_cbc_decrypt :: "byte list \<Rightarrow> byte list \<Rightarrow> byte list \<Rightarrow> byte list"
  alac_create :: "byte \<Rightarrow> byte \<Rightarrow> 'd option"
  alac_set_info_cb :: "'d \<Rightarrow> byte list \<Rightarrow> 'd"
  alac_decode :: "'d \<Rightarrow> byte list \<Rightarrow> byte list \<Rightarrow> int \<Rightarrow> 'd \<times> byte list \<times> int"
  aac_create :: "'d"
  aac_decode :: "'d \<Rightarrow> byte list \<Rightarrow> byte list \<Rightarrow> int \<Rightarrow> 'd \<times> byte list \<times> int"

record 'd raop_buffer =
  rb_aeskey :: "byte list"
  rb_aesiv :: "byte list"
  rb_config :: alac_config
  rb_decoder :: 'd
  rb_et :: int
  rb_cn :: int
  rb_is_empty :: bool
  rb_first :: u16
  rb_last :: u16
  rb_entries :: "raop_buffer_entry list"
  rb_buffer_size :: int

section \<open>Initialisation\<close>

definition zero_config :: alac_config where
  "zero_config = \<lparr>frameLength = 0, compatibleVersion = 0, bitDepth = 0, pb = 0, mb = 0, kb = 0,
     numChannels = 0, maxRun = 0, maxFrameBytes = 0, avgBitRate = 0, sampleRate = 0\<rparr>"

fun fmtp_ints :: "nat \<Rightarrow> string option \<Rightarrow> int list option" where
  \<comment> \<open>the loop \<open>for (i = 0; i < 12; i++)\<close> with \<open>n\<close> rounds left\<close>
  "fmtp_ints 0 strptr = Some []"
| "fmtp_ints (Suc n) strptr =
     (case utils_strsep strptr '' '' of
        (None, _) \<Rightarrow> None
      | (Some piece, strptr') \<Rightarrow>
          (case fmtp_ints n strptr' of None \<Rightarrow> None | Some xs \<Rightarrow> Some (c_atoi piece # xs)))"

definition get_fmtp_info :: "alac_config \<Rightarrow> string \<Rightarrow> int \<Rightarrow> int \<times> alac_config" where
  "get_fmtp_info config fmtp cn =
     (if cn = 1 then
        (case fmtp_ints 12 (Some fmtp) of
           None \<Rightarrow> (-1, config)
         | Some intarr \<Rightarrow>
             (let config = \<lparr>frameLength = of_int (intarr ! 1), compatibleVersion = of_int (intarr ! 2),
                    bitDepth = of_int (intarr ! 3), pb = of_int (intarr ! 4), mb = of_int (intarr ! 5),
                    kb = of_int (intarr ! 6), numChannels = of_int (intarr ! 7),
                    maxRun = of_int (intarr ! 8), maxFrameBytes = of_int (intarr ! 9),
                    avgBitRate = of_int (intarr ! 10), sampleRate = of_int (intarr ! 11)\<rparr>
              in if bitDepth config \<noteq> 16 then (-2, config)
                 else if numChannels config \<noteq> 2 then (-3, config)
                 else (0, config)))
      else (0, \<lparr>frameLength = 4096, compatibleVersion = 0, bitDepth = 16, pb = 40, mb = 10, kb = 14,
             numChannels = 2, maxRun = 255, maxFrameBytes = 0, avgBitRate = 0, sampleRate = 44100\<rparr>))"

definition set_uint16 :: "u16 \<Rightarrow> byte list" where
  "set_uint16 v = [ucast (drop_bit 8 v), ucast v]"

definition set_uint32 :: "u32 \<Rightarrow> byte list" where
  "set_uint32 v = [ucast (drop_bit 24 v), ucast (drop_bit 16 v), ucast (drop_bit 8 v), ucast v]"

definition decoder_info :: "alac_config \<Rightarrow> byte list" where
  \<comment> \<open>the 48-byte array \<open>decoder_info\<close> of \<open>set_decoder_info\<close>\<close>
  "decoder_info config =
     replicate 24 0 @ set_uint32 (frameLength config)
     @ [compatibleVersion config, bitDepth config, pb config, mb config, kb config, numChannels config]
     @ set_uint16 (maxRun config) @ set_uint32 (maxFrameBytes config)
     @ set_uint32 (avgBitRate config) @ set_uint32 (sampleRate config)"

definition set_decoder_info :: "'d codec \<Rightarrow> 'd \<Rightarrow> alac_config \<Rightarrow> int \<Rightarrow> 'd" where
  "set_decoder_info cdc alac config cn =
     (if cn = 1 then alac_set_info_cb cdc alac (decoder_info config) else alac)"

definition audio_size :: "alac_config \<Rightarrow> int" where
  "audio_size config = sint (frameLength config * ucast (numChannels config) * ucast (bitDepth config) div 8)"

definition init_entries :: "int \<Rightarrow> byte list \<Rightarrow> raop_buffer_entry list" where
  "init_entries audio_buffer_size buffer =
     map (\<lambda>i. \<lparr>e_available = False, e_resending = False, e_flags = 0, e_type = 0, e_seqnum = 0,
                 e_timestamp = 0, e_ssrc = 0, e_audio_buffer_size = audio_buffer_size,
                 e_audio_buffer_len = 0,
                 e_audio_buffer = take (nat audio_buffer_size) (drop (i * nat audio_buffer_size) buffer)\<rparr>)
       [0..<RAOP_BUFFER_LENGTH]"

definition raop_buffer_init ::
  "'d codec \<Rightarrow> bool \<Rightarrow> (int \<Rightarrow> byte list option) \<Rightarrow> string \<Rightarrow> byte list \<Rightarrow> byte list \<Rightarrow> int \<Rightarrow> int
    \<Rightarrow> 'd raop_buffer option option" where
  \<comment> \<open>\<open>calloc_ok\<close> and \<open>malloc\<close> are what the allocator answers; \<open>malloc\<close> yields the (indeterminate)
     contents of the block. The outer \<open>None\<close> is the overflow of the product, the inner one the NULL returned.\<close>
  "raop_buffer_init cdc calloc_ok malloc fmtp aeskey aesiv et cn =
     (if \<not> calloc_ok then Some None
      else let (ret, config) = get_fmtp_info zero_config fmtp cn
      in if ret < 0 then Some None
      else let audio_buffer_size = audio_size config;
               buffer_size = audio_buffer_size * int RAOP_BUFFER_LENGTH
      in if buffer_size < - (2 ^ 31) \<or> buffer_size \<ge> 2 ^ 31 then None
      else case malloc buffer_size of
           None \<Rightarrow> Some None
         | Some buffer \<Rightarrow>
             (case (if cn = 1 then
                      map_option (\<lambda>alac. set_decoder_info cdc alac config cn)
                        (alac_create cdc (bitDepth config) (numChannels config))
                    else if cn = 3 then Some (aac_create cdc)
                    else None) of
                None \<Rightarrow> Some None
              | Some decoder \<Rightarrow>
                  if et \<noteq> 1 \<and> et \<noteq> 3 then Some None
                  else Some (Some \<lparr>rb_aeskey = take 16 aeskey, rb_aesiv = take 16 aesiv, rb_config = config,
                         rb_decoder = decoder, rb_et = et, rb_cn = cn, rb_is_empty = True,
                         rb_first = 0, rb_last = 0,
                         rb_entries = init_entries audio_buffer_size buffer,
                         rb_buffer_size = buffer_size\<rparr>)))"

definition raop_buffer_get_config :: "'d raop_buffer \<Rightarrow> alac_config" where
  "raop_buffer_get_config rb = rb_config rb"

section \<open>Operations\<close>

definition seqnum_cmp :: "u16 \<Rightarrow> u16 \<Rightarrow> int" where
  \<comment> \<open>the difference truncated to \<open>short\<close>\<close>
  "seqnum_cmp s1 s2 = sint (s1 - s2)"

definition slot :: "u16 \<Rightarrow> nat" where
  "slot s = unat s mod RAOP_BUFFER_LENGTH"

definition raop_buffer_flush :: "'d raop_buffer \<Rightarrow> int \<Rightarrow> 'd raop_buffer" where
  "raop_buffer_flush rb next_seq =
     (let rb = rb\<lparr>rb_entries := map (\<lambda>e. e\<lparr>e_available := False, e_resending := False,
                                            e_audio_buffer_len := 0\<rparr>) (rb_entries rb)\<rparr>
      in if next_seq < 0 \<or> next_seq > 0xffff then rb\<lparr>rb_is_empty := True\<rparr>
         else rb\<lparr>rb_first := of_int next_seq, rb_last := of_int (next_seq - 1)\<rparr>)"

definition decrypt_packet :: "'d codec \<Rightarrow> 'd raop_buffer \<Rightarrow> byte list \<Rightarrow> nat \<Rightarrow> byte list" where
  \<comment> \<open>the first \<open>datalen - 12\<close> bytes of \<open>packetbuf\<close>: whole AES blocks decrypted, the tail copied\<close>
  "decrypt_packet cdc rb data datalen =
     (let encryptedlen = (datalen - 12) div 16 * 16;
          body = take encryptedlen (drop 12 data);
          tail = take (datalen - 12 - encryptedlen) (drop (12 + encryptedlen) data)
      in (if encryptedlen > 0 then
            (if rb_et rb \<noteq> 0 then aes_cbc_decrypt cdc (rb_aeskey rb) (rb_aesiv rb) body else body)
          else []) @ tail)"

definition raop_buffer_queue ::
  "'d codec \<Rightarrow> 'd raop_buffer \<Rightarrow> byte list \<Rightarrow> u16 \<Rightarrow> bool \<Rightarrow> int \<times> 'd raop_buffer" where
  "raop_buffer_queue cdc rb data datalen use_seqnum =
     (if unat datalen < 12 \<or> unat datalen > RAOP_PACKET_LEN then (-1, rb)
      else let seqnum = (if use_seqnum then be16 (data ! 2) (data ! 3) else rb_first rb)
      in if \<not> rb_is_empty rb \<and> seqnum_cmp seqnum (rb_first rb) < 0 then (0, rb)
      else let rb = (if seqnum_cmp seqnum (rb_first rb + of_nat RAOP_BUFFER_LENGTH) \<ge> 0
                     then raop_buffer_flush rb (uint seqnum) else rb);
               entry = rb_entries rb ! slot seqnum
      in if e_available entry \<and> seqnum_cmp (e_seqnum entry) seqnum = 0 then (0, rb)
      else let entry = entry\<lparr>e_flags := data ! 0, e_type := data ! 1, e_seqnum := seqnum,
                 e_timestamp := be32 (data ! 4) (data ! 5) (data ! 6) (data ! 7),
                 e_ssrc := be32 (data ! 8) (data ! 9) (data ! 10) (data ! 11),
                 e_available := True, e_resending := False\<rparr>;
               packet = decrypt_packet cdc rb data (unat datalen);
               outputlen = e_audio_buffer_size entry
      in if rb_cn rb \<noteq> 1 \<and> rb_cn rb \<noteq> 3
         then (-3, rb\<lparr>rb_entries := (rb_entries rb)[slot seqnum := entry]\<rparr>)
      else let (decoder, audio, outputlen) =
                 (if rb_cn rb = 1 then alac_decode cdc (rb_decoder rb) packet (e_audio_buffer entry) outputlen
                  else aac_decode cdc (rb_decoder rb) packet (e_audio_buffer entry) outputlen);
               entry = entry\<lparr>e_audio_buffer := audio, e_audio_buffer_len := outputlen\<rparr>;
               rb = rb\<lparr>rb_decoder := decoder, rb_entries := (rb_entries rb)[slot seqnum := entry]\<rparr>;
               rb = (if rb_is_empty rb
                     then rb\<lparr>rb_first := seqnum, rb_last := seqnum, rb_is_empty := False\<rparr> else rb);
               rb = (if seqnum_cmp seqnum (rb_last rb) > 0 then rb\<lparr>rb_last := seqnum\<rparr> else rb)
      in (1, rb))"

record dequeued =
  dq_audio :: "byte list"        \<comment> \<open>what the returned pointer addresses\<close>
  dq_length :: int               \<comment> \<open>\<open>*length\<close>\<close>
  dq_timestamp :: "u32 option"   \<comment> \<open>\<open>*timestamp\<close>, \<open>None\<close> when it is not written\<close>

definition raop_buffer_dequeue :: "'d raop_buffer \<Rightarrow> bool \<Rightarrow> (dequeued \<times> 'd raop_buffer) option" where
  "raop_buffer_dequeue rb no_resend =
     (let buflen = sint (rb_last rb - rb_first rb + 1 :: u16)
      in if rb_is_empty rb \<or> buflen \<le> 0 then None
      else let i = slot (rb_first rb); entry = rb_entries rb ! i
      in if \<not> no_resend \<and> \<not> e_available entry \<and> buflen < int RAOP_BUFFER_LENGTH then None
      else let rb = rb\<lparr>rb_first := rb_first rb + 1\<rparr>
      in if \<not> e_available entry
         then let entry = entry\<lparr>e_audio_buffer :=
                    write_at 0 (replicate (nat (e_audio_buffer_size entry)) 0) (e_audio_buffer entry)\<rparr>
              in Some (\<lparr>dq_audio = e_audio_buffer entry, dq_length = e_audio_buffer_size entry,
                         dq_timestamp = None\<rparr>,
                       rb\<lparr>rb_entries := (rb_entries rb)[i := entry]\<rparr>)
         else Some (\<lparr>dq_audio = e_audio_buffer entry, dq_length = e_audio_buffer_len entry,
                      dq_timestamp = Some (e_timestamp entry)\<rparr>,
                    rb\<lparr>rb_entries := (rb_entries rb)[i := entry\<lparr>e_available := False,
                         e_resending := False, e_audio_buffer_len := 0\<rparr>]\<rparr>))"

function resend_scan :: "raop_buffer_entry list \<Rightarrow> u16 \<Rightarrow> u16 \<Rightarrow> raop_buffer_entry list \<times> u16" where
  \<comment> \<open>the \<open>for\<close> loop of \<open>raop_buffer_handle_resends\<close>: entries marked, and \<open>seqnum\<close> at its end; only the
     low 16 bits of the \<open>int\<close> loop variable are ever used\<close>
  "resend_scan es seqnum lst =
     (if seqnum_cmp seqnum lst < 0 then
        (let e = es ! slot seqnum in
         if e_available e \<or> e_resending e then (es, seqnum)
         else resend_scan (es[slot seqnum := e\<lparr>e_resending := True\<rparr>]) (seqnum + 1) lst)
      else (es, seqnum))"
  by pat_completeness auto
termination
proof (relation "measure (\<lambda>(es, s, l). unat (l - s :: u16))", goal_cases)
  case (2 es s l x)
  then have "s \<noteq> l" by (auto simp: seqnum_cmp_def)
  then have "unat (l - s) \<noteq> 0" by (simp add: unat_eq_zero)
  then have "unat (l - s - 1) = unat (l - s) - 1" by (simp add: unat_minus_one unat_eq_zero)
  then show ?case using \<open>unat (l - s) \<noteq> 0\<close> by (simp add: diff_diff_add)
qed simp

declare resend_scan.simps [simp del]

definition raop_buffer_handle_resends :: "'d raop_buffer \<Rightarrow> 'd raop_buffer \<times> (u16 \<times> u16) option" where
  \<comment> \<open>the new buffer and the \<open>(seqno, count)\<close> the callback is called with, if it is\<close>
  "raop_buffer_handle_resends rb =
     (if seqnum_cmp (rb_first rb) (rb_last rb) < 0 then
        (let (es, seqnum) = resend_scan (rb_entries rb) (rb_first rb) (rb_last rb);
             rb = rb\<lparr>rb_entries := es\<rparr>
         in if seqnum_cmp seqnum (rb_first rb) = 0 then (rb, None)
            else (rb, Some (rb_first rb, of_int (seqnum_cmp seqnum (rb_first rb)))))
      else (rb, None))"

section \<open>Well-formedness\<close>

definition rb_count :: "'d raop_buffer \<Rightarrow> nat" where
  "rb_count rb = unat (rb_last rb - rb_first rb + 1)"

definition rb_offset :: "'d raop_buffer \<Rightarrow> u16 \<Rightarrow> nat" where
  "rb_offset rb s = unat (s - rb_first rb)"

definition rb_wf :: "'d raop_buffer \<Rightarrow> bool" where
  "rb_wf rb \<longleftrightarrow>
     length (rb_entries rb) = RAOP_BUFFER_LENGTH \<and> (rb_cn rb = 1 \<or> rb_cn rb = 3)
     \<and> (if rb_is_empty rb then \<forall>e \<in> set (rb_entries rb). \<not> e_available e
        else rb_count rb \<le> RAOP_BUFFER_LENGTH
          \<and> (\<forall>i < RAOP_BUFFER_LENGTH. e_available (rb_entries rb ! i) \<longrightarrow>
                 slot (e_seqnum (rb_entries rb ! i)) = i
                 \<and> rb_offset rb (e_seqnum (rb_entries rb ! i)) < rb_count rb))"

text \<open>The packets between first and last, as the abstract buffer sees them.\<close>

type_synonym packet = "byte \<times> byte \<times> u32 \<times> u32 \<times> int \<times> byte list"

definition payload :: "raop_buffer_entry \<Rightarrow> packet" where
  "payload e = (e_flags e, e_type e, e_timestamp e, e_ssrc e, e_audio_buffer_len e, e_audio_buffer e)"

definition rb_lookup :: "'d raop_buffer \<Rightarrow> u16 \<Rightarrow> packet option" where
  "rb_lookup rb s = (let e = rb_entries rb ! slot s in if e_available e then Some (payload e) else None)"

definition rb_window :: "'d raop_buffer \<Rightarrow> packet option list" where
  "rb_window rb = map (\<lambda>j. rb_lookup rb (rb_first rb + of_nat j)) [0..<rb_count rb]"

type_synonym jbuf = "(u16 \<times> packet option list) option"

definition rb_abs :: "'d raop_buffer \<Rightarrow> jbuf" where
  "rb_abs rb = (if rb_is_empty rb then None else Some (rb_first rb, rb_window rb))"

fun jb_queue :: "u16 \<Rightarrow> packet \<Rightarrow> jbuf \<Rightarrow> int \<times> jbuf" where
  "jb_queue s p None = (1, Some (s, [Some p]))"
| "jb_queue s p (Some (base, ws)) =
     (let d = unat (s - base) in
      if d \<ge> 32768 then (0, Some (base, ws))
      else if d \<ge> RAOP_BUFFER_LENGTH then (1, Some (s, [Some p]))
      else if d \<ge> length ws then (1, Some (base, ws @ replicate (d - length ws) None @ [Some p]))
      else if ws ! d \<noteq> None then (0, Some (base, ws))
      else (1, Some (base, ws[d := Some p])))"

fun jb_dequeue :: "bool \<Rightarrow> jbuf \<Rightarrow> (packet option \<times> jbuf) option" where
  "jb_dequeue no_resend (Some (base, w # ws)) =
     (if \<not> no_resend \<and> w = None \<and> length (w # ws) < RAOP_BUFFER_LENGTH then None
      else Some (w, Some (base + 1, ws)))"
| "jb_dequeue no_resend _ = None"

definition jb_flush :: "int \<Rightarrow> jbuf \<Rightarrow> jbuf" where
  "jb_flush next_seq b =
     (if next_seq < 0 \<or> next_seq > 0xffff then None
      else map_option (\<lambda>_. (of_int next_seq, [])) b)"

section \<open>Sequence number arithmetic\<close>

lemma slot_lt [simp]: "slot s < 32"
  by (simp add: slot_def)

lemma sint16_of_int: "- 32768 \<le> k \<Longrightarrow> k < 32768 \<Longrightarrow> sint (of_int k :: u16) = k"
  using int_word_sint [where 'a = 16, of k] by (simp add: mod_pos_pos_trivial)

lemma seqnum_cmp_offsets:
  "- 32768 \<le> a - b \<Longrightarrow> a - b < 32768 \<Longrightarrow> seqnum_cmp (f + of_int a) (f + of_int b) = a - b"
  by (simp add: seqnum_cmp_def sint16_of_int flip: of_int_diff)

lemma seqnum_cmp_neg_iff: "seqnum_cmp s t < 0 \<longleftrightarrow> 32768 \<le> unat (s - t)"
  unfolding seqnum_cmp_def by (rule sint16_neg_iff)

lemma seqnum_cmp_0_iff [simp]: "seqnum_cmp s t = 0 \<longleftrightarrow> s = t"
  unfolding seqnum_cmp_def sint16_eq_0_iff by simp

lemma seq_as_offset: "s = rb_first rb + of_int (int (rb_offset rb s))"
  by (simp add: rb_offset_def)

lemma last_as_offset: "rb_last rb = rb_first rb + of_int (int (rb_count rb) - 1)"
  by (simp add: rb_count_def)

lemma offset_of_first [simp]: "rb_offset rb (rb_first rb + of_nat j) = j mod 65536"
  by (simp add: rb_offset_def unsigned_of_nat take_bit_eq_mod)

lemma offset_lt: "rb_offset rb s < 65536"
  by (simp add: rb_offset_def)

lemma seqnum_cmp_last:
  assumes "rb_count rb \<le> 32" "rb_offset rb s < 32"
  shows "seqnum_cmp s (rb_last rb) = int (rb_offset rb s) - (int (rb_count rb) - 1)"
  by (subst last_as_offset, subst seq_as_offset [of s rb]) (use assms in \<open>simp add: seqnum_cmp_offsets del: of_int_of_nat_eq of_int_diff\<close>)

lemma window_full_iff:
  "seqnum_cmp s (f + of_nat 32) \<ge> 0 \<longleftrightarrow> 32 \<le> unat (s - f) \<and> unat (s - f) < 32800"
proof -
  have "s - (f + of_nat 32) = (s - f) - 32" by simp
  then have "unat (s - (f + of_nat 32)) = (if 32 \<le> unat (s - f) then unat (s - f) - 32 else unat (s - f) + 65504)"
    by (simp only: unat_diff16) simp
  then show ?thesis
    using seqnum_cmp_neg_iff [of s "f + of_nat 32"] unat16_lt [of "s - f"] by (auto split: if_splits)
qed

section \<open>Flushing\<close>

lemma flush_fields [simp]:
  "length (rb_entries (raop_buffer_flush rb n)) = length (rb_entries rb)"
  "rb_cn (raop_buffer_flush rb n) = rb_cn rb" "rb_et (raop_buffer_flush rb n) = rb_et rb"
  "rb_aeskey (raop_buffer_flush rb n) = rb_aeskey rb" "rb_aesiv (raop_buffer_flush rb n) = rb_aesiv rb"
  "rb_decoder (raop_buffer_flush rb n) = rb_decoder rb"
  "rb_is_empty (raop_buffer_flush rb n) \<longleftrightarrow> rb_is_empty rb \<or> n < 0 \<or> n > 0xffff"
  by (auto simp: raop_buffer_flush_def Let_def)

lemma flush_entry [simp]:
  "i < length (rb_entries rb) \<Longrightarrow> rb_entries (raop_buffer_flush rb n) ! i
     = (rb_entries rb ! i)\<lparr>e_available := False, e_resending := False, e_audio_buffer_len := 0\<rparr>"
  by (auto simp: raop_buffer_flush_def Let_def)

lemma flush_seqnums:
  "0 \<le> n \<Longrightarrow> n \<le> 0xffff \<Longrightarrow> rb_first (raop_buffer_flush rb n) = of_int n"
  "0 \<le> n \<Longrightarrow> n \<le> 0xffff \<Longrightarrow> rb_count (raop_buffer_flush rb n) = 0"
  by (auto simp: raop_buffer_flush_def rb_count_def Let_def)

lemma flush_none_available: "e \<in> set (rb_entries (raop_buffer_flush rb n)) \<Longrightarrow> \<not> e_available e"
  by (auto simp: raop_buffer_flush_def Let_def split: if_splits)

lemma rb_wf_flush: assumes "rb_wf rb" shows "rb_wf (raop_buffer_flush rb n)"
proof (cases "n < 0 \<or> n > 0xffff")
  case True
  then show ?thesis using assms by (auto simp: rb_wf_def dest: flush_none_available)
next
  case False
  then have "rb_count (raop_buffer_flush rb n) = 0" by (simp add: flush_seqnums)
  then show ?thesis using assms by (auto simp: rb_wf_def dest: flush_none_available)
qed

lemma flush_refines: "rb_abs (raop_buffer_flush rb n) = jb_flush n (rb_abs rb)"
  by (auto simp: rb_abs_def jb_flush_def flush_seqnums rb_window_def)

section \<open>Storing a packet\<close>

definition rb_store :: "'d raop_buffer \<Rightarrow> u16 \<Rightarrow> raop_buffer_entry \<Rightarrow> 'd \<Rightarrow> 'd raop_buffer" where
  "rb_store rb s e dec =
     (let rb = rb\<lparr>rb_decoder := dec, rb_entries := (rb_entries rb)[slot s := e]\<rparr>;
          rb = (if rb_is_empty rb then rb\<lparr>rb_first := s, rb_last := s, rb_is_empty := False\<rparr> else rb)
      in if seqnum_cmp s (rb_last rb) > 0 then rb\<lparr>rb_last := s\<rparr> else rb)"

definition rb_accepts :: "'d raop_buffer \<Rightarrow> u16 \<Rightarrow> bool" where
  "rb_accepts rb s \<longleftrightarrow> rb_wf rb \<and> (rb_is_empty rb \<or> rb_offset rb s < RAOP_BUFFER_LENGTH)"

lemma store_fields [simp]:
  "rb_entries (rb_store rb s e dec) = (rb_entries rb)[slot s := e]"
  "rb_cn (rb_store rb s e dec) = rb_cn rb" "\<not> rb_is_empty (rb_store rb s e dec)"
  "rb_first (rb_store rb s e dec) = (if rb_is_empty rb then s else rb_first rb)"
  "rb_decoder (rb_store rb s e dec) = dec"
  by (simp_all add: rb_store_def Let_def)

lemma store_offset: "rb_offset (rb_store rb s e dec) t = (if rb_is_empty rb then unat (t - s) else rb_offset rb t)"
  by (simp add: rb_offset_def)

lemma store_count:
  assumes "rb_accepts rb s"
  shows "rb_count (rb_store rb s e dec)
    = (if rb_is_empty rb then 1 else max (rb_count rb) (Suc (rb_offset rb s)))"
proof (cases "rb_is_empty rb")
  case True
  then show ?thesis by (simp add: rb_count_def rb_store_def Let_def)
next
  case False
  then have c: "rb_count rb \<le> 32" and d: "rb_offset rb s < 32"
    using assms by (simp_all add: rb_accepts_def rb_wf_def)
  have "unat (s - rb_first rb + 1) = Suc (rb_offset rb s)"
    using d by (simp add: rb_offset_def unat_add16)
  moreover have "seqnum_cmp s (rb_last rb) > 0 \<longleftrightarrow> rb_count rb \<le> rb_offset rb s"
    using seqnum_cmp_last [OF c d] by linarith
  ultimately show ?thesis
    using False c d by (simp add: rb_count_def rb_store_def Let_def max_def)
qed

lemma slot_eq_offset_eq:
  "rb_offset rb s < 32 \<Longrightarrow> rb_offset rb t < 32 \<Longrightarrow> slot s = slot t \<Longrightarrow> s = t"
  unfolding rb_offset_def slot_def by (rule slot_collision)

lemma available_entry_seqnum:
  assumes "rb_wf rb" "\<not> rb_is_empty rb" "rb_offset rb s < 32" "e_available (rb_entries rb ! slot s)"
  shows "e_seqnum (rb_entries rb ! slot s) = s" "rb_offset rb s < rb_count rb"
proof -
  let ?t = "e_seqnum (rb_entries rb ! slot s)"
  have t: "slot ?t = slot s" "rb_offset rb ?t < rb_count rb" "rb_count rb \<le> 32"
    using assms by (auto simp: rb_wf_def)
  then show "?t = s" using assms(3) by (intro slot_eq_offset_eq [of rb]) auto
  then show "rb_offset rb s < rb_count rb" using t by simp
qed

lemma rb_wf_store:
  assumes a: "rb_accepts rb s" and e: "e_available e" "e_seqnum e = s"
  shows "rb_wf (rb_store rb s e dec)"
proof -
  have wf: "rb_wf rb" and len: "length (rb_entries rb) = 32"
    using a by (auto simp: rb_accepts_def rb_wf_def)
  show ?thesis
  proof (cases "rb_is_empty rb")
    case True
    then have "\<not> e_available (rb_entries rb ! i)" if "i < 32" for i
      using wf len that by (auto simp: rb_wf_def)
    then show ?thesis
      using True wf len e store_count [OF a, of e dec]
      by (auto simp: rb_wf_def store_offset nth_list_update)
  next
    case False
    then have "rb_offset rb s < 32" using a by (simp add: rb_accepts_def)
    moreover have "rb_count rb \<le> 32" using wf False by (simp add: rb_wf_def)
    ultimately show ?thesis
      using False wf len e store_count [OF a, of e dec]
      by (auto simp: rb_wf_def store_offset nth_list_update)
  qed
qed

lemma lookup_store:
  assumes "rb_accepts rb s" "e_available e"
  shows "rb_lookup (rb_store rb s e dec) s = Some (payload e)"
    "slot t \<noteq> slot s \<Longrightarrow> rb_lookup (rb_store rb s e dec) t = rb_lookup rb t"
  using assms by (auto simp: rb_lookup_def rb_accepts_def rb_wf_def Let_def)

lemma lookup_beyond_count:
  assumes "rb_wf rb" "\<not> rb_is_empty rb" "rb_count rb \<le> j" "j < 32"
  shows "rb_lookup rb (rb_first rb + of_nat j) = None"
  using available_entry_seqnum(2) [OF assms(1,2), of "rb_first rb + of_nat j"] assms(3,4)
  by (auto simp: rb_lookup_def Let_def)

lemma nth_rb_window: "j < rb_count rb \<Longrightarrow> rb_window rb ! j = rb_lookup rb (rb_first rb + of_nat j)"
  by (simp add: rb_window_def)

lemma length_rb_window [simp]: "length (rb_window rb) = rb_count rb"
  by (simp add: rb_window_def)

lemma store_abs_empty:
  assumes "rb_accepts rb s" "e_available e" "rb_is_empty rb"
  shows "rb_abs (rb_store rb s e dec) = Some (s, [Some (payload e)])"
proof -
  have "rb_count (rb_store rb s e dec) = 1" using store_count assms by metis
  then show ?thesis
    using assms lookup_store(1) [OF assms(1,2)] by (simp add: rb_abs_def rb_window_def)
qed

lemma store_abs_window:
  assumes a: "rb_accepts rb s" "e_available e" and ne: "\<not> rb_is_empty rb"
  shows "rb_abs (rb_store rb s e dec) = Some (rb_first rb,
    let d = rb_offset rb s; ws = rb_window rb in
    if d < length ws then ws[d := Some (payload e)] else ws @ replicate (d - length ws) None @ [Some (payload e)])"
proof -
  let ?rb = "rb_store rb s e dec" and ?d = "rb_offset rb s" and ?c = "rb_count rb"
  have d: "?d < 32" and wf: "rb_wf rb" and c: "?c \<le> 32"
    using a(1) ne by (simp_all add: rb_accepts_def rb_wf_def)
  have count: "rb_count ?rb = max ?c (Suc ?d)" using store_count [OF a(1)] ne by simp
  have s: "s = rb_first rb + of_nat ?d" using seq_as_offset [of s rb] by simp
  have other: "rb_lookup ?rb (rb_first rb + of_nat j) = rb_lookup rb (rb_first rb + of_nat j)"
    if "j < 32" "j \<noteq> ?d" for j
  proof (rule lookup_store(2) [OF a])
    show "slot (rb_first rb + of_nat j) \<noteq> slot s"
      using slot_eq_offset_eq [of rb "rb_first rb + of_nat j" s] that d by auto
  qed
  have win: "rb_window ?rb ! j = (if j = ?d then Some (payload e) else if j < ?c then rb_window rb ! j else None)"
    if "j < max ?c (Suc ?d)" for j
  proof -
    have j: "j < 32" using that c d by simp
    have "rb_window ?rb ! j = rb_lookup ?rb (rb_first rb + of_nat j)"
      using that count ne by (simp add: nth_rb_window)
    then show ?thesis
      using other [OF j] lookup_store(1) [OF a, of dec] s lookup_beyond_count [OF wf ne _ j]
      by (auto simp: nth_rb_window)
  qed
  have "rb_window ?rb = (if ?d < ?c then (rb_window rb)[?d := Some (payload e)]
      else rb_window rb @ replicate (?d - ?c) None @ [Some (payload e)])" (is "_ = ?ws")
  proof (rule nth_equalityI)
    show "length (rb_window ?rb) = length ?ws" using count by simp
    fix j assume "j < length (rb_window ?rb)"
    then have j: "j < max ?c (Suc ?d)" using count by simp
    show "rb_window ?rb ! j = ?ws ! j"
      unfolding win [OF j] using j
      by (cases "?d < ?c") (auto simp: nth_append nth_list_update nth_Cons split: nat.split)
  qed
  then show ?thesis using ne by (simp add: rb_abs_def Let_def)
qed

section \<open>Queueing\<close>

definition queue_seqnum :: "'d raop_buffer \<Rightarrow> byte list \<Rightarrow> bool \<Rightarrow> u16" where
  "queue_seqnum rb data use_seqnum = (if use_seqnum then be16 (data ! 2) (data ! 3) else rb_first rb)"

definition queue_decode :: "'d codec \<Rightarrow> 'd raop_buffer \<Rightarrow> byte list \<Rightarrow> nat \<Rightarrow> u16 \<Rightarrow> 'd \<times> byte list \<times> int" where
  "queue_decode cdc rb data datalen s =
     (let e = rb_entries rb ! slot s
      in (if rb_cn rb = 1 then alac_decode cdc else aac_decode cdc)
           (rb_decoder rb) (decrypt_packet cdc rb data datalen) (e_audio_buffer e) (e_audio_buffer_size e))"

definition queue_entry :: "'d codec \<Rightarrow> 'd raop_buffer \<Rightarrow> byte list \<Rightarrow> nat \<Rightarrow> u16 \<Rightarrow> raop_buffer_entry" where
  "queue_entry cdc rb data datalen s =
     (rb_entries rb ! slot s)\<lparr>e_flags := data ! 0, e_type := data ! 1, e_seqnum := s,
        e_timestamp := be32 (data ! 4) (data ! 5) (data ! 6) (data ! 7),
        e_ssrc := be32 (data ! 8) (data ! 9) (data ! 10) (data ! 11),
        e_available := True, e_resending := False,
        e_audio_buffer := fst (snd (queue_decode cdc rb data datalen s)),
        e_audio_buffer_len := snd (snd (queue_decode cdc rb data datalen s))\<rparr>"

definition valid_datalen :: "u16 \<Rightarrow> bool" where
  "valid_datalen datalen \<longleftrightarrow> 12 \<le> unat datalen \<and> unat datalen \<le> RAOP_PACKET_LEN"

definition make_room :: "'d raop_buffer \<Rightarrow> u16 \<Rightarrow> 'd raop_buffer" where
  "make_room rb s = (if seqnum_cmp s (rb_first rb + of_nat RAOP_BUFFER_LENGTH) \<ge> 0
                     then raop_buffer_flush rb (uint s) else rb)"

lemma make_room_fields [simp]:
  "rb_cn (make_room rb s) = rb_cn rb" "rb_is_empty (make_room rb s) = rb_is_empty rb"
  using uint_lt2p [of s] by (auto simp: make_room_def)

lemma queue_invalid: "\<not> valid_datalen datalen \<Longrightarrow> raop_buffer_queue cdc rb data datalen use_seqnum = (-1, rb)"
  by (auto simp: raop_buffer_queue_def valid_datalen_def)

lemma queue_late:
  assumes "valid_datalen datalen" "\<not> rb_is_empty rb" "32768 \<le> rb_offset rb (queue_seqnum rb data use_seqnum)"
  shows "raop_buffer_queue cdc rb data datalen use_seqnum = (0, rb)"
  using assms
  by (auto simp: raop_buffer_queue_def valid_datalen_def queue_seqnum_def rb_offset_def seqnum_cmp_neg_iff Let_def)

lemma queue_timely:
  assumes v: "valid_datalen datalen" and wf: "rb_wf rb"
    and t: "rb_is_empty rb \<or> rb_offset rb (queue_seqnum rb data use_seqnum) < 32768"
  shows "raop_buffer_queue cdc rb data datalen use_seqnum =
     (let s = queue_seqnum rb data use_seqnum; rb1 = make_room rb s; e = rb_entries rb1 ! slot s in
      if e_available e \<and> e_seqnum e = s then (0, rb1)
      else (1, rb_store rb1 s (queue_entry cdc rb1 data (unat datalen) s)
                (fst (queue_decode cdc rb1 data (unat datalen) s))))"
proof -
  let ?s = "queue_seqnum rb data use_seqnum"
  have len: "\<not> (unat datalen < 12 \<or> unat datalen > RAOP_PACKET_LEN)" using v by (auto simp: valid_datalen_def)
  have late: "\<not> (\<not> rb_is_empty rb \<and> seqnum_cmp ?s (rb_first rb) < 0)"
    using t by (auto simp: seqnum_cmp_neg_iff rb_offset_def)
  have cn: "rb_cn rb = 1 \<or> rb_cn rb = 3" using wf by (simp add: rb_wf_def)
  show ?thesis
    unfolding raop_buffer_queue_def queue_seqnum_def [symmetric] make_room_def [symmetric] if_not_P [OF len]
      Let_def if_not_P [OF late] seqnum_cmp_0_iff
    apply (rule if_cong [OF refl refl])
    unfolding make_room_fields
    apply (insert cn)
    apply (erule disjE)
    subgoal
      apply (cases "queue_decode cdc (make_room rb ?s) data (unat datalen) ?s")
      apply (simp add: queue_entry_def queue_decode_def rb_store_def Let_def cong: if_cong)
      done
    subgoal
      apply (cases "queue_decode cdc (make_room rb ?s) data (unat datalen) ?s")
      apply (simp add: queue_entry_def queue_decode_def rb_store_def Let_def cong: if_cong)
      done
    done
qed

lemma make_room_accepts:
  assumes "rb_wf rb" "rb_is_empty rb \<or> rb_offset rb s < 32768"
  shows "rb_accepts (make_room rb s) s"
proof (cases "seqnum_cmp s (rb_first rb + of_nat RAOP_BUFFER_LENGTH) \<ge> 0")
  case True
  have "0 \<le> uint s \<and> uint s \<le> 0xffff" using uint_lt2p [of s] by simp
  then have "rb_first (raop_buffer_flush rb (uint s)) = s" by (simp add: flush_seqnums)
  then show ?thesis
    using True rb_wf_flush [OF assms(1)] by (simp add: rb_accepts_def make_room_def rb_offset_def)
next
  case False
  then have "rb_is_empty rb \<or> rb_offset rb s < 32"
    using assms(2) window_full_iff [of s "rb_first rb"] by (auto simp: rb_offset_def)
  then show ?thesis using False assms(1) by (simp add: rb_accepts_def make_room_def)
qed

lemma queue_decode_make_room:
  "rb_wf rb \<Longrightarrow> queue_decode cdc (make_room rb s) data datalen t = queue_decode cdc rb data datalen t"
  by (simp add: make_room_def queue_decode_def decrypt_packet_def rb_wf_def Let_def)

lemma payload_make_room:
  "rb_wf rb \<Longrightarrow> payload (queue_entry cdc (make_room rb s) data datalen t) = payload (queue_entry cdc rb data datalen t)"
  by (simp add: payload_def queue_entry_def queue_decode_make_room)

lemma queue_entry_simps [simp]:
  "e_available (queue_entry cdc rb data datalen s)" "e_seqnum (queue_entry cdc rb data datalen s) = s"
  by (simp_all add: queue_entry_def)

lemma rb_wf_queue:
  assumes wf: "rb_wf rb" shows "rb_wf (snd (raop_buffer_queue cdc rb data datalen use_seqnum))"
proof -
  let ?s = "queue_seqnum rb data use_seqnum"
  consider "\<not> valid_datalen datalen" | "valid_datalen datalen" "\<not> rb_is_empty rb" "32768 \<le> rb_offset rb ?s"
    | (t) "valid_datalen datalen" "rb_is_empty rb \<or> rb_offset rb ?s < 32768"
    by linarith
  then show ?thesis
  proof cases
    case t
    have a: "rb_accepts (make_room rb ?s) ?s" by (rule make_room_accepts [OF wf t(2)])
    then have "rb_wf (make_room rb ?s)" by (simp add: rb_accepts_def)
    then show ?thesis using queue_timely [OF t(1) wf t(2)] rb_wf_store [OF a] by (simp add: Let_def)
  qed (use wf in \<open>simp_all add: queue_invalid queue_late\<close>)
qed

lemma queue_nonempty:
  assumes wf: "rb_wf rb" and v: "valid_datalen datalen"
  shows "\<not> rb_is_empty (snd (raop_buffer_queue cdc rb data datalen use_seqnum))"
proof -
  let ?s = "queue_seqnum rb data use_seqnum"
  consider "\<not> rb_is_empty rb" "32768 \<le> rb_offset rb ?s" | (t) "rb_is_empty rb \<or> rb_offset rb ?s < 32768"
    by linarith
  then show ?thesis
  proof cases
    case t
    have a: "rb_accepts (make_room rb ?s) ?s" by (rule make_room_accepts [OF wf t])
    have "\<not> e_available (rb_entries (make_room rb ?s) ! slot ?s)" if "rb_is_empty (make_room rb ?s)"
      using a that by (simp add: rb_accepts_def rb_wf_def)
    then show ?thesis using queue_timely [OF v wf t] by (auto simp: Let_def)
  qed (use v in \<open>simp add: queue_late\<close>)
qed

lemma wf_empty_unavailable: "rb_wf rb \<Longrightarrow> rb_is_empty rb \<Longrightarrow> \<not> e_available (rb_entries rb ! slot s)"
  by (simp add: rb_wf_def)

text \<open>
  C2. \<open>raop_buffer_queue\<close> implements the abstract jitter buffer: late packets and packets already
  held are refused with 0, a packet in the window fills its place, a packet up to 31 places ahead
  extends the window with gaps, and one further ahead restarts the buffer at its own number.
\<close>

theorem queue_refines:
  assumes wf: "rb_wf rb" and v: "valid_datalen datalen"
  shows "map_prod id rb_abs (raop_buffer_queue cdc rb data datalen use_seqnum)
    = jb_queue (queue_seqnum rb data use_seqnum)
        (payload (queue_entry cdc rb data (unat datalen) (queue_seqnum rb data use_seqnum))) (rb_abs rb)"
proof -
  let ?s = "queue_seqnum rb data use_seqnum" and ?q = "raop_buffer_queue cdc rb data datalen use_seqnum"
  let ?p = "payload (queue_entry cdc rb data (unat datalen) ?s)" and ?r = "make_room rb ?s"
  let ?st = "rb_store ?r ?s (queue_entry cdc ?r data (unat datalen) ?s) (fst (queue_decode cdc ?r data (unat datalen) ?s))"
  have q: "?q = (if e_available (rb_entries ?r ! slot ?s) \<and> e_seqnum (rb_entries ?r ! slot ?s) = ?s then (0, ?r) else (1, ?st))"
    if "rb_is_empty rb \<or> rb_offset rb ?s < 32768"
    using queue_timely [OF v wf that] by (simp add: Let_def)
  have acc: "rb_accepts ?r ?s" if "rb_is_empty rb \<or> rb_offset rb ?s < 32768"
    by (rule make_room_accepts [OF wf that])
  note pay = payload_make_room [OF wf]
  consider (empty) "rb_is_empty rb" | (late) "\<not> rb_is_empty rb" "32768 \<le> rb_offset rb ?s"
    | (far) "\<not> rb_is_empty rb" "32 \<le> rb_offset rb ?s" "rb_offset rb ?s < 32768"
    | (near) "\<not> rb_is_empty rb" "rb_offset rb ?s < 32"
    by linarith
  then show ?thesis
  proof cases
    case empty
    have "\<not> e_available (rb_entries ?r ! slot ?s)"
      using acc empty by (intro wf_empty_unavailable) (auto simp: rb_accepts_def)
    then show ?thesis
      using q acc empty store_abs_empty [of ?r ?s] by (simp add: pay rb_abs_def [of rb])
  next
    case late
    then show ?thesis using queue_late [OF v late] by (simp add: rb_abs_def rb_offset_def)
  next
    case far
    have r: "?r = raop_buffer_flush rb (uint ?s)"
      using far window_full_iff [of ?s "rb_first rb"] by (simp add: make_room_def rb_offset_def)
    have u: "0 \<le> uint ?s" "uint ?s \<le> 0xffff" using uint_lt2p [of ?s] by simp_all
    have "\<not> e_available (rb_entries ?r ! slot ?s)" using wf by (simp add: r rb_wf_def)
    moreover have "rb_first ?r = ?s" "rb_window ?r = []" "rb_offset ?r ?s = 0" "\<not> rb_is_empty ?r"
      using far u by (simp_all add: r flush_seqnums rb_window_def rb_offset_def)
    ultimately show ?thesis
      using q acc far store_abs_window [of ?r ?s]
      by (simp add: pay rb_abs_def [of rb] Let_def rb_offset_def [symmetric])
  next
    case near
    have r: "?r = rb"
      using near window_full_iff [of ?s "rb_first rb"] by (auto simp: make_room_def rb_offset_def)
    have av: "e_available (rb_entries rb ! slot ?s) \<Longrightarrow> e_seqnum (rb_entries rb ! slot ?s) = ?s \<and> rb_offset rb ?s < rb_count rb"
      using available_entry_seqnum [OF wf near] by simp
    have s: "?s = rb_first rb + of_nat (rb_offset rb ?s)" using seq_as_offset [of ?s rb] by simp
    have w: "rb_offset rb ?s < rb_count rb \<Longrightarrow>
        (rb_window rb ! rb_offset rb ?s \<noteq> None \<longleftrightarrow> e_available (rb_entries rb ! slot ?s))"
      using s by (simp add: nth_rb_window rb_lookup_def Let_def payload_def)
    have "?q = (if e_available (rb_entries rb ! slot ?s) then (0, rb) else (1, ?st))"
      using q near av r by auto
    then show ?thesis
      using near acc store_abs_window [of rb ?s] av w r
      by (auto simp: rb_abs_def [of rb] Let_def rb_offset_def [symmetric])
  qed
qed

section \<open>Dequeueing\<close>

lemma buflen_count:
  assumes "rb_count rb \<le> 32" shows "sint (rb_last rb - rb_first rb + 1 :: u16) = int (rb_count rb)"
  using assms sint16_unat [of "rb_last rb - rb_first rb + 1"] by (simp add: rb_count_def)

lemma dequeue_None_iff:
  assumes "rb_wf rb"
  shows "raop_buffer_dequeue rb nr = None \<longleftrightarrow>
    rb_is_empty rb \<or> rb_count rb = 0
    \<or> \<not> nr \<and> \<not> e_available (rb_entries rb ! slot (rb_first rb)) \<and> rb_count rb < 32"
proof (cases "rb_is_empty rb")
  case True
  then show ?thesis by (simp add: raop_buffer_dequeue_def Let_def)
next
  case False
  then have "rb_count rb \<le> 32" using assms by (simp add: rb_wf_def)
  then show ?thesis
    using False by (simp add: raop_buffer_dequeue_def buflen_count Let_def)
qed

lemma dequeue_SomeD:
  assumes "rb_wf rb" "raop_buffer_dequeue rb nr = Some (out, rb')"
  shows "\<not> rb_is_empty rb" "0 < rb_count rb" "rb_count rb \<le> 32"
    "rb_first rb' = rb_first rb + 1" "rb_last rb' = rb_last rb" "\<not> rb_is_empty rb'" "rb_cn rb' = rb_cn rb"
    "rb_count rb' = rb_count rb - 1"
proof -
  have ne: "\<not> rb_is_empty rb" "rb_count rb \<noteq> 0" using assms dequeue_None_iff [OF assms(1), of nr] by auto
  then show "\<not> rb_is_empty rb" "0 < rb_count rb" and c: "rb_count rb \<le> 32"
    using assms(1) by (simp_all add: rb_wf_def)
  show f: "rb_first rb' = rb_first rb + 1" "rb_last rb' = rb_last rb" "\<not> rb_is_empty rb'" "rb_cn rb' = rb_cn rb"
    using assms(2) ne by (auto simp: raop_buffer_dequeue_def Let_def split: if_splits)
  have "rb_last rb' - rb_first rb' + 1 = (rb_last rb - rb_first rb + 1) - 1" by (simp add: f)
  then show "rb_count rb' = rb_count rb - 1"
    using ne(2) unfolding rb_count_def by (simp only: unat_minus_one unat_eq_zero not_False_eq_True) 
qed

lemma dequeue_entries:
  assumes "rb_wf rb" "raop_buffer_dequeue rb nr = Some (out, rb')"
  defines "i \<equiv> slot (rb_first rb)"
  shows "length (rb_entries rb') = 32" "\<not> e_available (rb_entries rb' ! i)"
    "j \<noteq> i \<Longrightarrow> rb_entries rb' ! j = rb_entries rb ! j"
    "e_available (rb_entries rb ! i) \<Longrightarrow> out = \<lparr>dq_audio = e_audio_buffer (rb_entries rb ! i),
       dq_length = e_audio_buffer_len (rb_entries rb ! i), dq_timestamp = Some (e_timestamp (rb_entries rb ! i))\<rparr>"
    "\<not> e_available (rb_entries rb ! i) \<Longrightarrow> dq_timestamp out = None
       \<and> dq_length out = e_audio_buffer_size (rb_entries rb ! i)
       \<and> take (nat (dq_length out)) (dq_audio out) = replicate (nat (dq_length out)) 0
       \<and> e_resending (rb_entries rb' ! i) = e_resending (rb_entries rb ! i)"
  using assms unfolding i_def
  by (auto simp: raop_buffer_dequeue_def rb_wf_def write_at_def Let_def split: if_splits)

lemma rb_wf_dequeue:
  assumes wf: "rb_wf rb" and d: "raop_buffer_dequeue rb nr = Some (out, rb')"
  shows "rb_wf rb'"
proof -
  note f = dequeue_SomeD [OF wf d] and e = dequeue_entries [OF wf d]
  have "slot (e_seqnum (rb_entries rb' ! i)) = i \<and> rb_offset rb' (e_seqnum (rb_entries rb' ! i)) < rb_count rb'"
    if i: "i < 32" "e_available (rb_entries rb' ! i)" for i
  proof -
    let ?s = "e_seqnum (rb_entries rb ! i)"
    have "i \<noteq> slot (rb_first rb)" using i e(2) by auto
    then have eq: "rb_entries rb' ! i = rb_entries rb ! i" by (rule e(3))
    then have s: "slot ?s = i" "rb_offset rb ?s < rb_count rb" using wf f(1) i by (simp_all add: rb_wf_def)
    have "?s \<noteq> rb_first rb" using s \<open>i \<noteq> slot (rb_first rb)\<close> by auto
    then have "?s - rb_first rb \<noteq> 0" by simp
    then have "rb_offset rb' ?s = rb_offset rb ?s - 1" "rb_offset rb ?s \<noteq> 0"
      by (simp_all add: rb_offset_def f(4) unat_minus_one unat_eq_zero flip: diff_diff_eq)
    then show ?thesis using s f(8) eq by simp
  qed
  then show ?thesis using wf f e(1) by (simp add: rb_wf_def)
qed

definition packet_out :: "packet \<Rightarrow> dequeued" where
  "packet_out p = (case p of (flags, type, timestamp, ssrc, len, audio) \<Rightarrow>
     \<lparr>dq_audio = audio, dq_length = len, dq_timestamp = Some timestamp\<rparr>)"

definition delivers :: "packet option \<Rightarrow> dequeued \<Rightarrow> bool" where
  \<comment> \<open>a held packet comes out with its own data, a missing one as silence without a time stamp\<close>
  "delivers w out \<longleftrightarrow>
     (case w of Some p \<Rightarrow> out = packet_out p
      | None \<Rightarrow> dq_timestamp out = None
          \<and> take (nat (dq_length out)) (dq_audio out) = replicate (nat (dq_length out)) 0)"

lemma window_Cons:
  assumes "0 < rb_count rb"
  shows "rb_window rb = rb_lookup rb (rb_first rb) # map (\<lambda>j. rb_lookup rb (rb_first rb + 1 + of_nat j)) [0..<rb_count rb - 1]"
proof -
  have "[0..<rb_count rb] = 0 # map Suc [0..<rb_count rb - 1]"
    using assms by (simp only: map_Suc_upt upt_conv_Cons) simp
  then show ?thesis unfolding rb_window_def by (simp add: comp_def add.assoc)
qed

lemma window_dequeue:
  assumes wf: "rb_wf rb" and d: "raop_buffer_dequeue rb nr = Some (out, rb')"
  shows "rb_window rb = rb_lookup rb (rb_first rb) # rb_window rb'"
proof -
  note f = dequeue_SomeD [OF wf d] and e = dequeue_entries [OF wf d]
  have "rb_lookup rb' (rb_first rb + 1 + of_nat j) = rb_lookup rb (rb_first rb + 1 + of_nat j)"
    if "j < rb_count rb - 1" for j
  proof -
    have "slot (rb_first rb + of_nat (Suc j)) \<noteq> slot (rb_first rb)"
      using slot_eq_offset_eq [of rb "rb_first rb + of_nat (Suc j)" "rb_first rb"] that f(3)
        offset_of_first [of rb "Suc j"] offset_of_first [of rb 0] by (auto simp del: of_nat_Suc offset_of_first)
    then have "rb_entries rb' ! slot (rb_first rb + 1 + of_nat j) = rb_entries rb ! slot (rb_first rb + 1 + of_nat j)"
      by (intro e(3)) (simp add: algebra_simps)
    then show ?thesis by (simp add: rb_lookup_def)
  qed
  then show ?thesis
    unfolding window_Cons [OF f(2)] by (simp add: rb_window_def f(4,8))
qed

lemma delivers_head:
  assumes wf: "rb_wf rb" and d: "raop_buffer_dequeue rb nr = Some (out, rb')"
  shows "delivers (rb_lookup rb (rb_first rb)) out"
  using dequeue_entries(4,5) [OF wf d]
  by (auto simp: delivers_def rb_lookup_def payload_def packet_out_def Let_def)

text \<open>
  C3. \<open>raop_buffer_dequeue\<close> implements the abstract buffer: it hands out the oldest place of the
  window, its packet or silence when the packet is lost, and holds back (NULL) exactly when the
  buffer is empty or when a resend may still fill the oldest place.
\<close>

theorem dequeue_refines:
  assumes wf: "rb_wf rb"
  shows "case raop_buffer_dequeue rb no_resend of
      None \<Rightarrow> jb_dequeue no_resend (rb_abs rb) = None
    | Some (out, rb') \<Rightarrow> rb_wf rb' \<and> (\<exists>w. jb_dequeue no_resend (rb_abs rb) = Some (w, rb_abs rb') \<and> delivers w out)"
proof (cases "raop_buffer_dequeue rb no_resend")
  case None
  then consider "rb_is_empty rb" | "rb_count rb = 0"
    | "\<not> no_resend" "\<not> e_available (rb_entries rb ! slot (rb_first rb))" "0 < rb_count rb" "rb_count rb < 32"
    using dequeue_None_iff [OF wf] by auto
  then have "jb_dequeue no_resend (rb_abs rb) = None"
  proof cases
    case 3
    then show ?thesis by (simp add: rb_abs_def window_Cons rb_lookup_def)
  qed (simp_all add: rb_abs_def rb_window_def)
  then show ?thesis using None by simp
next
  case (Some r)
  then obtain out rb' where d: "raop_buffer_dequeue rb no_resend = Some (out, rb')" by (cases r) auto
  note f = dequeue_SomeD [OF wf d]
  have "\<not> (\<not> no_resend \<and> \<not> e_available (rb_entries rb ! slot (rb_first rb)) \<and> rb_count rb < 32)"
    using d dequeue_None_iff [OF wf, of no_resend] by auto
  moreover have "length (rb_window rb') = rb_count rb - 1" using f by simp
  ultimately have "jb_dequeue no_resend (rb_abs rb) = Some (rb_lookup rb (rb_first rb), rb_abs rb')"
    using f by (auto simp: rb_abs_def window_dequeue [OF wf d] rb_lookup_def payload_def Let_def)
  then show ?thesis using d rb_wf_dequeue [OF wf d] delivers_head [OF wf d] by auto
qed

section \<open>Resend requests\<close>

definition requestable :: "raop_buffer_entry \<Rightarrow> bool" where
  "requestable e \<longleftrightarrow> \<not> e_available e \<and> \<not> e_resending e"

definition marked :: "u16 \<Rightarrow> nat \<Rightarrow> nat \<Rightarrow> raop_buffer_entry list \<Rightarrow> raop_buffer_entry list" where
  \<comment> \<open>the entries of offsets \<open>a\<close> to \<open>m - 1\<close> from \<open>f\<close> with their resend flag set\<close>
  "marked f a m es = map (\<lambda>i. if \<exists>j \<in> set [a..<m]. i = slot (f + of_nat j)
                             then (es ! i)\<lparr>e_resending := True\<rparr> else es ! i) [0..<length es]"

lemma slot_offset_inj:
  assumes "j < 32" "k < 32" shows "slot (f + of_nat j) = slot (f + of_nat k) \<longleftrightarrow> j = k"
proof
  note jk = assms
  assume eq: "slot (f + of_nat j) = slot (f + of_nat k)"
  have u: "unat (f + of_nat n - f) = n" if "n < 32" for n
    using that by (simp add: unsigned_of_nat take_bit_eq_mod)
  have "f + of_nat j = f + of_nat k"
    by (rule slot_collision [of _ f]) (use jk eq u in \<open>simp_all add: slot_def\<close>)
  then have "unat (f + of_nat j - f) = unat (f + of_nat k - f)" by simp
  then show "j = k" using u jk by simp
qed simp

lemma marked_empty: "marked f a a es = es"
  by (simp add: marked_def map_nth)

lemma marked_Suc:
  assumes "length es = 32" "a < m" "m \<le> 32"
  shows "marked f (Suc a) m (es[slot (f + of_nat a) := (es ! slot (f + of_nat a))\<lparr>e_resending := True\<rparr>]) = marked f a m es"
proof (rule nth_equalityI)
  fix i assume "i < length (marked f (Suc a) m (es[slot (f + of_nat a) := (es ! slot (f + of_nat a))\<lparr>e_resending := True\<rparr>]))"
  then have i: "i < 32" using assms(1) by (simp add: marked_def)
  have "(\<exists>j\<in>set [a..<m]. i = slot (f + of_nat j)) \<longleftrightarrow> i = slot (f + of_nat a) \<or> (\<exists>j\<in>set [Suc a..<m]. i = slot (f + of_nat j))"
    using assms(2) by (simp add: upt_conv_Cons)
  then show "marked f (Suc a) m (es[slot (f + of_nat a) := (es ! slot (f + of_nat a))\<lparr>e_resending := True\<rparr>]) ! i = marked f a m es ! i"
    using i assms(1) by (auto simp: marked_def nth_list_update simp del: set_upt)
qed (simp add: marked_def)

lemma seqnum_cmp_nat: "a < 32 \<Longrightarrow> c < 32 \<Longrightarrow> seqnum_cmp (f + of_nat a) (f + of_nat c) = int a - int c"
  using seqnum_cmp_offsets [of "int a" "int c" f] by simp

lemma resend_scan_result:
  assumes "length es = 32" "a \<le> c" "c < 32"
  shows "\<exists>m. a \<le> m \<and> m \<le> c \<and> (\<forall>j. a \<le> j \<and> j < m \<longrightarrow> requestable (es ! slot (f + of_nat j)))
    \<and> (m < c \<longrightarrow> \<not> requestable (es ! slot (f + of_nat m)))
    \<and> resend_scan es (f + of_nat a) (f + of_nat c) = (marked f a m es, f + of_nat m)"
  using assms
proof (induction "c - a" arbitrary: a es)
  case 0
  then have "a = c" by simp
  then show ?case by (auto simp: resend_scan.simps marked_empty seqnum_cmp_def)
next
  case (Suc n)
  let ?s = "f + of_nat a :: u16"
  have ac: "a < c" "seqnum_cmp ?s (f + of_nat c) < 0"
    using Suc.hyps(2) Suc.prems seqnum_cmp_nat [of a c f] by auto
  show ?case
  proof (cases "requestable (es ! slot ?s)")
    case False
    then show ?thesis using ac
      by (intro exI [of _ a]) (auto simp: resend_scan.simps [of _ ?s] marked_empty requestable_def Let_def)
  next
    case True
    let ?es = "es[slot ?s := (es ! slot ?s)\<lparr>e_resending := True\<rparr>]"
    have "resend_scan es ?s (f + of_nat c) = resend_scan ?es (?s + 1) (f + of_nat c)"
      using True ac by (subst resend_scan.simps) (simp add: requestable_def Let_def)
    moreover have "?s + 1 = f + of_nat (Suc a)" by simp
    moreover have keep: "?es ! slot (f + of_nat j) = es ! slot (f + of_nat j)" if "a < j" "j < 32" for j
      using slot_offset_inj [of a j f] that ac Suc.prems by simp
    moreover have hyps: "n = c - Suc a" "length ?es = 32" "Suc a \<le> c"
      using Suc.hyps(2) Suc.prems ac by simp_all
    moreover obtain m where m: "Suc a \<le> m" "m \<le> c"
      "\<forall>j. Suc a \<le> j \<and> j < m \<longrightarrow> requestable (?es ! slot (f + of_nat j))"
      "m < c \<longrightarrow> \<not> requestable (?es ! slot (f + of_nat m))"
      "resend_scan ?es (f + of_nat (Suc a)) (f + of_nat c) = (marked f (Suc a) m ?es, f + of_nat m)"
      using Suc.hyps(1) [OF hyps Suc.prems(3)] by blast
    moreover have "marked f (Suc a) m ?es = marked f a m es"
      using m Suc.prems by (intro marked_Suc) auto
    ultimately have "resend_scan es ?s (f + of_nat c) = (marked f a m es, f + of_nat m)" by metis
    moreover have "requestable (es ! slot (f + of_nat j))" if "a \<le> j" "j < m" for j
    proof (cases "j = a")
      case False
      then show ?thesis using m(3) [rule_format, of j] keep [of j] m(2) Suc.prems(3) that by simp
    qed (use True in simp)
    moreover have "\<not> requestable (es ! slot (f + of_nat m))" if "m < c"
      using m(1,4) keep [of m] Suc.prems that by auto
    ultimately show ?thesis using m by (intro exI [of _ m]) auto
  qed
qed

lemma first_last_cmp:
  assumes "rb_count rb \<le> 32"
  shows "seqnum_cmp (rb_first rb) (rb_last rb) < 0 \<longleftrightarrow> 2 \<le> rb_count rb"
  using seqnum_cmp_last [of rb "rb_first rb"] assms by (auto simp: rb_offset_def)

text \<open>
  \<open>raop_buffer_handle_resends\<close> asks once for exactly the leading run of lost packets that has
  not been requested yet: the callback gets the first number and the length of the run, the run is
  marked, and nothing else of the buffer changes.
\<close>

theorem handle_resends_exact:
  assumes wf: "rb_wf rb" and ne: "\<not> rb_is_empty rb"
  defines "lost \<equiv> \<lambda>j. requestable (rb_entries rb ! slot (rb_first rb + of_nat j))"
  shows "\<exists>n \<le> rb_count rb - 1. (\<forall>j < n. lost j) \<and> (n < rb_count rb - 1 \<longrightarrow> \<not> lost n)
    \<and> raop_buffer_handle_resends rb
      = (rb\<lparr>rb_entries := marked (rb_first rb) 0 n (rb_entries rb)\<rparr>,
         if n = 0 then None else Some (rb_first rb, of_nat n))"
proof -
  have len: "length (rb_entries rb) = 32" and c: "rb_count rb \<le> 32" using wf ne by (simp_all add: rb_wf_def)
  show ?thesis
  proof (cases "2 \<le> rb_count rb")
    case False
    then show ?thesis
      using first_last_cmp [OF c]
      by (intro exI [of _ 0]) (simp add: raop_buffer_handle_resends_def marked_empty)
  next
    case True
    then have l: "rb_last rb = rb_first rb + of_nat (rb_count rb - 1)"
      using last_as_offset [of rb] by (simp add: of_nat_diff)
    have c': "rb_count rb - 1 < 32" using c True by simp
    from resend_scan_result [OF len le0 c', of "rb_first rb", unfolded of_nat_0 add_0_right]
    obtain m where m: "m \<le> rb_count rb - 1" "\<forall>j < m. lost j" "m < rb_count rb - 1 \<longrightarrow> \<not> lost m"
      "resend_scan (rb_entries rb) (rb_first rb) (rb_last rb) = (marked (rb_first rb) 0 m (rb_entries rb), rb_first rb + of_nat m)"
      unfolding l lost_def by auto
    have "seqnum_cmp (rb_first rb + of_nat m) (rb_first rb) = int m"
      using seqnum_cmp_nat [of m 0 "rb_first rb"] m(1) c by simp
    moreover from this have "of_nat m = (0 :: u16) \<longleftrightarrow> m = 0"
      using seqnum_cmp_0_iff [of "rb_first rb + of_nat m" "rb_first rb"] by auto
    ultimately show ?thesis
      using m first_last_cmp [OF c] True
      by (intro exI [of _ m]) (simp add: raop_buffer_handle_resends_def Let_def)
  qed
qed

lemma length_marked [simp]: "length (marked f a m es) = length es"
  by (simp add: marked_def)

lemma resend_scan_keeps:
  "length es = 32 \<Longrightarrow> length (fst (resend_scan es s l)) = 32
    \<and> (\<forall>i<32. \<exists>r. fst (resend_scan es s l) ! i = (es ! i)\<lparr>e_resending := r\<rparr>)"
proof (induction es s l rule: resend_scan.induct)
  case (1 es s l)
  have self: "\<exists>r. e = e\<lparr>e_resending := r\<rparr>" for e :: raop_buffer_entry
    by (rule exI [of _ "e_resending e"]) simp
  show ?case
  proof (cases "seqnum_cmp s l < 0 \<and> \<not> (e_available (es ! slot s) \<or> e_resending (es ! slot s))")
    case False
    then have "resend_scan es s l = (es, s)" by (subst resend_scan.simps) (auto simp: Let_def)
    then show ?thesis using "1.prems" self by simp
  next
    case True
    let ?es = "es[slot s := (es ! slot s)\<lparr>e_resending := True\<rparr>]"
    have r: "resend_scan es s l = resend_scan ?es (s + 1) l"
      using True by (subst resend_scan.simps) (simp add: Let_def)
    have ih: "length (fst (resend_scan ?es (s + 1) l)) = 32"
      "\<forall>i<32. \<exists>r. fst (resend_scan ?es (s + 1) l) ! i = (?es ! i)\<lparr>e_resending := r\<rparr>"
      using "1.IH" [of "es ! slot s"] True "1.prems" by simp_all
    have "\<exists>r. fst (resend_scan ?es (s + 1) l) ! i = (es ! i)\<lparr>e_resending := r\<rparr>" if i: "i < 32" for i
    proof -
      obtain r where "fst (resend_scan ?es (s + 1) l) ! i = (?es ! i)\<lparr>e_resending := r\<rparr>"
        using ih(2) i by blast
      then show ?thesis using i "1.prems" by (cases "i = slot s") auto
    qed
    then show ?thesis using ih(1) r by simp
  qed
qed

lemma handle_resends_keeps:
  assumes "rb_wf rb"
  defines "rb' \<equiv> fst (raop_buffer_handle_resends rb)"
  shows "rb_wf rb'" "rb_abs rb' = rb_abs rb" "rb_first rb' = rb_first rb" "rb_last rb' = rb_last rb"
proof -
  have len: "length (rb_entries rb) = 32" using assms(1) by (simp add: rb_wf_def)
  obtain es where rb': "rb' = rb\<lparr>rb_entries := es\<rparr>" and es: "length es = 32"
    "\<And>i. i < 32 \<Longrightarrow> \<exists>r. es ! i = (rb_entries rb ! i)\<lparr>e_resending := r\<rparr>"
  proof (cases "seqnum_cmp (rb_first rb) (rb_last rb) < 0")
    case True
    then show ?thesis
      using that [of "fst (resend_scan (rb_entries rb) (rb_first rb) (rb_last rb))"] resend_scan_keeps [OF len]
      by (auto simp: rb'_def raop_buffer_handle_resends_def Let_def split: prod.splits)
  next
    case False
    have "\<exists>r. e = e\<lparr>e_resending := r\<rparr>" for e :: raop_buffer_entry
      by (rule exI [of _ "e_resending e"]) simp
    then show ?thesis
      using that [of "rb_entries rb"] False len by (simp add: rb'_def raop_buffer_handle_resends_def)
  qed
  have same: "e_available (es ! i) = e_available (rb_entries rb ! i)" "e_seqnum (es ! i) = e_seqnum (rb_entries rb ! i)"
    "payload (es ! i) = payload (rb_entries rb ! i)" if "i < 32" for i
    using es(2) [OF that] by (auto simp: payload_def)
  show "rb_first rb' = rb_first rb" "rb_last rb' = rb_last rb" by (simp_all add: rb')
  show "rb_wf rb'"
    using assms(1) es(1) same
    by (cases "rb_is_empty rb") (simp_all add: rb' rb_wf_def rb_count_def rb_offset_def all_set_conv_all_nth)
  show "rb_abs rb' = rb_abs rb"
    by (simp add: rb' rb_abs_def rb_window_def rb_count_def rb_lookup_def same Let_def)
qed

section \<open>The interface the RTP threads rely on\<close>

text \<open>
  What the receiver threads use: put a packet in, then take entries out until nothing is ready.
  \<open>cap\<close> bounds what one round can deliver.
\<close>

locale jitter =
  fixes inv :: "'s \<Rightarrow> bool" and held :: "'s \<Rightarrow> nat" and cap :: nat
    and put :: "'p \<Rightarrow> 's \<Rightarrow> int \<times> 's" and take_one :: "'s \<Rightarrow> ('o \<times> 's) option"
    and request :: "'s \<Rightarrow> 's \<times> 'r option" and clear :: "int \<Rightarrow> 's \<Rightarrow> 's"
  assumes put_inv: "inv s \<Longrightarrow> inv (snd (put p s))"
    and take_inv: "inv s \<Longrightarrow> take_one s = Some (x, s') \<Longrightarrow> inv s'"
    and take_decreases: "inv s \<Longrightarrow> take_one s = Some (x, s') \<Longrightarrow> held s' < held s"
    and request_inv: "inv s \<Longrightarrow> inv (fst (request s))"
    and clear_inv: "inv s \<Longrightarrow> inv (clear n s)"
    and held_cap: "inv s \<Longrightarrow> held s \<le> cap"

sublocale jitter \<subseteq> taking: drainable take_one inv held
  by unfold_locales (fact take_inv, fact take_decreases)

context jitter
begin

lemma round_ends:
  assumes "inv s"
  shows "\<exists>xs s'. drain take_one (snd (put p s)) = Some (xs, s') \<and> inv s' \<and> take_one s' = None
    \<and> length xs \<le> cap"
  using taking.drain_terminates [OF put_inv [OF assms, of p]] held_cap [OF put_inv [OF assms, of p]]
  by (meson order_trans)

lemma drain_ends:
  assumes "inv s"
  shows "\<exists>xs s'. drain take_one s = Some (xs, s') \<and> inv s' \<and> take_one s' = None \<and> length xs \<le> cap"
  using taking.drain_terminates [OF assms] held_cap [OF assms] by (meson order_trans)

end

definition rb_held :: "'d raop_buffer \<Rightarrow> nat" where
  "rb_held rb = (if rb_is_empty rb then 0 else rb_count rb)"

definition rb_put :: "'d codec \<Rightarrow> byte list \<times> u16 \<times> bool \<Rightarrow> 'd raop_buffer \<Rightarrow> int \<times> 'd raop_buffer" where
  "rb_put cdc p rb = (case p of (data, datalen, use_seqnum) \<Rightarrow> raop_buffer_queue cdc rb data datalen use_seqnum)"

definition rb_take :: "bool \<Rightarrow> 'd raop_buffer \<Rightarrow> (dequeued \<times> 'd raop_buffer) option" where
  "rb_take no_resend rb = raop_buffer_dequeue rb no_resend"

definition rb_clear :: "int \<Rightarrow> 'd raop_buffer \<Rightarrow> 'd raop_buffer" where
  "rb_clear n rb = raop_buffer_flush rb n"

interpretation rbuf: jitter rb_wf rb_held RAOP_BUFFER_LENGTH "rb_put cdc" "rb_take nr"
    raop_buffer_handle_resends rb_clear
  for cdc :: "'d codec" and nr :: bool
proof unfold_locales
  show "rb_wf (snd (rb_put cdc p rb))" if "rb_wf rb" for rb :: "'d raop_buffer" and p
    using rb_wf_queue [OF that] by (simp add: rb_put_def split: prod.split)
  fix rb rb' :: "'d raop_buffer" and x
  assume wf: "rb_wf rb" and d: "rb_take nr rb = Some (x, rb')"
  then have d: "raop_buffer_dequeue rb nr = Some (x, rb')" by (simp add: rb_take_def)
  show "rb_wf rb'" by (rule rb_wf_dequeue [OF wf d])
  show "rb_held rb' < rb_held rb" using dequeue_SomeD [OF wf d] by (simp add: rb_held_def)
next
  fix rb :: "'d raop_buffer"
  assume wf: "rb_wf rb"
  show "rb_wf (fst (raop_buffer_handle_resends rb))" by (rule handle_resends_keeps(1) [OF wf])
  show "rb_wf (rb_clear n rb)" for n unfolding rb_clear_def by (rule rb_wf_flush [OF wf])
  show "rb_held rb \<le> RAOP_BUFFER_LENGTH" using wf by (simp add: rb_held_def rb_wf_def)
qed

section \<open>Every history of operations\<close>

lemma init_SomeD:
  assumes "raop_buffer_init cdc calloc_ok malloc fmtp aeskey aesiv et cn = Some (Some rb)"
  shows "rb_wf rb" "rb_is_empty rb" "rb_et rb = et" "et = 1 \<or> et = 3" "rb_cn rb = cn" "cn = 1 \<or> cn = 3"
    "rb_abs rb = None" "bitDepth (rb_config rb) = 16" "numChannels (rb_config rb) = 2"
  using assms
  by (auto simp: raop_buffer_init_def rb_wf_def init_entries_def rb_abs_def get_fmtp_info_def Let_def
      split: if_splits option.splits prod.splits)

inductive rb_reachable :: "'d codec \<Rightarrow> 'd raop_buffer \<Rightarrow> bool" for cdc where
  init: "raop_buffer_init cdc calloc_ok malloc fmtp aeskey aesiv et cn = Some (Some rb) \<Longrightarrow> rb_reachable cdc rb"
| queue: "rb_reachable cdc rb \<Longrightarrow> rb_reachable cdc (snd (raop_buffer_queue cdc rb data datalen use_seqnum))"
| dequeue: "rb_reachable cdc rb \<Longrightarrow> raop_buffer_dequeue rb nr = Some (out, rb') \<Longrightarrow> rb_reachable cdc rb'"
| resends: "rb_reachable cdc rb \<Longrightarrow> rb_reachable cdc (fst (raop_buffer_handle_resends rb))"
| flush: "rb_reachable cdc rb \<Longrightarrow> rb_reachable cdc (raop_buffer_flush rb next_seq)"

lemma queue_result:
  assumes wf: "rb_wf rb"
  shows "fst (raop_buffer_queue cdc rb data datalen use_seqnum) \<in> (if valid_datalen datalen then {0, 1} else {-1})"
proof (cases "valid_datalen datalen")
  case True
  let ?s = "queue_seqnum rb data use_seqnum"
  show ?thesis
  proof (cases "rb_is_empty rb \<or> rb_offset rb ?s < 32768")
    case True
    then show ?thesis using queue_timely [OF \<open>valid_datalen datalen\<close> wf True] \<open>valid_datalen datalen\<close>
      by (simp add: Let_def)
  next
    case False
    then have "\<not> rb_is_empty rb" "32768 \<le> rb_offset rb ?s" by simp_all
    from queue_late [OF \<open>valid_datalen datalen\<close> this] show ?thesis using \<open>valid_datalen datalen\<close> by simp
  qed
qed (simp add: queue_invalid)

text \<open>
  C1. After every history of initialisation, queueing of arbitrary (also hostile) packets,
  dequeueing, resend handling and flushing the buffer is well formed: at most 32 consecutive
  numbers are spanned, every held packet sits in the slot of its number inside that span, and
  queueing answers -1 exactly for a packet of invalid length, never -3.
\<close>

theorem reachable_well_formed:
  assumes "rb_reachable cdc rb"
  shows "rb_wf rb \<and> rb_held rb \<le> RAOP_BUFFER_LENGTH
    \<and> (\<forall>data datalen use. fst (raop_buffer_queue cdc rb data datalen use) \<in> (if valid_datalen datalen then {0, 1} else {-1}))"
proof -
  have wf: "rb_wf rb"
    using assms
  proof induction
    case (init calloc_ok malloc fmtp aeskey aesiv et cn rb)
    then show ?case by (rule init_SomeD)
  qed (auto intro: rb_wf_queue rb_wf_dequeue handle_resends_keeps rb_wf_flush)
  then show ?thesis using rbuf.held_cap queue_result by blast
qed

section \<open>Draining\<close>

fun jb_ready :: "bool \<Rightarrow> packet option list \<Rightarrow> packet option list" where
  \<comment> \<open>the places a drain hands out\<close>
  "jb_ready no_resend [] = []"
| "jb_ready no_resend (w # ws) =
     (if \<not> no_resend \<and> w = None \<and> length (w # ws) < RAOP_BUFFER_LENGTH then []
      else w # jb_ready no_resend ws)"

lemma jb_ready_all: "jb_ready True ws = ws"
  by (induction ws) auto

lemma drain_window:
  assumes "rb_wf rb" "drain (rb_take nr) rb = Some (outs, rb')"
  shows "rb_wf rb' \<and> list_all2 delivers (jb_ready nr (if rb_is_empty rb then [] else rb_window rb)) outs
    \<and> (\<not> rb_is_empty rb \<longrightarrow> \<not> rb_is_empty rb' \<and> rb_first rb' = rb_first rb + of_nat (length outs)
          \<and> rb_window rb' = drop (length outs) (rb_window rb))"
  using assms
proof (induction "rb_held rb" arbitrary: rb outs rule: less_induct)
  case less
  show ?case
  proof (cases "raop_buffer_dequeue rb nr")
    case None
    then have r: "outs = []" "rb' = rb" using less.prems(2) by (simp_all add: drain_stop rb_take_def)
    have "jb_ready nr (if rb_is_empty rb then [] else rb_window rb) = []"
    proof (cases "rb_is_empty rb \<or> rb_count rb = 0")
      case True
      then show ?thesis by (auto simp: rb_window_def)
    next
      case False
      then show ?thesis
        using None dequeue_None_iff [OF less.prems(1), of nr] by (simp add: window_Cons rb_lookup_def)
    qed
    then show ?thesis using r less.prems(1) by simp
  next
    case (Some p)
    then obtain out rb1 where d: "raop_buffer_dequeue rb nr = Some (out, rb1)" by (cases p) auto
    note f = dequeue_SomeD [OF less.prems(1) d] and w = window_dequeue [OF less.prems(1) d]
    have wf1: "rb_wf rb1" by (rule rb_wf_dequeue [OF less.prems(1) d])
    obtain outs1 where o: "drain (rb_take nr) rb1 = Some (outs1, rb')" "outs = out # outs1"
      using less.prems(2) d
      by (subst (asm) drain.simps) (auto simp: rb_take_def split: option.splits Option.bind_splits)
    have "rb_held rb1 < rb_held rb" using f by (simp add: rb_held_def)
    note ih = less.hyps [OF this wf1 o(1)]
    have "\<not> (\<not> nr \<and> rb_lookup rb (rb_first rb) = None \<and> rb_count rb < 32)"
      using d dequeue_None_iff [OF less.prems(1), of nr] f(2) by (auto simp: rb_lookup_def payload_def Let_def)
    then have "jb_ready nr (rb_window rb) = rb_lookup rb (rb_first rb) # jb_ready nr (rb_window rb1)"
      using f(2,8) by (auto simp: w)
    then show ?thesis
      using ih f(1,4,6) o(2) w delivers_head [OF less.prems(1) d] by (simp add: add.assoc)
  qed
qed

text \<open>
  C4. The loop \<open>while (raop_buffer_dequeue(...))\<close> of the RTP threads ends after at most 32 rounds,
  and what it hands out is, in order and without repetition, the front of the window: up to the
  first lost packet that a resend may still bring, or all of it when no resends are made.
\<close>

theorem drain_delivers_in_order:
  assumes wf: "rb_wf rb" and ne: "\<not> rb_is_empty rb"
  shows "\<exists>outs rb'. drain (rb_take nr) rb = Some (outs, rb') \<and> length outs \<le> RAOP_BUFFER_LENGTH
    \<and> list_all2 delivers (jb_ready nr (rb_window rb)) outs
    \<and> rb_abs rb' = Some (rb_first rb + of_nat (length outs), drop (length outs) (rb_window rb))"
proof -
  obtain outs rb' where d: "drain (rb_take nr) rb = Some (outs, rb')" "length outs \<le> RAOP_BUFFER_LENGTH"
    using rbuf.drain_ends [OF wf] by blast
  then show ?thesis using drain_window [OF wf d(1)] ne by (auto simp: rb_abs_def)
qed

text \<open>
  A lost packet whose place is skipped keeps its resend flag: until a packet is stored in that
  slot again, a later loss of the same slot at the head of the buffer is never requested.
\<close>

theorem skipped_slot_not_requested:
  assumes wf: "rb_wf rb" and d: "raop_buffer_dequeue rb nr = Some (out, rb1)"
    and skip: "dq_timestamp out = None" and flag: "e_resending (rb_entries rb ! slot (rb_first rb))"
    and later: "rb_wf rb2" "\<not> rb_is_empty rb2" "slot (rb_first rb2) = slot (rb_first rb)"
      "rb_entries rb2 ! slot (rb_first rb2) = rb_entries rb1 ! slot (rb_first rb)"
  shows "snd (raop_buffer_handle_resends rb2) = None"
proof -
  have "\<not> e_available (rb_entries rb ! slot (rb_first rb))"
    using dequeue_entries(4) [OF wf d] skip by auto
  then have "\<not> requestable (rb_entries rb2 ! slot (rb_first rb2))"
    using dequeue_entries(5) [OF wf d] flag later(4) by (simp add: requestable_def)
  moreover obtain n where "\<forall>j<n. requestable (rb_entries rb2 ! slot (rb_first rb2 + of_nat j))"
    "raop_buffer_handle_resends rb2 = (rb2\<lparr>rb_entries := marked (rb_first rb2) 0 n (rb_entries rb2)\<rparr>,
         if n = 0 then None else Some (rb_first rb2, of_nat n))"
    using handle_resends_exact [OF later(1,2)] by blast
  ultimately show ?thesis by (cases n) (auto dest: spec [of _ 0])
qed

section \<open>A concrete codec and concrete histories\<close>

text \<open>A decoder that copies its input, to run the model on concrete packets.\<close>

definition copy_codec :: "nat codec" where
  "copy_codec = \<lparr>aes_cbc_decrypt = (\<lambda>key iv xs. xs), alac_create = (\<lambda>depth channels. Some 0),
     alac_set_info_cb = (\<lambda>d info. d),
     alac_decode = (\<lambda>d packet buf len. (Suc d, write_at 0 (take (nat len) packet) buf, min len (int (length packet)))),
     aac_create = 0,
     aac_decode = (\<lambda>d packet buf len. (Suc d, write_at 0 (take (nat len) packet) buf, min len (int (length packet))))\<rparr>"

definition demo_entry :: raop_buffer_entry where
  "demo_entry = \<lparr>e_available = False, e_resending = False, e_flags = 0, e_type = 0, e_seqnum = 0,
     e_timestamp = 0, e_ssrc = 0, e_audio_buffer_size = 2, e_audio_buffer_len = 0, e_audio_buffer = [7, 7]\<rparr>"

definition demo_rb :: "nat raop_buffer" where
  \<comment> \<open>number 65535 requested and lost, 0 held, 1 lost, 2 held\<close>
  "demo_rb = \<lparr>rb_aeskey = [], rb_aesiv = [], rb_config = zero_config, rb_decoder = 0, rb_et = 1, rb_cn = 1,
     rb_is_empty = False, rb_first = 0xffff, rb_last = 2,
     rb_entries = (replicate 32 demo_entry)
       [31 := demo_entry\<lparr>e_resending := True\<rparr>,
        0 := demo_entry\<lparr>e_available := True, e_timestamp := 10, e_audio_buffer_len := 2\<rparr>,
        2 := demo_entry\<lparr>e_available := True, e_seqnum := 2, e_timestamp := 20, e_audio_buffer_len := 1\<rparr>],
     rb_buffer_size = 64\<rparr>"

definition demo_packet :: "byte \<Rightarrow> byte list" where
  "demo_packet n = [0x80, 0x60, 0, n, 0, 0, 0, n, 0, 0, 0, 1, n, n]"

lemma demo_wf: "rb_wf demo_rb"
  by (auto simp: rb_wf_def demo_rb_def demo_entry_def rb_count_def rb_offset_def slot_def nth_list_update)

lemma demo_nonempty: "\<not> rb_is_empty demo_rb"
  by (simp add: demo_rb_def)

theorem queue_refines_witness:
  "fst (raop_buffer_queue copy_codec demo_rb (demo_packet 1) 14 True) = 1
   \<and> map_prod id rb_abs (raop_buffer_queue copy_codec demo_rb (demo_packet 1) 14 True)
      = jb_queue 1 (payload (queue_entry copy_codec demo_rb (demo_packet 1) 14 1)) (rb_abs demo_rb)"
proof -
  have s: "queue_seqnum demo_rb (demo_packet 1) True = 1"
    by (simp add: queue_seqnum_def demo_packet_def be16_def)
  have "fst (raop_buffer_queue copy_codec demo_rb (demo_packet 1) 14 True) = 1"
    by (simp add: raop_buffer_queue_def demo_rb_def demo_entry_def slot_def demo_packet_def be16_def
        seqnum_cmp_def copy_codec_def Let_def)
  then show ?thesis
    using queue_refines [OF demo_wf, of 14 copy_codec "demo_packet 1" True]
    by (simp add: valid_datalen_def s)
qed

theorem dequeue_refines_witness:
  "raop_buffer_dequeue demo_rb False = None \<and> jb_dequeue False (rb_abs demo_rb) = None"
proof -
  have d: "raop_buffer_dequeue demo_rb False = None"
    by (simp add: raop_buffer_dequeue_def demo_rb_def demo_entry_def slot_def)
  show ?thesis using dequeue_refines [OF demo_wf, of False] d by simp
qed

theorem handle_resends_exact_witness:
  "\<exists>n \<le> rb_count (demo_rb\<lparr>rb_first := 1\<rparr>) - 1.
     raop_buffer_handle_resends (demo_rb\<lparr>rb_first := 1, rb_entries := (rb_entries demo_rb)[0 := demo_entry]\<rparr>)
      = (demo_rb\<lparr>rb_first := 1, rb_entries := marked 1 0 n ((rb_entries demo_rb)[0 := demo_entry])\<rparr>,
         if n = 0 then None else Some (1, of_nat n))"
proof -
  let ?rb = "demo_rb\<lparr>rb_first := 1, rb_entries := (rb_entries demo_rb)[0 := demo_entry]\<rparr>"
  have "rb_wf ?rb"
    by (auto simp: rb_wf_def demo_rb_def demo_entry_def rb_count_def rb_offset_def slot_def nth_list_update)
  from handle_resends_exact [OF this] show ?thesis
    by (auto simp: demo_rb_def rb_count_def)
qed

theorem drain_delivers_in_order_witness:
  "\<exists>outs rb'. drain (rb_take True) demo_rb = Some (outs, rb') \<and> length outs \<le> 32"
  using drain_delivers_in_order [OF demo_wf demo_nonempty, of True] by blast

lemma demo_config: "fst (get_fmtp_info zero_config ''96 1 0 16 40 10 14 2 255 0 0 44100'' 1) = 0"
  by code_simp

lemma demo_size: "audio_size (snd (get_fmtp_info zero_config ''96 1 0 16 40 10 14 2 255 0 0 44100'' 1)) = 4"
  by code_simp

lemma demo_buffer_init: "\<exists>rb. raop_buffer_init copy_codec True (\<lambda>n. Some (replicate (nat n) 0))
     ''96 1 0 16 40 10 14 2 255 0 0 44100'' key iv 1 1 = Some (Some rb)"
  using demo_config demo_size by (auto simp: raop_buffer_init_def copy_codec_def Let_def split: prod.splits)

lemma demo_reachable: "\<exists>rb. rb_reachable copy_codec rb"
  using demo_buffer_init by (blast intro: rb_reachable.init)

theorem reachable_well_formed_witness:
  "\<exists>rb. rb_reachable copy_codec rb \<and> rb_wf rb \<and> fst (raop_buffer_queue copy_codec rb [] 0 True) = -1"
proof -
  obtain rb where "rb_reachable copy_codec rb" using demo_reachable by blast
  then show ?thesis using reachable_well_formed [of copy_codec rb] by (auto simp: queue_invalid valid_datalen_def)
qed

lemma replicate_two: "replicate 2 x = [x, x]"
  by (simp add: numeral_2_eq_2)

text \<open>Number 65535 is skipped; 32 numbers later 31 heads the buffer, is lost, and is not requested.\<close>

definition demo_later :: "nat raop_buffer" where
  "demo_later = demo_rb\<lparr>rb_first := 31, rb_last := 33, rb_entries :=
     (replicate 32 demo_entry)[31 := demo_entry\<lparr>e_resending := True, e_audio_buffer := [0, 0]\<rparr>]\<rparr>"

theorem skipped_slot_not_requested_witness:
  "(case raop_buffer_dequeue demo_rb True of None \<Rightarrow> False
    | Some (out, rb1) \<Rightarrow> dq_timestamp out = None \<and> rb_entries demo_later ! 31 = rb_entries rb1 ! 31)
   \<and> snd (raop_buffer_handle_resends demo_later) = None"
proof -
  obtain out rb1 where d: "raop_buffer_dequeue demo_rb True = Some (out, rb1)" "dq_timestamp out = None"
    "rb_entries rb1 ! 31 = demo_entry\<lparr>e_resending := True, e_audio_buffer := [0, 0]\<rparr>"
    by (simp add: raop_buffer_dequeue_def demo_rb_def demo_entry_def slot_def write_at_def replicate_two)
  have l: "rb_wf demo_later" "\<not> rb_is_empty demo_later" "slot (rb_first demo_later) = slot (rb_first demo_rb)"
    "rb_entries demo_later ! slot (rb_first demo_later) = rb_entries rb1 ! slot (rb_first demo_rb)"
    using d(3) by (auto simp: demo_later_def rb_wf_def demo_rb_def demo_entry_def rb_count_def rb_offset_def
        slot_def nth_list_update)
  have "e_resending (rb_entries demo_rb ! slot (rb_first demo_rb))"
    by (simp add: demo_rb_def slot_def)
  from skipped_slot_not_requested [OF demo_wf d(1,2) this l] show ?thesis
    using d l by (simp add: demo_rb_def demo_later_def slot_def)
qed

end
