(* ===== verification/Raop_Rtp.thy ===== *)
theory Raop_Rtp
  imports C_Float Raop_Buffer
begin

text \<open>
  The audio receiver of \<open>libairplay/airplay/raop_rtp.c\<close>: the mailbox the RTSP handlers write under
  the mutex and the thread empties, one iteration of the UDP and of the TCP thread, socket set-up,
  start and stop. System calls are inputs (\<open>net_input\<close>, socket results); callbacks and packets sent
  are the events an operation emits. \<open>Undefined\<close> stands for C undefined behaviour, \<open>AssertFailed\<close>
  for an \<open>assert\<close> that aborts the process.
\<close>

section \<open>State\<close>

record sockaddr =
  ss_family :: int
  sa_data :: "byte list"

record callbacks =
  cb_set_volume :: bool
  cb_flush :: bool
  cb_set_metadata :: bool
  cb_set_coverart :: bool
  cb_remote_control_id :: bool
  cb_set_progress :: bool
  cb_process :: bool
  cb_destroy :: bool

datatype thread =
    NoThread
  | Udp "byte list"                  \<comment> \<open>the array \<open>packet\<close>\<close>
  | Tcp "byte list" nat "int"        \<comment> \<open>the array \<open>packet\<close>, \<open>packetlen\<close>, \<open>stream_fd\<close>\<close>
  | Finished

record 'd raop_rtp =
  rr_callbacks :: callbacks
  rr_buffer :: "'d raop_buffer"
  rr_remote_saddr :: sockaddr
  rr_remote_saddr_len :: int
  rr_running :: bool
  rr_joined :: bool
  rr_volume :: cfloat
  rr_volume_changed :: bool
  rr_metadata :: "byte list option"
  rr_coverart :: "byte list option"
  rr_dacp_id :: "string option"
  rr_active_remote_header :: "string option"
  rr_progress :: "u32 \<times> u32 \<times> u32"
  rr_progress_changed :: bool
  rr_flush :: int
  rr_thread :: thread
  rr_control_rport :: u16
  rr_timing_rport :: u16
  rr_csock :: int
  rr_tsock :: int
  rr_dsock :: int
  rr_control_lport :: u16
  rr_timing_lport :: u16
  rr_data_lport :: u16
  rr_control_saddr :: "byte list"
  rr_control_seqnum :: u16
  rr_x56_buf :: "byte list"          \<comment> \<open>the global \<open>g_x56_buf\<close>\<close>

datatype rtp_event =
    AudioInit byte byte u32 bool
  | AudioProcess "byte list" int "u32 option"   \<comment> \<open>audio, length, time stamp (\<open>None\<close>: indeterminate)\<close>
  | AudioDestroy
  | SetVolume cfloat
  | AudioFlush
  | SetMetadata "byte list"
  | SetCoverart "byte list"
  | RemoteControlId string string
  | SetProgress u32 u32 u32
  | SendTo int "byte list" "byte list"          \<comment> \<open>socket, packet, address\<close>
  | CloseSocket int
  | NullCall                                     \<comment> \<open>a call through a NULL callback\<close>

datatype outcome = Continue | Break | AssertFailed | Undefined

abbreviation NO_FLUSH :: int where "NO_FLUSH \<equiv> -42"
abbreviation AF_INET :: int where "AF_INET \<equiv> 2"
abbreviation AF_INET6 :: int where "AF_INET6 \<equiv> 10"

section \<open>Creation\<close>

definition raop_rtp_parse_remote ::
  "(int \<Rightarrow> string \<Rightarrow> int \<times> sockaddr) \<Rightarrow> 'd raop_rtp \<Rightarrow> string \<Rightarrow> (int \<times> 'd raop_rtp) option" where
  \<comment> \<open>\<open>None\<close>: \<open>strcmp\<close> on a NULL piece; \<open>parse_address\<close> is \<open>netutils_parse_address\<close>\<close>
  "raop_rtp_parse_remote parse_address rr remote =
     (let (tmpstr, current) = utils_strsep (Some remote) '' ''
      in if tmpstr \<noteq> Some ''IN'' then Some (-1, rr)
      else case utils_strsep current '' '' of
          (None, _) \<Rightarrow> None
        | (Some tmpstr, current) \<Rightarrow>
            (case (if tmpstr = ''IP4'' \<and> current \<noteq> None then Some AF_INET
                   else if tmpstr = ''IP6'' \<and> current \<noteq> None then Some AF_INET6 else None) of
               None \<Rightarrow> Some (-1, rr)
             | Some family \<Rightarrow>
                 (let addr = the current;
                      family = (if c_strstr addr '':'' \<noteq> None then AF_INET6 else family);
                      (ret, saddr) = parse_address family addr
                  in if ret < 0 then Some (-1, rr)
                     else Some (0, rr\<lparr>rr_remote_saddr := saddr, rr_remote_saddr_len := ret\<rparr>))))"

definition raop_rtp_init ::
  "'d codec \<Rightarrow> bool \<Rightarrow> bool \<Rightarrow> (int \<Rightarrow> byte list option) \<Rightarrow> (int \<Rightarrow> string \<Rightarrow> int \<times> sockaddr)
    \<Rightarrow> callbacks \<Rightarrow> string \<Rightarrow> string \<Rightarrow> string \<Rightarrow> byte list \<Rightarrow> byte list \<Rightarrow> 'd raop_rtp option option" where
  \<comment> \<open>the outer \<open>None\<close> is undefined behaviour, the inner one the NULL returned\<close>
  "raop_rtp_init cdc calloc_ok buffer_calloc_ok malloc parse_address callbacks remote rtpmap fmtp aeskey aesiv =
     (if \<not> calloc_ok then Some None
      else let cn = (if c_strstr fmtp ''AAC-eld'' \<noteq> None then 3 else 1)
      in case raop_buffer_init cdc buffer_calloc_ok malloc fmtp aeskey aesiv 1 cn of
           None \<Rightarrow> None
         | Some None \<Rightarrow> Some None
         | Some (Some buffer) \<Rightarrow>
             (let rr = \<lparr>rr_callbacks = callbacks, rr_buffer = buffer,
                    rr_remote_saddr = \<lparr>ss_family = 0, sa_data = []\<rparr>, rr_remote_saddr_len = 0,
                    rr_running = False, rr_joined = False, rr_volume = Fin 0, rr_volume_changed = False,
                    rr_metadata = None, rr_coverart = None, rr_dacp_id = None,
                    rr_active_remote_header = None, rr_progress = (0, 0, 0), rr_progress_changed = False,
                    rr_flush = 0, rr_thread = NoThread, rr_control_rport = 0, rr_timing_rport = 0,
                    rr_csock = 0, rr_tsock = 0, rr_dsock = 0, rr_control_lport = 0,
                    rr_timing_lport = 0, rr_data_lport = 0, rr_control_saddr = [],
                    rr_control_seqnum = 0, rr_x56_buf = replicate 16 0\<rparr>
              in case raop_rtp_parse_remote parse_address rr remote of
                   None \<Rightarrow> None
                 | Some (ret, rr) \<Rightarrow>
                     if ret < 0 then Some None
                     else Some (Some (rr\<lparr>rr_running := False, rr_joined := True, rr_flush := NO_FLUSH\<rparr>))))"

definition raop_rtp_init_sockets ::
  "(int \<times> u16) \<Rightarrow> (int \<times> u16) \<Rightarrow> (int \<times> u16) \<Rightarrow> bool \<Rightarrow> bool \<Rightarrow> 'd raop_rtp
    \<Rightarrow> int \<times> 'd raop_rtp \<times> rtp_event list" where
  \<comment> \<open>the pairs are what the three \<open>netutils_init_socket\<close> calls answer, \<open>listen_ok\<close> what \<open>listen\<close> does\<close>
  "raop_rtp_init_sockets c t d listen_ok use_udp rr =
     (let (csock, cport) = (if use_udp then c else (-1, 0));
          (tsock, tport) = (if use_udp then t else (-1, 0));
          cleanup = (\<lambda>dsock. (-1, rr, map CloseSocket (filter (\<lambda>s. s \<noteq> -1) [csock, tsock, dsock])))
      in if use_udp \<and> (csock = -1 \<or> tsock = -1) then cleanup (-1)
      else let (dsock, dport) = d
      in if dsock = -1 then cleanup dsock
      else if \<not> use_udp \<and> \<not> listen_ok then cleanup dsock
      else (0, rr\<lparr>rr_csock := csock, rr_tsock := tsock, rr_dsock := dsock,
                  rr_control_lport := cport, rr_timing_lport := tport, rr_data_lport := dport\<rparr>, []))"

section \<open>Resend requests and events\<close>

definition resend_packet :: "u16 \<Rightarrow> u16 \<Rightarrow> u16 \<Rightarrow> byte list" where
  "resend_packet ourseqnum seqnum count =
     [0x80, 0x55 OR 0x80, hi8 ourseqnum, lo8 ourseqnum, hi8 seqnum, lo8 seqnum, hi8 count, lo8 count]"

definition raop_rtp_resend_callback :: "'d raop_rtp \<Rightarrow> u16 \<Rightarrow> u16 \<Rightarrow> 'd raop_rtp \<times> rtp_event list" where
  "raop_rtp_resend_callback rr seqnum count =
     (let ourseqnum = rr_control_seqnum rr
      in (rr\<lparr>rr_control_seqnum := rr_control_seqnum rr + 1\<rparr>,
          [SendTo (rr_csock rr) (resend_packet ourseqnum seqnum count) (rr_control_saddr rr)]))"

definition cfloat_ceil :: "cfloat \<Rightarrow> cfloat" where
  "cfloat_ceil v = (case v of Fin r \<Rightarrow> Fin (of_int \<lceil>r\<rceil>) | _ \<Rightarrow> v)"

definition when_cb :: "bool \<Rightarrow> rtp_event list \<Rightarrow> rtp_event list" where
  "when_cb b evs = (if b then evs else [])"

definition raop_rtp_process_events :: "'d raop_rtp \<Rightarrow> bool \<times> 'd raop_rtp \<times> rtp_event list" where
  "raop_rtp_process_events rr =
     (if \<not> rr_running rr then (True, rr, [])
      else let cb = rr_callbacks rr;
               rr' = rr\<lparr>rr_volume_changed := False, rr_flush := NO_FLUSH, rr_metadata := None,
                        rr_coverart := None, rr_dacp_id := None, rr_active_remote_header := None,
                        rr_progress_changed := False\<rparr>;
               rr' = (if rr_flush rr \<noteq> NO_FLUSH
                      then rr'\<lparr>rr_buffer := raop_buffer_flush (rr_buffer rr') (rr_flush rr)\<rparr> else rr')
      in (False, rr',
          when_cb (rr_volume_changed rr \<and> cb_set_volume cb) [SetVolume (cfloat_ceil (rr_volume rr))]
          @ when_cb (rr_flush rr \<noteq> NO_FLUSH \<and> cb_flush cb) [AudioFlush]
          @ (case rr_metadata rr of None \<Rightarrow> [] | Some md \<Rightarrow> when_cb (cb_set_metadata cb) [SetMetadata md])
          @ (case rr_coverart rr of None \<Rightarrow> [] | Some ca \<Rightarrow> when_cb (cb_set_coverart cb) [SetCoverart ca])
          @ (case (rr_dacp_id rr, rr_active_remote_header rr) of
               (Some i, Some h) \<Rightarrow> when_cb (cb_remote_control_id cb) [RemoteControlId i h] | _ \<Rightarrow> [])
          @ (case rr_progress rr of (s, c, e) \<Rightarrow>
               when_cb (rr_progress_changed rr \<and> cb_set_progress cb) [SetProgress s c e])))"

section \<open>The UDP thread\<close>

datatype net_input =
    Timeout
  | SelectError
  | ControlReady "byte list option" "byte list"   \<comment> \<open>\<open>recvfrom\<close> (\<open>None\<close> for -1) and the sender\<close>
  | TimingReady
  | DataReady "byte list option"
  | Accepted int
  | Received "byte list option"                   \<comment> \<open>\<open>recv\<close> on the stream\<close>

definition recv_into :: "nat \<Rightarrow> byte list option \<Rightarrow> byte list \<Rightarrow> byte list" where
  "recv_into off r packet = (case r of None \<Rightarrow> packet | Some bs \<Rightarrow> write_at off bs packet)"

definition recv_len :: "byte list option \<Rightarrow> u32" where
  \<comment> \<open>the result converted to \<open>unsigned int\<close>\<close>
  "recv_len r = (case r of None \<Rightarrow> -1 | Some bs \<Rightarrow> of_nat (length bs))"

definition be32_bytes :: "u32 \<Rightarrow> byte list" where
  "be32_bytes w = [ucast (drop_bit 24 w), ucast (drop_bit 16 w), ucast (drop_bit 8 w), ucast w]"

definition x56_update :: "byte list \<Rightarrow> byte list \<Rightarrow> byte list" where
  \<comment> \<open>the time sync packet: bytes 8..15 reversed, 0x7C558180 added to the seconds, bytes 16..19 reversed\<close>
  "x56_update packet buf =
     (let secs = be32 (packet ! 8) (packet ! 9) (packet ! 10) (packet ! 11) + 0x7C558180
      in [packet ! 15, packet ! 14, packet ! 13, packet ! 12] @ rev (be32_bytes secs)
         @ [packet ! 19, packet ! 18, packet ! 17, packet ! 16] @ drop 12 buf)"

fun play :: "u32 option \<Rightarrow> dequeued list \<Rightarrow> rtp_event list" where
  \<comment> \<open>the body of the dequeue loop; \<open>timestamp\<close> keeps its last value when dequeue does not write it\<close>
  "play timestamp [] = []"
| "play timestamp (out # outs) =
     (let timestamp = (case dq_timestamp out of Some t \<Rightarrow> Some t | None \<Rightarrow> timestamp)
      in AudioProcess (dq_audio out) (dq_length out) timestamp # play timestamp outs)"

definition udp_control :: "'d codec \<Rightarrow> 'd raop_rtp \<Rightarrow> byte list \<Rightarrow> byte list option \<Rightarrow> byte list
    \<Rightarrow> outcome \<times> 'd raop_rtp \<times> byte list \<times> rtp_event list" where
  "udp_control cdc rr packet r saddr =
     (let packet = recv_into 0 r packet; packetlen = recv_len r;
          rr = rr\<lparr>rr_control_saddr := saddr\<rparr>
      in if packetlen < 12 then (Continue, rr, packet, [])
      else let type = packet ! 1 AND NOT 0x80
      in if type = 0x56 then
           (let (ret, buffer) = raop_buffer_queue cdc (rr_buffer rr) (drop 4 packet) (ucast (packetlen - 4)) True;
                rr = rr\<lparr>rr_buffer := buffer\<rparr>
            in (if ret \<ge> 0 then Continue else AssertFailed, rr, packet, []))
         else if type = 0x54 then
           (Continue, rr\<lparr>rr_x56_buf := x56_update packet (rr_x56_buf rr)\<rparr>, packet, [])
         else (Continue, rr, packet, []))"

definition udp_data :: "'d codec \<Rightarrow> 'd raop_rtp \<Rightarrow> byte list \<Rightarrow> byte list option
    \<Rightarrow> (outcome \<times> 'd raop_rtp \<times> byte list \<times> rtp_event list) option" where
  \<comment> \<open>\<open>None\<close>: the dequeue loop does not end\<close>
  "udp_data cdc rr packet r =
     (let packet = recv_into 0 r packet; packetlen = recv_len r
      in if packetlen < 12 then Some (Continue, rr, packet, [])
      else let no_resend = (rr_control_rport rr = 0);
               (ret, buffer) = raop_buffer_queue cdc (rr_buffer rr) packet (ucast packetlen) True
      in if \<not> ret \<ge> 0 then Some (AssertFailed, rr\<lparr>rr_buffer := buffer\<rparr>, packet, [])
      else do {
        (outs, buffer) \<leftarrow> drain (rb_take no_resend) buffer;
        let rr = rr\<lparr>rr_buffer := buffer\<rparr>;
        let audio = when_cb (cb_process (rr_callbacks rr)) (play None outs);
        if no_resend then Some (Continue, rr, packet, audio)
        else (let (buffer, request) = raop_buffer_handle_resends (rr_buffer rr);
                  rr = rr\<lparr>rr_buffer := buffer\<rparr>
              in case request of
                   None \<Rightarrow> Some (Continue, rr, packet, audio)
                 | Some (seqnum, count) \<Rightarrow>
                     (let (rr, sent) = raop_rtp_resend_callback rr seqnum count
                      in Some (Continue, rr, packet, audio @ sent)))
      })"

definition udp_iteration :: "'d codec \<Rightarrow> net_input \<Rightarrow> 'd raop_rtp \<Rightarrow> byte list
    \<Rightarrow> (outcome \<times> 'd raop_rtp \<times> byte list \<times> rtp_event list) option" where
  "udp_iteration cdc input rr packet =
     (let (stop, rr, evs) = raop_rtp_process_events rr
      in if stop then Some (Break, rr, packet, evs)
      else map_option (\<lambda>(oc, rr, packet, evs'). (oc, rr, packet, evs @ evs'))
        (case input of
           SelectError \<Rightarrow> Some (Break, rr, packet, [])
         | ControlReady r saddr \<Rightarrow> Some (udp_control cdc rr packet r saddr)
         | DataReady r \<Rightarrow> udp_data cdc rr packet r
         | _ \<Rightarrow> Some (Continue, rr, packet, [])))"

section \<open>The TCP thread\<close>

definition tcp_receive :: "'d codec \<Rightarrow> 'd raop_rtp \<Rightarrow> byte list \<Rightarrow> nat \<Rightarrow> byte list option
    \<Rightarrow> outcome \<times> 'd raop_rtp \<times> byte list \<times> nat \<times> rtp_event list" where
  "tcp_receive cdc rr packet packetlen r =
     (case r of
        None \<Rightarrow> (Break, rr, packet, packetlen, [])
      | Some bs \<Rightarrow>
          if bs = [] then (Break, rr, packet, packetlen, [])
          else let packet = write_at packetlen bs packet; packetlen = packetlen + length bs
          in if packetlen < 4 then (Continue, rr, packet, packetlen, [])
          else if packet ! 0 \<noteq> 0x24 \<or> packet ! 1 \<noteq> 0 then (Break, rr, packet, packetlen, [])
          else let rtplen = unat (be16 (packet ! 2) (packet ! 3))
          in if rtplen > RAOP_PACKET_LEN then (Break, rr, packet, packetlen, [])
          else if packetlen < 4 + rtplen then (Continue, rr, packet, packetlen, [])
          else let (ret, buffer) = raop_buffer_queue cdc (rr_buffer rr) (drop 4 packet) (of_nat rtplen) False;
                   rr = rr\<lparr>rr_buffer := buffer\<rparr>
          in if \<not> ret \<ge> 0 then (AssertFailed, rr, packet, packetlen, [])
          else if 4 + packetlen > RAOP_PACKET_LEN
            then (Undefined, rr, packet, packetlen, [])  \<comment> \<open>\<open>memmove\<close> reads past the array\<close>
          else let packet = write_at 0 (take (packetlen - rtplen) (drop (4 + rtplen) packet)) packet;
                   packetlen = packetlen - (4 + rtplen)
          in (case raop_buffer_dequeue (rr_buffer rr) True of
                None \<Rightarrow> (Continue, rr, packet, packetlen, [])
              | Some (out, buffer) \<Rightarrow>
                  (if cb_process (rr_callbacks rr) then Continue else Undefined,
                   rr\<lparr>rr_buffer := buffer\<rparr>, packet, packetlen, play None [out])))"

definition tcp_iteration :: "'d codec \<Rightarrow> net_input \<Rightarrow> 'd raop_rtp \<Rightarrow> byte list \<Rightarrow> nat \<Rightarrow> int
    \<Rightarrow> outcome \<times> 'd raop_rtp \<times> byte list \<times> nat \<times> int \<times> rtp_event list" where
  "tcp_iteration cdc input rr packet packetlen stream_fd =
     (let (stop, rr, evs) = raop_rtp_process_events rr
      in if stop then (Break, rr, packet, packetlen, stream_fd, evs)
      else case input of
          SelectError \<Rightarrow> (Break, rr, packet, packetlen, stream_fd, evs)
        | Accepted fd \<Rightarrow>
            if stream_fd = -1
            then (if fd = -1 then Break else Continue, rr, packet, packetlen, fd, evs)
            else (Continue, rr, packet, packetlen, stream_fd, evs)
        | Received r \<Rightarrow>
            if stream_fd = -1 then (Continue, rr, packet, packetlen, stream_fd, evs)
            else (let (oc, rr, packet, packetlen, evs') = tcp_receive cdc rr packet packetlen r
                  in (oc, rr, packet, packetlen, stream_fd, evs @ evs'))
        | _ \<Rightarrow> (Continue, rr, packet, packetlen, stream_fd, evs))"

section \<open>Operations of the RTSP handlers\<close>

definition raop_rtp_start ::
  "byte list \<Rightarrow> (int \<times> u16) \<Rightarrow> (int \<times> u16) \<Rightarrow> (int \<times> u16) \<Rightarrow> bool \<Rightarrow> 'd raop_rtp \<Rightarrow> bool \<Rightarrow> u16 \<Rightarrow> u16
    \<Rightarrow> 'd raop_rtp \<times> (u16 \<times> u16 \<times> u16) option \<times> rtp_event list" where
  \<comment> \<open>\<open>stack\<close> is the indeterminate content of the new thread's packet array; the local ports are
     handed back on success only; the events include the first action of the new thread\<close>
  "raop_rtp_start stack c t d listen_ok rr use_udp control_rport timing_rport =
     (if rr_running rr \<or> \<not> rr_joined rr then (rr, None, [])
      else let rr = rr\<lparr>rr_control_rport := control_rport, rr_timing_rport := timing_rport\<rparr>;
               (ret, rr, evs) = raop_rtp_init_sockets c t d listen_ok use_udp rr
      in if ret < 0 then (rr, None, evs)
      else let config = raop_buffer_get_config (rr_buffer rr)
      in (rr\<lparr>rr_running := True, rr_joined := False,
             rr_thread := (if use_udp then Udp stack else Tcp stack 0 (-1))\<rparr>,
          Some (rr_control_lport rr, rr_timing_lport rr, rr_data_lport rr),
          evs @ [AudioInit (bitDepth config) (numChannels config) (sampleRate config) (\<not> use_udp)]))"

fun cfloat_gt0 :: "cfloat \<Rightarrow> bool" where
  "cfloat_gt0 (Fin r) = (r > 0)" | "cfloat_gt0 PosInf = True" | "cfloat_gt0 _ = False"

fun cfloat_lt_min :: "cfloat \<Rightarrow> bool" where
  "cfloat_lt_min (Fin r) = (r < -30)" | "cfloat_lt_min NegInf = True" | "cfloat_lt_min _ = False"

definition raop_rtp_set_volume :: "'d raop_rtp \<Rightarrow> cfloat \<Rightarrow> 'd raop_rtp" where
  "raop_rtp_set_volume rr volume =
     (let volume = (if cfloat_gt0 volume then Fin 0 else if cfloat_lt_min volume then Fin (-30) else volume)
      in rr\<lparr>rr_volume := volume, rr_volume_changed := True\<rparr>)"

definition raop_rtp_set_metadata :: "'d raop_rtp \<Rightarrow> byte list \<Rightarrow> int \<Rightarrow> 'd raop_rtp" where
  "raop_rtp_set_metadata rr data datalen =
     (if datalen \<le> 0 then rr else rr\<lparr>rr_metadata := Some (take (nat datalen) data)\<rparr>)"

definition raop_rtp_set_coverart :: "'d raop_rtp \<Rightarrow> byte list \<Rightarrow> int \<Rightarrow> 'd raop_rtp" where
  "raop_rtp_set_coverart rr data datalen =
     (if datalen \<le> 0 then rr else rr\<lparr>rr_coverart := Some (take (nat datalen) data)\<rparr>)"

definition raop_rtp_remote_control_id :: "'d raop_rtp \<Rightarrow> string option \<Rightarrow> string option \<Rightarrow> 'd raop_rtp" where
  "raop_rtp_remote_control_id rr dacp_id active_remote_header =
     (if dacp_id = None \<or> active_remote_header = None then rr
      else rr\<lparr>rr_dacp_id := dacp_id, rr_active_remote_header := active_remote_header\<rparr>)"

definition raop_rtp_set_progress :: "'d raop_rtp \<Rightarrow> u32 \<Rightarrow> u32 \<Rightarrow> u32 \<Rightarrow> 'd raop_rtp" where
  "raop_rtp_set_progress rr start cur fin = rr\<lparr>rr_progress := (start, cur, fin), rr_progress_changed := True\<rparr>"

definition raop_rtp_flush :: "'d raop_rtp \<Rightarrow> int \<Rightarrow> 'd raop_rtp" where
  "raop_rtp_flush rr next_seq = rr\<lparr>rr_flush := next_seq\<rparr>"

definition thread_exit :: "'d raop_rtp \<Rightarrow> 'd raop_rtp \<times> rtp_event list" where
  \<comment> \<open>the code after the loop of either thread\<close>
  "thread_exit rr =
     (case rr_thread rr of
        Udp _ \<Rightarrow> (rr\<lparr>rr_thread := Finished\<rparr>, when_cb (cb_destroy (rr_callbacks rr)) [AudioDestroy])
      | Tcp _ _ fd \<Rightarrow> (rr\<lparr>rr_thread := Finished\<rparr>, when_cb (fd \<noteq> -1) [CloseSocket fd]
                          @ [if cb_destroy (rr_callbacks rr) then AudioDestroy else NullCall])
      | _ \<Rightarrow> (rr, []))"

definition stop_begin :: "'d raop_rtp \<Rightarrow> bool \<times> 'd raop_rtp" where
  \<comment> \<open>up to \<open>THREAD_JOIN\<close>: whether to join\<close>
  "stop_begin rr = (if \<not> rr_running rr \<or> rr_joined rr then (False, rr) else (True, rr\<lparr>rr_running := False\<rparr>))"

definition stop_end :: "'d raop_rtp \<Rightarrow> 'd raop_rtp \<times> rtp_event list" where
  \<comment> \<open>after the thread has been joined\<close>
  "stop_end rr =
     (rr\<lparr>rr_buffer := raop_buffer_flush (rr_buffer rr) (-1), rr_joined := True\<rparr>,
      map CloseSocket (filter (\<lambda>s. s \<noteq> -1) [rr_csock rr, rr_tsock rr, rr_dsock rr]))"

definition raop_rtp_stop :: "'d raop_rtp \<Rightarrow> 'd raop_rtp \<times> rtp_event list" where
  \<comment> \<open>with no other operation in between: the thread's next turn finds \<open>running\<close> cleared and ends\<close>
  "raop_rtp_stop rr =
     (let (join, rr) = stop_begin rr
      in if \<not> join then (rr, [])
      else let (rr, evs) = thread_exit rr; (rr, evs') = stop_end rr in (rr, evs @ evs'))"

definition raop_rtp_thread :: "'d codec \<Rightarrow> net_input \<Rightarrow> 'd raop_rtp \<Rightarrow> (outcome \<times> 'd raop_rtp \<times> rtp_event list) option" where
  \<comment> \<open>one turn of whichever thread is running\<close>
  "raop_rtp_thread cdc input rr =
     (case rr_thread rr of
        Udp packet \<Rightarrow>
          map_option (\<lambda>(oc, rr, packet, evs).
             if oc = Break then (let (rr, evs') = thread_exit (rr\<lparr>rr_thread := Udp packet\<rparr>) in (oc, rr, evs @ evs'))
             else (oc, rr\<lparr>rr_thread := Udp packet\<rparr>, evs))
            (udp_iteration cdc input rr packet)
      | Tcp packet packetlen fd \<Rightarrow>
          (let (oc, rr, packet, packetlen, fd, evs) = tcp_iteration cdc input rr packet packetlen fd;
               rr = rr\<lparr>rr_thread := Tcp packet packetlen fd\<rparr>
           in Some (if oc = Break then (let (rr, evs') = thread_exit rr in (oc, rr, evs @ evs')) else (oc, rr, evs)))
      | _ \<Rightarrow> Some (Break, rr, []))"

section \<open>Interleavings\<close>

text \<open>
  The operations of the RTSP handlers, the turns of the thread and the two halves of a stop in any
  order; \<open>THREAD_JOIN\<close> returns once the thread is no longer alive.
\<close>

definition alive :: "thread \<Rightarrow> bool" where
  "alive th = (case th of Udp _ \<Rightarrow> True | Tcp _ _ _ \<Rightarrow> True | _ \<Rightarrow> False)"

inductive rtp_reachable :: "'d codec \<Rightarrow> 'd raop_rtp \<Rightarrow> bool" for cdc where
  init: "raop_rtp_init cdc calloc_ok bcalloc_ok malloc parse_address cbs remote rtpmap fmtp aeskey aesiv = Some (Some rr)
    \<Longrightarrow> rtp_reachable cdc rr"
| start: "rtp_reachable cdc rr \<Longrightarrow> raop_rtp_start stack c t d listen_ok rr use_udp cport tport = (rr', ports, evs)
    \<Longrightarrow> rtp_reachable cdc rr'"
| volume: "rtp_reachable cdc rr \<Longrightarrow> rtp_reachable cdc (raop_rtp_set_volume rr v)"
| metadata: "rtp_reachable cdc rr \<Longrightarrow> rtp_reachable cdc (raop_rtp_set_metadata rr bs n)"
| coverart: "rtp_reachable cdc rr \<Longrightarrow> rtp_reachable cdc (raop_rtp_set_coverart rr bs n)"
| remote: "rtp_reachable cdc rr \<Longrightarrow> rtp_reachable cdc (raop_rtp_remote_control_id rr dacp hdr)"
| progress: "rtp_reachable cdc rr \<Longrightarrow> rtp_reachable cdc (raop_rtp_set_progress rr p q r)"
| flush: "rtp_reachable cdc rr \<Longrightarrow> rtp_reachable cdc (raop_rtp_flush rr n)"
| thread: "rtp_reachable cdc rr \<Longrightarrow> raop_rtp_thread cdc input rr = Some (oc, rr', evs) \<Longrightarrow> rtp_reachable cdc rr'"
| stop_begin: "rtp_reachable cdc rr \<Longrightarrow> rtp_reachable cdc (snd (stop_begin rr))"
| stop_end: "rtp_reachable cdc rr \<Longrightarrow> \<not> rr_running rr \<Longrightarrow> \<not> rr_joined rr \<Longrightarrow> \<not> alive (rr_thread rr)
    \<Longrightarrow> rtp_reachable cdc (fst (stop_end rr))"

definition rtp_inv :: "'d raop_rtp \<Rightarrow> bool" where
  "rtp_inv rr \<longleftrightarrow> rb_wf (rr_buffer rr) \<and> (rr_running rr \<longrightarrow> \<not> rr_joined rr)
     \<and> (rr_joined rr \<longrightarrow> \<not> alive (rr_thread rr))
     \<and> (rr_volume rr = NaN \<or> (\<exists>v. rr_volume rr = Fin v \<and> - 30 \<le> v \<and> v \<le> 0))"

section \<open>The invariant\<close>

lemma parse_remote_keeps:
  "raop_rtp_parse_remote pa rr remote = Some (ret, rr') \<Longrightarrow>
    \<exists>sa n. rr' = rr\<lparr>rr_remote_saddr := sa, rr_remote_saddr_len := n\<rparr>"
proof -
  have self: "\<exists>sa n. rr = rr\<lparr>rr_remote_saddr := sa, rr_remote_saddr_len := n\<rparr>"
    by (rule exI [of _ "rr_remote_saddr rr"], rule exI [of _ "rr_remote_saddr_len rr"]) simp
  show "raop_rtp_parse_remote pa rr remote = Some (ret, rr') \<Longrightarrow> ?thesis"
    using self by (auto simp: raop_rtp_parse_remote_def Let_def split: if_splits option.splits prod.splits)
qed

lemma rtp_inv_init:
  assumes "raop_rtp_init cdc calloc_ok bcalloc_ok malloc pa cbs remote rtpmap fmtp aeskey aesiv = Some (Some rr)"
  shows "rtp_inv rr"
proof -
  obtain cn buffer rr0 rr1 ret where
    b: "raop_buffer_init cdc bcalloc_ok malloc fmtp aeskey aesiv 1 cn = Some (Some buffer)"
    and r: "raop_rtp_parse_remote pa rr0 remote = Some (ret, rr1)"
    and rr0: "rr_buffer rr0 = buffer" "rr_volume rr0 = Fin 0" "rr_thread rr0 = NoThread"
    and rr: "rr = rr1\<lparr>rr_running := False, rr_joined := True, rr_flush := NO_FLUSH\<rparr>"
    using assms by (simp add: raop_rtp_init_def Let_def split: if_splits option.splits prod.splits)
  obtain sa n where "rr1 = rr0\<lparr>rr_remote_saddr := sa, rr_remote_saddr_len := n\<rparr>"
    using parse_remote_keeps [OF r] by blast
  then show ?thesis using init_SomeD(1) [OF b] rr0 by (simp add: rr rtp_inv_def alive_def)
qed

lemma init_sockets_keeps:
  assumes "raop_rtp_init_sockets c t d listen_ok use_udp rr = (ret, rr', evs)"
  shows "rr_buffer rr' = rr_buffer rr" "rr_running rr' = rr_running rr" "rr_joined rr' = rr_joined rr"
    "rr_volume rr' = rr_volume rr" "rr_thread rr' = rr_thread rr"
  using assms by (auto simp: raop_rtp_init_sockets_def Let_def split: if_splits prod.splits)

lemma rtp_inv_start:
  assumes "rtp_inv rr" "raop_rtp_start stack c t d listen_ok rr use_udp cport tport = (rr', ports, evs)"
  shows "rtp_inv rr'"
proof (cases "rr_running rr \<or> \<not> rr_joined rr")
  case False
  obtain ret rr1 evs1 where i: "raop_rtp_init_sockets c t d listen_ok use_udp
      (rr\<lparr>rr_control_rport := cport, rr_timing_rport := tport\<rparr>) = (ret, rr1, evs1)"
    by (metis prod_cases3)
  show ?thesis
    using assms False init_sockets_keeps [OF i] i
    by (auto simp: raop_rtp_start_def rtp_inv_def Let_def split: if_splits)
qed (use assms in \<open>auto simp: raop_rtp_start_def\<close>)

lemma rtp_inv_set_volume: "rtp_inv rr \<Longrightarrow> rtp_inv (raop_rtp_set_volume rr v)"
  by (cases v) (auto simp: raop_rtp_set_volume_def rtp_inv_def Let_def)

lemma rtp_inv_setters:
  assumes "rtp_inv rr"
  shows "rtp_inv (raop_rtp_set_metadata rr bs n)" "rtp_inv (raop_rtp_set_coverart rr bs n)"
    "rtp_inv (raop_rtp_remote_control_id rr dacp hdr)" "rtp_inv (raop_rtp_set_progress rr p q r)"
    "rtp_inv (raop_rtp_flush rr k)"
  using assms
  by (simp_all add: rtp_inv_def raop_rtp_set_metadata_def raop_rtp_set_coverart_def
      raop_rtp_remote_control_id_def raop_rtp_set_progress_def raop_rtp_flush_def)

text \<open>What a turn of the thread leaves alone.\<close>

definition same_life :: "'d raop_rtp \<Rightarrow> 'd raop_rtp \<Rightarrow> bool" where
  "same_life rr rr' \<longleftrightarrow> rr_running rr' = rr_running rr \<and> rr_joined rr' = rr_joined rr
     \<and> rr_volume rr' = rr_volume rr \<and> rr_thread rr' = rr_thread rr
     \<and> (rb_wf (rr_buffer rr) \<longrightarrow> rb_wf (rr_buffer rr'))"

lemma same_life_trans: "same_life rr rr' \<Longrightarrow> same_life rr' rr'' \<Longrightarrow> same_life rr rr''"
  by (simp add: same_life_def)

lemma same_life_refl [simp]: "same_life rr rr"
  by (simp add: same_life_def)

lemma process_events_life: "raop_rtp_process_events rr = (stop, rr', evs) \<Longrightarrow> same_life rr rr' \<and> (stop \<longleftrightarrow> \<not> rr_running rr)"
  by (auto simp: raop_rtp_process_events_def same_life_def Let_def intro: rb_wf_flush split: if_splits)

lemma udp_control_life: "udp_control cdc rr packet r saddr = (oc, rr', packet', evs) \<Longrightarrow> same_life rr rr' \<and> evs = [] \<and> oc \<noteq> Break"
  using rb_wf_queue [of "rr_buffer rr" cdc]
  by (auto simp: udp_control_def same_life_def Let_def split: if_splits prod.splits) (metis snd_conv)+

lemma udp_data_life:
  assumes "udp_data cdc rr packet r = Some (oc, rr', packet', evs)"
  shows "same_life rr rr' \<and> oc \<noteq> Break"
proof -
  have q: "rb_wf b" if "rb_wf (rr_buffer rr)" "raop_buffer_queue cdc (rr_buffer rr) d n u = (x, b)" for d n u x b
    using rb_wf_queue [OF that(1), of cdc d n u] that(2) by simp
  have d: "rb_wf b'" if "rb_wf b" "drain (rb_take nr) b = Some (outs, b')" for b b' nr outs
    using drain_window [OF that] by simp
  have h: "rb_wf b'" if "rb_wf b" "raop_buffer_handle_resends b = (b', rq)" for b b' rq
    using handle_resends_keeps(1) [OF that(1)] that(2) by simp
  show ?thesis
    using assms
    by (auto simp: udp_data_def same_life_def raop_rtp_resend_callback_def Let_def dest: q
        split: if_splits prod.splits option.splits Option.bind_splits) (blast intro: q d h)+
qed

lemma tcp_receive_life:
  assumes "tcp_receive cdc rr packet packetlen r = (oc, rr', packet', packetlen', evs)"
  shows "same_life rr rr'"
proof -
  have q: "rb_wf b" if "rb_wf (rr_buffer rr)" "raop_buffer_queue cdc (rr_buffer rr) d n u = (x, b)" for d n u x b
    using rb_wf_queue [OF that(1), of cdc d n u] that(2) by simp
  have t: "rb_wf b'" if "rb_wf b" "raop_buffer_dequeue b True = Some (out, b')" for b b' out
    by (rule rb_wf_dequeue [OF that])
  show ?thesis
    using assms
    by (auto simp: tcp_receive_def same_life_def Let_def dest: q split: if_splits prod.splits option.splits)
      (blast intro: q t)+
qed

lemma udp_iteration_life:
  assumes "udp_iteration cdc input rr packet = Some (oc, rr', packet', evs)"
  shows "same_life rr rr'" "\<not> rr_running rr \<Longrightarrow> oc = Break"
proof -
  obtain stop rr1 evs1 where pe: "raop_rtp_process_events rr = (stop, rr1, evs1)" by (metis prod_cases3)
  note l = process_events_life [OF pe]
  show "\<not> rr_running rr \<Longrightarrow> oc = Break"
    using assms pe l by (simp add: udp_iteration_def)
  show "same_life rr rr'"
  proof (cases stop)
    case True
    then show ?thesis using assms pe l by (simp add: udp_iteration_def)
  next
    case False
    then obtain evs2 where "(case input of SelectError \<Rightarrow> Some (Break, rr1, packet, [])
         | ControlReady r saddr \<Rightarrow> Some (udp_control cdc rr1 packet r saddr)
         | DataReady r \<Rightarrow> udp_data cdc rr1 packet r
         | _ \<Rightarrow> Some (Continue, rr1, packet, [])) = Some (oc, rr', packet', evs2)"
      using assms pe by (auto simp: udp_iteration_def)
    then have "same_life rr1 rr'"
      using udp_control_life [of cdc rr1 packet _ _ oc rr' packet' evs2] udp_data_life [of cdc rr1 packet _ oc rr' packet' evs2]
      by (cases input) auto
    then show ?thesis using l same_life_trans by blast
  qed
qed

lemma tcp_iteration_life:
  assumes "tcp_iteration cdc input rr packet packetlen fd = (oc, rr', packet', packetlen', fd', evs)"
  shows "same_life rr rr'" "\<not> rr_running rr \<Longrightarrow> oc = Break"
proof -
  obtain stop rr1 evs1 where pe: "raop_rtp_process_events rr = (stop, rr1, evs1)" by (metis prod_cases3)
  note l = process_events_life [OF pe]
  show "\<not> rr_running rr \<Longrightarrow> oc = Break"
    using assms pe l by (simp add: tcp_iteration_def)
  have "same_life rr1 rr'"
    using assms pe tcp_receive_life [of cdc rr1 packet packetlen]
    by (cases input) (auto simp: tcp_iteration_def Let_def split: if_splits prod.splits)
  then show "same_life rr rr'" using l same_life_trans by blast
qed

lemma thread_exit_keeps:
  "thread_exit rr = (rr', evs) \<Longrightarrow> rr' = rr\<lparr>rr_thread := rr_thread rr'\<rparr> \<and> \<not> alive (rr_thread rr')"
  by (cases "rr_thread rr") (auto simp: thread_exit_def alive_def)

lemma thread_turn:
  assumes "raop_rtp_thread cdc input rr = Some (oc, rr', evs)" "alive (rr_thread rr)"
  shows "\<exists>rr1 th. same_life rr rr1 \<and> rr' = rr1\<lparr>rr_thread := th\<rparr>"
    "\<not> rr_running rr \<Longrightarrow> oc = Break" "oc = Break \<Longrightarrow> rr_thread rr' = Finished"
proof -
  have "(\<exists>rr1 th. same_life rr rr1 \<and> rr' = rr1\<lparr>rr_thread := th\<rparr>) \<and> (\<not> rr_running rr \<longrightarrow> oc = Break)
    \<and> (oc = Break \<longrightarrow> rr_thread rr' = Finished)"
  proof (cases "rr_thread rr")
    case (Udp packet)
    obtain oc1 rr1 packet1 evs1 where "udp_iteration cdc input rr packet = Some (oc1, rr1, packet1, evs1)"
      using assms Udp by (cases "udp_iteration cdc input rr packet") (auto simp: raop_rtp_thread_def)
    then have u: "udp_iteration cdc input rr packet = Some (oc, rr1, packet1, evs1)"
      and r: "rr' = (if oc = Break then rr1\<lparr>rr_thread := Finished\<rparr> else rr1\<lparr>rr_thread := Udp packet1\<rparr>)"
      using assms Udp by (auto simp: raop_rtp_thread_def thread_exit_def split: if_splits)
    then show ?thesis using udp_iteration_life [OF u] by auto
  next
    case (Tcp packet packetlen fd)
    obtain oc1 rr1 packet1 packetlen1 fd1 evs1 where
      t: "tcp_iteration cdc input rr packet packetlen fd = (oc1, rr1, packet1, packetlen1, fd1, evs1)"
      by (metis prod_cases6)
    then have r: "oc1 = oc" "rr' = (if oc = Break then rr1\<lparr>rr_thread := Finished\<rparr> else rr1\<lparr>rr_thread := Tcp packet1 packetlen1 fd1\<rparr>)"
      using assms Tcp by (auto simp: raop_rtp_thread_def thread_exit_def Let_def split: if_splits)
    then show ?thesis using tcp_iteration_life [OF t] by auto
  qed (use assms(2) in \<open>simp_all add: alive_def\<close>)
  then show "\<exists>rr1 th. same_life rr rr1 \<and> rr' = rr1\<lparr>rr_thread := th\<rparr>"
    "\<not> rr_running rr \<Longrightarrow> oc = Break" "oc = Break \<Longrightarrow> rr_thread rr' = Finished" by auto
qed

lemma rtp_inv_thread:
  assumes i: "rtp_inv rr" and t: "raop_rtp_thread cdc input rr = Some (oc, rr', evs)"
  shows "rtp_inv rr'"
proof (cases "alive (rr_thread rr)")
  case True
  then obtain rr1 th where "same_life rr rr1" "rr' = rr1\<lparr>rr_thread := th\<rparr>"
    using thread_turn(1) [OF t] by blast
  then have "rr_running rr' = rr_running rr" "rr_joined rr' = rr_joined rr" "rr_volume rr' = rr_volume rr"
    "rb_wf (rr_buffer rr) \<longrightarrow> rb_wf (rr_buffer rr')"
    by (simp_all add: same_life_def)
  then show ?thesis using i True by (auto simp: rtp_inv_def)
next
  case False
  then have "rr' = rr" using t by (auto simp: raop_rtp_thread_def alive_def split: thread.splits)
  then show ?thesis using i by simp
qed

lemma udp_data_defined: "rb_wf (rr_buffer rr) \<Longrightarrow> udp_data cdc rr packet r \<noteq> None"
proof -
  assume wf: "rb_wf (rr_buffer rr)"
  obtain ret b where q: "raop_buffer_queue cdc (rr_buffer rr) (recv_into 0 r packet) (ucast (recv_len r)) True = (ret, b)"
    by fastforce
  have "rb_wf b" using rb_wf_queue [OF wf, of cdc "recv_into 0 r packet" "ucast (recv_len r)" True] q by simp
  from rbuf.drain_ends [OF this] obtain outs b' where "drain (rb_take (rr_control_rport rr = 0)) b = Some (outs, b')"
    by blast
  then show "udp_data cdc rr packet r \<noteq> None"
    using q by (auto simp: udp_data_def Let_def split: prod.splits option.splits)
qed

lemma thread_defined: "rtp_inv rr \<Longrightarrow> raop_rtp_thread cdc input rr \<noteq> None"
proof -
  assume i: "rtp_inv rr"
  have "udp_iteration cdc input rr packet \<noteq> None" for packet
  proof -
    obtain stop rr1 evs1 where pe: "raop_rtp_process_events rr = (stop, rr1, evs1)" by (metis prod_cases3)
    then have "rb_wf (rr_buffer rr1)" using process_events_life [OF pe] i by (simp add: rtp_inv_def same_life_def)
    then show ?thesis using pe udp_data_defined [of rr1 cdc packet]
      by (auto simp: udp_iteration_def split: net_input.split) (metis prod_cases4)
  qed
  then show "raop_rtp_thread cdc input rr \<noteq> None" by (cases "rr_thread rr") (simp_all add: raop_rtp_thread_def Let_def del: not_None_eq split: prod.split)
qed

lemma rtp_reachable_inv: "rtp_reachable cdc rr \<Longrightarrow> rtp_inv rr"
proof (induction rule: rtp_reachable.induct)
  case (init calloc_ok bcalloc_ok malloc parse_address cbs remote rtpmap fmtp aeskey aesiv rr)
  then show ?case by (rule rtp_inv_init)
next
  case (stop_begin rr)
  then show ?case by (auto simp: stop_begin_def rtp_inv_def)
next
  case (stop_end rr)
  then show ?case by (auto simp: stop_end_def rtp_inv_def rb_wf_flush)
qed (auto intro: rtp_inv_start rtp_inv_set_volume rtp_inv_setters rtp_inv_thread)

text \<open>
  C5. Under every interleaving of the handlers' operations, the thread's turns and both halves of a
  stop: the jitter buffer stays well formed, a running receiver is not joined, a joined one has no
  live thread, the volume stays within -30 and 0 (or is NaN); every turn of the thread ends; and once a stop is pending
  the very next turn leaves the loop, so the join returns.
\<close>

theorem rtp_interleavings_safe:
  assumes "rtp_reachable cdc rr"
  shows "rtp_inv rr \<and> (\<exists>oc rr' evs. raop_rtp_thread cdc input rr = Some (oc, rr', evs)
    \<and> (\<not> rr_running rr \<and> alive (rr_thread rr) \<longrightarrow> oc = Break \<and> rr_thread rr' = Finished))"
proof -
  have i: "rtp_inv rr" by (rule rtp_reachable_inv [OF assms])
  obtain oc rr' evs where t: "raop_rtp_thread cdc input rr = Some (oc, rr', evs)"
    using thread_defined [OF i, of cdc input] by auto
  then show ?thesis using i thread_turn(2,3) [OF t] by auto
qed

lemma recv_len_Some: "length bs \<le> RAOP_PACKET_LEN \<Longrightarrow> unat (recv_len (Some bs)) = length bs"
  by (simp add: recv_len_def unsigned_of_nat take_bit_eq_mod)

lemma control_datalen_Some:
  assumes "12 \<le> length bs" "length bs \<le> RAOP_PACKET_LEN"
  shows "valid_datalen (ucast (recv_len (Some bs) - 4)) \<longleftrightarrow> 16 \<le> length bs"
proof -
  have u: "unat (recv_len (Some bs)) = length bs" by (rule recv_len_Some [OF assms(2)])
  then have "unat (recv_len (Some bs) - 4) = length bs - 4"
    using assms(1) by (subst unat_sub) (simp_all add: word_le_nat_alt)
  then have "unat (ucast (recv_len (Some bs) - 4) :: u16) = length bs - 4"
    using assms(2) by (simp add: unsigned_ucast_eq take_bit_eq_mod)
  then show ?thesis using assms by (auto simp: valid_datalen_def)
qed

lemma control_datalen_None: "\<not> valid_datalen (ucast (recv_len None - 4))"
  by (simp add: recv_len_def valid_datalen_def)

text \<open>
  The assertion in the control branch of the UDP thread fails exactly for a resent packet (type
  0x56) of 12 to 15 bytes, or when \<open>recvfrom\<close> fails while the array still holds such a packet.
\<close>

theorem udp_control_assert_iff:
  assumes wf: "rb_wf (rr_buffer rr)" and len: "\<forall>bs. r = Some bs \<longrightarrow> length bs \<le> RAOP_PACKET_LEN"
  shows "fst (udp_control cdc rr packet r saddr) = AssertFailed \<longleftrightarrow>
    recv_into 0 r packet ! 1 AND NOT 0x80 = 0x56
    \<and> (case r of None \<Rightarrow> True | Some bs \<Rightarrow> 12 \<le> length bs \<and> length bs < 16)"
proof -
  have small: "recv_len r < 12 \<longleftrightarrow> (case r of None \<Rightarrow> False | Some bs \<Rightarrow> length bs < 12)"
  proof (cases r)
    case None
    then show ?thesis by (simp add: recv_len_def)
  next
    case (Some bs)
    then show ?thesis using len recv_len_Some [of bs] by (simp add: word_less_nat_alt)
  qed
  have valid: "valid_datalen (ucast (recv_len r - 4)) \<longleftrightarrow> (case r of None \<Rightarrow> False | Some bs \<Rightarrow> 16 \<le> length bs)"
    if "\<not> recv_len r < 12"
    using that small len control_datalen_Some control_datalen_None by (auto split: option.splits)
  have "fst (raop_buffer_queue cdc (rr_buffer rr) d n True) \<ge> 0 \<longleftrightarrow> valid_datalen n" for d n
    using queue_result [OF wf, of cdc d n True] by (auto split: if_splits)
  then have "fst (udp_control cdc rr packet r saddr) = AssertFailed \<longleftrightarrow>
      \<not> recv_len r < 12 \<and> recv_into 0 r packet ! 1 AND NOT 0x80 = 0x56 \<and> \<not> valid_datalen (ucast (recv_len r - 4))"
    by (auto simp: udp_control_def Let_def split: prod.split) (metis fst_conv)+
  then show ?thesis using small valid by (auto split: option.splits)
qed

section \<open>Data packets\<close>

text \<open>
  C6. A data packet of 12 to 32768 bytes never trips the assertion of the UDP thread: it is put
  into the jitter buffer, the ready front of the buffer is played in order, and, unless resends are off, one
  request is then sent for exactly the run of packets at the new front that are missing and not marked as
  requested, at most up to the last place of the window: its first number and length are in the datagram, the
  run is marked and nothing else of the buffer changes.
\<close>

theorem udp_data_plays_in_order:
  fixes rr :: "'d raop_rtp" and cdc :: "'d codec" and packet bs :: "byte list"
  assumes wf: "rb_wf (rr_buffer rr)" and len: "12 \<le> length bs" "length bs \<le> RAOP_PACKET_LEN"
  defines "nr \<equiv> rr_control_rport rr = 0"
    and "b1 \<equiv> snd (raop_buffer_queue cdc (rr_buffer rr) (write_at 0 bs packet) (of_nat (length bs)) True)"
  shows "\<exists>outs b2 rr' evs n. udp_data cdc rr packet (Some bs) = Some (Continue, rr', write_at 0 bs packet, evs)
    \<and> drain (rb_take nr) b1 = Some (outs, b2)
    \<and> list_all2 delivers (jb_ready nr (if rb_is_empty b1 then [] else rb_window b1)) outs
    \<and> rb_first b2 = rb_first b1 + of_nat (length outs)
    \<and> (nr \<longrightarrow> n = 0) \<and> n \<le> rb_count b2 - 1
    \<and> (\<forall>j < n. requestable (rb_entries b2 ! slot (rb_first b2 + of_nat j)))
    \<and> (\<not> nr \<and> n < rb_count b2 - 1 \<longrightarrow> \<not> requestable (rb_entries b2 ! slot (rb_first b2 + of_nat n)))
    \<and> rr_buffer rr' = b2\<lparr>rb_entries := marked (rb_first b2) 0 n (rb_entries b2)\<rparr>
    \<and> evs = when_cb (cb_process (rr_callbacks rr)) (play None outs)
        @ (if n = 0 then [] else [SendTo (rr_csock rr)
            (resend_packet (rr_control_seqnum rr) (rb_first b2) (of_nat n)) (rr_control_saddr rr)])"
proof -
  let ?pk = "write_at 0 bs packet" and ?n = "of_nat (length bs) :: u16"
  have "unat (ucast (recv_len (Some bs)) :: u16) = unat ?n"
    using len recv_len_Some [OF len(2)] by (simp add: unsigned_ucast_eq unsigned_of_nat take_bit_eq_mod)
  then have n: "ucast (recv_len (Some bs)) = ?n" "\<not> recv_len (Some bs) < 12"
    using len recv_len_Some [OF len(2)] by (simp_all only: word_unat_eq_iff word_less_nat_alt) simp
  have v: "valid_datalen ?n" using len by (simp add: valid_datalen_def unsigned_of_nat take_bit_eq_mod)
  obtain ret where q: "raop_buffer_queue cdc (rr_buffer rr) ?pk ?n True = (ret, b1)" "0 \<le> ret"
    using queue_result [OF wf, of cdc ?pk ?n True] v by (cases "raop_buffer_queue cdc (rr_buffer rr) ?pk ?n True") (auto simp: b1_def)
  have wf1: "rb_wf b1" unfolding b1_def by (rule rb_wf_queue [OF wf])
  obtain outs b2 where d: "drain (rb_take nr) b1 = Some (outs, b2)" using rbuf.drain_ends [OF wf1] by blast
  obtain b3 rq where h: "raop_buffer_handle_resends b2 = (b3, rq)" by fastforce
  have ud: "udp_data cdc rr packet (Some bs) = (let rr1 = rr\<lparr>rr_buffer := b2\<rparr>; audio = when_cb (cb_process (rr_callbacks rr)) (play None outs)
      in if nr then Some (Continue, rr1, ?pk, audio)
      else let rr2 = rr\<lparr>rr_buffer := b3\<rparr> in case rq of None \<Rightarrow> Some (Continue, rr2, ?pk, audio)
        | Some (s, k) \<Rightarrow> (let (rr3, sent) = raop_rtp_resend_callback rr2 s k in Some (Continue, rr3, ?pk, audio @ sent)))"
    using n q d h by (cases rq) (simp_all add: udp_data_def recv_into_def Let_def nr_def split: prod.split)
  have ne1: "\<not> rb_is_empty b1" unfolding b1_def by (rule queue_nonempty [OF wf v])
  have w: "rb_wf b2" "\<not> rb_is_empty b2" "list_all2 delivers (jb_ready nr (if rb_is_empty b1 then [] else rb_window b1)) outs"
    "rb_first b2 = rb_first b1 + of_nat (length outs)"
    using drain_window [OF wf1 d] ne1 by simp_all
  obtain n where n: "n \<le> rb_count b2 - 1" "\<forall>j < n. requestable (rb_entries b2 ! slot (rb_first b2 + of_nat j))"
    "n < rb_count b2 - 1 \<longrightarrow> \<not> requestable (rb_entries b2 ! slot (rb_first b2 + of_nat n))"
    "b3 = b2\<lparr>rb_entries := marked (rb_first b2) 0 n (rb_entries b2)\<rparr>" "rq = (if n = 0 then None else Some (rb_first b2, of_nat n))"
    using handle_resends_exact [OF w(1,2)] h by auto
  show ?thesis
  proof (cases nr)
    case True
    have "b2 = b2\<lparr>rb_entries := marked (rb_first b2) 0 0 (rb_entries b2)\<rparr>" by (simp add: marked_empty)
    then show ?thesis using True ud d w(3,4) by (intro exI [of _ outs] exI [of _ b2] exI [of _ "rr\<lparr>rr_buffer := b2\<rparr>"]
      exI [of _ "when_cb (cb_process (rr_callbacks rr)) (play None outs)"] exI [of _ 0]) (simp add: Let_def)
  next
    case False
    define rr' where "rr' = (if n = 0 then rr\<lparr>rr_buffer := b3\<rparr> else fst (raop_rtp_resend_callback (rr\<lparr>rr_buffer := b3\<rparr>) (rb_first b2) (of_nat n)))"
    have "rr_buffer rr' = b3" by (simp add: rr'_def raop_rtp_resend_callback_def)
    moreover have "udp_data cdc rr packet (Some bs) = Some (Continue, rr', ?pk, when_cb (cb_process (rr_callbacks rr)) (play None outs)
        @ (if n = 0 then [] else [SendTo (rr_csock rr) (resend_packet (rr_control_seqnum rr) (rb_first b2) (of_nat n)) (rr_control_saddr rr)]))"
      using ud False n(5) by (simp add: rr'_def raop_rtp_resend_callback_def Let_def)
    ultimately show ?thesis using False d w(3,4) n(1-4) by blast
  qed
qed

section \<open>The TCP framing\<close>

lemma take_4_Cons: "4 \<le> n \<Longrightarrow> take n (a # b # c # d # xs) = a # b # c # d # take (n - 4) xs"
  by (auto simp: numeral_eq_Suc take_Cons' dest!: Suc_le_D)

text \<open>
  C30. The TCP thread loses and invents no bytes: after each \<open>recv\<close> the bytes kept in the array are
  the stream so far, less at most one complete frame \<open>$\<close> 0 length payload of at least 12 bytes taken
  off its front.
\<close>

theorem tcp_framing:
  assumes len: "length packet = RAOP_PACKET_LEN" "packetlen + length bs \<le> RAOP_PACKET_LEN"
    and wf: "rb_wf (rr_buffer rr)"
    and step: "tcp_receive cdc rr packet packetlen (Some bs) = (Continue, rr', packet', packetlen', evs)"
  shows "length packet' = RAOP_PACKET_LEN \<and> packetlen' \<le> RAOP_PACKET_LEN
    \<and> (let stream = take packetlen packet @ bs in
        take packetlen' packet' = stream \<and> rr' = rr \<and> evs = []
        \<or> (\<exists>hi lo payload. stream = 0x24 # 0 # hi # lo # payload @ take packetlen' packet'
              \<and> length payload = unat (be16 hi lo) \<and> 12 \<le> length payload))"
proof -
  define pk where "pk = write_at packetlen bs packet"
  define n where "n = packetlen + length bs"
  have pk: "length pk = 32768" "take n pk = take packetlen packet @ bs"
    using len by (simp_all add: pk_def n_def take_write_at_end)
  have n: "n \<le> 32768" using len by (simp add: n_def)
  define k where "k = unat (be16 (pk ! 2) (pk ! 3))"
  consider (keep) "rr' = rr" "packet' = pk" "packetlen' = n" "evs = []"
    | (frame) ret b where "4 + k \<le> n" "pk ! 0 = 0x24" "pk ! 1 = 0" "\<not> 4 + n > 32768"
        "raop_buffer_queue cdc (rr_buffer rr) (drop 4 pk) (be16 (pk ! 2) (pk ! 3)) False = (ret, b)" "0 \<le> ret"
        "packet' = write_at 0 (take (n - k) (drop (4 + k) pk)) pk" "packetlen' = n - (4 + k)"
    using step
    by (auto simp: tcp_receive_def Let_def pk_def n_def k_def split: if_splits prod.splits option.splits)
  then show ?thesis
  proof cases
    case keep
    then show ?thesis using pk n by simp
  next
    case frame
    have valid: "12 \<le> k"
      using queue_result [OF wf, of cdc "drop 4 pk" "be16 (pk ! 2) (pk ! 3)" False] frame(5,6)
      by (auto simp: valid_datalen_def k_def split: if_splits)
    have l: "length packet' = 32768" using frame pk by simp
    have rest: "take packetlen' packet' = take (n - (4 + k)) (drop (4 + k) pk)"
      using frame pk by (simp add: write_at_def)
    have "pk = pk ! 0 # pk ! 1 # pk ! 2 # pk ! 3 # drop 4 pk"
      using pk(1) by (simp add: Cons_nth_drop_Suc numeral_eq_Suc)
    then have "take n pk = pk ! 0 # pk ! 1 # pk ! 2 # pk ! 3 # take (n - 4) (drop 4 pk)"
      using take_4_Cons [of n "pk ! 0" "pk ! 1" "pk ! 2" "pk ! 3" "drop 4 pk"] frame(1) by simp
    moreover have "take (n - 4) (drop 4 pk) = take k (drop 4 pk) @ take (n - (4 + k)) (drop (4 + k) pk)"
      using frame(1) take_add [of k "n - (4 + k)" "drop 4 pk"] by (simp add: add.commute)
    ultimately have "take n pk = 0x24 # 0 # pk ! 2 # pk ! 3 # take k (drop 4 pk) @ take packetlen' packet'"
      using frame rest by simp
    moreover have "length (take k (drop 4 pk)) = unat (be16 (pk ! 2) (pk ! 3))"
      using pk frame(1) n by (simp add: k_def)
    ultimately have "\<exists>hi lo payload. take n pk = 0x24 # 0 # hi # lo # payload @ take packetlen' packet'
        \<and> length payload = unat (be16 hi lo) \<and> 12 \<le> length payload"
      using valid k_def by metis
    then show ?thesis using l n frame(8) unfolding pk(2) [symmetric] Let_def by simp
  qed
qed

section \<open>Sockets and the mailbox\<close>

definition sockets_opened :: "int \<times> u16 \<Rightarrow> int \<times> u16 \<Rightarrow> int \<times> u16 \<Rightarrow> bool \<Rightarrow> int list" where
  \<comment> \<open>the descriptors the three calls produced, as far as they are made\<close>
  "sockets_opened c t d use_udp = filter (\<lambda>s. s \<noteq> -1)
      (if \<not> use_udp then [fst d] else if fst c = -1 \<or> fst t = -1 then [fst c, fst t] else [fst c, fst t, fst d])"

lemma init_sockets_result:
  assumes "raop_rtp_init_sockets c t d listen_ok use_udp rr = (ret, rri, evsi)"
  shows "ret < 0 \<Longrightarrow> rri = rr \<and> evsi = map CloseSocket (sockets_opened c t d use_udp)"
    "\<not> ret < 0 \<Longrightarrow> evsi = [] \<and> filter (\<lambda>s. s \<noteq> -1) [rr_csock rri, rr_tsock rri, rr_dsock rri] = sockets_opened c t d use_udp"
proof -
  obtain cs cp ts tp ds dp where p: "c = (cs, cp)" "t = (ts, tp)" "d = (ds, dp)"
    by (metis surj_pair)
  consider "use_udp" "cs = -1 \<or> ts = -1" | "use_udp" "cs \<noteq> -1" "ts \<noteq> -1" "ds = -1"
    | "use_udp" "cs \<noteq> -1" "ts \<noteq> -1" "ds \<noteq> -1" | "\<not> use_udp" "ds = -1"
    | "\<not> use_udp" "ds \<noteq> -1" "listen_ok" | "\<not> use_udp" "ds \<noteq> -1" "\<not> listen_ok"
    by blast
  then have "(ret < 0 \<longrightarrow> rri = rr \<and> evsi = map CloseSocket (sockets_opened c t d use_udp))
    \<and> (\<not> ret < 0 \<longrightarrow> evsi = [] \<and> filter (\<lambda>s. s \<noteq> -1) [rr_csock rri, rr_tsock rri, rr_dsock rri] = sockets_opened c t d use_udp)"
    using assms unfolding p
    by cases (auto simp: raop_rtp_init_sockets_def sockets_opened_def Let_def)
  then show "ret < 0 \<Longrightarrow> rri = rr \<and> evsi = map CloseSocket (sockets_opened c t d use_udp)"
    "\<not> ret < 0 \<Longrightarrow> evsi = [] \<and> filter (\<lambda>s. s \<noteq> -1) [rr_csock rri, rr_tsock rri, rr_dsock rri] = sockets_opened c t d use_udp"
    by blast+
qed

text \<open>
  No socket leaks: when the set-up fails every socket opened so far is closed, the receiver
  stays as it was and no thread starts; when it succeeds the sockets are kept, and a stop closes
  exactly those, joins the thread and leaves the jitter buffer empty.
\<close>

theorem start_stop_sockets:
  assumes idle: "\<not> rr_running rr" "rr_joined rr"
    and start: "raop_rtp_start stack c t d listen_ok rr use_udp cport tport = (rr1, ports, evs1)"
    and stop: "raop_rtp_stop rr1 = (rr2, evs2)"
  defines "opened \<equiv> sockets_opened c t d use_udp"
  shows "case ports of
      None \<Rightarrow> evs1 = map CloseSocket opened \<and> evs2 = [] \<and> rr2 = rr1
        \<and> rr1 = rr\<lparr>rr_control_rport := cport, rr_timing_rport := tport\<rparr>
    | Some _ \<Rightarrow> (\<exists>ev. evs1 = [ev] \<and> (\<forall>s. ev \<noteq> CloseSocket s)) \<and> rr_running rr1 \<and> alive (rr_thread rr1)
        \<and> filter (\<lambda>ev. ev \<noteq> AudioDestroy \<and> ev \<noteq> NullCall) evs2 = map CloseSocket opened
        \<and> rr_joined rr2 \<and> \<not> rr_running rr2 \<and> rr_thread rr2 = Finished \<and> rb_abs (rr_buffer rr2) = None"
proof -
  let ?rr = "rr\<lparr>rr_control_rport := cport, rr_timing_rport := tport\<rparr>"
  obtain ret rri evsi where i: "raop_rtp_init_sockets c t d listen_ok use_udp ?rr = (ret, rri, evsi)"
    by (metis prod_cases3)
  show ?thesis
  proof (cases "ret < 0")
    case True
    then have r: "rr1 = rri" "ports = None" "evs1 = evsi" using start idle i by (simp_all add: raop_rtp_start_def)
    have f: "rri = ?rr" "evsi = map CloseSocket opened"
      using init_sockets_result(1) [OF i True] by (simp_all add: opened_def)
    then show ?thesis using stop idle r by (simp add: raop_rtp_stop_def stop_begin_def)
  next
    case False
    have s: "filter (\<lambda>s. s \<noteq> -1) [rr_csock rri, rr_tsock rri, rr_dsock rri] = opened" "evsi = []"
      using init_sockets_result(2) [OF i False] by (simp_all add: opened_def)
    have r: "rr1 = rri\<lparr>rr_running := True, rr_joined := False, rr_thread := (if use_udp then Udp stack else Tcp stack 0 (-1))\<rparr>"
      "ports \<noteq> None" "\<exists>b n r u. evs1 = [AudioInit b n r u]"
      using start idle i False s(2) by (auto simp: raop_rtp_start_def Let_def)
    have "raop_rtp_stop rr1 = (rri\<lparr>rr_running := False, rr_thread := Finished,
          rr_buffer := raop_buffer_flush (rr_buffer rri) (-1), rr_joined := True\<rparr>,
        (if cb_destroy (rr_callbacks rri) then [AudioDestroy] else if use_udp then [] else [NullCall]) @ map CloseSocket opened)"
      unfolding s(1) [symmetric] r(1)
      by (cases use_udp) (simp_all add: raop_rtp_stop_def stop_begin_def thread_exit_def stop_end_def when_cb_def Let_def)
    then have st: "rr2 = rri\<lparr>rr_running := False, rr_thread := Finished,
          rr_buffer := raop_buffer_flush (rr_buffer rri) (-1), rr_joined := True\<rparr>"
        "evs2 = (if cb_destroy (rr_callbacks rri) then [AudioDestroy] else if use_udp then [] else [NullCall]) @ map CloseSocket opened"
      using stop by simp_all
    have "filter (\<lambda>ev. ev \<noteq> AudioDestroy \<and> ev \<noteq> NullCall) (map CloseSocket opened) = map CloseSocket opened"
      by (induction opened) simp_all
    then have ev: "filter (\<lambda>ev. ev \<noteq> AudioDestroy \<and> ev \<noteq> NullCall) evs2 = map CloseSocket opened"
      by (simp add: st)
    have "rb_abs (rr_buffer rr2) = None" by (simp add: st rb_abs_def)
    then show ?thesis using r ev by (auto simp: st alive_def)
  qed
qed

lemma filter_when_cb: "set (when_cb b evs) = (if b then set evs else {})"
  by (simp add: when_cb_def)

text \<open>
  The mailbox: one turn of a running thread reports a volume exactly when one was set (the
  last one, within range), carries out a requested flush on the jitter buffer, and empties the mailbox, so
  the next turn reports nothing.
\<close>

theorem mailbox_delivered_once:
  assumes run: "rr_running rr" and pe: "raop_rtp_process_events rr = (stop, rr', evs)"
  shows "\<not> stop \<and> raop_rtp_process_events rr' = (False, rr', [])
    \<and> (\<forall>v. SetVolume v \<in> set evs \<longleftrightarrow> rr_volume_changed rr \<and> cb_set_volume (rr_callbacks rr) \<and> v = cfloat_ceil (rr_volume rr))
    \<and> (AudioFlush \<in> set evs \<longleftrightarrow> rr_flush rr \<noteq> NO_FLUSH \<and> cb_flush (rr_callbacks rr))
    \<and> rr_buffer rr' = (if rr_flush rr \<noteq> NO_FLUSH then raop_buffer_flush (rr_buffer rr) (rr_flush rr) else rr_buffer rr)
    \<and> (\<forall>md. SetMetadata md \<in> set evs \<longleftrightarrow> rr_metadata rr = Some md \<and> cb_set_metadata (rr_callbacks rr))
    \<and> (\<forall>s c e. SetProgress s c e \<in> set evs \<longleftrightarrow> rr_progress_changed rr \<and> cb_set_progress (rr_callbacks rr) \<and> rr_progress rr = (s, c, e))"
proof -
  define rr0 where "rr0 = rr\<lparr>rr_volume_changed := False, rr_flush := NO_FLUSH, rr_metadata := None,
                        rr_coverart := None, rr_dacp_id := None, rr_active_remote_header := None,
                        rr_progress_changed := False\<rparr>"
  have r: "rr' = (if rr_flush rr \<noteq> NO_FLUSH then rr0\<lparr>rr_buffer := raop_buffer_flush (rr_buffer rr) (rr_flush rr)\<rparr> else rr0)"
    "\<not> stop" using pe run by (auto simp: raop_rtp_process_events_def rr0_def Let_def)
  have again: "raop_rtp_process_events rr' = (False, rr', [])"
    using run unfolding r(1) by (auto simp: raop_rtp_process_events_def rr0_def when_cb_def Let_def split: prod.split)
  have evs: "evs = when_cb (rr_volume_changed rr \<and> cb_set_volume (rr_callbacks rr)) [SetVolume (cfloat_ceil (rr_volume rr))]
      @ when_cb (rr_flush rr \<noteq> NO_FLUSH \<and> cb_flush (rr_callbacks rr)) [AudioFlush]
      @ (case rr_metadata rr of None \<Rightarrow> [] | Some md \<Rightarrow> when_cb (cb_set_metadata (rr_callbacks rr)) [SetMetadata md])
      @ (case rr_coverart rr of None \<Rightarrow> [] | Some ca \<Rightarrow> when_cb (cb_set_coverart (rr_callbacks rr)) [SetCoverart ca])
      @ (case (rr_dacp_id rr, rr_active_remote_header rr) of
           (Some i, Some h) \<Rightarrow> when_cb (cb_remote_control_id (rr_callbacks rr)) [RemoteControlId i h] | _ \<Rightarrow> [])
      @ (case rr_progress rr of (s, c, e) \<Rightarrow>
           when_cb (rr_progress_changed rr \<and> cb_set_progress (rr_callbacks rr)) [SetProgress s c e])"
    using pe run by (simp add: raop_rtp_process_events_def Let_def)
  have sev: "set evs = (if rr_volume_changed rr \<and> cb_set_volume (rr_callbacks rr) then {SetVolume (cfloat_ceil (rr_volume rr))} else {})
      \<union> (if rr_flush rr \<noteq> NO_FLUSH \<and> cb_flush (rr_callbacks rr) then {AudioFlush} else {})
      \<union> {SetMetadata md | md. rr_metadata rr = Some md \<and> cb_set_metadata (rr_callbacks rr)}
      \<union> {SetCoverart ca | ca. rr_coverart rr = Some ca \<and> cb_set_coverart (rr_callbacks rr)}
      \<union> {RemoteControlId i h | i h. rr_dacp_id rr = Some i \<and> rr_active_remote_header rr = Some h \<and> cb_remote_control_id (rr_callbacks rr)}
      \<union> {SetProgress s c e | s c e. rr_progress rr = (s, c, e) \<and> rr_progress_changed rr \<and> cb_set_progress (rr_callbacks rr)}"
    unfolding evs set_append Un_assoc
    by (intro arg_cong2 [where f = union]) (auto simp: filter_when_cb split: option.split prod.split)
  have buf: "rr_buffer rr' = (if rr_flush rr \<noteq> NO_FLUSH then raop_buffer_flush (rr_buffer rr) (rr_flush rr) else rr_buffer rr)"
    by (simp add: r rr0_def)
  show ?thesis unfolding sev buf by (auto simp: again r(2))
qed

text \<open>
  A TCP frame announcing 32765 to 32768 bytes passes the length check but can never be
  completed in the 32768-byte array: every \<open>recv\<close> only fills the array further, and once it is
  full the zero-length \<open>recv\<close> reads as a closed connection.
\<close>

theorem tcp_long_frame_never_completes:
  assumes len: "length packet = RAOP_PACKET_LEN" "packetlen + length bs \<le> RAOP_PACKET_LEN"
      "4 \<le> packetlen" "bs \<noteq> []"
    and hdr: "packet ! 0 = 0x24" "packet ! 1 = 0" "32764 < unat (be16 (packet ! 2) (packet ! 3))"
      "unat (be16 (packet ! 2) (packet ! 3)) \<le> 32768"
  shows "tcp_receive cdc rr packet packetlen (Some bs)
      = (Continue, rr, write_at packetlen bs packet, packetlen + length bs, [])
    \<and> tcp_receive cdc rr packet RAOP_PACKET_LEN (Some []) = (Break, rr, packet, RAOP_PACKET_LEN, [])"
proof -
  have "write_at packetlen bs packet ! k = packet ! k" if "k < 4" for k
    using that len by (simp add: write_at_def nth_append)
  then show ?thesis using len hdr by (simp add: tcp_receive_def Let_def)
qed

section \<open>Concrete runs\<close>

definition demo_rr :: "nat raop_rtp" where
  "demo_rr = \<lparr>rr_callbacks = \<lparr>cb_set_volume = True, cb_flush = True, cb_set_metadata = True,
       cb_set_coverart = True, cb_remote_control_id = True, cb_set_progress = True, cb_process = True,
       cb_destroy = True\<rparr>,
     rr_buffer = demo_rb, rr_remote_saddr = \<lparr>ss_family = AF_INET, sa_data = []\<rparr>, rr_remote_saddr_len = 16,
     rr_running = True, rr_joined = False, rr_volume = Fin (- 5), rr_volume_changed = True,
     rr_metadata = Some [1], rr_coverart = None, rr_dacp_id = None, rr_active_remote_header = None,
     rr_progress = (1, 2, 3), rr_progress_changed = True, rr_flush = 9, rr_thread = Udp [],
     rr_control_rport = 6001, rr_timing_rport = 6002, rr_csock = 4, rr_tsock = 5, rr_dsock = 6,
     rr_control_lport = 1, rr_timing_lport = 2, rr_data_lport = 3, rr_control_saddr = [],
     rr_control_seqnum = 0, rr_x56_buf = replicate 16 0\<rparr>"

lemma demo_rr_wf: "rb_wf (rr_buffer demo_rr)"
  using demo_wf by (simp add: demo_rr_def)

lemma demo_remote: "utils_strsep (Some ''IN IP4 1'') '' '' = (Some ''IN'', Some ''IP4 1'')"
  "utils_strsep (Some ''IP4 1'') '' '' = (Some ''IP4'', Some ''1'')" "c_strstr ''1'' '':'' = None"
  "c_strstr ''96 1 0 16 40 10 14 2 255 0 0 44100'' ''AAC-eld'' = None"
  by code_simp+

lemma demo_rtp_init: "\<exists>rr. rtp_reachable copy_codec rr"
proof -
  let ?f = "''96 1 0 16 40 10 14 2 255 0 0 44100''"
  obtain b where b: "raop_buffer_init copy_codec True (\<lambda>n. Some (replicate (nat n) 0)) ?f [] [] 1 1 = Some (Some b)"
    using demo_buffer_init by blast
  have "\<exists>rr. raop_rtp_init copy_codec True True (\<lambda>n. Some (replicate (nat n) 0))
      (\<lambda>family addr. (16, \<lparr>ss_family = family, sa_data = []\<rparr>)) (rr_callbacks demo_rr) ''IN IP4 1'' [] ?f [] [] = Some (Some rr)"
    by (simp add: raop_rtp_init_def b demo_remote raop_rtp_parse_remote_def)
  then show ?thesis by (blast intro: rtp_reachable.init)
qed

theorem rtp_interleavings_safe_witness:
  "\<exists>rr. rtp_reachable copy_codec rr \<and> rtp_inv (raop_rtp_set_volume (raop_rtp_flush rr 7) PosInf)"
proof -
  obtain rr where r: "rtp_reachable copy_codec rr" using demo_rtp_init by blast
  then have "rtp_reachable copy_codec (raop_rtp_set_volume (raop_rtp_flush rr 7) PosInf)"
    by (intro rtp_reachable.volume rtp_reachable.flush)
  from rtp_interleavings_safe [OF this] show ?thesis using r by blast
qed

theorem udp_control_assert_iff_witness:
  "fst (udp_control copy_codec demo_rr (replicate 32768 0) (Some (0x80 # 0xd6 # replicate 10 0)) []) = AssertFailed"
  using udp_control_assert_iff [OF demo_rr_wf, of "Some (0x80 # 0xd6 # replicate 10 0)" copy_codec "replicate 32768 0" "[]"]
  by (simp add: recv_into_def write_at_def)

theorem udp_data_plays_in_order_witness:
  "\<exists>rr' evs n. udp_data copy_codec demo_rr (replicate 32768 0) (Some (demo_packet 1))
     = Some (Continue, rr', write_at 0 (demo_packet 1) (replicate 32768 0), evs) \<and>
     (n = (0 :: nat) \<or> (\<exists>s. SendTo 4 (resend_packet 0 s (of_nat n)) [] \<in> set evs))"
  using udp_data_plays_in_order [OF demo_rr_wf, of "demo_packet 1" copy_codec "replicate 32768 0"]
  by (auto simp: demo_packet_def)

theorem tcp_framing_witness:
  "\<exists>rr' packet' packetlen' evs.
     tcp_receive copy_codec demo_rr (replicate 32768 0) 0 (Some ([0x24, 0, 0, 12] @ replicate 12 7 @ [0x24])) = (Continue, rr', packet', packetlen', evs)
     \<and> length packet' = 32768 \<and> packetlen' \<le> 32768"
proof -
  let ?r = "tcp_receive copy_codec demo_rr (replicate 32768 0) 0 (Some ([0x24, 0, 0, 12] @ replicate 12 7 @ [0x24]))"
  have "fst ?r = Continue"
    by (simp add: tcp_receive_def write_at_def be16_def demo_rr_def raop_buffer_queue_def demo_rb_def demo_entry_def
        slot_def seqnum_cmp_def copy_codec_def raop_buffer_dequeue_def Let_def split: option.split)
  then obtain rr' packet' packetlen' evs where r: "?r = (Continue, rr', packet', packetlen', evs)"
    by (cases ?r) auto
  from tcp_framing [OF _ _ demo_rr_wf r] show ?thesis using r by auto
qed

theorem start_stop_sockets_witness:
  "raop_rtp_start [] (4, 1) (5, 2) (-1, 0) True (demo_rr\<lparr>rr_running := False, rr_joined := True\<rparr>) True 6001 6002
     = (demo_rr\<lparr>rr_running := False, rr_joined := True\<rparr>, None, [CloseSocket 4, CloseSocket 5])"
proof -
  let ?rr = "demo_rr\<lparr>rr_running := False, rr_joined := True\<rparr>"
  obtain rr1 ports evs1 where s: "raop_rtp_start [] (4, 1) (5, 2) (-1, 0) True ?rr True 6001 6002 = (rr1, ports, evs1)"
    by (metis prod_cases3)
  obtain rr2 evs2 where t: "raop_rtp_stop rr1 = (rr2, evs2)" by fastforce
  have "ports = None"
    using s by (auto simp: raop_rtp_start_def raop_rtp_init_sockets_def demo_rr_def)
  then show ?thesis
    using start_stop_sockets [OF _ _ s t] s by (simp add: sockets_opened_def) (simp add: demo_rr_def)
qed

theorem mailbox_delivered_once_witness:
  "\<exists>stop rr' evs. raop_rtp_process_events demo_rr = (stop, rr', evs)
     \<and> SetVolume (cfloat_ceil (Fin (- 5))) \<in> set evs \<and> rr_buffer rr' = raop_buffer_flush demo_rb 9"
proof -
  obtain stop rr' evs where e: "raop_rtp_process_events demo_rr = (stop, rr', evs)" by (metis prod_cases3)
  have "rr_running demo_rr" by (simp add: demo_rr_def)
  from mailbox_delivered_once [OF this e] show ?thesis using e by (auto simp: demo_rr_def)
qed

theorem tcp_long_frame_never_completes_witness:
  "fst (tcp_receive copy_codec demo_rr (write_at 0 [0x24, 0, 0x80, 0] (replicate 32768 0)) 4 (Some [1])) = Continue"
proof -
  have h: "length (write_at 0 [0x24, 0, 0x80, 0] (replicate 32768 (0::byte))) = 32768" by simp
  have "be16 0x80 0 = 0x8000" by (simp add: be16_def)
  then show ?thesis
    using tcp_long_frame_never_completes [OF h, of 4 "[1]" copy_codec demo_rr] by (simp add: write_at_def)
qed

end
