(* ===== verification/Ring_Buffer.thy ===== *)
theory Ring_Buffer
  imports Airplay_Prelude
begin

text \<open>
  The single-reader single-writer byte ring of \<open>libairplay/airplay/jniinterface/ring_buffer.c\<close>
  (\<open>size_t\<close> is 64 bits wide). A pointer handed out into the buffer is an offset. The interface
  \<open>byte_fifo\<close> states what its users rely on, and the ring implements it.
\<close>

section \<open>State and operations\<close>

record ringbuffer =
  rg_buf :: "byte list"
  rg_write_ptr :: u64
  rg_read_ptr :: u64
  rg_size :: u64
  rg_size_mask :: u64
  rg_mlocked :: bool

function create_power :: "nat \<Rightarrow> nat \<Rightarrow> nat option" where
  \<comment> \<open>\<open>for (power_of_two = 1; 1 << power_of_two < sz; power_of_two++);\<close> \<open>None\<close> when the shift of the
     \<open>int\<close> 1 overflows\<close>
  "create_power p sz =
     (if p \<ge> 31 then None else if 2 ^ p < sz then create_power (p + 1) sz else Some p)"
  by pat_completeness auto
termination by (relation "measure (\<lambda>(p, sz). 31 - p)") auto

declare create_power.simps [simp del]

definition ringbuffer_create :: "bool \<Rightarrow> (nat \<Rightarrow> byte list option) \<Rightarrow> nat \<Rightarrow> ringbuffer option option" where
  \<comment> \<open>the outer \<open>None\<close> is undefined behaviour, the inner one a failed allocation\<close>
  "ringbuffer_create malloc_ok malloc sz =
     (if \<not> malloc_ok then Some None
      else case create_power 1 sz of
          None \<Rightarrow> None
        | Some power_of_two \<Rightarrow>
            (case malloc (2 ^ power_of_two) of
               None \<Rightarrow> Some None
             | Some buf \<Rightarrow> Some (Some \<lparr>rg_buf = buf, rg_write_ptr = 0, rg_read_ptr = 0,
                 rg_size = 2 ^ power_of_two, rg_size_mask = 2 ^ power_of_two - 1, rg_mlocked = False\<rparr>)))"

definition ringbuffer_mlock :: "ringbuffer \<Rightarrow> int \<times> ringbuffer" where
  \<comment> \<open>\<open>USE_MLOCK\<close> is not defined\<close>
  "ringbuffer_mlock rb = (0, rb\<lparr>rg_mlocked := True\<rparr>)"

definition ringbuffer_reset :: "ringbuffer \<Rightarrow> ringbuffer" where
  "ringbuffer_reset rb = rb\<lparr>rg_read_ptr := 0, rg_write_ptr := 0,
     rg_buf := write_at 0 (replicate (unat (rg_size rb)) 0) (rg_buf rb)\<rparr>"

definition ringbuffer_reset_size :: "ringbuffer \<Rightarrow> u64 \<Rightarrow> ringbuffer" where
  "ringbuffer_reset_size rb sz = rb\<lparr>rg_size := sz, rg_size_mask := sz - 1, rg_read_ptr := 0, rg_write_ptr := 0\<rparr>"

definition ringbuffer_read_space :: "ringbuffer \<Rightarrow> u64" where
  "ringbuffer_read_space rb = (rg_write_ptr rb - rg_read_ptr rb) AND rg_size_mask rb"

definition ringbuffer_write_space :: "ringbuffer \<Rightarrow> u64" where
  "ringbuffer_write_space rb = (rg_read_ptr rb - rg_write_ptr rb - 1) AND rg_size_mask rb"

definition copy_split :: "ringbuffer \<Rightarrow> u64 \<Rightarrow> u64 \<Rightarrow> u64 \<times> u64" where
  \<comment> \<open>\<open>n1\<close> and \<open>n2\<close>: how a copy of \<open>n\<close> bytes at \<open>ptr\<close> is cut at the end of the buffer\<close>
  "copy_split rb ptr n =
     (let cnt2 = ptr + n in
      if cnt2 > rg_size rb then (rg_size rb - ptr, cnt2 AND rg_size_mask rb) else (n, 0))"

definition segment :: "byte list \<Rightarrow> u64 \<Rightarrow> u64 \<Rightarrow> byte list" where
  "segment buf off n = take (unat n) (drop (unat off) buf)"

definition ringbuffer_peek :: "ringbuffer \<Rightarrow> u64 \<Rightarrow> u64 \<times> byte list" where
  \<comment> \<open>the count returned and the bytes written to \<open>dest\<close>\<close>
  "ringbuffer_peek rb cnt =
     (let free_cnt = ringbuffer_read_space rb in
      if free_cnt = 0 then (0, [])
      else let to_read = (if cnt > free_cnt then free_cnt else cnt);
               (n1, n2) = copy_split rb (rg_read_ptr rb) to_read;
               tmp = (rg_read_ptr rb + n1) AND rg_size_mask rb
      in (to_read, segment (rg_buf rb) (rg_read_ptr rb) n1 @ (if n2 \<noteq> 0 then segment (rg_buf rb) tmp n2 else [])))"

definition ringbuffer_get :: "ringbuffer \<Rightarrow> u64 \<Rightarrow> u64 \<times> byte list \<times> ringbuffer" where
  "ringbuffer_get rb cnt =
     (let free_cnt = ringbuffer_read_space rb in
      if free_cnt = 0 then (0, [], rb)
      else let to_read = (if cnt > free_cnt then free_cnt else cnt);
               (n1, n2) = copy_split rb (rg_read_ptr rb) to_read;
               dest = segment (rg_buf rb) (rg_read_ptr rb) n1;
               rb = rb\<lparr>rg_read_ptr := (rg_read_ptr rb + n1) AND rg_size_mask rb\<rparr>
      in if n2 \<noteq> 0
         then (to_read, dest @ segment (rg_buf rb) (rg_read_ptr rb) n2,
               rb\<lparr>rg_read_ptr := (rg_read_ptr rb + n2) AND rg_size_mask rb\<rparr>)
         else (to_read, dest, rb))"

definition ringbuffer_put :: "ringbuffer \<Rightarrow> byte list \<Rightarrow> u64 \<Rightarrow> u64 \<times> ringbuffer" where
  "ringbuffer_put rb src cnt =
     (let free_cnt = ringbuffer_write_space rb in
      if free_cnt = 0 then (0, rb)
      else let to_write = (if cnt > free_cnt then free_cnt else cnt);
               (n1, n2) = copy_split rb (rg_write_ptr rb) to_write;
               rb = rb\<lparr>rg_buf := write_at (unat (rg_write_ptr rb)) (take (unat n1) src) (rg_buf rb),
                       rg_write_ptr := (rg_write_ptr rb + n1) AND rg_size_mask rb\<rparr>
      in if n2 \<noteq> 0
         then (to_write, rb\<lparr>rg_buf := write_at (unat (rg_write_ptr rb)) (take (unat n2) (drop (unat n1) src)) (rg_buf rb),
                            rg_write_ptr := (rg_write_ptr rb + n2) AND rg_size_mask rb\<rparr>)
         else (to_write, rb))"

definition ringbuffer_read_advance :: "ringbuffer \<Rightarrow> u64 \<Rightarrow> ringbuffer" where
  "ringbuffer_read_advance rb cnt = rb\<lparr>rg_read_ptr := (rg_read_ptr rb + cnt) AND rg_size_mask rb\<rparr>"

definition ringbuffer_write_advance :: "ringbuffer \<Rightarrow> u64 \<Rightarrow> ringbuffer" where
  "ringbuffer_write_advance rb cnt = rb\<lparr>rg_write_ptr := (rg_write_ptr rb + cnt) AND rg_size_mask rb\<rparr>"

definition data_vector :: "ringbuffer \<Rightarrow> u64 \<Rightarrow> u64 \<Rightarrow> (u64 \<times> u64) \<times> (u64 \<times> u64)" where
  \<comment> \<open>the two (offset, length) places of \<open>vec\<close> from \<open>ptr\<close> over \<open>free_cnt\<close> bytes\<close>
  "data_vector rb ptr free_cnt =
     (let cnt2 = ptr + free_cnt in
      if cnt2 > rg_size rb then ((ptr, rg_size rb - ptr), (0, cnt2 AND rg_size_mask rb))
      else ((ptr, free_cnt), (0, 0)))"

definition ringbuffer_get_read_vector :: "ringbuffer \<Rightarrow> (u64 \<times> u64) \<times> (u64 \<times> u64)" where
  "ringbuffer_get_read_vector rb = data_vector rb (rg_read_ptr rb) (ringbuffer_read_space rb)"

definition ringbuffer_get_write_vector :: "ringbuffer \<Rightarrow> (u64 \<times> u64) \<times> (u64 \<times> u64)" where
  "ringbuffer_get_write_vector rb = data_vector rb (rg_write_ptr rb) (ringbuffer_write_space rb)"

definition ringbuffer_is_empty :: "ringbuffer \<Rightarrow> bool" where
  "ringbuffer_is_empty rb \<longleftrightarrow> rg_read_ptr rb = rg_write_ptr rb"

section \<open>Well-formedness and contents\<close>

definition rg_wf :: "ringbuffer \<Rightarrow> bool" where
  "rg_wf rb \<longleftrightarrow> (\<exists>k \<le> 32. rg_size rb = 2 ^ k) \<and> rg_size_mask rb = rg_size rb - 1
     \<and> rg_read_ptr rb < rg_size rb \<and> rg_write_ptr rb < rg_size rb \<and> length (rg_buf rb) = unat (rg_size rb)"

definition rg_content :: "ringbuffer \<Rightarrow> byte list" where
  \<comment> \<open>the readable bytes, oldest first\<close>
  "rg_content rb =
     map (\<lambda>j. rg_buf rb ! ((unat (rg_read_ptr rb) + j) mod unat (rg_size rb))) [0..<unat (ringbuffer_read_space rb)]"

abbreviation cap :: "ringbuffer \<Rightarrow> nat" where
  "cap rb \<equiv> unat (rg_size rb)"

lemma unat_exp: "k \<le> 32 \<Longrightarrow> unat (2 ^ k :: u64) = 2 ^ k"
proof -
  assume "k \<le> 32"
  then have "(2::nat) ^ k \<le> 2 ^ 32" by (intro power_increasing) simp_all
  moreover have "(2 ^ k :: u64) = of_nat (2 ^ k)" by simp
  ultimately show ?thesis by (simp only: unsigned_of_nat) (simp add: take_bit_eq_mod)
qed

lemma rg_wfE:
  assumes "rg_wf rb"
  obtains k where "k \<le> 32" "rg_size rb = 2 ^ k" "cap rb = 2 ^ k" "rg_size_mask rb = mask k"
    "cap rb dvd 18446744073709551616" "cap rb \<le> 4294967296"
proof -
  from assms obtain k where k: "k \<le> 32" "rg_size rb = 2 ^ k" "rg_size_mask rb = mask k"
    by (auto simp: rg_wf_def mask_eq_exp_minus_1)
  then have c: "cap rb = 2 ^ k" by (simp only: unat_exp)
  have "(2::nat) ^ k dvd 2 ^ 64" using k(1) by (intro le_imp_power_dvd) simp
  moreover have "(2::nat) ^ k \<le> 2 ^ 32" using k(1) by (intro power_increasing) simp_all
  ultimately have "(2::nat) ^ k dvd 18446744073709551616" "(2::nat) ^ k \<le> 4294967296" by simp_all
  with that k c show ?thesis by simp
qed

lemma rg_wf_bounds:
  assumes "rg_wf rb"
  shows "unat (rg_read_ptr rb) < cap rb" "unat (rg_write_ptr rb) < cap rb" "length (rg_buf rb) = cap rb"
    "0 < cap rb" "cap rb \<le> 4294967296"
proof -
  show "unat (rg_read_ptr rb) < cap rb" "unat (rg_write_ptr rb) < cap rb" "length (rg_buf rb) = cap rb"
    using assms by (simp_all add: rg_wf_def word_less_nat_alt)
  then show "0 < cap rb" by linarith
  show "cap rb \<le> 4294967296" using rg_wfE [OF assms] by metis
qed

lemma unat_masked: "rg_wf rb \<Longrightarrow> unat (x AND rg_size_mask rb) = unat x mod cap rb"
proof (elim rg_wfE)
  fix k assume k: "cap rb = 2 ^ k" "rg_size_mask rb = mask k"
  have "x AND mask k = take_bit k x" by (simp add: take_bit_eq_mask)
  then have "unat (x AND rg_size_mask rb) = take_bit k (unat x)" by (simp only: k unsigned_take_bit_eq)
  then show ?thesis by (simp only: k take_bit_eq_mod)
qed

lemma unat_masked_add:
  assumes "rg_wf rb" "unat p \<le> cap rb" "unat n \<le> cap rb"
  shows "unat ((p + n) AND rg_size_mask rb) = (unat p + unat n) mod cap rb" "unat (p + n) = unat p + unat n"
proof -
  show "unat (p + n) = unat p + unat n"
    using assms rg_wf_bounds(5) [OF assms(1)] by (simp add: unat_word_ariths)
  then show "unat ((p + n) AND rg_size_mask rb) = (unat p + unat n) mod cap rb"
    by (simp add: unat_masked [OF assms(1)])
qed

lemma unat_masked_diff:
  assumes wf: "rg_wf rb" and a: "unat a < cap rb" and b: "unat b \<le> cap rb"
  shows "unat ((a - b) AND rg_size_mask rb) = (if unat b \<le> unat a then unat a - unat b else unat a + cap rb - unat b)"
proof (cases "unat b \<le> unat a")
  case True
  then show ?thesis using a by (simp add: unat_masked [OF wf] unat_sub_if_size)
next
  case False
  obtain m where m: "18446744073709551616 = cap rb * m" using rg_wfE [OF wf] by (metis dvd_def)
  then have "0 < m" by (cases m) simp_all
  then obtain m' where m': "m = Suc m'" using gr0_implies_Suc by blast
  have "unat (a - b) = unat a + cap rb * m - unat b"
    using False by (simp add: unat_sub_if_size word_size m [symmetric])
  also have "\<dots> = (unat a + cap rb - unat b) + cap rb * m'" using b by (simp add: m')
  finally have "unat (a - b) mod cap rb = unat a + cap rb - unat b"
    using False a by (simp only: mod_mult_self2) simp
  then show ?thesis using False by (simp add: unat_masked [OF wf])
qed

lemma unat_read_space:
  assumes "rg_wf rb"
  shows "unat (ringbuffer_read_space rb) =
    (if unat (rg_read_ptr rb) \<le> unat (rg_write_ptr rb) then unat (rg_write_ptr rb) - unat (rg_read_ptr rb)
     else unat (rg_write_ptr rb) + cap rb - unat (rg_read_ptr rb))"
  using unat_masked_diff [OF assms] rg_wf_bounds [OF assms] by (simp add: ringbuffer_read_space_def)

lemma read_space_less: "rg_wf rb \<Longrightarrow> unat (ringbuffer_read_space rb) < cap rb"
  using unat_read_space [of rb] rg_wf_bounds [of rb] by auto

lemma unat_write_space:
  assumes wf: "rg_wf rb"
  shows "unat (ringbuffer_write_space rb) = cap rb - 1 - unat (ringbuffer_read_space rb)"
proof -
  let ?r = "rg_read_ptr rb" and ?w = "rg_write_ptr rb"
  note b = rg_wf_bounds [OF wf]
  have w1: "unat (?w + 1) = unat ?w + 1" using b by (simp add: unat_word_ariths)
  have "ringbuffer_write_space rb = (?r - (?w + 1)) AND rg_size_mask rb"
    by (simp add: ringbuffer_write_space_def diff_diff_add)
  then have "unat (ringbuffer_write_space rb) = (if unat ?w + 1 \<le> unat ?r then unat ?r - (unat ?w + 1)
      else unat ?r + cap rb - (unat ?w + 1))"
    using unat_masked_diff [OF wf, of ?r "?w + 1"] b w1 by simp
  then show ?thesis using b unat_read_space [OF wf] by auto
qed

lemma write_ptr_eq:
  assumes wf: "rg_wf rb"
  shows "unat (rg_write_ptr rb) = (unat (rg_read_ptr rb) + unat (ringbuffer_read_space rb)) mod cap rb"
  using unat_read_space [OF wf] rg_wf_bounds [OF wf] by auto

lemma copy_split_cases:
  assumes wf: "rg_wf rb" and p: "unat ptr < cap rb" and n: "unat n < cap rb"
    and s: "copy_split rb ptr n = (n1, n2)"
  shows "unat n1 = min (unat n) (cap rb - unat ptr)" "unat n2 = unat n - unat n1"
proof -
  note b = rg_wf_bounds [OF wf]
  have sum: "unat (ptr + n) = unat ptr + unat n" using unat_masked_add(2) [OF wf, of ptr n] p n by simp
  have "unat n1 = min (unat n) (cap rb - unat ptr) \<and> unat n2 = unat n - unat n1"
  proof (cases "ptr + n > rg_size rb")
    case True
    then have gt: "cap rb < unat ptr + unat n" using sum by (simp add: word_less_nat_alt)
    have "n1 = rg_size rb - ptr" "n2 = (ptr + n) AND rg_size_mask rb"
      using s True by (simp_all add: copy_split_def Let_def)
    then have "unat n1 = cap rb - unat ptr" "unat n2 = (unat ptr + unat n) mod cap rb"
      using p sum by (simp_all add: unat_masked [OF wf] unat_sub_if_size)
    moreover have "(unat ptr + unat n) mod cap rb = unat ptr + unat n - cap rb"
      using gt p n by (simp add: mod_if)
    ultimately show ?thesis using gt p by simp
  next
    case False
    then show ?thesis using s sum p by (auto simp: copy_split_def Let_def word_less_nat_alt)
  qed
  then show "unat n1 = min (unat n) (cap rb - unat ptr)" "unat n2 = unat n - unat n1" by simp_all
qed

section \<open>Reading\<close>

lemma second_part_at_0:
  assumes "rg_wf rb" "unat ptr < cap rb" "unat n < cap rb" "copy_split rb ptr n = (n1, n2)" "n2 \<noteq> 0"
  shows "unat n1 = cap rb - unat ptr" "(ptr + n1) AND rg_size_mask rb = 0" "unat n2 = unat n - unat n1"
proof -
  note c = copy_split_cases [OF assms(1-4)]
  have "unat n2 \<noteq> 0" using assms(5) by (simp add: unat_eq_zero)
  then show n1: "unat n1 = cap rb - unat ptr" "unat n2 = unat n - unat n1" using c by simp_all
  then have "unat ((ptr + n1) AND rg_size_mask rb) = 0"
    using unat_masked_add(1) [OF assms(1), of ptr n1] assms(2) by simp
  then show "(ptr + n1) AND rg_size_mask rb = 0" by (simp add: unat_eq_zero)
qed

lemma segments_circular:
  assumes wf: "rg_wf rb" and p: "unat ptr < cap rb" and n: "unat n < cap rb" and s: "copy_split rb ptr n = (n1, n2)"
  shows "segment (rg_buf rb) ptr n1 @ (if n2 \<noteq> 0 then segment (rg_buf rb) ((ptr + n1) AND rg_size_mask rb) n2 else [])
    = map (\<lambda>j. rg_buf rb ! ((unat ptr + j) mod cap rb)) [0..<unat n]"
proof -
  note b = rg_wf_bounds [OF wf] and c = copy_split_cases [OF wf p n s]
  have first: "segment (rg_buf rb) ptr n1 = map (\<lambda>j. rg_buf rb ! ((unat ptr + j) mod cap rb)) [0..<unat n1]"
    by (rule nth_equalityI) (use b c p in \<open>auto simp: segment_def\<close>)
  show ?thesis
  proof (cases "n2 = 0")
    case True
    then show ?thesis using first c by simp
  next
    case False
    note z = second_part_at_0 [OF wf p n s False]
    have "segment (rg_buf rb) 0 n2 = map (\<lambda>j. rg_buf rb ! ((unat ptr + j) mod cap rb)) [unat n1..<unat n]"
      by (rule nth_equalityI) (use b c p n z in \<open>auto simp: segment_def mod_if\<close>)
    then show ?thesis
      using False first c z upt_add_eq_append [of 0 "unat n1" "unat n - unat n1"] by simp
  qed
qed

lemma advance_circular:
  assumes wf: "rg_wf rb" and p: "unat ptr < cap rb" and n: "unat n < cap rb" and s: "copy_split rb ptr n = (n1, n2)"
  shows "unat (if n2 \<noteq> 0 then (((ptr + n1) AND rg_size_mask rb) + n2) AND rg_size_mask rb
               else (ptr + n1) AND rg_size_mask rb) = (unat ptr + unat n) mod cap rb"
proof (cases "n2 = 0")
  case True
  then show ?thesis
    using copy_split_cases [OF wf p n s] unat_masked_add(1) [OF wf, of ptr n1] p n by simp
next
  case False
  note z = second_part_at_0 [OF wf p n s False]
  have "unat n = unat n1 + unat n2" using z copy_split_cases [OF wf p n s] by simp
  then have "(unat ptr + unat n) mod cap rb = unat n2 mod cap rb"
    using z(1) p by (simp add: mod_if)
  then show ?thesis using z(2) False by (simp add: unat_masked [OF wf])
qed

definition taken :: "u64 \<Rightarrow> u64 \<Rightarrow> u64" where
  "taken cnt free_cnt = (if cnt > free_cnt then free_cnt else cnt)"

lemma unat_taken [simp]: "unat (taken cnt free_cnt) = min (unat cnt) (unat free_cnt)"
  by (simp add: taken_def word_less_nat_alt)

lemma take_content:
  "n \<le> unat (ringbuffer_read_space rb) \<Longrightarrow>
    map (\<lambda>j. rg_buf rb ! ((unat (rg_read_ptr rb) + j) mod cap rb)) [0..<n] = take n (rg_content rb)"
  by (simp add: rg_content_def take_map)

lemma get_result:
  assumes wf: "rg_wf rb"
  shows "\<exists>rp. ringbuffer_get rb cnt = (taken cnt (ringbuffer_read_space rb),
      take (unat cnt) (rg_content rb), rb\<lparr>rg_read_ptr := rp\<rparr>)
    \<and> unat rp = (unat (rg_read_ptr rb) + unat (taken cnt (ringbuffer_read_space rb))) mod cap rb"
proof (cases "ringbuffer_read_space rb = 0")
  case True
  then have "rg_content rb = []" by (simp add: rg_content_def)
  moreover have "taken cnt 0 = 0" by (simp add: word_unat_eq_iff)
  ultimately show ?thesis
    using True rg_wf_bounds [OF wf] by (intro exI [of _ "rg_read_ptr rb"]) (simp add: ringbuffer_get_def)
next
  case False
  let ?n = "taken cnt (ringbuffer_read_space rb)" and ?r = "rg_read_ptr rb"
  obtain n1 n2 where s: "copy_split rb ?r ?n = (n1, n2)" by fastforce
  note b = rg_wf_bounds [OF wf]
  have n: "unat ?n < cap rb" using read_space_less [OF wf] by simp
  have c: "segment (rg_buf rb) ?r n1 @ (if n2 \<noteq> 0 then segment (rg_buf rb) ((?r + n1) AND rg_size_mask rb) n2 else [])
      = take (unat cnt) (rg_content rb)"
    unfolding segments_circular [OF wf b(1) n s]
    using take_content [of "unat ?n" rb] by (simp add: rg_content_def take_map min_def)
  show ?thesis
    using False s c advance_circular [OF wf b(1) n s]
    by (cases "n2 = 0") (auto simp: ringbuffer_get_def Let_def taken_def [symmetric])
qed

lemma rg_content_length [simp]: "length (rg_content rb) = unat (ringbuffer_read_space rb)"
  by (simp add: rg_content_def)

lemma rg_wf_read_ptr: "rg_wf rb \<Longrightarrow> unat rp < cap rb \<Longrightarrow> rg_wf (rb\<lparr>rg_read_ptr := rp\<rparr>)"
  by (simp add: rg_wf_def word_less_nat_alt)

lemma read_advanced:
  assumes wf: "rg_wf rb" and n: "n \<le> unat (ringbuffer_read_space rb)"
    and rp: "unat rp = (unat (rg_read_ptr rb) + n) mod cap rb"
  shows "rg_wf (rb\<lparr>rg_read_ptr := rp\<rparr>)" "rg_content (rb\<lparr>rg_read_ptr := rp\<rparr>) = drop n (rg_content rb)"
proof -
  note b = rg_wf_bounds [OF wf]
  have lt: "unat rp < cap rb" using rp b by simp
  show wf': "rg_wf (rb\<lparr>rg_read_ptr := rp\<rparr>)" by (rule rg_wf_read_ptr [OF wf lt])
  have sp: "unat (ringbuffer_read_space (rb\<lparr>rg_read_ptr := rp\<rparr>)) = unat (ringbuffer_read_space rb) - n"
  proof -
    have lt': "unat (ringbuffer_read_space (rb\<lparr>rg_read_ptr := rp\<rparr>)) < cap rb"
      using read_space_less [OF wf'] by simp
    have "(unat rp + unat (ringbuffer_read_space (rb\<lparr>rg_read_ptr := rp\<rparr>))) mod cap rb
        = (unat (rg_read_ptr rb) + unat (ringbuffer_read_space rb)) mod cap rb"
      using write_ptr_eq [OF wf'] write_ptr_eq [OF wf] by simp
    then have eq: "(unat (ringbuffer_read_space (rb\<lparr>rg_read_ptr := rp\<rparr>)) + (unat (rg_read_ptr rb) + n)) mod cap rb
        = ((unat (ringbuffer_read_space rb) - n) + (unat (rg_read_ptr rb) + n)) mod cap rb"
      using n by (simp add: rp mod_add_left_eq mod_add_right_eq add.commute add.left_commute)
    show ?thesis
      by (rule mod_shift_cancel [OF eq lt']) (use read_space_less [OF wf] in simp)
  qed
  show "rg_content (rb\<lparr>rg_read_ptr := rp\<rparr>) = drop n (rg_content rb)"
  proof (rule nth_equalityI)
    show "length (rg_content (rb\<lparr>rg_read_ptr := rp\<rparr>)) = length (drop n (rg_content rb))" using sp by simp
    fix j assume "j < length (rg_content (rb\<lparr>rg_read_ptr := rp\<rparr>))"
    then have j: "j < unat (ringbuffer_read_space rb) - n" using sp by simp
    then have "n + j < unat (ringbuffer_read_space rb)" by linarith
    with j show "rg_content (rb\<lparr>rg_read_ptr := rp\<rparr>) ! j = drop n (rg_content rb) ! j"
      using n sp by (simp add: rg_content_def rp mod_add_left_eq add.assoc)
  qed
qed

section \<open>Writing\<close>

lemma nth_write_at:
  "off + length xs \<le> length buf \<Longrightarrow> p < length buf \<Longrightarrow>
    write_at off xs buf ! p = (if p < off then buf ! p else if p < off + length xs then xs ! (p - off) else buf ! p)"
  by (auto simp: write_at_def nth_append)

text \<open>Writing a run that wraps at the end of the buffer, byte by byte.\<close>

lemma write_circular:
  assumes wf: "rg_wf rb" and p: "unat ptr < cap rb" and n: "unat n < cap rb" "unat n \<le> length src"
    and s: "copy_split rb ptr n = (n1, n2)"
  defines "b1 \<equiv> write_at (unat ptr) (take (unat n1) src) (rg_buf rb)"
  defines "b2 \<equiv> (if n2 \<noteq> 0 then write_at 0 (take (unat n2) (drop (unat n1) src)) b1 else b1)"
  shows "length b2 = cap rb"
    "i < unat n \<Longrightarrow> b2 ! ((unat ptr + i) mod cap rb) = src ! i"
    "q < cap rb \<Longrightarrow> (\<And>i. i < unat n \<Longrightarrow> q \<noteq> (unat ptr + i) mod cap rb) \<Longrightarrow> b2 ! q = rg_buf rb ! q"
proof -
  note b = rg_wf_bounds [OF wf] and c = copy_split_cases [OF wf p n(1) s]
  have l1: "length b1 = cap rb" using b c p n by (simp add: b1_def)
  have fit: "unat n2 \<le> unat ptr" using c n p by linarith
  have z: "n2 = 0 \<longleftrightarrow> unat n2 = 0" by (simp add: unat_eq_zero)
  have "unat n1 \<le> length src" "unat n2 \<le> length src - unat n1" using c n by linarith+
  then have len1: "length (take (unat n1) src) = unat n1" and len2: "length (take (unat n2) (drop (unat n1) src)) = unat n2"
    by simp_all
  have "length (write_at 0 (take (unat n2) (drop (unat n1) src)) b1) = cap rb"
    using length_write_at [of 0 "take (unat n2) (drop (unat n1) src)" b1] len2 l1 fit p by simp
  then show "length b2 = cap rb" using l1 by (simp add: b2_def)
  have fit1: "unat ptr + unat n1 \<le> cap rb" using c p by linarith
  have nth1: "b1 ! q = (if unat ptr \<le> q \<and> q < unat ptr + unat n1 then src ! (q - unat ptr) else rg_buf rb ! q)"
    if "q < cap rb" for q
    using that b(3) fit1 len1 by (auto simp: b1_def nth_write_at)
  have nth2: "b2 ! q = (if q < unat n2 then src ! (unat n1 + q) else b1 ! q)" if "q < cap rb" for q
    using that l1 fit p z len2 by (auto simp: b2_def nth_write_at)
  show "b2 ! ((unat ptr + i) mod cap rb) = src ! i" if i: "i < unat n"
  proof (cases "unat ptr + i < cap rb")
    case True
    moreover have "i < unat n1" "\<not> unat ptr + i < unat n2" using True c i fit by linarith+
    ultimately show ?thesis using nth1 nth2 by simp
  next
    case False
    then have "(unat ptr + i) mod cap rb = unat ptr + i - cap rb" using p i n by (simp add: mod_if)
    moreover have "unat ptr + i - cap rb < unat n2" "unat n1 + (unat ptr + i - cap rb) = i"
      using False c i p by linarith+
    ultimately show ?thesis using nth2 [of "unat ptr + i - cap rb"] fit p by simp
  qed
  show "b2 ! q = rg_buf rb ! q" if q: "q < cap rb" "\<And>i. i < unat n \<Longrightarrow> q \<noteq> (unat ptr + i) mod cap rb"
  proof -
    have "\<not> q < unat n2"
    proof
      assume "q < unat n2"
      then have lt: "unat n1 + q < unat n" and eq: "unat ptr + (unat n1 + q) = cap rb + q" using c p by linarith+
      from q(2) [OF lt] show False unfolding eq using q(1) by simp
    qed
    moreover have "\<not> (unat ptr \<le> q \<and> q < unat ptr + unat n1)"
    proof
      assume "unat ptr \<le> q \<and> q < unat ptr + unat n1"
      then have lt: "q - unat ptr < unat n" and eq: "unat ptr + (q - unat ptr) = q" using c by linarith+
      from q(2) [OF lt] show False unfolding eq using q(1) by simp
    qed
    ultimately show ?thesis using nth1 [OF q(1)] nth2 [OF q(1)] by auto
  qed
qed

lemma put_result:
  assumes wf: "rg_wf rb" and src: "unat cnt \<le> length src"
  defines "n \<equiv> taken cnt (ringbuffer_write_space rb)"
  shows "\<exists>wp buf. ringbuffer_put rb src cnt = (n, rb\<lparr>rg_buf := buf, rg_write_ptr := wp\<rparr>)
    \<and> unat wp = (unat (rg_write_ptr rb) + unat n) mod cap rb \<and> length buf = cap rb
    \<and> (\<forall>i < unat n. buf ! ((unat (rg_write_ptr rb) + i) mod cap rb) = src ! i)
    \<and> (\<forall>q < cap rb. (\<forall>i < unat n. q \<noteq> (unat (rg_write_ptr rb) + i) mod cap rb) \<longrightarrow> buf ! q = rg_buf rb ! q)"
proof (cases "ringbuffer_write_space rb = 0")
  case True
  then have "n = 0" by (simp add: n_def word_unat_eq_iff)
  then show ?thesis
    using True rg_wf_bounds [OF wf]
    by (intro exI [of _ "rg_write_ptr rb"] exI [of _ "rg_buf rb"]) (simp add: ringbuffer_put_def)
next
  case False
  let ?w = "rg_write_ptr rb"
  note b = rg_wf_bounds [OF wf]
  obtain n1 n2 where s: "copy_split rb ?w n = (n1, n2)" by fastforce
  have n: "unat n < cap rb" "unat n \<le> length src"
    using unat_write_space [OF wf] b src by (simp_all add: n_def)
  let ?b1 = "write_at (unat ?w) (take (unat n1) src) (rg_buf rb)"
  let ?b2 = "if n2 \<noteq> 0 then write_at 0 (take (unat n2) (drop (unat n1) src)) ?b1 else ?b1"
  let ?wp = "if n2 \<noteq> 0 then (((?w + n1) AND rg_size_mask rb) + n2) AND rg_size_mask rb else (?w + n1) AND rg_size_mask rb"
  have "ringbuffer_put rb src cnt = (n, rb\<lparr>rg_buf := ?b2, rg_write_ptr := ?wp\<rparr>)"
    using False s second_part_at_0(2) [OF wf b(2) n(1) s]
    by (cases "n2 = 0") (simp_all add: ringbuffer_put_def n_def taken_def Let_def)
  then show ?thesis
    using advance_circular [OF wf b(2) n(1) s] write_circular [OF wf b(2) n s]
    by (intro exI [of _ ?wp] exI [of _ ?b2]) blast
qed

lemma put_content:
  assumes wf: "rg_wf rb" and src: "unat cnt \<le> length src" and put: "ringbuffer_put rb src cnt = (n, rb')"
  shows "unat n = min (unat cnt) (cap rb - 1 - length (rg_content rb))" "rg_wf rb'" "cap rb' = cap rb"
    "rg_content rb' = rg_content rb @ take (unat n) src"
proof -
  note b = rg_wf_bounds [OF wf]
  let ?c = "unat (ringbuffer_read_space rb)" and ?r = "unat (rg_read_ptr rb)" and ?w = "unat (rg_write_ptr rb)"
  obtain wp buf where r: "n = taken cnt (ringbuffer_write_space rb)" "rb' = rb\<lparr>rg_buf := buf, rg_write_ptr := wp\<rparr>"
    "unat wp = (?w + unat n) mod cap rb" "length buf = cap rb"
    "\<forall>i < unat n. buf ! ((?w + i) mod cap rb) = src ! i"
    "\<forall>q < cap rb. (\<forall>i < unat n. q \<noteq> (?w + i) mod cap rb) \<longrightarrow> buf ! q = rg_buf rb ! q"
    using put_result [OF wf src] put by auto
  show n: "unat n = min (unat cnt) (cap rb - 1 - length (rg_content rb))"
    by (simp add: r(1) unat_write_space [OF wf])
  have c: "?c + unat n < cap rb" using n read_space_less [OF wf] by simp
  have "unat wp < cap rb" using r(3) b by simp
  then show wf': "rg_wf rb'" using wf r(2,4) by (simp add: rg_wf_def word_less_nat_alt)
  show "cap rb' = cap rb" by (simp add: r(2))
  have w: "?w = (?r + ?c) mod cap rb" by (rule write_ptr_eq [OF wf])
  have sp: "unat (ringbuffer_read_space rb') = ?c + unat n"
  proof -
    have eq: "(unat (ringbuffer_read_space rb') + ?r) mod cap rb = ((?c + unat n) + ?r) mod cap rb"
      using write_ptr_eq [OF wf'] r(2,3) w by (simp add: mod_add_left_eq mod_add_right_eq add.commute add.left_commute)
    show ?thesis
      by (rule mod_shift_cancel [OF eq _ c]) (use read_space_less [OF wf'] r(2) in simp)
  qed
  have wi: "(?w + i) mod cap rb = (?r + (?c + i)) mod cap rb" for i
    by (simp add: w mod_add_left_eq add.assoc)
  show "rg_content rb' = rg_content rb @ take (unat n) src"
  proof (rule nth_equalityI)
    have "unat n \<le> length src" using n src by simp
    then show len: "length (rg_content rb') = length (rg_content rb @ take (unat n) src)" using sp by simp
    fix j assume "j < length (rg_content rb')"
    then have j: "j < ?c + unat n" using sp by simp
    then have e: "rg_content rb' ! j = buf ! ((?r + j) mod cap rb)" using sp by (simp add: rg_content_def r(2))
    show "rg_content rb' ! j = (rg_content rb @ take (unat n) src) ! j"
    proof (cases "j < ?c")
      case True
      have "(?r + j) mod cap rb \<noteq> (?w + i) mod cap rb" if "i < unat n" for i
        using mod_shift_cancel [of j ?r "cap rb" "?c + i"] True that c unfolding wi by (auto simp: add.commute)
      then have "buf ! ((?r + j) mod cap rb) = rg_buf rb ! ((?r + j) mod cap rb)" using r(6) b by simp
      then show ?thesis using True e by (simp add: nth_append rg_content_def)
    next
      case False
      then obtain i where i: "j = ?c + i" "i < unat n" using j by (metis add_less_cancel_left le_Suc_ex not_less)
      from r(5) [rule_format, OF i(2)] have "buf ! ((?r + j) mod cap rb) = src ! i" unfolding wi i(1) .
      then show ?thesis using e i by (simp add: nth_append)
    qed
  qed
qed

section \<open>The FIFO interface\<close>

text \<open>What a user of the ring relies on: bytes leave in the order they entered, none lost, none doubled.\<close>

locale byte_fifo =
  fixes inv :: "'s \<Rightarrow> bool" and content :: "'s \<Rightarrow> byte list" and room :: "'s \<Rightarrow> nat"
    and enqueue :: "byte list \<Rightarrow> 's \<Rightarrow> nat \<times> 's" and dequeue :: "nat \<Rightarrow> 's \<Rightarrow> byte list \<times> 's"
  assumes enqueue_laws: "inv s \<Longrightarrow> enqueue src s = (n, s') \<Longrightarrow>
      inv s' \<and> n = min (length src) (room s - length (content s)) \<and> content s' = content s @ take n src \<and> room s' = room s"
    and dequeue_laws: "inv s \<Longrightarrow> dequeue k s = (out, s') \<Longrightarrow>
      inv s' \<and> out = take k (content s) \<and> content s' = drop k (content s) \<and> room s' = room s"

text \<open>A history of operations: \<open>Inl src\<close> writes, \<open>Inr k\<close> reads; the bytes accepted and delivered.\<close>

fun fifo_run :: "(byte list \<Rightarrow> 's \<Rightarrow> nat \<times> 's) \<Rightarrow> (nat \<Rightarrow> 's \<Rightarrow> byte list \<times> 's)
    \<Rightarrow> (byte list + nat) list \<Rightarrow> 's \<Rightarrow> byte list \<times> byte list \<times> 's" where
  "fifo_run enq deq [] s = ([], [], s)"
| "fifo_run enq deq (Inl src # ops) s =
     (let (n, s') = enq src s; (ins, outs, s'') = fifo_run enq deq ops s' in (take n src @ ins, outs, s''))"
| "fifo_run enq deq (Inr k # ops) s =
     (let (out, s') = deq k s; (ins, outs, s'') = fifo_run enq deq ops s' in (ins, out @ outs, s''))"

context byte_fifo
begin

lemma run_in_order:
  "inv s \<Longrightarrow> fifo_run enqueue dequeue ops s = (ins, outs, s') \<Longrightarrow>
    inv s' \<and> content s @ ins = outs @ content s' \<and> room s' = room s"
proof (induction ops arbitrary: s ins outs s')
  case Nil
  then show ?case by simp
next
  case (Cons op ops)
  show ?case
  proof (cases op)
    case (Inl src)
    obtain n s1 where e: "enqueue src s = (n, s1)" by fastforce
    obtain ins1 outs1 s2 where r: "fifo_run enqueue dequeue ops s1 = (ins1, outs1, s2)" by (metis prod_cases3)
    have "inv s1" "content s1 = content s @ take n src" "room s1 = room s"
      using enqueue_laws [OF Cons.prems(1) e] by simp_all
    then show ?thesis using Cons.IH [OF _ r] Cons.prems(2) Inl e r by auto
  next
    case (Inr k)
    obtain out s1 where e: "dequeue k s = (out, s1)" by fastforce
    obtain ins1 outs1 s2 where r: "fifo_run enqueue dequeue ops s1 = (ins1, outs1, s2)" by (metis prod_cases3)
    have d: "inv s1" "out = take k (content s)" "content s1 = drop k (content s)" "room s1 = room s"
      using dequeue_laws [OF Cons.prems(1) e] by simp_all
    then have i: "inv s2" "content s1 @ ins1 = outs1 @ content s2" "room s2 = room s"
      using Cons.IH [OF _ r] by simp_all
    have "content s @ ins1 = (out @ content s1) @ ins1" using d by simp
    also have "\<dots> = (out @ outs1) @ content s2" using i by simp
    finally show ?thesis using Cons.prems(2) Inr e r i by auto
  qed
qed

end

definition rg_enqueue :: "byte list \<Rightarrow> ringbuffer \<Rightarrow> nat \<times> ringbuffer" where
  "rg_enqueue src rb = map_prod unat id (ringbuffer_put rb src (of_nat (length src)))"

definition rg_dequeue :: "nat \<Rightarrow> ringbuffer \<Rightarrow> byte list \<times> ringbuffer" where
  "rg_dequeue k rb = snd (ringbuffer_get rb (of_nat k))"

definition rg_room :: "ringbuffer \<Rightarrow> nat" where
  "rg_room rb = cap rb - 1"

text \<open>Requests are counted in \<open>size_t\<close>; a longer one is cut to what \<open>size_t\<close> holds.\<close>

definition rg_enqueue_cut :: "byte list \<Rightarrow> ringbuffer \<Rightarrow> nat \<times> ringbuffer" where
  "rg_enqueue_cut src rb = rg_enqueue (take 4294967296 src) rb"

definition rg_dequeue_cut :: "nat \<Rightarrow> ringbuffer \<Rightarrow> byte list \<times> ringbuffer" where
  "rg_dequeue_cut k rb = rg_dequeue (min k 4294967296) rb"

interpretation ring: byte_fifo rg_wf rg_content rg_room rg_enqueue_cut rg_dequeue_cut
proof unfold_locales
  fix rb rb' src n
  assume wf: "rg_wf rb" and e: "rg_enqueue_cut src rb = (n, rb')"
  let ?src = "take 4294967296 src"
  have u: "unat (of_nat (length ?src) :: u64) = length ?src"
    by (simp add: unsigned_of_nat take_bit_eq_mod)
  obtain m where m: "ringbuffer_put rb ?src (of_nat (length ?src)) = (m, rb')" "n = unat m"
    using e by (cases "ringbuffer_put rb ?src (of_nat (length ?src))") (auto simp: rg_enqueue_cut_def rg_enqueue_def)
  note p = put_content [OF wf _ m(1)]
  have "unat m = min (length ?src) (cap rb - 1 - length (rg_content rb))" using p(1) u by simp
  moreover have "cap rb - 1 \<le> 4294967296" using rg_wf_bounds [OF wf] by simp
  ultimately show "rg_wf rb' \<and> n = min (length src) (rg_room rb - length (rg_content rb))
      \<and> rg_content rb' = rg_content rb @ take n src \<and> rg_room rb' = rg_room rb"
    using p u m(2) by (auto simp: rg_room_def min_def)
next
  fix rb rb' k out
  assume wf: "rg_wf rb" and e: "rg_dequeue_cut k rb = (out, rb')"
  let ?k = "min k 4294967296"
  have u: "unat (of_nat ?k :: u64) = ?k" by (simp add: unsigned_of_nat take_bit_eq_mod)
  have c: "length (rg_content rb) < 4294967296"
    using read_space_less [OF wf] rg_wf_bounds(5) [OF wf] by simp
  obtain rp where r: "out = take ?k (rg_content rb)" "rb' = rb\<lparr>rg_read_ptr := rp\<rparr>"
    "unat rp = (unat (rg_read_ptr rb) + unat (taken (of_nat ?k) (ringbuffer_read_space rb))) mod cap rb"
    using get_result [OF wf, of "of_nat ?k"] e u by (auto simp: rg_dequeue_cut_def rg_dequeue_def)
  have t: "unat (taken (of_nat ?k) (ringbuffer_read_space rb)) = min ?k (length (rg_content rb))"
    using u by simp
  note a = read_advanced [OF wf _ r(3)]
  show "rg_wf rb' \<and> out = take k (rg_content rb) \<and> rg_content rb' = drop k (rg_content rb) \<and> rg_room rb' = rg_room rb"
    using a t c by (auto simp: r(1,2) rg_room_def min_def)
qed

lemma peek_is_get:
  assumes "rg_wf rb"
  shows "ringbuffer_peek rb cnt = (fst (ringbuffer_get rb cnt), fst (snd (ringbuffer_get rb cnt)))"
  by (cases "copy_split rb (rg_read_ptr rb) (taken cnt (ringbuffer_read_space rb))")
    (simp add: ringbuffer_peek_def ringbuffer_get_def Let_def taken_def)

lemma create_power_result:
  "create_power p sz = Some k \<Longrightarrow> p \<le> k \<and> k \<le> 30 \<and> sz \<le> 2 ^ k"
proof (induction p sz rule: create_power.induct)
  case (1 p sz)
  then show ?case
    by (subst (asm) create_power.simps) (auto split: if_splits dest!: not_less [THEN iffD1])
qed

lemma create_power_defined: "sz \<le> 2 ^ 30 \<Longrightarrow> p \<le> 30 \<Longrightarrow> create_power p sz \<noteq> None"
proof (induction p sz rule: create_power.induct)
  case (1 p sz)
  show ?case
  proof (cases "2 ^ p < sz")
    case False
    then show ?thesis using 1 by (subst create_power.simps) simp
  next
    case True
    then have "p \<noteq> 30" using 1 by auto
    then have "p < 30" using 1 by simp
    then show ?thesis using 1 True by (subst create_power.simps) simp
  qed
qed

text \<open>
  C7. Over any sequence of writes and reads on a well-formed ring the bytes delivered, followed by
  the bytes still held, are the bytes held at first followed by the bytes accepted: a byte FIFO
  across every wrap of the buffer.
\<close>

theorem ring_is_fifo:
  assumes "rg_wf rb" "fifo_run rg_enqueue_cut rg_dequeue_cut ops rb = (ins, outs, rb')"
  shows "rg_wf rb' \<and> rg_content rb @ ins = outs @ rg_content rb' \<and> cap rb' - 1 = cap rb - 1"
  using ring.run_in_order [OF assms] by (simp add: rg_room_def)

text \<open>
  \<open>ringbuffer_put\<close> accepts exactly what fits, \<open>ringbuffer_get\<close> hands out exactly what is held
  up to the request, \<open>ringbuffer_peek\<close> the same bytes without moving the read pointer, and the
  spaces reported for reading and writing add up to the size less one.
\<close>

theorem ring_put_get_exact:
  assumes wf: "rg_wf rb" and src: "unat cnt \<le> length src"
  shows "(case ringbuffer_put rb src cnt of (n, rb') \<Rightarrow>
      rg_wf rb' \<and> unat n = min (unat cnt) (unat (ringbuffer_write_space rb)) \<and> rg_content rb' = rg_content rb @ take (unat n) src)
    \<and> (case ringbuffer_get rb cnt of (n, dest, rb') \<Rightarrow>
      rg_wf rb' \<and> unat n = length dest \<and> dest = take (unat cnt) (rg_content rb) \<and> rg_content rb' = drop (unat cnt) (rg_content rb)
      \<and> ringbuffer_peek rb cnt = (n, dest))
    \<and> unat (ringbuffer_read_space rb) + unat (ringbuffer_write_space rb) = cap rb - 1"
proof -
  obtain n rb' where p: "ringbuffer_put rb src cnt = (n, rb')" by fastforce
  note put = put_content [OF wf src p]
  obtain rp where g: "ringbuffer_get rb cnt = (taken cnt (ringbuffer_read_space rb), take (unat cnt) (rg_content rb), rb\<lparr>rg_read_ptr := rp\<rparr>)"
    "unat rp = (unat (rg_read_ptr rb) + unat (taken cnt (ringbuffer_read_space rb))) mod cap rb"
    using get_result [OF wf] by blast
  have "rg_wf (rb\<lparr>rg_read_ptr := rp\<rparr>)" "rg_content (rb\<lparr>rg_read_ptr := rp\<rparr>) = drop (unat cnt) (rg_content rb)"
    using read_advanced [OF wf _ g(2)] by (simp_all add: min_def)
  then show ?thesis
    using p put g peek_is_get [OF wf, of cnt] unat_write_space [OF wf] read_space_less [OF wf]
    by (simp add: min.commute)
qed

text \<open>
  \<open>ringbuffer_create\<close> rounds up to a power of two and yields an empty well-formed ring;
  \<open>ringbuffer_reset\<close> keeps it well formed and empties it.
\<close>

theorem create_and_reset:
  assumes "sz \<le> 2 ^ 30" "\<forall>n. \<exists>buf. malloc n = Some buf \<and> length buf = n"
  shows "\<exists>rb. ringbuffer_create True malloc sz = Some (Some rb) \<and> rg_wf rb \<and> rg_content rb = [] \<and> sz \<le> cap rb
    \<and> (\<forall>rb'. rg_wf rb' \<longrightarrow> rg_wf (ringbuffer_reset rb') \<and> rg_content (ringbuffer_reset rb') = [])"
proof -
  obtain k where k: "create_power 1 sz = Some k" using create_power_defined [of sz 1] assms(1) by auto
  then have k': "k \<le> 30" "sz \<le> 2 ^ k" using create_power_result by auto
  obtain buf where buf: "malloc (2 ^ k) = Some buf" "length buf = 2 ^ k" using assms(2) by blast
  let ?rb = "\<lparr>rg_buf = buf, rg_write_ptr = 0, rg_read_ptr = 0, rg_size = 2 ^ k, rg_size_mask = 2 ^ k - 1, rg_mlocked = False\<rparr>"
  have u: "unat (2 ^ k :: u64) = 2 ^ k" using k'(1) by (intro unat_exp) simp
  have "rg_wf ?rb" using k' buf u by (auto simp: rg_wf_def word_less_nat_alt intro!: exI [of _ k])
  moreover have "rg_content ?rb = []" by (simp add: rg_content_def ringbuffer_read_space_def)
  moreover have "ringbuffer_create True malloc sz = Some (Some ?rb)" using k by (simp add: ringbuffer_create_def buf)
  moreover have "rg_wf (ringbuffer_reset rb')" "rg_content (ringbuffer_reset rb') = []" if "rg_wf rb'" for rb'
    using that rg_wf_bounds [OF that]
    by (auto simp: rg_wf_def ringbuffer_reset_def rg_content_def ringbuffer_read_space_def word_less_nat_alt)
  ultimately show ?thesis using k'(2) u by (intro exI [of _ ?rb]) simp
qed

text \<open>
  \<open>ringbuffer_reset_size\<close> takes any size: with one that is not a power of two the mask no
  longer matches the size. With 6 the ring offers room for five bytes, yet after two have been
  written nothing can be read: they are lost.
\<close>

theorem reset_size_needs_power_of_two:
  "unat (ringbuffer_write_space (ringbuffer_reset_size rb 6)) = 5
   \<and> ringbuffer_read_space (ringbuffer_write_advance (ringbuffer_reset_size rb 6) 2) = 0
   \<and> \<not> rg_wf (ringbuffer_reset_size rb 6)"
proof -
  have "(6 :: u64) \<noteq> 2 ^ k" if "k \<le> 32" for k
  proof
    assume "(6 :: u64) = 2 ^ k"
    then have "unat (6 :: u64) = unat (2 ^ k :: u64)" by simp
    then have "(6 :: nat) = 2 ^ k" by (simp only: unat_exp [OF that]) simp
    then have "2 ^ k = 2 * (3 :: nat)" by simp
    then have "3 dvd (2 :: nat) ^ k" by (metis dvd_triv_right)
    moreover have "\<not> 3 dvd (2 :: nat) ^ k" proof (induction k)
      case (Suc k)
      have "2 ^ Suc k = 2 * (2 :: nat) ^ k" by simp
      with Suc show ?case by presburger
    qed simp
    ultimately show False by blast
  qed
  then show ?thesis
    by (auto simp: ringbuffer_reset_size_def ringbuffer_write_space_def ringbuffer_read_space_def
        ringbuffer_write_advance_def rg_wf_def)
qed

section \<open>A concrete ring\<close>

definition demo_ring :: ringbuffer where
  \<comment> \<open>eight bytes, holding 1 2 3 across the end of the buffer\<close>
  "demo_ring = \<lparr>rg_buf = [3, 0, 0, 0, 0, 0, 1, 2], rg_write_ptr = 1, rg_read_ptr = 6, rg_size = 8,
     rg_size_mask = 7, rg_mlocked = False\<rparr>"

lemma demo_ring_wf: "rg_wf demo_ring" "rg_content demo_ring = [1, 2, 3]"
proof -
  show "rg_wf demo_ring" by (auto simp: rg_wf_def demo_ring_def intro!: exI [of _ 3])
  show "rg_content demo_ring = [1, 2, 3]"
    by (simp add: rg_content_def ringbuffer_read_space_def demo_ring_def upt_rec)
qed

theorem ring_is_fifo_witness:
  "\<exists>ins outs rb'. fifo_run rg_enqueue_cut rg_dequeue_cut [Inl [9, 8], Inr 4] demo_ring = (ins, outs, rb')
     \<and> rg_wf rb' \<and> [1, 2, 3] @ ins = outs @ rg_content rb'"
proof -
  obtain ins outs rb' where r: "fifo_run rg_enqueue_cut rg_dequeue_cut [Inl [9, 8], Inr 4] demo_ring = (ins, outs, rb')"
    by (metis prod_cases3)
  from ring_is_fifo [OF demo_ring_wf(1) r] show ?thesis using r demo_ring_wf(2) by auto
qed

theorem ring_put_get_exact_witness:
  "rg_content (snd (ringbuffer_put demo_ring [9, 8] 2)) = [1, 2, 3, 9, 8]
   \<and> fst (snd (ringbuffer_get demo_ring 2)) = [1, 2]"
proof -
  have "unat (ringbuffer_write_space demo_ring) = 4"
    by (simp add: ringbuffer_write_space_def demo_ring_def)
  then show ?thesis
    using ring_put_get_exact [OF demo_ring_wf(1), of 2 "[9, 8]"] demo_ring_wf(2)
    by (auto split: prod.splits)
qed

theorem create_and_reset_witness:
  "\<exists>rb. ringbuffer_create True (\<lambda>n. Some (replicate n 0)) 1000 = Some (Some rb) \<and> rg_wf rb \<and> 1000 \<le> cap rb"
  using create_and_reset [of 1000 "\<lambda>n. Some (replicate n 0)"] by auto

end
