(* ===== verification/Http_Response.thy ===== *)
theory Http_Response
  imports Airplay_Prelude
begin

text \<open>
  The response builder of \<open>libairplay/airplay/http_response.c\<close>: a growing byte array. The size of the
  block behind \<open>data\<close> is tracked beside the field \<open>data_size\<close>, because the code never updates that
  field; a write past the block is the error \<open>HeapOverflow\<close>, a failing \<open>assert\<close> is
  \<open>AssertionFailed\<close> and overflow of the \<open>int\<close> arithmetic \<open>SignedOverflow\<close>. Allocation succeeds.
\<close>

section \<open>State and operations\<close>

datatype resp_error = AssertionFailed | HeapOverflow | SignedOverflow

record http_response =
  rs_complete :: bool
  rs_disconnect :: bool
  rs_data :: string            \<comment> \<open>the first \<open>data_length\<close> bytes of \<open>data\<close>\<close>
  rs_data_size :: nat          \<comment> \<open>the field \<open>data_size\<close>\<close>
  rs_allocated :: nat          \<comment> \<open>the size of the block \<open>data\<close> points to\<close>
  rs_flag :: int

abbreviation INT_MAX :: nat where "INT_MAX \<equiv> 2147483647"

function grow :: "nat \<Rightarrow> nat \<Rightarrow> nat" where
  \<comment> \<open>\<open>while (need > size) size *= 2\<close>, for a positive size\<close>
  "grow need sz = (if need > sz \<and> sz > 0 then grow need (2 * sz) else sz)"
  by pat_completeness auto
termination by (relation "measure (\<lambda>(need, sz). need - sz)") auto

declare grow.simps [simp del]

definition http_response_add_data :: "http_response \<Rightarrow> string \<Rightarrow> resp_error + http_response" where
  "http_response_add_data response data =
     (if length data = 0 then Inl AssertionFailed
      else let newdatasize = grow (rs_data_size response + length data) (rs_data_size response)
      in if newdatasize > INT_MAX then Inl SignedOverflow
      else let response = (if newdatasize \<noteq> rs_data_size response
                           then response\<lparr>rs_allocated := newdatasize,
                                         rs_data := take newdatasize (rs_data response)\<rparr>
                           else response)
      in if length (rs_data response) + length data > rs_allocated response then Inl HeapOverflow
      else Inr (response\<lparr>rs_data := rs_data response @ data\<rparr>))"

definition then_add :: "resp_error + http_response \<Rightarrow> string \<Rightarrow> resp_error + http_response" where
  "then_add r data = (case r of Inl e \<Rightarrow> Inl e | Inr response \<Rightarrow> http_response_add_data response data)"

abbreviation CRLF :: string where "CRLF \<equiv> [CHR 0x0D, CHR 0x0A]"

fun dec_digits :: "nat \<Rightarrow> string" where
  \<comment> \<open>\<open>%d\<close> and \<open>%u\<close> of a non-negative number\<close>
  "dec_digits n = (if n < 10 then [char_of (48 + n)] else dec_digits (n div 10) @ [char_of (48 + n mod 10)])"

declare dec_digits.simps [simp del]

definition fresh_response :: http_response where
  "fresh_response = \<lparr>rs_complete = False, rs_disconnect = False, rs_data = [], rs_data_size = 1024,
     rs_allocated = 1024, rs_flag = 1\<rparr>"

definition http_response_init_ex :: "string \<Rightarrow> string \<Rightarrow> string \<Rightarrow> resp_error + http_response" where
  "http_response_init_ex protocol action message =
     foldl then_add (Inr fresh_response) [protocol, '' '', action, '' '', message, CRLF]"

definition http_response_init :: "string \<Rightarrow> nat \<Rightarrow> string \<Rightarrow> resp_error + http_response" where
  "http_response_init protocol code message =
     (if \<not> (code \<ge> 100 \<and> code < 1000) then Inl AssertionFailed
      else foldl then_add (Inr fresh_response) [protocol, '' '', take 3 (dec_digits code), '' '', message, CRLF])"

definition http_response_add_header :: "http_response \<Rightarrow> string \<Rightarrow> string \<Rightarrow> resp_error + http_response" where
  "http_response_add_header response name val = foldl then_add (Inr response) [name, '': '', val, CRLF]"

definition http_response_finish :: "http_response \<Rightarrow> string \<Rightarrow> resp_error + http_response" where
  \<comment> \<open>\<open>data\<close> with \<open>datalen\<close> its length; 0 stands for no body\<close>
  "http_response_finish response data =
     (case (if length data > 0
            then foldl then_add (Inr response)
                   [''Content-Length'', '': '', take 14 (dec_digits (length data)), CRLF @ CRLF, data]
            else http_response_add_data response CRLF) of
        Inl e \<Rightarrow> Inl e
      | Inr response \<Rightarrow> Inr (response\<lparr>rs_complete := True\<rparr>))"

definition http_response_set_disconnect :: "http_response \<Rightarrow> int \<Rightarrow> http_response" where
  "http_response_set_disconnect response disconnect = response\<lparr>rs_disconnect := (disconnect \<noteq> 0)\<rparr>"

definition http_response_get_disconnect :: "http_response \<Rightarrow> bool" where
  "http_response_get_disconnect response = rs_disconnect response"

definition http_response_get_data :: "http_response \<Rightarrow> resp_error + string" where
  "http_response_get_data response = (if rs_complete response then Inr (rs_data response) else Inl AssertionFailed)"

definition http_response_get_flag :: "http_response \<Rightarrow> int" where
  "http_response_get_flag response = rs_flag response"

definition http_response_set_flag :: "http_response \<Rightarrow> int \<Rightarrow> http_response" where
  "http_response_set_flag response flag = response\<lparr>rs_flag := flag\<rparr>"

section \<open>Growth\<close>

lemma grow_ge: "0 < sz \<Longrightarrow> need \<le> grow need sz \<and> sz \<le> grow need sz"
proof (induction need sz rule: grow.induct)
  case (1 need sz)
  show ?case
  proof (cases "need > sz")
    case True
    then show ?thesis using 1 by (subst (1 2) grow.simps) simp
  qed (simp add: grow.simps)
qed

lemma grow_lt: "0 < sz \<Longrightarrow> sz < need \<Longrightarrow> grow need sz < 2 * need"
proof (induction need sz rule: grow.induct)
  case (1 need sz)
  have step: "grow need sz = grow need (2 * sz)" using 1(2,3) by (subst grow.simps) simp
  show ?case
  proof (cases "2 * sz < need")
    case True
    then show ?thesis using 1 step by simp
  next
    case False
    then have "grow need (2 * sz) = 2 * sz" by (subst grow.simps) simp
    then show ?thesis using step 1(3) by simp
  qed
qed

definition rs_wf :: "http_response \<Rightarrow> bool" where
  \<comment> \<open>what every response satisfies as long as its text before each addition fits \<open>data_size\<close>\<close>
  "rs_wf r \<longleftrightarrow> rs_data_size r = 1024 \<and> length (rs_data r) \<le> rs_allocated r"

lemma grow_1024: "0 < n \<Longrightarrow> 1024 + n \<le> grow (1024 + n) 1024 \<and> grow (1024 + n) 1024 \<noteq> 1024 \<and> grow (1024 + n) 1024 < 2 * (1024 + n)"
  using grow_ge [of 1024 "1024 + n"] grow_lt [of 1024 "1024 + n"] by auto

lemma add_data_result:
  assumes "rs_data_size r = 1024" "0 < length data" "length data \<le> 1000000000"
  shows "http_response_add_data r data =
    (let cap = grow (1024 + length data) 1024 in
     if min (length (rs_data r)) cap + length data > cap then Inl HeapOverflow
     else Inr (r\<lparr>rs_allocated := cap, rs_data := take cap (rs_data r) @ data\<rparr>))"
  using assms grow_1024 [of "length data"] by (simp add: http_response_add_data_def Let_def min.commute)

lemma add_data_fits:
  assumes "rs_data_size r = 1024" "length (rs_data r) \<le> 1024" "data \<noteq> []" "length data \<le> 1000000000"
  shows "\<exists>c. http_response_add_data r data = Inr (r\<lparr>rs_allocated := c, rs_data := rs_data r @ data\<rparr>)"
  using assms grow_1024 [of "length data"]
  by (intro exI [of _ "grow (1024 + length data) 1024"]) (simp add: add_data_result Let_def)

lemma then_add_simps [simp]:
  "then_add (Inr r) p = http_response_add_data r p" "then_add (Inl e) p = Inl e"
  by (simp_all add: then_add_def)

lemma foldl_then_add_Inl [simp]: "foldl then_add (Inl e) ps = Inl e"
  by (induction ps) simp_all

text \<open>A list of pieces is appended whole when everything before its last piece fits the first 1024 bytes.\<close>

lemma add_pieces:
  assumes "rs_data_size r = 1024" "pieces \<noteq> []" "\<forall>p \<in> set pieces. p \<noteq> [] \<and> length p \<le> 1000000000"
    "length (rs_data r @ concat (butlast pieces)) \<le> 1024"
  shows "\<exists>c. foldl then_add (Inr r) pieces = Inr (r\<lparr>rs_allocated := c, rs_data := rs_data r @ concat pieces\<rparr>)"
  using assms
proof (induction pieces arbitrary: r)
  case (Cons p ps)
  then have "length (rs_data r) \<le> 1024" by (auto split: if_splits)
  then obtain c where c: "http_response_add_data r p = Inr (r\<lparr>rs_allocated := c, rs_data := rs_data r @ p\<rparr>)"
    using add_data_fits [of r p] Cons.prems by auto
  let ?r = "r\<lparr>rs_allocated := c, rs_data := rs_data r @ p\<rparr>"
  show ?case
  proof (cases "ps = []")
    case True
    then show ?thesis using c by auto
  next
    case False
    then obtain c' where "foldl then_add (Inr ?r) ps = Inr (?r\<lparr>rs_allocated := c', rs_data := rs_data ?r @ concat ps\<rparr>)"
      using Cons.IH [of ?r] Cons.prems by auto
    then show ?thesis using c by (intro exI [of _ c']) simp
  qed
qed simp

section \<open>What a response looks like\<close>

fun add_headers :: "http_response \<Rightarrow> (string \<times> string) list \<Rightarrow> resp_error + http_response" where
  "add_headers r [] = Inr r"
| "add_headers r ((name, val) # hs) =
     (case http_response_add_header r name val of Inl e \<Rightarrow> Inl e | Inr r' \<Rightarrow> add_headers r' hs)"

definition header_text :: "(string \<times> string) list \<Rightarrow> string" where
  "header_text hs = concat (map (\<lambda>(name, val). name @ '': '' @ val @ CRLF) hs)"

definition status_line :: "string \<Rightarrow> nat \<Rightarrow> string \<Rightarrow> string" where
  "status_line protocol code message = protocol @ '' '' @ dec_digits code @ '' '' @ message @ CRLF"

definition body_text :: "string \<Rightarrow> string" where
  "body_text body = (if body = [] then CRLF
     else ''Content-Length: '' @ dec_digits (length body) @ CRLF @ CRLF @ body)"

lemma dec_digits_length: "n < 10 ^ k \<Longrightarrow> 0 < k \<Longrightarrow> length (dec_digits n) \<le> k \<and> dec_digits n \<noteq> []"
proof (induction k arbitrary: n)
  case (Suc k)
  show ?case
  proof (cases "n < 10")
    case True
    then show ?thesis by (simp add: dec_digits.simps)
  next
    case False
    then have "k \<noteq> 0" using Suc.prems by (cases k) auto
    moreover have "n div 10 < 10 ^ k" using Suc.prems by (simp add: less_mult_imp_div_less mult.commute)
    ultimately show ?thesis using Suc.IH [of "n div 10"] False by (subst (1 2) dec_digits.simps) simp
  qed
qed simp

lemma init_text:
  assumes "100 \<le> code" "code < 1000" "protocol \<noteq> []" "message \<noteq> []"
    "length (status_line protocol code message) \<le> 1024"
  shows "\<exists>c. http_response_init protocol code message
    = Inr (fresh_response\<lparr>rs_allocated := c, rs_data := status_line protocol code message\<rparr>)"
proof -
  have d: "length (dec_digits code) \<le> 3" "dec_digits code \<noteq> []"
    using dec_digits_length [of code 3] assms(2) by simp_all
  have "\<exists>c. foldl then_add (Inr fresh_response) [protocol, '' '', dec_digits code, '' '', message, CRLF]
    = Inr (fresh_response\<lparr>rs_allocated := c, rs_data := rs_data fresh_response
        @ concat [protocol, '' '', dec_digits code, '' '', message, CRLF]\<rparr>)"
    by (rule add_pieces) (use assms d in \<open>simp_all add: fresh_response_def status_line_def\<close>)
  then show ?thesis
    using assms(1,2) d by (simp add: http_response_init_def status_line_def fresh_response_def)
qed

lemma add_headers_text:
  assumes "rs_data_size r = 1024" "\<forall>(n, v) \<in> set hs. n \<noteq> [] \<and> v \<noteq> []"
    "length (rs_data r @ header_text hs) \<le> 1024"
  shows "\<exists>c. add_headers r hs = Inr (r\<lparr>rs_allocated := c, rs_data := rs_data r @ header_text hs\<rparr>)"
  using assms
proof (induction hs arbitrary: r)
  case Nil
  then show ?case by (intro exI [of _ "rs_allocated r"]) (simp add: header_text_def)
next
  case (Cons h hs)
  obtain n v where h: "h = (n, v)" by fastforce
  let ?ps = "[n, '': '', v, CRLF]"
  have "\<exists>c. foldl then_add (Inr r) ?ps = Inr (r\<lparr>rs_allocated := c, rs_data := rs_data r @ concat ?ps\<rparr>)"
    by (rule add_pieces) (use Cons.prems h in \<open>auto simp: header_text_def\<close>)
  then obtain c where c: "http_response_add_header r n v = Inr (r\<lparr>rs_allocated := c, rs_data := rs_data r @ concat ?ps\<rparr>)"
    unfolding http_response_add_header_def by blast
  let ?r = "r\<lparr>rs_allocated := c, rs_data := rs_data r @ concat ?ps\<rparr>"
  obtain c' where "add_headers ?r hs = Inr (?r\<lparr>rs_allocated := c', rs_data := rs_data ?r @ header_text hs\<rparr>)"
    using Cons.IH [of ?r] Cons.prems h by (auto simp: header_text_def)
  then show ?case using c h by (intro exI [of _ c']) (simp add: header_text_def)
qed

lemma finish_text:
  assumes "rs_data_size r = 1024" "length (rs_data r) \<le> 960" "length body \<le> 1000000000"
  shows "\<exists>c. http_response_finish r body
    = Inr (r\<lparr>rs_allocated := c, rs_data := rs_data r @ body_text body, rs_complete := True\<rparr>)"
proof (cases "body = []")
  case True
  then show ?thesis
    using add_data_fits [OF assms(1), of CRLF] assms(2) by (auto simp: http_response_finish_def body_text_def)
next
  case False
  have d: "length (dec_digits (length body)) \<le> 10" "dec_digits (length body) \<noteq> []"
    using dec_digits_length [of "length body" 10] assms(3) by simp_all
  let ?ps = "[''Content-Length'', '': '', dec_digits (length body), CRLF @ CRLF, body]"
  have "\<exists>c. foldl then_add (Inr r) ?ps = Inr (r\<lparr>rs_allocated := c, rs_data := rs_data r @ concat ?ps\<rparr>)"
    by (rule add_pieces) (use assms False d in simp_all)
  then obtain c where "foldl then_add (Inr r) ?ps = Inr (r\<lparr>rs_allocated := c, rs_data := rs_data r @ concat ?ps\<rparr>)"
    by blast
  then show ?thesis
    using False d by (intro exI [of _ c]) (simp add: http_response_finish_def body_text_def)
qed

text \<open>
  C39. A response whose status line and headers take at most 960 bytes, with no empty header name or
  value, is rendered exactly as written: no addition fails or overruns the buffer, and the finished
  data are the status line, the headers in order, the content length, an empty line and the body.
\<close>

theorem response_renders:
  assumes "100 \<le> code" "code < 1000" "protocol \<noteq> []" "message \<noteq> []" "\<forall>(n, v) \<in> set hs. n \<noteq> [] \<and> v \<noteq> []"
    and len: "length (status_line protocol code message @ header_text hs) \<le> 960" "length body \<le> 1000000000"
  shows "\<exists>r1 r2 r3. http_response_init protocol code message = Inr r1 \<and> add_headers r1 hs = Inr r2
    \<and> http_response_finish r2 body = Inr r3
    \<and> http_response_get_data r3 = Inr (status_line protocol code message @ header_text hs @ body_text body)"
proof -
  obtain c1 where r1: "http_response_init protocol code message
      = Inr (fresh_response\<lparr>rs_allocated := c1, rs_data := status_line protocol code message\<rparr>)" (is "_ = Inr ?r1")
    using init_text assms len by fastforce
  have s: "rs_data_size ?r1 = 1024" by (simp add: fresh_response_def)
  obtain c2 where r2: "add_headers ?r1 hs = Inr (?r1\<lparr>rs_allocated := c2, rs_data := rs_data ?r1 @ header_text hs\<rparr>)" (is "_ = Inr ?r2")
    using add_headers_text [OF s] assms(5) len by fastforce
  have "rs_data_size ?r2 = 1024" "length (rs_data ?r2) \<le> 960" using s len by simp_all
  from finish_text [OF this len(2)] obtain c3 where
    "http_response_finish ?r2 body = Inr (?r2\<lparr>rs_allocated := c3, rs_data := rs_data ?r2 @ body_text body, rs_complete := True\<rparr>)"
    by blast
  then show ?thesis using r1 r2 by (simp add: http_response_get_data_def)
qed

text \<open>
  The buffer is sized from \<open>data_size\<close>, which never grows: once 2048 bytes are in the response,
  adding any piece of up to 1024 bytes writes past the block; and below that a header with an empty
  value, such as an echoed empty \<open>CSeq\<close>, fails the assertion on the length of the piece.
\<close>

theorem add_data_failures:
  assumes size: "rs_data_size r = 1024"
  shows "(2048 \<le> length (rs_data r) \<and> 0 < length data \<and> length data \<le> 1024 \<longrightarrow>
      http_response_add_data r data = Inl HeapOverflow)
    \<and> (length (rs_data r) + length name \<le> 1024 \<and> name \<noteq> [] \<longrightarrow>
      http_response_add_header r name [] = Inl AssertionFailed)"
proof (intro conjI impI; elim conjE)
  assume d: "2048 \<le> length (rs_data r)" "0 < length data" "length data \<le> 1024"
  have "grow (1024 + length data) 1024 = 2048"
    using d(2,3) by (subst grow.simps, simp, subst grow.simps, simp)
  then show "http_response_add_data r data = Inl HeapOverflow"
    using size d by (simp add: add_data_result Let_def)
next
  assume n: "length (rs_data r) + length name \<le> 1024" "name \<noteq> []"
  have "\<exists>c. foldl then_add (Inr r) [name, '': ''] = Inr (r\<lparr>rs_allocated := c, rs_data := rs_data r @ concat [name, '': '']\<rparr>)"
    by (rule add_pieces) (use size n in simp_all)
  then obtain r' where "foldl then_add (Inr r) [name, '': ''] = Inr r'" by blast
  then show "http_response_add_header r name [] = Inl AssertionFailed"
    by (simp add: http_response_add_header_def http_response_add_data_def)
qed

section \<open>Concrete responses\<close>

theorem response_renders_witness:
  "\<exists>r1 r2 r3. http_response_init ''RTSP/1.0'' 200 ''OK'' = Inr r1 \<and> add_headers r1 [(''CSeq'', ''7'')] = Inr r2
    \<and> http_response_finish r2 ''ab'' = Inr r3
    \<and> http_response_get_data r3 = Inr (''RTSP/1.0 200 OK'' @ CRLF @ ''CSeq: 7'' @ CRLF @ ''Content-Length: 2'' @ CRLF @ CRLF @ ''ab'')"
proof -
  have d: "dec_digits 200 = ''200''" "dec_digits (length ''ab'') = ''2''"
    by code_simp+
  show ?thesis
    using response_renders [of 200 "''RTSP/1.0''" "''OK''" "[(''CSeq'', ''7'')]" "''ab''"]
    by (simp add: status_line_def header_text_def body_text_def d [simplified])
qed

theorem add_data_failures_witness:
  "http_response_add_data (fresh_response\<lparr>rs_data := replicate 2048 CHR ''x''\<rparr>) ''y'' = Inl HeapOverflow
    \<and> http_response_add_header fresh_response ''CSeq'' [] = Inl AssertionFailed"
  using add_data_failures [of "fresh_response\<lparr>rs_data := replicate 2048 CHR ''x''\<rparr>" "''y''"]
    add_data_failures [of fresh_response _ "''CSeq''"] by (simp add: fresh_response_def)

end
