(* ===== verification/Http_Request.thy ===== *)
theory Http_Request
  imports Airplay_Prelude
begin

text \<open>
  The request object of \<open>libairplay/airplay/http_request.c\<close>. The tokenizer \<open>http_parser\<close> is third
  party: a run of it is the list of callbacks it makes (\<open>parser_call\<close>), in pieces as they come.
  \<open>None\<close> is an access outside the header array. Allocation succeeds.
\<close>

section \<open>State\<close>

datatype parser_call =
    OnUrl string
  | OnHeaderField string
  | OnHeaderValue string
  | OnBody string
  | OnMessageComplete string   \<comment> \<open>the method name of the parser at that point\<close>

record http_request =
  rq_method :: "string option"
  rq_url :: "string option"
  rq_headers :: "string option list"   \<comment> \<open>\<open>headers_size\<close> is the length\<close>
  rq_headers_index :: nat
  rq_data :: string
  rq_complete :: bool

definition http_request_init :: http_request where
  "http_request_init = \<lparr>rq_method = None, rq_url = None, rq_headers = [], rq_headers_index = 0,
     rq_data = [], rq_complete = False\<rparr>"

definition cstr :: "string \<Rightarrow> string" where
  \<comment> \<open>what \<open>strncpy\<close> and \<open>strncat\<close> take of a piece: up to its first NUL\<close>
  "cstr at = takeWhile (\<lambda>c. c \<noteq> CHR 0x00) at"

section \<open>Callbacks\<close>

definition on_url :: "http_request \<Rightarrow> string \<Rightarrow> http_request" where
  "on_url rq at =
     (case rq_url rq of
        Some (u # us) \<Rightarrow> rq\<lparr>rq_url := Some ((u # us) @ [CHR 0x0A] @ cstr at)\<rparr>
      | _ \<Rightarrow> rq\<lparr>rq_url := Some (cstr at)\<rparr>)"

definition append_header :: "string option \<Rightarrow> string \<Rightarrow> string option" where
  "append_header h at = Some ((case h of None \<Rightarrow> [] | Some s \<Rightarrow> s) @ cstr at)"

definition on_header_field :: "http_request \<Rightarrow> string \<Rightarrow> http_request option" where
  "on_header_field rq at =
     (let idx = (if rq_headers_index rq mod 2 = 1 then rq_headers_index rq + 1 else rq_headers_index rq);
          headers = (if idx = length (rq_headers rq) then rq_headers rq @ [None, None] else rq_headers rq)
      in if idx \<ge> length headers then None
         else Some (rq\<lparr>rq_headers_index := idx, rq_headers := headers[idx := append_header (headers ! idx) at]\<rparr>))"

definition on_header_value :: "http_request \<Rightarrow> string \<Rightarrow> http_request option" where
  "on_header_value rq at =
     (let idx = (if rq_headers_index rq mod 2 = 0 then rq_headers_index rq + 1 else rq_headers_index rq)
      in if idx \<ge> length (rq_headers rq) then None
         else Some (rq\<lparr>rq_headers_index := idx,
                       rq_headers := (rq_headers rq)[idx := append_header (rq_headers rq ! idx) at]\<rparr>))"

definition on_body :: "http_request \<Rightarrow> string \<Rightarrow> http_request" where
  "on_body rq at = rq\<lparr>rq_data := rq_data rq @ at\<rparr>"

definition on_message_complete :: "http_request \<Rightarrow> string \<Rightarrow> http_request" where
  "on_message_complete rq m = rq\<lparr>rq_method := Some m, rq_complete := True\<rparr>"

fun parser_step :: "parser_call \<Rightarrow> http_request \<Rightarrow> http_request option" where
  "parser_step (OnUrl at) rq = Some (on_url rq at)"
| "parser_step (OnHeaderField at) rq = on_header_field rq at"
| "parser_step (OnHeaderValue at) rq = on_header_value rq at"
| "parser_step (OnBody at) rq = Some (on_body rq at)"
| "parser_step (OnMessageComplete m) rq = Some (on_message_complete rq m)"

fun http_request_add_data :: "parser_call list \<Rightarrow> http_request \<Rightarrow> http_request option" where
  \<comment> \<open>the callbacks of one \<open>http_parser_execute\<close>\<close>
  "http_request_add_data [] rq = Some rq"
| "http_request_add_data (c # cs) rq =
     (case parser_step c rq of None \<Rightarrow> None | Some rq' \<Rightarrow> http_request_add_data cs rq')"

section \<open>Queries\<close>

definition http_request_is_complete :: "http_request \<Rightarrow> bool" where
  "http_request_is_complete rq = rq_complete rq"

definition http_request_get_method :: "http_request \<Rightarrow> string option" where
  "http_request_get_method rq = rq_method rq"

fun split_lines :: "string \<Rightarrow> string \<Rightarrow> string list" where
  \<comment> \<open>the tokens \<open>strtok(url, "\n")\<close> yields\<close>
  "split_lines cur [] = (if cur = [] then [] else [cur])"
| "split_lines cur (c # cs) =
     (if c = CHR 0x0A then (if cur = [] then split_lines [] cs else cur # split_lines [] cs)
      else split_lines (cur @ [c]) cs)"

definition http_request_get_url :: "http_request \<Rightarrow> int \<Rightarrow> string option option" where
  \<comment> \<open>\<open>None\<close>: \<open>strlen\<close> of a NULL url; \<open>Some None\<close>: NULL returned\<close>
  "http_request_get_url rq index =
     map_option (\<lambda>url. let toks = split_lines [] url; k = nat (index - 1)
                       in if k < length toks then Some (toks ! k) else None) (rq_url rq)"

definition lower_char :: "char \<Rightarrow> char" where
  "lower_char c = (if 65 \<le> (of_char c :: nat) \<and> (of_char c :: nat) \<le> 90 then char_of (of_char c + 32 :: nat) else c)"

definition streq :: "bool \<Rightarrow> string \<Rightarrow> string \<Rightarrow> bool" where
  \<comment> \<open>\<open>!strcmp\<close> or \<open>!strcasecmp\<close>\<close>
  "streq nocase a b \<longleftrightarrow> (if nocase then map lower_char a = map lower_char b else a = b)"

fun header_scan :: "bool \<Rightarrow> string \<Rightarrow> int \<Rightarrow> string option list \<Rightarrow> string option" where
  \<comment> \<open>the loop of \<open>http_request_get_header\<close> and \<open>http_request_get_iheader\<close>\<close>
  "header_scan nocase name index (Some field # val # rest) =
     (if index \<noteq> 1 then header_scan nocase name (if streq nocase field ''CSeq'' then index - 1 else index) rest
      else if streq nocase field name then val
      else header_scan nocase name index rest)"
| "header_scan nocase name index _ = None"

definition http_request_get_header :: "http_request \<Rightarrow> string \<Rightarrow> int \<Rightarrow> string option" where
  "http_request_get_header rq name index = header_scan False name index (rq_headers rq)"

definition http_request_get_iheader :: "http_request \<Rightarrow> string \<Rightarrow> int \<Rightarrow> string option" where
  "http_request_get_iheader rq name index = header_scan True name index (rq_headers rq)"

definition http_request_get_data :: "http_request \<Rightarrow> string" where
  "http_request_get_data rq = rq_data rq"

fun count_cseq :: "string option list \<Rightarrow> int" where
  "count_cseq (Some field # val # rest) = (if streq True field ''CSeq'' then 1 else 0) + count_cseq rest"
| "count_cseq _ = 0"

definition http_request_get_request_count :: "http_request \<Rightarrow> int" where
  "http_request_get_request_count rq =
     (let ret = count_cseq (rq_headers rq) in if ret \<noteq> 0 then ret else 1)"

section \<open>Headers in pieces\<close>

text \<open>One header as the parser reports it: its field and its value, each in one or more pieces.\<close>

type_synonym header_pieces = "(string list \<times> string list)"

definition header_calls :: "header_pieces \<Rightarrow> parser_call list" where
  "header_calls h = map OnHeaderField (fst h) @ map OnHeaderValue (snd h)"

definition pieces_ok :: "header_pieces \<Rightarrow> bool" where
  "pieces_ok h \<longleftrightarrow> fst h \<noteq> [] \<and> snd h \<noteq> []"

definition joined :: "string list \<Rightarrow> string" where
  "joined ps = concat (map cstr ps)"

text \<open>Between headers: the pairs so far fill the array and the index is at its last value.\<close>

definition rq_settled :: "http_request \<Rightarrow> bool" where
  "rq_settled rq \<longleftrightarrow> even (length (rq_headers rq))
     \<and> (if rq_headers rq = [] then rq_headers_index rq = 0 else rq_headers_index rq = length (rq_headers rq) - 1)"

lemma add_data_append:
  "http_request_add_data (xs @ ys) rq = Option.bind (http_request_add_data xs rq) (http_request_add_data ys)"
  by (induction xs arbitrary: rq) (auto split: option.split)

lemma field_pieces:
  assumes "even n" "rq_headers rq = hs @ [Some f, v]" "length hs = n" "rq_headers_index rq = n"
  shows "http_request_add_data (map OnHeaderField ps) rq
    = Some (rq\<lparr>rq_headers := hs @ [Some (f @ joined ps), v]\<rparr>)"
  using assms
proof (induction ps arbitrary: rq f)
  case Nil
  then have "rq = rq\<lparr>rq_headers := hs @ [Some f, v]\<rparr>" by simp
  then show ?case by (simp add: joined_def)
next
  case (Cons p ps)
  let ?rq = "rq\<lparr>rq_headers := hs @ [Some (f @ cstr p), v]\<rparr>"
  have "on_header_field rq p = Some ?rq"
    using Cons.prems by (auto simp: on_header_field_def append_header_def Let_def list_update_append nth_append)
  then show ?case using Cons.IH [of ?rq "f @ cstr p"] Cons.prems by (simp add: joined_def)
qed

lemma value_pieces:
  assumes "even n" "rq_headers rq = hs @ [f, Some v]" "length hs = n" "rq_headers_index rq = n + 1"
  shows "http_request_add_data (map OnHeaderValue ps) rq
    = Some (rq\<lparr>rq_headers := hs @ [f, Some (v @ joined ps)]\<rparr>)"
  using assms
proof (induction ps arbitrary: rq v)
  case Nil
  then have "rq = rq\<lparr>rq_headers := hs @ [f, Some v]\<rparr>" by simp
  then show ?case by (simp add: joined_def)
next
  case (Cons p ps)
  let ?rq = "rq\<lparr>rq_headers := hs @ [f, Some (v @ cstr p)]\<rparr>"
  have "on_header_value rq p = Some ?rq"
    using Cons.prems by (auto simp: on_header_value_def append_header_def Let_def list_update_append nth_append)
  then show ?case using Cons.IH [of ?rq "v @ cstr p"] Cons.prems by (simp add: joined_def)
qed

lemma first_field:
  assumes "rq_settled rq"
  shows "on_header_field rq p = Some (rq\<lparr>rq_headers_index := length (rq_headers rq),
      rq_headers := rq_headers rq @ [Some (cstr p), None]\<rparr>)"
proof (cases "rq_headers rq = []")
  case True
  then show ?thesis using assms by (simp add: rq_settled_def on_header_field_def append_header_def Let_def)
next
  case False
  then have i: "rq_headers_index rq = length (rq_headers rq) - 1" "even (length (rq_headers rq))" "0 < length (rq_headers rq)"
    using assms by (simp_all add: rq_settled_def)
  then have "(length (rq_headers rq) - 1) mod 2 = 1" by presburger
  then show ?thesis
    using i by (simp add: on_header_field_def append_header_def Let_def nth_append list_update_append)
qed

lemma first_value:
  assumes "even n" "rq_headers rq = hs @ [f, None]" "length hs = n" "rq_headers_index rq = n"
  shows "on_header_value rq p = Some (rq\<lparr>rq_headers_index := n + 1, rq_headers := hs @ [f, Some (cstr p)]\<rparr>)"
  using assms by (auto simp: on_header_value_def append_header_def Let_def nth_append list_update_append)

definition pair_of :: "header_pieces \<Rightarrow> string \<times> string" where
  "pair_of h = (joined (fst h), joined (snd h))"

definition encode_pairs :: "(string \<times> string) list \<Rightarrow> string option list" where
  "encode_pairs ps = concat (map (\<lambda>(f, v). [Some f, Some v]) ps)"

lemma encode_pairs_simps [simp]:
  "encode_pairs [] = []" "encode_pairs ((f, v) # ps) = Some f # Some v # encode_pairs ps"
  by (simp_all add: encode_pairs_def)

lemma header_calls_result:
  assumes "rq_settled rq" "pieces_ok h"
  shows "http_request_add_data (header_calls h) rq
    = Some (rq\<lparr>rq_headers := rq_headers rq @ encode_pairs [pair_of h], rq_headers_index := length (rq_headers rq) + 1\<rparr>)"
proof -
  obtain f fs where f: "fst h = f # fs" using assms(2) by (cases "fst h") (auto simp: pieces_ok_def)
  obtain v vs where v: "snd h = v # vs" using assms(2) by (cases "snd h") (auto simp: pieces_ok_def)
  let ?n = "length (rq_headers rq)" and ?hs = "rq_headers rq"
  have ev: "even ?n" using assms(1) by (simp add: rq_settled_def)
  let ?r1 = "rq\<lparr>rq_headers_index := ?n, rq_headers := ?hs @ [Some (cstr f), None]\<rparr>"
  let ?r2 = "?r1\<lparr>rq_headers := ?hs @ [Some (cstr f @ joined fs), None]\<rparr>"
  let ?r3 = "?r2\<lparr>rq_headers_index := ?n + 1, rq_headers := ?hs @ [Some (cstr f @ joined fs), Some (cstr v)]\<rparr>"
  have 1: "http_request_add_data (map OnHeaderField (fst h)) rq = Some ?r2"
    using first_field [OF assms(1), of f] field_pieces [OF ev, of ?r1 ?hs "cstr f" None fs] f by simp
  have 2: "http_request_add_data (map OnHeaderValue (snd h)) ?r2
      = Some (?r3\<lparr>rq_headers := ?hs @ [Some (cstr f @ joined fs), Some (cstr v @ joined vs)]\<rparr>)"
    using first_value [OF ev, of ?r2 ?hs "Some (cstr f @ joined fs)" v]
      value_pieces [OF ev, of ?r3 ?hs "Some (cstr f @ joined fs)" "cstr v" vs] v by simp
  show ?thesis
    unfolding header_calls_def add_data_append 1 Option.bind.simps 2 using f v by (simp add: pair_of_def joined_def)
qed

lemma settled_after: "rq_settled rq \<Longrightarrow>
    rq_settled (rq\<lparr>rq_headers := rq_headers rq @ encode_pairs [p], rq_headers_index := length (rq_headers rq) + 1\<rparr>)"
  by (cases p) (simp add: rq_settled_def)

lemma headers_result:
  assumes "rq_settled rq" "\<forall>h \<in> set hs. pieces_ok h"
  shows "\<exists>n. http_request_add_data (concat (map header_calls hs)) rq
      = Some (rq\<lparr>rq_headers := rq_headers rq @ encode_pairs (map pair_of hs), rq_headers_index := n\<rparr>)"
  using assms
proof (induction hs arbitrary: rq)
  case Nil
  then show ?case by (intro exI [of _ "rq_headers_index rq"]) simp
next
  case (Cons h hs)
  let ?rq = "rq\<lparr>rq_headers := rq_headers rq @ encode_pairs [pair_of h], rq_headers_index := length (rq_headers rq) + 1\<rparr>"
  obtain n where "http_request_add_data (concat (map header_calls hs)) ?rq
      = Some (?rq\<lparr>rq_headers := rq_headers ?rq @ encode_pairs (map pair_of hs), rq_headers_index := n\<rparr>)"
    using Cons.IH [OF settled_after [OF Cons.prems(1), of "pair_of h"]] Cons.prems(2) by auto
  then show ?case
    using header_calls_result [OF Cons.prems(1), of h] Cons.prems(2)
    by (intro exI [of _ n]) (cases "pair_of h", simp add: add_data_append encode_pairs_def)
qed

section \<open>Looking headers up\<close>

fun first_match :: "bool \<Rightarrow> string \<Rightarrow> (string \<times> string) list \<Rightarrow> string option" where
  "first_match nocase name [] = None"
| "first_match nocase name ((f, v) # ps) = (if streq nocase f name then Some v else first_match nocase name ps)"

fun after_cseqs :: "bool \<Rightarrow> nat \<Rightarrow> (string \<times> string) list \<Rightarrow> (string \<times> string) list" where
  \<comment> \<open>the headers behind the first \<open>k\<close> CSeq headers\<close>
  "after_cseqs nocase 0 ps = ps"
| "after_cseqs nocase (Suc k) [] = []"
| "after_cseqs nocase (Suc k) ((f, v) # ps) =
     (if streq nocase f ''CSeq'' then after_cseqs nocase k ps else after_cseqs nocase (Suc k) ps)"

lemma header_scan_pairs:
  "header_scan nocase name (1 + int k) (encode_pairs ps) = first_match nocase name (after_cseqs nocase k ps)"
proof (induction nocase k ps rule: after_cseqs.induct)
  case (1 nocase ps)
  show ?case by (induction ps) auto
next
  case (2 nocase k)
  then show ?case by simp
next
  case (3 nocase k f v ps)
  then show ?case by (auto simp: algebra_simps)
qed

lemma count_cseq_pairs: "count_cseq (encode_pairs ps) = int (length (filter (\<lambda>p. streq True (fst p) ''CSeq'') ps))"
  by (induction ps) auto

text \<open>
  However the parser cuts fields and values into pieces, the headers are reassembled in order
  into whole pairs without touching memory outside the array; a header is then looked up as the
  first match behind the first \<open>index - 1\<close> CSeq headers, and the requests are counted by CSeq.
\<close>

theorem headers_reassembled:
  assumes "\<forall>h \<in> set hs. pieces_ok h"
  shows "\<exists>rq. http_request_add_data (concat (map header_calls hs)) http_request_init = Some rq
    \<and> rq_headers rq = encode_pairs (map pair_of hs)
    \<and> http_request_get_header rq name (1 + int k) = first_match False name (after_cseqs False k (map pair_of hs))
    \<and> http_request_get_iheader rq name (1 + int k) = first_match True name (after_cseqs True k (map pair_of hs))
    \<and> http_request_get_request_count rq = max 1 (int (length (filter (\<lambda>p. streq True (fst p) ''CSeq'') (map pair_of hs))))"
proof -
  obtain n where n: "http_request_add_data (concat (map header_calls hs)) http_request_init
      = Some (http_request_init\<lparr>rq_headers := rq_headers http_request_init @ encode_pairs (map pair_of hs), rq_headers_index := n\<rparr>)"
    using headers_result [of http_request_init hs] assms by (auto simp: rq_settled_def http_request_init_def)
  let ?rq = "http_request_init\<lparr>rq_headers := encode_pairs (map pair_of hs), rq_headers_index := n\<rparr>"
  have "rq_headers http_request_init = []" by (simp add: http_request_init_def)
  with n have "http_request_add_data (concat (map header_calls hs)) http_request_init = Some ?rq" by simp
  moreover have h: "rq_headers ?rq = encode_pairs (map pair_of hs)" by simp
  moreover have "http_request_get_header ?rq name (1 + int k) = first_match False name (after_cseqs False k (map pair_of hs))"
    "http_request_get_iheader ?rq name (1 + int k) = first_match True name (after_cseqs True k (map pair_of hs))"
    by (simp_all only: http_request_get_header_def http_request_get_iheader_def h header_scan_pairs)
  moreover have "http_request_get_request_count ?rq = max 1 (int (length (filter (\<lambda>p. streq True (fst p) ''CSeq'') (map pair_of hs))))"
    unfolding http_request_get_request_count_def h count_cseq_pairs Let_def by (simp add: max_def Suc_le_eq)
  ultimately show ?thesis by blast
qed

text \<open>
  The headers of a second, pipelined request are searched from behind the CSeq header of the
  first, not from the second request's own start: a header that follows CSeq in the first request is
  returned for the second.
\<close>

theorem pipelined_lookup_reads_first_request:
  assumes "\<forall>p \<in> set before. \<not> streq False (fst p) ''CSeq''" "rq_headers rq = encode_pairs (before @ (''CSeq'', n) # behind @ second)"
    and "first_match False name behind = Some v"
  shows "http_request_get_header rq name 2 = Some v"
proof -
  have "after_cseqs False 1 (before @ (''CSeq'', n) # behind @ second) = behind @ second"
    using assms(1) by (induction before) (auto simp: streq_def)
  moreover have "first_match False name (behind @ second) = Some v"
    using assms(3) by (induction behind) auto
  ultimately show ?thesis
    using header_scan_pairs [of False name 1] assms(2) by (simp add: http_request_get_header_def)
qed

lemma split_lines_plain: "CHR 0x0A \<notin> set u \<Longrightarrow> split_lines cur u = (if cur @ u = [] then [] else [cur @ u])"
  by (induction u arbitrary: cur) auto

lemma split_lines_append:
  "CHR 0x0A \<notin> set u \<Longrightarrow> cur @ u \<noteq> [] \<Longrightarrow> split_lines cur (u @ CHR 0x0A # rest) = (cur @ u) # split_lines [] rest"
  by (induction u arbitrary: cur) auto

text \<open>
  Two URL callbacks are kept apart by a line feed and come back as the first and the second URL;
  so a single URL that the parser reports in two pieces, as it does when the request line arrives in
  two segments, is read back cut at the piece.
\<close>

theorem url_pieces_are_split:
  assumes "u1 \<noteq> []" "u2 \<noteq> []" "\<forall>c \<in> set (u1 @ u2). c \<noteq> CHR 0x0A \<and> c \<noteq> CHR 0x00"
  shows "\<exists>rq. http_request_add_data [OnUrl u1, OnUrl u2] http_request_init = Some rq
    \<and> http_request_get_url rq 1 = Some (Some u1) \<and> http_request_get_url rq 2 = Some (Some u2)"
proof -
  have c: "cstr u1 = u1" "cstr u2 = u2" using assms(3) by (simp_all add: cstr_def takeWhile_eq_all_conv ball_Un)
  obtain a as where u1: "u1 = a # as" using assms(1) by (cases u1) auto
  let ?rq = "http_request_init\<lparr>rq_url := Some (u1 @ CHR 0x0A # u2)\<rparr>"
  have "http_request_add_data [OnUrl u1, OnUrl u2] http_request_init = Some ?rq"
    by (simp add: on_url_def http_request_init_def c(1)) (simp add: u1 c(2))
  moreover have "split_lines [] (u1 @ CHR 0x0A # u2) = [u1, u2]"
  proof -
    have "CHR 0x0A \<notin> set u1" "CHR 0x0A \<notin> set u2" using assms(3) by auto
    then show ?thesis
      using assms(1,2) split_lines_append [of u1 "[]" u2] split_lines_plain [of u2 "[]"] by simp
  qed
  ultimately show ?thesis by (auto simp: http_request_get_url_def Let_def)
qed

section \<open>Concrete requests\<close>

theorem headers_reassembled_witness:
  "\<exists>rq. http_request_add_data [OnHeaderField ''CS'', OnHeaderField ''eq'', OnHeaderValue ''1'', OnHeaderField ''A'', OnHeaderValue ''b''] http_request_init = Some rq
    \<and> http_request_get_header rq ''A'' 1 = Some ''b''"
proof -
  let ?hs = "[([''CS'', ''eq''], [''1'']), ([''A''], [''b''])]"
  have "map pair_of ?hs = [(''CSeq'', ''1''), (''A'', ''b'')]" by code_simp
  then show ?thesis
    using headers_reassembled [of ?hs "''A''" 0]
    by (auto simp: pieces_ok_def header_calls_def streq_def)
qed

theorem pipelined_lookup_reads_first_request_witness:
  "http_request_get_header (http_request_init\<lparr>rq_headers :=
     encode_pairs [(''CSeq'', ''1''), (''Content-Length'', ''5''), (''CSeq'', ''2''), (''Content-Length'', ''9'')]\<rparr>) ''Content-Length'' 2 = Some ''5''"
  using pipelined_lookup_reads_first_request [of "[]" "http_request_init\<lparr>rq_headers :=
     encode_pairs [(''CSeq'', ''1''), (''Content-Length'', ''5''), (''CSeq'', ''2''), (''Content-Length'', ''9'')]\<rparr>"
     "''1''" "[(''Content-Length'', ''5'')]" "[(''CSeq'', ''2''), (''Content-Length'', ''9'')]" "''Content-Length''" "''5''"]
  by (simp add: streq_def)

theorem url_pieces_are_split_witness:
  "\<exists>rq. http_request_add_data [OnUrl ''/inf'', OnUrl ''o''] http_request_init = Some rq \<and> http_request_get_url rq 1 = Some (Some ''/inf'')"
  using url_pieces_are_split [of "''/inf''" "''o''"] by auto

end
