(* ===== verification/Httpd.thy ===== *)
theory Httpd
  imports Utils_C Http_Request
begin

text \<open>
  The connection server of \<open>libairplay/airplay/httpd.c\<close>: the connection table, accepting and removing
  connections, the handling of one readable connection (HTTP requests, or mirroring frames on the
  server with id 1), one turn of the server thread, start and stop. System calls and the callbacks
  of the protocol layer are inputs; what the server does to the outside is the list of events. An
  outer \<open>None\<close> is undefined behaviour in the request object, a request handed over as NULL, which both
  protocol layers abort on, or a loop that waits for more input.
\<close>

section \<open>State\<close>

record connection =
  c_connected :: bool
  c_socket_fd :: int
  c_remote :: "byte list"
  c_user_data :: nat
  c_request :: "http_request option"
  c_set_codec_flag :: bool
  c_p_buffer :: bool                    \<comment> \<open>the mirroring buffer is allocated\<close>
  c_aes_key_context :: "nat option"

record httpd =
  h_connections :: "connection list"    \<comment> \<open>\<open>max_connections\<close> is the length\<close>
  h_open_connections :: int
  h_running :: bool
  h_joined :: bool
  h_id :: int
  h_server_fd4 :: int
  h_server_fd6 :: int
  h_event_socket :: int                 \<comment> \<open>the global \<open>event_socket\<close>\<close>

datatype httpd_event =
    ConnInit nat
  | ConnDestroy nat
  | ConnRequest nat nat                 \<comment> \<open>user data, request index\<close>
  | Shutdown int
  | CloseFd int
  | Send int string
  | BufferOverrun                       \<comment> \<open>\<open>buffer[4096] = 0\<close>\<close>
  | FreeKey nat                         \<comment> \<open>\<open>free(aes_key_context)\<close>\<close>
  | MirrorPlay "byte list" nat u64 "byte list"   \<comment> \<open>data, the length passed, time stamp, remote\<close>
  | MirrorProcess "byte list" int u64 "byte list"
  | MirrorStop "byte list option"

abbreviation blank_connection :: connection where
  "blank_connection \<equiv> \<lparr>c_connected = False, c_socket_fd = 0, c_remote = replicate 64 0, c_user_data = 0, c_request = None,
     c_set_codec_flag = False, c_p_buffer = False, c_aes_key_context = None\<rparr>"

definition httpd_init :: "nat \<Rightarrow> int \<Rightarrow> httpd" where
  "httpd_init max_connections i =
     \<lparr>h_connections = replicate max_connections blank_connection, h_open_connections = 0, h_running = False,
      h_joined = True, h_id = i, h_server_fd4 = -1, h_server_fd6 = -1, h_event_socket = 0\<rparr>"

section \<open>The connection table\<close>

definition httpd_remove_connection :: "nat \<Rightarrow> httpd \<Rightarrow> httpd \<times> httpd_event list" where
  "httpd_remove_connection i h =
     (let c = h_connections h ! i;
          c' = c\<lparr>c_request := None, c_connected := False, c_set_codec_flag := False, c_p_buffer := False,
                c_aes_key_context := None\<rparr>
      in (h\<lparr>h_connections := (h_connections h)[i := c'], h_open_connections := h_open_connections h - 1\<rparr>,
          [ConnDestroy (c_user_data c), Shutdown (c_socket_fd c), CloseFd (c_socket_fd c)]
          @ (case c_aes_key_context c of None \<Rightarrow> [] | Some k \<Rightarrow> [FreeKey k])))"

fun remove_connected :: "nat list \<Rightarrow> httpd \<Rightarrow> httpd \<times> httpd_event list" where
  \<comment> \<open>\<open>for (i ...) if (connections[i].connected) httpd_remove_connection(...)\<close>\<close>
  "remove_connected [] h = (h, [])"
| "remove_connected (i # is) h =
     (if \<not> c_connected (h_connections h ! i) then remove_connected is h
      else let (h, evs) = httpd_remove_connection i h; (h, evs') = remove_connected is h in (h, evs @ evs'))"

definition remove_all :: "httpd \<Rightarrow> httpd \<times> httpd_event list" where
  "remove_all h = remove_connected [0..<length (h_connections h)] h"

fun stop_servers :: "httpd option list \<Rightarrow> httpd option list \<times> httpd_event list" where
  "stop_servers [] = ([], [])"
| "stop_servers (None # hs) = (let (hs, evs) = stop_servers hs in (None # hs, evs))"
| "stop_servers (Some h # hs) = (let (h, evs) = remove_all h; (hs, evs') = stop_servers hs in (Some h # hs, evs @ evs'))"

definition forceStopAirplay :: "int \<Rightarrow> httpd option list \<Rightarrow> httpd option list \<times> httpd_event list" where
  \<comment> \<open>over the four servers of \<open>mHttpd\<close>\<close>
  "forceStopAirplay i servers =
     (if -1 \<le> i \<and> i \<le> 2 then
        (case servers ! nat (i + 1) of
           None \<Rightarrow> (servers, [])
         | Some h \<Rightarrow> (let (h, evs) = remove_all h in (servers[nat (i + 1) := Some h], evs)))
      else if i = -2 then (servers, [])
      else stop_servers servers)"

fun first_free :: "connection list \<Rightarrow> nat" where
  "first_free [] = 0"
| "first_free (c # cs) = (if \<not> c_connected c then 0 else Suc (first_free cs))"

definition httpd_add_connection :: "int \<Rightarrow> byte list \<Rightarrow> nat option \<Rightarrow> httpd \<Rightarrow> int \<times> httpd \<times> httpd_event list" where
  \<comment> \<open>\<open>conn_init\<close> is what the callback returns\<close>
  "httpd_add_connection fd remote conn_init h =
     (let i = first_free (h_connections h)
      in if i = length (h_connections h) then (-1, h, [Shutdown fd, CloseFd fd])
      else case conn_init of
          None \<Rightarrow> (-1, h, [])
        | Some user_data \<Rightarrow>
            (let c = (h_connections h ! i)\<lparr>c_user_data := user_data, c_socket_fd := fd, c_connected := True,
                   c_set_codec_flag := False, c_p_buffer := True, c_aes_key_context := None, 
                   c_remote := write_at 0 remote (c_remote (h_connections h ! i))\<rparr>
             in (0, h\<lparr>h_connections := (h_connections h)[i := c], h_open_connections := h_open_connections h + 1\<rparr>,
                 [ConnInit user_data])))"

record accept_input =
  ai_fd :: int                  \<comment> \<open>\<open>accept\<close>\<close>
  ai_sockname_ok :: bool        \<comment> \<open>\<open>getsockname\<close>\<close>
  ai_mirroring_running :: bool  \<comment> \<open>the callback \<open>mirroring_running\<close>\<close>
  ai_remote :: "byte list"
  ai_conn_init :: "nat option"

definition httpd_accept_connection :: "accept_input \<Rightarrow> httpd \<Rightarrow> int \<times> httpd \<times> httpd_event list" where
  "httpd_accept_connection a h =
     (let fd = ai_fd a
      in if fd = -1 then (-1, h, [])
      else if \<not> ai_sockname_ok a then (0, h, [Shutdown fd, CloseFd fd])
      else let (h, evs) = (if ai_mirroring_running a
                           then (let (h, evs) = remove_all h in (h, MirrorStop None # evs)) else (h, []));
               (ret, h, evs') = httpd_add_connection fd (ai_remote a) (ai_conn_init a) h
      in if ret = -1 then (0, h, evs @ evs' @ [Shutdown fd, CloseFd fd])
         else (1, h, evs @ evs'))"

section \<open>HTTP connections\<close>

record response_out =
  ro_data :: string
  ro_disconnect :: bool
  ro_flag :: int

fun send_loop :: "int \<Rightarrow> int list \<Rightarrow> string \<Rightarrow> httpd_event list" where
  \<comment> \<open>\<open>while (written < datalen)\<close> over what the calls of \<open>send\<close> return\<close>
  "send_loop fd rs [] = []"
| "send_loop fd [] data = []"
| "send_loop fd (r # rs) data =
     (if r = -1 then [] else Send fd (take (nat r) data) # send_loop fd rs (drop (nat r) data))"

fun handle_requests :: "(http_request \<Rightarrow> nat \<Rightarrow> response_out option \<times> int list) \<Rightarrow> nat \<Rightarrow> nat list \<Rightarrow> httpd
    \<Rightarrow> (httpd \<times> httpd_event list) option" where
  \<comment> \<open>the loop over the requests found; \<open>reply request index\<close> is the response made and what \<open>send\<close> returns.
     Without a request object the process ends: \<open>conn_request\<close> of \<open>raop.c\<close> and of \<open>airplay.c\<close> begin with
     \<open>http_request_get_url\<close>, which asserts it.\<close>
  "handle_requests reply i [] h = Some (h, [])"
| "handle_requests reply i (index # rest) h =
     (let c = h_connections h ! i
      in case c_request c of
           None \<Rightarrow> None
         | Some rq \<Rightarrow>
             (let (h, evs) =
                (case reply rq index of
                   (None, _) \<Rightarrow> (h, [])
                 | (Some ro, sends) \<Rightarrow>
                     (let h = (if ro_flag ro \<noteq> 1 then h\<lparr>h_event_socket := c_socket_fd c\<rparr> else h);
                          sent = send_loop (c_socket_fd c) sends (ro_data ro)
                      in if ro_disconnect ro
                         then (let (h, evs) = httpd_remove_connection i h in (h, sent @ evs))
                         else (h, sent)))
              in case handle_requests reply i rest h of
                   None \<Rightarrow> None
                 | Some (h, evs') \<Rightarrow> Some (h, ConnRequest (c_user_data c) index # evs @ evs')))"

definition set_request :: "nat \<Rightarrow> http_request option \<Rightarrow> httpd \<Rightarrow> httpd" where
  "set_request i rq h = h\<lparr>h_connections := (h_connections h)[i := (h_connections h ! i)\<lparr>c_request := rq\<rparr>]\<rparr>"

definition ensure_request :: "nat \<Rightarrow> httpd \<Rightarrow> httpd" where
  \<comment> \<open>if not in the middle of a request, allocate one\<close>
  "ensure_request i h =
     (case c_request (h_connections h ! i) of None \<Rightarrow> set_request i (Some http_request_init) h | Some _ \<Rightarrow> h)"

record http_input =
  hi_recv :: "string option"                        \<comment> \<open>\<open>recv\<close>: \<open>None\<close> for -1, the empty string for 0\<close>
  hi_parse :: "parser_call list"                    \<comment> \<open>the callbacks \<open>http_parser\<close> makes on the data\<close>
  hi_error :: "string option"                       \<comment> \<open>the parser's error name after that\<close>
  hi_reply :: "http_request \<Rightarrow> nat \<Rightarrow> response_out option \<times> int list"

definition httpd_http_data :: "nat \<Rightarrow> http_input \<Rightarrow> httpd \<Rightarrow> (httpd \<times> httpd_event list) option" where
  "httpd_http_data i inp h =
     (let rq0 = (case c_request (h_connections h ! i) of None \<Rightarrow> http_request_init | Some rq \<Rightarrow> rq);
          h = set_request i (Some rq0) h
      in case hi_recv inp of
        None \<Rightarrow> Some (httpd_remove_connection i h)
      | Some [] \<Rightarrow> Some (httpd_remove_connection i h)
      | Some data \<Rightarrow>
          (let over = (if length data = 4096 then [BufferOverrun] else [])
           in if starts_with data ''HTTP/1.1 200 OK'' then Some (h, over)
           else case http_request_add_data (hi_parse inp) rq0 of
             None \<Rightarrow> None
           | Some rq \<Rightarrow>
               (let h = set_request i (Some rq) h
                in case hi_error inp of
                  Some err \<Rightarrow>
                    if starts_with err ''HPE_INVALID_METHOD'' then Some (set_request i None h, over)
                    else (let (h, evs) = httpd_remove_connection i h
                          in Some (h, over @ evs
                               @ (if c_set_codec_flag (h_connections h ! i) then [MirrorStop (Some (c_remote (h_connections h ! i)))] else [])))
                | None \<Rightarrow>
                    if http_request_is_complete rq then
                      (let count = nat (http_request_get_request_count rq)
                       in case handle_requests (hi_reply inp) i [1..<count + 1] h of
                            None \<Rightarrow> None
                          | Some (h, evs) \<Rightarrow> Some (set_request i None h, over @ evs))
                    else Some (h, over))))"

section \<open>Mirroring connections\<close>

abbreviation MAX_BUF_SIZE :: nat where "MAX_BUF_SIZE \<equiv> 4194304"

text \<open>
  The results of successive \<open>recv_wait\<close> calls: \<open>Inl r\<close> for a return value \<open>r\<close> below 1 (0 is a timeout),
  \<open>Inr bs\<close> for received bytes. \<open>None\<close> means the loop still waits for more.
\<close>

type_synonym wait_result = "int + byte list"

fun recv_header :: "nat \<Rightarrow> byte list \<Rightarrow> wait_result list \<Rightarrow> (int \<times> byte list \<times> wait_result list) option" where
  "recv_header left acc [] = None"
| "recv_header left acc (Inl r # rs) = Some (r, acc, rs)"
| "recv_header left acc (Inr bs # rs) =
     (if length bs < left then recv_header (left - length bs) (acc @ bs) rs
      else Some (int (length bs), acc @ bs, rs))"

fun recv_payload :: "nat \<Rightarrow> byte list \<Rightarrow> wait_result list \<Rightarrow> (int \<times> byte list) option" where
  \<comment> \<open>\<open>v36\<close> bytes are still missing; a timeout is not an error here\<close>
  "recv_payload v36 acc [] = None"
| "recv_payload v36 acc (Inl r # rs) = (if r < 0 then Some (r, acc) else recv_payload v36 acc rs)"
| "recv_payload v36 acc (Inr bs # rs) =
     (if length bs < v36 then recv_payload (v36 - length bs) (acc @ bs) rs
      else Some (int (length bs), acc @ bs))"

definition frame_size :: "byte list \<Rightarrow> nat" where
  "frame_size hdr = unat (be32 (hdr ! 3) (hdr ! 2) (hdr ! 1) (hdr ! 0))"

definition frame_type :: "byte list \<Rightarrow> nat" where
  "frame_type hdr = unat (hdr ! 4)"

record mirror_input =
  mi_waits :: "wait_result list"
  mi_aes_key :: "nat option"                                     \<comment> \<open>the global \<open>g_aes_key_ctx\<close>\<close>
  mi_decrypt :: "nat option \<Rightarrow> byte list \<Rightarrow> byte list"         \<comment> \<open>\<open>g_aes_ctr_encrypt\<close>\<close>

definition mirror_frame :: "nat \<Rightarrow> mirror_input \<Rightarrow> byte list \<Rightarrow> byte list \<Rightarrow> httpd \<Rightarrow> httpd \<times> httpd_event list" where
  "mirror_frame i inp hdr payload h =
     (let c = h_connections h ! i; d_size = frame_size hdr; d_type = frame_type hdr;
          timestamp = bytes_to_little_long hdr 8
      in if d_type = 1 then
           (if c_set_codec_flag c then (h, [MirrorProcess payload 1 timestamp (c_remote c)])
            else (h\<lparr>h_connections := (h_connections h)[i := c\<lparr>c_aes_key_context := mi_aes_key inp, c_set_codec_flag := True\<rparr>]\<rparr>,
                  [MirrorPlay payload (d_size + 1) timestamp (c_remote c)]))
         else if d_type = 0 then (h, [MirrorProcess (mi_decrypt inp (c_aes_key_context c) payload) 0 timestamp (c_remote c)])
         else if d_type = 9 then (h, [MirrorProcess payload 0 timestamp (c_remote c)])
         else if d_type = 102 then (h, [MirrorStop (Some (c_remote c))])
         else (h, []))"

definition httpd_mirror_data :: "nat \<Rightarrow> mirror_input \<Rightarrow> httpd \<Rightarrow> (httpd \<times> httpd_event list) option" where
  "httpd_mirror_data i inp h =
     (let h = ensure_request i h
      in case recv_header 128 [] (mi_waits inp) of
        None \<Rightarrow> None
      | Some (ret, hdr, rest) \<Rightarrow>
          if ret \<le> 0 then Some (httpd_remove_connection i h)
          else let d_size = frame_size hdr
          in if 0 < d_size \<and> d_size \<le> MAX_BUF_SIZE then
               (case recv_payload d_size [] rest of
                  None \<Rightarrow> None
                | Some (ret, payload) \<Rightarrow>
                    if ret \<le> 0 then Some (httpd_remove_connection i h)
                    else Some (mirror_frame i inp hdr payload h))
             else Some (h, []))"

section \<open>The server thread\<close>

datatype select_result = Timeout | SelectError
  | Ready "accept_input option" "accept_input option" "nat \<Rightarrow> (http_input \<times> mirror_input) option"
    \<comment> \<open>the IPv4 and the IPv6 server socket and each connection, \<open>None\<close> when not readable; for a
       connection what reading it gives in either mode of the server\<close>

datatype turn = Continue | Break

fun serve :: "(nat \<Rightarrow> (http_input \<times> mirror_input) option) \<Rightarrow> nat list \<Rightarrow> httpd \<Rightarrow> (httpd \<times> httpd_event list) option" where
  "serve ready [] h = Some (h, [])"
| "serve ready (i # is) h =
     (case (if \<not> c_connected (h_connections h ! i) then Some (h, [])
            else case ready i of
                None \<Rightarrow> Some (h, [])
              | Some (http, mirror) \<Rightarrow>
                  if h_id h \<noteq> 1 then httpd_http_data i http h else httpd_mirror_data i mirror h) of
        None \<Rightarrow> None
      | Some (h, evs) \<Rightarrow> (case serve ready is h of None \<Rightarrow> None | Some (h, evs') \<Rightarrow> Some (h, evs @ evs')))"

definition accept_on :: "int \<Rightarrow> accept_input option \<Rightarrow> httpd \<Rightarrow> int \<times> httpd \<times> httpd_event list" where
  \<comment> \<open>1 when nothing was to be accepted\<close>
  "accept_on server_fd a h =
     (case a of
        Some inp \<Rightarrow> if h_open_connections h < int (length (h_connections h)) \<and> server_fd \<noteq> -1
                    then httpd_accept_connection inp h else (1, h, [])
      | None \<Rightarrow> (1, h, []))"

definition httpd_turn :: "select_result \<Rightarrow> httpd \<Rightarrow> (turn \<times> httpd \<times> httpd_event list) option" where
  "httpd_turn sel h =
     (if \<not> h_running h then Some (Break, h, [])
      else case sel of
        Timeout \<Rightarrow> Some (Continue, h, [])
      | SelectError \<Rightarrow> Some (Break, h, [])
      | Ready a4 a6 ready \<Rightarrow>
          (let (ret, h, evs4) = accept_on (h_server_fd4 h) a4 h
           in if ret = -1 then Some (Break, h, evs4)
           else if ret = 0 then Some (Continue, h, evs4)
           else let (ret, h, evs6) = accept_on (h_server_fd6 h) a6 h
           in if ret = -1 then Some (Break, h, evs4 @ evs6)
           else if ret = 0 then Some (Continue, h, evs4 @ evs6)
           else map_option (\<lambda>(h, evs). (Continue, h, evs4 @ evs6 @ evs)) (serve ready [0..<length (h_connections h)] h)))"

definition httpd_exit :: "httpd \<Rightarrow> httpd \<times> httpd_event list" where
  \<comment> \<open>the code after the loop\<close>
  "httpd_exit h =
     (let (h, evs) = remove_all h;
          close = (\<lambda>fd. if fd \<noteq> -1 then [Shutdown fd, CloseFd fd] else [])
      in (h\<lparr>h_server_fd4 := -1, h_server_fd6 := -1\<rparr>, evs @ close (h_server_fd4 h) @ close (h_server_fd6 h)))"

definition httpd_start :: "int \<Rightarrow> bool \<Rightarrow> httpd \<Rightarrow> int \<times> httpd \<times> httpd_event list" where
  \<comment> \<open>\<open>fd4\<close> is what \<open>netutils_init_socket\<close> answers\<close>
  "httpd_start fd4 listen_ok h =
     (if h_running h \<or> \<not> h_joined h then (0, h, [])
      else let h = h\<lparr>h_server_fd4 := fd4\<rparr>
      in if fd4 = -1 then (let (h, evs) = remove_all h in (-1, h, evs))
      else if \<not> listen_ok then (-2, h, [CloseFd fd4, CloseFd (h_server_fd6 h)])
      else (1, h\<lparr>h_running := True, h_joined := False\<rparr>, []))"

definition httpd_is_running :: "httpd \<Rightarrow> bool" where
  "httpd_is_running h \<longleftrightarrow> h_running h \<or> \<not> h_joined h"

definition httpd_stop :: "httpd \<Rightarrow> httpd \<times> httpd_event list" where
  \<comment> \<open>the thread's next turn finds \<open>m_running\<close> cleared and leaves its loop\<close>
  "httpd_stop h =
     (if \<not> h_running h \<or> h_joined h then (h, [])
      else let (h, evs) = httpd_exit (h\<lparr>h_running := False\<rparr>) in (h\<lparr>h_joined := True\<rparr>, evs))"

definition httpd_get_socket :: "httpd \<Rightarrow> int" where
  "httpd_get_socket h = h_event_socket h"

section \<open>The table invariant\<close>

definition connected_count :: "connection list \<Rightarrow> int" where
  "connected_count cs = int (length (filter c_connected cs))"

definition conn_ok :: "connection \<Rightarrow> bool" where
  \<comment> \<open>a free slot holds no request, no buffer and no key; a used one has its buffer\<close>
  "conn_ok c \<longleftrightarrow> (if c_connected c then c_p_buffer c
                else c_request c = None \<and> \<not> c_set_codec_flag c \<and> \<not> c_p_buffer c \<and> c_aes_key_context c = None)"

definition table_inv :: "httpd \<Rightarrow> bool" where
  \<comment> \<open>\<open>open_connections\<close> is the number of used slots\<close>
  "table_inv h \<longleftrightarrow> h_open_connections h = connected_count (h_connections h) \<and> list_all conn_ok (h_connections h)"

definition released :: "connection \<Rightarrow> connection" where
  \<comment> \<open>a slot after its removal\<close>
  "released c = c\<lparr>c_request := None, c_connected := False, c_set_codec_flag := False, c_p_buffer := False,
     c_aes_key_context := None\<rparr>"

definition release_events :: "connection \<Rightarrow> httpd_event list" where
  "release_events c = [ConnDestroy (c_user_data c), Shutdown (c_socket_fd c), CloseFd (c_socket_fd c)]
     @ (case c_aes_key_context c of None \<Rightarrow> [] | Some k \<Rightarrow> [FreeKey k])"

definition closed_fds :: "httpd_event list \<Rightarrow> int list" where
  "closed_fds evs = concat (map (\<lambda>e. case e of CloseFd fd \<Rightarrow> [fd] | _ \<Rightarrow> []) evs)"

named_theorems httpd_simps \<open>the effect of one operation of the server on its table\<close>

lemma connected_count_Nil [simp]: "connected_count [] = 0"
  by (simp add: connected_count_def)

lemma connected_count_Cons [simp]:
  "connected_count (c # cs) = (if c_connected c then 1 else 0) + connected_count cs"
  by (simp add: connected_count_def)

lemma connected_count_nonneg [simp]: "0 \<le> connected_count cs"
  by (simp add: connected_count_def)

lemma connected_count_le: "connected_count cs \<le> int (length cs)"
  by (simp add: connected_count_def)

lemma connected_count_update:
  assumes "i < length cs"
  shows "connected_count (cs[i := c]) =
    connected_count cs - (if c_connected (cs ! i) then 1 else 0) + (if c_connected c then 1 else 0)"
  using assms
proof (induction cs arbitrary: i)
  case (Cons a cs)
  then show ?case by (cases i) auto
qed simp

lemma closed_fds_Nil [simp]: "closed_fds [] = []"
  by (simp add: closed_fds_def)

lemma closed_fds_append [simp]: "closed_fds (xs @ ys) = closed_fds xs @ closed_fds ys"
  by (simp add: closed_fds_def)

lemma closed_fds_Cons:
  "closed_fds (e # evs) = (case e of CloseFd fd \<Rightarrow> [fd] | _ \<Rightarrow> []) @ closed_fds evs"
  by (simp add: closed_fds_def)

lemma closed_fds_release [simp]: "closed_fds (release_events c) = [c_socket_fd c]"
  by (cases "c_aes_key_context c") (simp_all add: release_events_def closed_fds_def)

lemma released_simps [simp]: "\<not> c_connected (released c)" "conn_ok (released c)"
  by (simp_all add: released_def conn_ok_def)

lemma httpd_remove_connection_eq [httpd_simps]:
  "httpd_remove_connection i h =
     (h\<lparr>h_connections := (h_connections h)[i := released (h_connections h ! i)],
        h_open_connections := h_open_connections h - 1\<rparr>, release_events (h_connections h ! i))"
  by (simp add: httpd_remove_connection_def released_def release_events_def Let_def)

lemma list_all_update: "list_all P xs \<Longrightarrow> P x \<Longrightarrow> list_all P (xs[i := x])"
  unfolding list_all_iff using set_update_subset_insert [of xs i x] by auto

lemma remove_connection_inv:
  assumes "table_inv h" "i < length (h_connections h)" "c_connected (h_connections h ! i)"
  shows "table_inv (fst (httpd_remove_connection i h))"
  using assms by (auto simp: table_inv_def httpd_simps connected_count_update list_all_update)

lemma remove_connected_from:
  "remove_connected [k..<length (h_connections h)] h =
     (h\<lparr>h_connections := take k (h_connections h)
          @ map (\<lambda>c. if c_connected c then released c else c) (drop k (h_connections h)),
        h_open_connections := h_open_connections h - connected_count (drop k (h_connections h))\<rparr>,
      concat (map release_events (filter c_connected (drop k (h_connections h)))))"
proof (induction "length (h_connections h) - k" arbitrary: k h)
  case 0
  then show ?case by simp
next
  case (Suc n)
  then have k: "k < length (h_connections h)" by simp
  then have upt: "[k..<length (h_connections h)] = k # [Suc k..<length (h_connections h)]"
    by (simp add: upt_conv_Cons)
  have dr: "drop k (h_connections h) = h_connections h ! k # drop (Suc k) (h_connections h)"
    using k by (simp add: Cons_nth_drop_Suc)
  show ?case
  proof (cases "c_connected (h_connections h ! k)")
    case False
    have "n = length (h_connections h) - Suc k" using Suc by simp
    from Suc.hyps(1) [OF this] show ?thesis
      using False k by (simp add: upt dr take_Suc_conv_app_nth)
  next
    case True
    define g where "g = h\<lparr>h_connections := (h_connections h)[k := released (h_connections h ! k)],
        h_open_connections := h_open_connections h - 1\<rparr>"
    have len: "length (h_connections g) = length (h_connections h)" by (simp add: g_def)
    have tk: "take (Suc k) (h_connections g) = take k (h_connections h) @ [released (h_connections h ! k)]"
      "drop (Suc k) (h_connections g) = drop (Suc k) (h_connections h)"
      "h_open_connections g = h_open_connections h - 1"
      using k by (simp_all add: g_def take_Suc_conv_app_nth)
    have "n = length (h_connections g) - Suc k" using Suc len by simp
    from Suc.hyps(1) [OF this]
    have "remove_connected [Suc k..<length (h_connections h)] g =
      (h\<lparr>h_connections := take k (h_connections h) @ released (h_connections h ! k)
          # map (\<lambda>c. if c_connected c then released c else c) (drop (Suc k) (h_connections h)),
        h_open_connections := h_open_connections h - 1 - connected_count (drop (Suc k) (h_connections h))\<rparr>,
        concat (map release_events (filter c_connected (drop (Suc k) (h_connections h)))))"
      by (simp add: tk len) (simp add: g_def)
    then show ?thesis
      using True by (simp add: upt dr httpd_simps g_def [symmetric] del: upt_Suc)
  qed
qed

lemma remove_all_eq [httpd_simps]:
  "remove_all h =
     (h\<lparr>h_connections := map (\<lambda>c. if c_connected c then released c else c) (h_connections h),
        h_open_connections := h_open_connections h - connected_count (h_connections h)\<rparr>,
      concat (map release_events (filter c_connected (h_connections h))))"
  using remove_connected_from [of 0 h] by (simp add: remove_all_def)

lemma connected_count_released [simp]:
  "connected_count (map (\<lambda>c. if c_connected c then released c else c) cs) = 0"
  by (induction cs) auto

lemma remove_all_inv: "table_inv h \<Longrightarrow> table_inv (fst (remove_all h))"
  by (auto simp: table_inv_def httpd_simps list_all_iff)

lemma closed_fds_removed: "closed_fds (concat (map release_events cs)) = map c_socket_fd cs"
  by (induction cs) auto

lemma first_free_le: "first_free cs \<le> length cs"
  by (induction cs) auto

lemma first_free_is_free: "first_free cs < length cs \<Longrightarrow> \<not> c_connected (cs ! first_free cs)"
  by (induction cs) auto

lemma first_free_full_iff: "first_free cs = length cs \<longleftrightarrow> connected_count cs = int (length cs)"
proof (induction cs)
  case (Cons c cs)
  then show ?case using connected_count_le [of cs] by auto
qed simp

lemma add_connection_inv:
  assumes "table_inv h"
  shows "table_inv (fst (snd (httpd_add_connection fd r ci h)))"
proof (cases "first_free (h_connections h) = length (h_connections h)")
  case False
  then have "first_free (h_connections h) < length (h_connections h)"
    using first_free_le [of "h_connections h"] by simp
  with first_free_is_free [OF this] assms show ?thesis
    by (auto simp: httpd_add_connection_def Let_def table_inv_def connected_count_update conn_ok_def list_all_update
        split: option.splits)
qed (simp add: httpd_add_connection_def assms)

lemma accept_connection_inv:
  "table_inv h \<Longrightarrow> table_inv (fst (snd (httpd_accept_connection a h)))"
  using add_connection_inv [of h] add_connection_inv [OF remove_all_inv, of h]
  by (simp add: httpd_accept_connection_def Let_def case_prod_beta)

lemma accept_on_inv: "table_inv h \<Longrightarrow> table_inv (fst (snd (accept_on fd a h)))"
  by (auto simp: accept_on_def accept_connection_inv split: option.splits)

lemma set_request_inv:
  assumes "table_inv h" "i < length (h_connections h)" "c_connected (h_connections h ! i) \<or> rq = None"
  shows "table_inv (set_request i rq h)"
proof -
  have "conn_ok (h_connections h ! i)" using assms by (simp add: table_inv_def list_all_length)
  then show ?thesis
    using assms by (auto simp: table_inv_def set_request_def connected_count_update conn_ok_def list_all_update split: if_splits)
qed

lemma set_request_simps [simp]:
  "length (h_connections (set_request i rq h)) = length (h_connections h)"
  "i < length (h_connections h) \<Longrightarrow> h_connections (set_request i rq h) ! i = (h_connections h ! i)\<lparr>c_request := rq\<rparr>"
  "h_open_connections (set_request i rq h) = h_open_connections h"
  "h_id (set_request i rq h) = h_id h"
  by (simp_all add: set_request_def)

section \<open>Requests and frames keep the invariant\<close>

definition disconnects :: "response_out option \<times> int list \<Rightarrow> bool" where
  "disconnects r \<longleftrightarrow> (case fst r of None \<Rightarrow> False | Some ro \<Rightarrow> ro_disconnect ro)"

lemma released_released [simp]: "released (released c) = released c" "c_request (released c) = None"
  by (simp_all add: released_def)

lemma set_request_inv_simps [simp]: "table_inv (h\<lparr>h_event_socket := fd\<rparr>) = table_inv h"
  by (simp add: table_inv_def)

lemma handle_requests_null: "c_request (h_connections h ! i) = None \<Longrightarrow> handle_requests reply i is h = (if is = [] then Some (h, []) else None)"
  by (cases "is") simp_all

lemma no_request_in_replies:
  "filter (\<lambda>e. case e of ConnRequest _ _ \<Rightarrow> True | _ \<Rightarrow> False) (send_loop fd rs d) = []"
  "filter (\<lambda>e. case e of ConnRequest _ _ \<Rightarrow> True | _ \<Rightarrow> False) (release_events c) = []"
  by (induction fd rs d rule: send_loop.induct) (auto simp: release_events_def split: option.splits)

lemma handle_requests_step:
  assumes "i < length (h_connections h)" "c_request (h_connections h ! i) = Some rq"
  obtains g ev where "handle_requests reply i (k # is) h = (case handle_requests reply i is g of None \<Rightarrow> None
      | Some (h', evs) \<Rightarrow> Some (h', ConnRequest (c_user_data (h_connections h ! i)) k # ev @ evs))"
    "h_connections g = (if disconnects (reply rq k) then (h_connections h)[i := released (h_connections h ! i)] else h_connections h)"
    "h_open_connections g = h_open_connections h - (if disconnects (reply rq k) then 1 else 0)" "h_id g = h_id h"
    "filter (\<lambda>e. case e of ConnRequest _ _ \<Rightarrow> True | _ \<Rightarrow> False) ev = []"
proof (cases "reply rq k")
  case (Pair ro sends)
  show ?thesis
  proof (cases ro)
    case None
    show ?thesis by (rule that [where g = h and ev = "[]"]) (use assms Pair None in \<open>simp_all add: disconnects_def\<close>)
  next
    case (Some r)
    define h1 where "h1 = (if ro_flag r \<noteq> 1 then h\<lparr>h_event_socket := c_socket_fd (h_connections h ! i)\<rparr> else h)"
    have h1: "h_connections h1 = h_connections h" "h_open_connections h1 = h_open_connections h" "h_id h1 = h_id h"
      by (simp_all add: h1_def)
    let ?sent = "send_loop (c_socket_fd (h_connections h ! i)) sends (ro_data r)"
    show ?thesis
    proof (cases "ro_disconnect r")
      case True
      show ?thesis
        by (rule that [where g = "fst (httpd_remove_connection i h1)" and ev = "?sent @ release_events (h_connections h ! i)"])
          (use assms Pair Some True h1 in \<open>simp_all add: disconnects_def httpd_simps no_request_in_replies h1_def [symmetric] Let_def\<close>)
    next
      case False
      show ?thesis
        by (rule that [where g = h1 and ev = ?sent])
          (use assms Pair Some False h1 in \<open>simp_all add: disconnects_def no_request_in_replies h1_def [symmetric] Let_def\<close>)
    qed
  qed
qed

lemma handle_requests_None_iff:
  assumes "i < length (h_connections h)" "c_request (h_connections h ! i) = Some rq"
  shows "handle_requests reply i is h = None \<longleftrightarrow> (\<exists>k\<in>set (butlast is). disconnects (reply rq k))"
  using assms
proof (induction "is" arbitrary: h)
  case (Cons k "is")
  obtain g ev where g: "handle_requests reply i (k # is) h = (case handle_requests reply i is g of None \<Rightarrow> None
      | Some (h', evs) \<Rightarrow> Some (h', ConnRequest (c_user_data (h_connections h ! i)) k # ev @ evs))"
    "h_connections g = (if disconnects (reply rq k) then (h_connections h)[i := released (h_connections h ! i)] else h_connections h)"
    by (rule handle_requests_step [OF Cons.prems])
  have r: "handle_requests reply i (k # is) h = None \<longleftrightarrow> handle_requests reply i is g = None"
    unfolding g(1) by (cases "handle_requests reply i is g") auto
  show ?case
  proof (cases "disconnects (reply rq k)")
    case True
    then have "c_request (h_connections g ! i) = None" using g(2) Cons.prems(1) by simp
    then show ?thesis unfolding r using True by (simp add: handle_requests_null)
  next
    case False
    then show ?thesis unfolding r using Cons.IH [of g] g(2) Cons.prems by auto
  qed
qed simp

lemma handle_requests_state:
  assumes "i < length (h_connections h)" "c_request (h_connections h ! i) = Some rq" "handle_requests reply i is h = Some (h', evs)"
  shows "h_connections h' =
      (if \<exists>k\<in>set is. disconnects (reply rq k) then (h_connections h)[i := released (h_connections h ! i)] else h_connections h)"
    "h_open_connections h' = h_open_connections h - (if \<exists>k\<in>set is. disconnects (reply rq k) then 1 else 0)" "h_id h' = h_id h"
    "filter (\<lambda>e. case e of ConnRequest _ _ \<Rightarrow> True | _ \<Rightarrow> False) evs = map (ConnRequest (c_user_data (h_connections h ! i))) is"
  using assms
proof (atomize (full), induction "is" arbitrary: h evs)
  case (Cons k "is")
  obtain g ev where g: "handle_requests reply i (k # is) h = (case handle_requests reply i is g of None \<Rightarrow> None
      | Some (h', evs) \<Rightarrow> Some (h', ConnRequest (c_user_data (h_connections h ! i)) k # ev @ evs))"
    "h_connections g = (if disconnects (reply rq k) then (h_connections h)[i := released (h_connections h ! i)] else h_connections h)"
    "h_open_connections g = h_open_connections h - (if disconnects (reply rq k) then 1 else 0)" "h_id g = h_id h"
    "filter (\<lambda>e. case e of ConnRequest _ _ \<Rightarrow> True | _ \<Rightarrow> False) ev = []"
    by (rule handle_requests_step [OF Cons.prems(1,2)])
  obtain evs' where e: "handle_requests reply i is g = Some (h', evs')" "evs = ConnRequest (c_user_data (h_connections h ! i)) k # ev @ evs'"
    using Cons.prems(3) unfolding g(1) by (auto split: option.splits)
  show ?case
  proof (cases "disconnects (reply rq k)")
    case True
    then have "c_request (h_connections g ! i) = None" using g(2) Cons.prems(1) by simp
    then have "is = []" "h' = g" "evs' = []" using e(1) by (simp_all add: handle_requests_null split: if_splits)
    then show ?thesis using True g(2-5) e(2) by simp
  next
    case False
    then show ?thesis using Cons.IH [of g evs'] Cons.prems g(2-5) e by simp
  qed
qed simp

lemma handle_requests_inv:
  assumes "table_inv h" "i < length (h_connections h)" "c_connected (h_connections h ! i)"
    and "c_request (h_connections h ! i) = Some rq" "handle_requests reply i is h = Some (h', evs)"
  shows "table_inv h'"
  using handle_requests_state [OF assms(2,4,5)] assms(1-3)
  by (auto simp: table_inv_def connected_count_update list_all_update split: if_splits)

lemma remove_connection_length [simp]:
  "length (h_connections (fst (httpd_remove_connection i h))) = length (h_connections h)"
  "h_id (fst (httpd_remove_connection i h)) = h_id h"
  by (simp_all add: httpd_simps)

definition keeps :: "httpd \<Rightarrow> httpd \<Rightarrow> bool" where
  \<comment> \<open>an operation on one connection leaves the invariant, the table size and the server id\<close>
  "keeps h h' \<longleftrightarrow> table_inv h' \<and> length (h_connections h') = length (h_connections h) \<and> h_id h' = h_id h"

lemma keeps_self: "table_inv h \<Longrightarrow> keeps h h"
  by (simp add: keeps_def)

lemma keeps_trans: "keeps h g \<Longrightarrow> keeps g h' \<Longrightarrow> keeps h h'"
  by (simp add: keeps_def)

lemma keeps_remove:
  assumes "keeps h g" "i < length (h_connections h)" "c_connected (h_connections g ! i)"
    and "httpd_remove_connection i g = (h', evs)"
  shows "keeps h h'"
  using assms remove_connection_inv [of g i] remove_connection_length [of i g] by (simp add: keeps_def)

lemma keeps_set_request:
  assumes "keeps h g" "i < length (h_connections h)" "c_connected (h_connections g ! i) \<or> rq = None"
  shows "keeps h (set_request i rq g)"
  using assms set_request_inv [of g i rq] by (simp add: keeps_def)

lemma keeps_requests:
  assumes "keeps h g" "i < length (h_connections h)" "c_connected (h_connections g ! i)" "c_request (h_connections g ! i) = Some rq"
    and "handle_requests reply i is g = Some (h', evs)"
  shows "keeps h h'"
proof -
  have i: "i < length (h_connections g)" using assms by (simp add: keeps_def)
  have "length (h_connections h') = length (h_connections g)" "h_id h' = h_id g"
    using handle_requests_state [OF i assms(4,5)] by simp_all
  then show ?thesis using assms handle_requests_inv [OF _ i assms(3-5)] by (simp add: keeps_def)
qed

lemma http_data_inv:
  assumes "table_inv h" "i < length (h_connections h)" "c_connected (h_connections h ! i)"
    and "httpd_http_data i inp h = Some (h', evs)"
  shows "keeps h h'"
proof -
  have "keeps h h" using assms by (simp add: keeps_def)
  then have set: "keeps h (set_request i rq h)" "c_connected (h_connections (set_request i rq h) ! i)" for rq
    using assms(2,3) by (simp_all add: keeps_set_request)
  have twice: "set_request i a (set_request i b h) = set_request i a h" for a b
    using assms(2) by (simp add: set_request_def)
  have req: "keeps h (set_request i None g)"
    if "handle_requests (hi_reply inp) i [m..<n] (set_request i (Some rq) h) = Some (g, ev)" for m n rq g ev
    by (rule keeps_set_request, rule keeps_requests [OF set(1) _ set(2) _ that]) (use assms in auto)
  show ?thesis
    using assms(2,4)
    by (auto simp: httpd_http_data_def Let_def twice set intro: keeps_remove [OF set(1) _ set(2)] req
      simp del: upt_Suc split: option.splits list.splits if_splits prod.splits)
qed

lemma mirror_frame_inv:
  assumes "table_inv h" "i < length (h_connections h)" "c_connected (h_connections h ! i)"
    and "mirror_frame i inp hdr payload h = (h', evs)"
  shows "keeps h h'"
proof -
  have "conn_ok (h_connections h ! i)" using assms by (simp add: table_inv_def list_all_length)
  then show ?thesis
    using assms
    by (auto simp: mirror_frame_def Let_def keeps_def table_inv_def connected_count_update conn_ok_def
        list_all_update split: if_splits)
qed

lemma mirror_data_inv:
  assumes "table_inv h" "i < length (h_connections h)" "c_connected (h_connections h ! i)"
    and "httpd_mirror_data i inp h = Some (h', evs)"
  shows "keeps h h'"
proof -
  define g where "g = ensure_request i h"
  have "keeps h h" using assms by (simp add: keeps_def)
  then have g: "keeps h g" "c_connected (h_connections g ! i)"
    using assms(2,3) by (auto simp: g_def ensure_request_def keeps_set_request split: option.splits)
  have frame: "keeps h k" if "mirror_frame i inp hdr payload g = (k, ev)" for hdr payload k ev
    by (rule keeps_trans [OF g(1)], rule mirror_frame_inv [OF _ _ g(2) that])
      (use g(1) assms(2) in \<open>auto simp: keeps_def\<close>)
  show ?thesis
    using assms(4,2) g(1) unfolding httpd_mirror_data_def g_def [symmetric] Let_def
    by (auto intro: keeps_remove [OF g(1) _ g(2)] frame split: if_splits option.splits prod.splits)
qed

lemma serve_inv:
  assumes "table_inv h" "\<And>i. i \<in> set is \<Longrightarrow> i < length (h_connections h)"
    and "serve ready is h = Some (h', evs)"
  shows "keeps h h'"
  using assms(1,2,3)
proof (induction "is" arbitrary: h h' evs)
  case Nil
  then show ?case by (simp add: keeps_def)
next
  case (Cons i "is")
  define r where "r = (if \<not> c_connected (h_connections h ! i) then Some (h, [])
            else case ready i of
                None \<Rightarrow> Some (h, [])
              | Some (http, mirror) \<Rightarrow> if h_id h \<noteq> 1 then httpd_http_data i http h else httpd_mirror_data i mirror h)"
  obtain g ev evs' where r: "r = Some (g, ev)" and rest: "serve ready is g = Some (h', evs')"
    using Cons.prems(3) by (auto simp: r_def [symmetric] split: option.splits)
  have i: "i < length (h_connections h)" using Cons.prems by simp
  have g: "keeps h g"
    using r Cons.prems(1) i http_data_inv [OF Cons.prems(1) i] mirror_data_inv [OF Cons.prems(1) i]
    by (auto simp: r_def keeps_self split: if_splits option.splits)
  have "keeps g h'"
    by (rule Cons.IH [OF _ _ rest]) (use g Cons.prems(2) in \<open>auto simp: keeps_def\<close>)
  with g show ?case by (rule keeps_trans)
qed

section \<open>Reachable states\<close>

inductive server_reachable :: "nat \<Rightarrow> int \<Rightarrow> httpd \<Rightarrow> bool" for n :: nat and i :: int where
  reach_init: "server_reachable n i (httpd_init n i)"
| reach_start: "server_reachable n i h \<Longrightarrow> server_reachable n i (fst (snd (httpd_start fd ok h)))"
| reach_turn: "server_reachable n i h \<Longrightarrow> httpd_turn sel h = Some (Continue, h', evs) \<Longrightarrow>
    server_reachable n i h'"
| reach_break: "server_reachable n i h \<Longrightarrow> httpd_turn sel h = Some (Break, h', evs) \<Longrightarrow>
    server_reachable n i (fst (httpd_exit h'))"
| reach_stop: "server_reachable n i h \<Longrightarrow> server_reachable n i (fst (httpd_stop h))"
| reach_force: "server_reachable n i h \<Longrightarrow> server_reachable n i (fst (remove_all h))"

lemma table_inv_cong:
  "h_connections g = h_connections h \<Longrightarrow> h_open_connections g = h_open_connections h \<Longrightarrow> table_inv g = table_inv h"
  by (simp add: table_inv_def)

lemma table_inv_init: "table_inv (httpd_init n i)"
  by (induction n) (auto simp: table_inv_def httpd_init_def conn_ok_def list_all_iff connected_count_def)

lemma remove_all_keeps: "table_inv h \<Longrightarrow> remove_all h = (g, evs) \<Longrightarrow> keeps h g"
  using remove_all_inv [of h] by (auto simp: keeps_def httpd_simps)

lemma exit_keeps: "table_inv h \<Longrightarrow> keeps h (fst (httpd_exit h))"
  using remove_all_inv [of h] by (auto simp: keeps_def httpd_simps httpd_exit_def table_inv_def Let_def)

lemma stop_keeps: "table_inv h \<Longrightarrow> keeps h (fst (httpd_stop h))"
  using exit_keeps [of "h\<lparr>h_running := False\<rparr>"]
  by (auto simp: httpd_stop_def Let_def case_prod_beta keeps_def table_inv_def)

lemma start_keeps: "table_inv h \<Longrightarrow> keeps h (fst (snd (httpd_start fd ok h)))"
  by (auto simp: httpd_start_def Let_def keeps_def table_inv_def httpd_simps list_all_iff)

lemma accept_connection_keeps:
  assumes "table_inv h"
  shows "keeps h (fst (snd (httpd_accept_connection a h)))"
proof -
  have "length (h_connections (fst (snd (httpd_add_connection fd r ci g)))) = length (h_connections g)"
    "h_id (fst (snd (httpd_add_connection fd r ci g))) = h_id g" for fd r ci g
    by (auto simp: httpd_add_connection_def Let_def split: option.splits)
  then show ?thesis
    using accept_connection_inv [OF assms, of a]
    by (simp add: keeps_def httpd_accept_connection_def Let_def case_prod_beta httpd_simps)
qed

lemma accept_on_keeps: "table_inv h \<Longrightarrow> accept_on fd a h = (ret, g, evs) \<Longrightarrow> keeps h g"
  using accept_connection_keeps [of h] by (auto simp: accept_on_def keeps_self split: option.splits if_splits) (metis fst_conv snd_conv)

lemma turn_keeps:
  assumes "table_inv h" "httpd_turn sel h = Some (t, h', evs)"
  shows "keeps h h'"
proof (cases "h_running h")
  case False
  then show ?thesis using assms by (simp add: httpd_turn_def keeps_self)
next
  case run: True
  show ?thesis
  proof (cases sel)
    case (Ready a4 a6 ready)
    obtain r4 g4 e4 where a4: "accept_on (h_server_fd4 h) a4 h = (r4, g4, e4)" by (cases "accept_on (h_server_fd4 h) a4 h")
    obtain r6 g6 e6 where a6: "accept_on (h_server_fd6 g4) a6 g4 = (r6, g6, e6)" by (cases "accept_on (h_server_fd6 g4) a6 g4")
    have k4: "keeps h g4" by (rule accept_on_keeps [OF assms(1) a4])
    then have k6: "keeps g4 g6" by (intro accept_on_keeps [OF _ a6]) (simp add: keeps_def)
    have "keeps g6 k" if "serve ready [0..<length (h_connections g6)] g6 = Some (k, ev)" for k ev
      by (rule serve_inv [OF _ _ that]) (use k6 in \<open>auto simp: keeps_def\<close>)
    then show ?thesis
      using assms(2) run Ready a4 a6 k4 keeps_trans [OF k4 k6]
      by (auto simp: httpd_turn_def split: if_splits dest: keeps_trans)
  qed (use assms run in \<open>auto simp: httpd_turn_def keeps_self\<close>)
qed

lemma reachable_keeps:
  "server_reachable n i h \<Longrightarrow> table_inv h \<and> length (h_connections h) = n \<and> h_id h = i"
proof (induction rule: server_reachable.induct)
  case reach_init
  show ?case by (simp add: table_inv_init) (simp add: httpd_init_def)
next
  case (reach_start h fd ok)
  then show ?case using start_keeps [of h fd ok] by (simp add: keeps_def)
next
  case (reach_turn h sel h' evs)
  then show ?case using turn_keeps [of h sel] by (auto simp: keeps_def)
next
  case (reach_break h sel h' evs)
  then have "table_inv h'" "length (h_connections h') = n" "h_id h' = i"
    using turn_keeps [of h sel Break h' evs]
    by (auto simp: keeps_def)
  then show ?case using exit_keeps [of h'] by (simp add: keeps_def)
next
  case (reach_stop h)
  then show ?case using stop_keeps [of h] by (simp add: keeps_def)
next
  case (reach_force h)
  then show ?case using remove_all_keeps [of h] by (cases "remove_all h") (auto simp: keeps_def)
qed

section \<open>Framing\<close>

lemma recv_header_chunks:
  assumes "cs \<noteq> []" "[] \<notin> set cs"
  shows "recv_header (length (concat cs)) acc (map Inr cs @ rest) = Some (int (length (last cs)), acc @ concat cs, rest)"
  using assms
proof (induction cs arbitrary: acc)
  case (Cons c cs)
  show ?case
  proof (cases cs)
    case (Cons d ds)
    with Cons.prems Cons.IH [of "acc @ c"] show ?thesis by auto
  qed simp
qed simp

definition received :: "wait_result list \<Rightarrow> byte list" where
  "received ws = concat (map (\<lambda>w. case w of Inl _ \<Rightarrow> [] | Inr bs \<Rightarrow> bs) ws)"

lemma recv_payload_delivers:
  assumes "0 < length (received ws)" "\<forall>w\<in>set ws. w = Inl 0 \<or> (\<exists>bs. bs \<noteq> [] \<and> w = Inr bs)"
  shows "\<exists>r>0. recv_payload (length (received ws)) acc (ws @ rest) = Some (r, acc @ received ws)"
  using assms
proof (induction ws arbitrary: acc)
  case (Cons w ws)
  show ?case
  proof (cases w)
    case (Inl r)
    with Cons show ?thesis by (auto simp: received_def)
  next
    case (Inr bs)
    have split: "received (Inr bs # ws) = bs @ received ws" by (simp add: received_def)
    have bs: "bs \<noteq> []" using Cons.prems Inr by auto
    show ?thesis
    proof (cases "received ws = []")
      case True
      then show ?thesis using bs by (auto simp: split Inr)
    next
      case False
      then have "\<exists>r>0. recv_payload (length (received ws)) (acc @ bs) (ws @ rest) = Some (r, (acc @ bs) @ received ws)"
        using Cons.IH [of "acc @ bs"] Cons.prems by auto
      with False show ?thesis by (auto simp: split Inr)
    qed
  qed
qed (simp add: received_def)

lemma recv_payload_timeouts: "recv_payload n acc (replicate k (Inl 0)) = None"
  by (induction k) auto

lemma mirror_data_after_header:
  assumes "cs \<noteq> []" "[] \<notin> set cs" "length (concat cs) = 128" "mi_waits inp = map Inr cs @ rest"
    and "0 < frame_size (concat cs)" "frame_size (concat cs) \<le> MAX_BUF_SIZE"
  shows "httpd_mirror_data i inp h =
    (case recv_payload (frame_size (concat cs)) [] rest of
       None \<Rightarrow> None
     | Some (ret, payload) \<Rightarrow>
         if ret \<le> 0 then Some (httpd_remove_connection i (ensure_request i h))
         else Some (mirror_frame i inp (concat cs) payload (ensure_request i h)))"
proof -
  have pos: "0 < length (last cs)" using assms(1,2) last_in_set by fastforce
  have r: "recv_header 128 [] (map Inr cs @ rest) = Some (int (length (last cs)), concat cs, rest)"
    using recv_header_chunks [OF assms(1,2), of "[]" rest] assms(3) by simp
  show ?thesis
    using pos assms(4-6) by (auto simp: httpd_mirror_data_def r Let_def split: option.splits)
qed

lemma recv_header_timeout:
  assumes "[] \<notin> set cs" "length (concat cs) < left"
  shows "recv_header left acc (map Inr cs @ Inl r # rest) = Some (r, acc @ concat cs, rest)"
  using assms by (induction cs arbitrary: left acc) auto

section \<open>Properties\<close>

text \<open>
  C20. In every state the server can reach from \<open>httpd_init\<close> by starting, turns of its thread, leaving the
  thread, stopping and forced stops, the table keeps its size, every free slot holds no request, buffer
  or key, and \<open>open_connections\<close> equals the number of used slots, and so stays between 0 and
  \<open>max_connections\<close>.
\<close>

theorem reachable_table:
  assumes "server_reachable n i h"
  shows "length (h_connections h) = n \<and>
    (\<forall>c\<in>set (h_connections h). \<not> c_connected c \<longrightarrow>
       c_request c = None \<and> \<not> c_set_codec_flag c \<and> \<not> c_p_buffer c \<and> c_aes_key_context c = None) \<and>
    h_open_connections h = connected_count (h_connections h) \<and>
    0 \<le> h_open_connections h \<and> h_open_connections h \<le> int n"
proof -
  have k: "table_inv h" "length (h_connections h) = n" using reachable_keeps [OF assms] by simp_all
  moreover have "\<forall>c\<in>set (h_connections h). \<not> c_connected c \<longrightarrow>
       c_request c = None \<and> \<not> c_set_codec_flag c \<and> \<not> c_p_buffer c \<and> c_aes_key_context c = None"
    using k by (auto simp: table_inv_def list_all_iff conn_ok_def split: if_splits)
  ultimately show ?thesis
    using connected_count_le [of "h_connections h"] connected_count_nonneg [of "h_connections h"] by (simp add: table_inv_def)
qed

definition demo_accept :: accept_input where
  "demo_accept = \<lparr>ai_fd = 7, ai_sockname_ok = True, ai_mirroring_running = False, ai_remote = [192, 168, 0, 9],
     ai_conn_init = Some 42\<rparr>"

definition demo_started :: httpd where
  "demo_started = fst (snd (httpd_start 3 True (httpd_init 2 0)))"

definition demo_one :: httpd where
  \<comment> \<open>one connection accepted\<close>
  "demo_one = fst (snd (httpd_accept_connection demo_accept demo_started))"

lemma demo_started_eq:
  "demo_started = \<lparr>h_connections = [blank_connection, blank_connection], h_open_connections = 0, h_running = True,
     h_joined = False, h_id = 0, h_server_fd4 = 3, h_server_fd6 = -1, h_event_socket = 0\<rparr>"
  by (simp add: demo_started_def httpd_start_def httpd_init_def numeral_2_eq_2)

lemma demo_one_eq:
  "demo_one = demo_started\<lparr>h_connections := [blank_connection\<lparr>c_user_data := 42, c_socket_fd := 7, c_connected := True,
     c_p_buffer := True, c_remote := [192, 168, 0, 9] @ replicate 60 0\<rparr>, blank_connection], h_open_connections := 1\<rparr>"
  by (simp add: demo_one_def demo_started_eq demo_accept_def httpd_accept_connection_def httpd_add_connection_def
      write_at_def drop_replicate)

lemma demo_one_reachable: "server_reachable 2 0 demo_one"
proof (rule reach_turn)
  show "server_reachable 2 0 demo_started" unfolding demo_started_def by (intro reach_start reach_init)
  show "httpd_turn (Ready (Some demo_accept) None (\<lambda>_. None)) demo_started =
      Some (Continue, demo_one, [ConnInit 42])"
    by (simp add: httpd_turn_def accept_on_def demo_one_def) (simp add: demo_started_eq demo_accept_def accept_on_def
      httpd_accept_connection_def httpd_add_connection_def write_at_def drop_replicate numeral_2_eq_2)
qed

theorem reachable_table_witness:
  "h_open_connections demo_one = 1 \<and> connected_count (h_connections demo_one) = 1"
  using reachable_table [OF demo_one_reachable] by (simp add: demo_one_eq)

text \<open>
  C21. However the kernel cuts a mirroring frame into pieces, and whatever timeouts fall inside its payload, a
  frame that arrives completely is handed on once, with exactly its 128 header bytes and exactly the payload
  bytes its header announces. A timeout before the header is complete is not waited out: the connection is
  removed.
\<close>

theorem mirror_frame_delivered:
  assumes "[] \<notin> set pieces" "length (concat pieces) = 128"
    and "0 < frame_size (concat pieces)" "frame_size (concat pieces) \<le> MAX_BUF_SIZE"
    and "\<forall>w\<in>set ws. w = Inl 0 \<or> (\<exists>bs. bs \<noteq> [] \<and> w = Inr bs)"
    and "length (received ws) = frame_size (concat pieces)"
    and "mi_waits inp = map Inr pieces @ ws @ rest"
    and "[] \<notin> set some" "length (concat some) < 128"
  shows "httpd_mirror_data i inp h = Some (mirror_frame i inp (concat pieces) (received ws) (ensure_request i h)) \<and>
    httpd_mirror_data i (inp\<lparr>mi_waits := map Inr some @ Inl 0 # rest\<rparr>) h = Some (httpd_remove_connection i (ensure_request i h))"
proof
  have ne: "pieces \<noteq> []" using assms(2) by auto
  obtain r where "0 < r" "recv_payload (frame_size (concat pieces)) [] (ws @ rest) = Some (r, received ws)"
    using recv_payload_delivers [of ws "[]" rest] assms(3,5,6) by auto
  then show "httpd_mirror_data i inp h = Some (mirror_frame i inp (concat pieces) (received ws) (ensure_request i h))"
    using mirror_data_after_header [OF ne assms(1,2,7,3,4)] by simp
  show "httpd_mirror_data i (inp\<lparr>mi_waits := map Inr some @ Inl 0 # rest\<rparr>) h = Some (httpd_remove_connection i (ensure_request i h))"
    using recv_header_timeout [OF assms(8,9), of "[]" 0 rest] by (simp add: httpd_mirror_data_def)
qed

definition demo_header :: "byte list" where
  \<comment> \<open>three bytes of payload, type 9, time stamp 5\<close>
  "demo_header = [3, 0, 0, 0, 9, 0, 0, 0, 5] @ replicate 119 0"

definition demo_mirror :: mirror_input where
  "demo_mirror = \<lparr>mi_waits = map Inr [take 1 demo_header, drop 1 demo_header] @ [Inr [10], Inl 0, Inr [11, 12]] @ [],
     mi_aes_key = None, mi_decrypt = (\<lambda>_ bs. bs)\<rparr>"

definition demo_mirror_server :: httpd where
  "demo_mirror_server = set_request 0 (Some http_request_init) demo_one"

lemma demo_mirror_request: "ensure_request 0 demo_one = demo_mirror_server"
  by (simp add: ensure_request_def demo_mirror_server_def demo_one_eq demo_started_eq)

theorem mirror_frame_delivered_witness:
  "httpd_mirror_data 0 demo_mirror demo_one =
     Some (demo_mirror_server, [MirrorProcess [10, 11, 12] 0 5 ([192, 168, 0, 9] @ replicate 60 0)])"
proof -
  have f: "httpd_mirror_data 0 demo_mirror demo_one =
     Some (mirror_frame 0 demo_mirror (concat [take 1 demo_header, drop 1 demo_header])
        (received [Inr [10], Inl 0, Inr [11, 12]]) (ensure_request 0 demo_one)) \<and>
     httpd_mirror_data 0 (demo_mirror\<lparr>mi_waits := map Inr [take 1 demo_header] @ Inl 0 # []\<rparr>) demo_one =
       Some (httpd_remove_connection 0 (ensure_request 0 demo_one))"
    by (rule mirror_frame_delivered) (simp_all add: demo_header_def demo_mirror_def frame_size_def be32_def received_def)
  show ?thesis
    unfolding conjunct1 [OF f] demo_mirror_request
    by (simp add: mirror_frame_def demo_header_def frame_type_def frame_size_def received_def demo_mirror_server_def
      demo_one_eq demo_started_eq set_request_def bytes_to_little_long_def)
qed

text \<open>
  C40. A sender that stops after the header (or inside the payload) blocks the whole server: while every wait
  for the missing bytes only times out, the turn of the thread does not end, so no other connection is
  served, nothing is accepted, and a request to stop the server is not seen.
\<close>

theorem stalled_sender_blocks_server:
  assumes "h_running h" "h_id h = 1" "i < length (h_connections h)" "c_connected (h_connections h ! i)"
    and "c_request (h_connections h ! i) \<noteq> None"
    and "[] \<notin> set pieces" "length (concat pieces) = 128"
    and "0 < frame_size (concat pieces)" "frame_size (concat pieces) \<le> MAX_BUF_SIZE"
    and "mi_waits inp = map Inr pieces @ replicate n (Inl 0)"
  shows "httpd_turn (Ready None None (\<lambda>j. if j = i then Some (http, inp) else None)) h = None"
proof -
  let ?ready = "\<lambda>j. if j = i then Some (http, inp) else None"
  have ne: "pieces \<noteq> []" using assms(7) by auto
  have "httpd_mirror_data i inp h = None"
    using mirror_data_after_header [OF ne assms(6,7,10,8,9)] by (simp add: recv_payload_timeouts)
  then have "serve ?ready js h = None" if "i \<in> set js" for js
    using that assms(2,4) by (induction js) auto
  then show ?thesis
    using assms(1,3) by (simp add: httpd_turn_def accept_on_def)
qed

theorem stalled_sender_blocks_server_witness:
  "httpd_turn (Ready None None (\<lambda>j. if j = 0
      then Some (undefined, demo_mirror\<lparr>mi_waits := map Inr [demo_header] @ replicate 1000 (Inl 0)\<rparr>) else None))
     (demo_mirror_server\<lparr>h_id := 1\<rparr>) = None"
  by (rule stalled_sender_blocks_server [where pieces = "[demo_header]" and n = 1000])
    (simp_all add: demo_mirror_server_def demo_one_eq demo_started_eq set_request_def demo_header_def frame_size_def be32_def)

text \<open>
  C38. The loop over pipelined requests does not stop when a response disconnects. The removal destroyed the
  request object, so the next request of the batch is passed on as NULL and ends the process. This happens
  exactly when a response other than the last disconnects; otherwise every request of the batch is passed to
  the protocol layer once, in order, and \<open>open_connections\<close> drops by one if the last response disconnects.
\<close>

theorem requests_after_disconnect:
  assumes "i < length (h_connections h)" "c_request (h_connections h ! i) = Some rq"
  shows "(handle_requests reply i [1..<count + 1] h = None \<longleftrightarrow> (\<exists>k. 1 \<le> k \<and> k < count \<and> disconnects (reply rq k))) \<and>
    (\<forall>h' evs. handle_requests reply i [1..<count + 1] h = Some (h', evs) \<longrightarrow>
       filter (\<lambda>e. case e of ConnRequest _ _ \<Rightarrow> True | _ \<Rightarrow> False) evs
         = map (ConnRequest (c_user_data (h_connections h ! i))) [1..<count + 1] \<and>
       h_open_connections h' = h_open_connections h - (if 1 \<le> count \<and> disconnects (reply rq count) then 1 else 0))"
proof (intro conjI allI impI)
  have b: "set (butlast [1..<count + 1]) = {1..<count}" by (cases count) auto
  show n: "handle_requests reply i [1..<count + 1] h = None \<longleftrightarrow> (\<exists>k. 1 \<le> k \<and> k < count \<and> disconnects (reply rq k))"
    using handle_requests_None_iff [OF assms, of reply "[1..<count + 1]"] unfolding b by auto
  fix h' evs
  assume r: "handle_requests reply i [1..<count + 1] h = Some (h', evs)"
  show "filter (\<lambda>e. case e of ConnRequest _ _ \<Rightarrow> True | _ \<Rightarrow> False) evs
      = map (ConnRequest (c_user_data (h_connections h ! i))) [1..<count + 1]"
    by (rule handle_requests_state(4) [OF assms r])
  have "\<not> (\<exists>k. 1 \<le> k \<and> k < count \<and> disconnects (reply rq k))" using n r by simp
  then have "(\<exists>k\<in>set [1..<count + 1]. disconnects (reply rq k)) \<longleftrightarrow> 1 \<le> count \<and> disconnects (reply rq count)"
    by (auto simp: less_Suc_eq)
  then show "h_open_connections h' = h_open_connections h - (if 1 \<le> count \<and> disconnects (reply rq count) then 1 else 0)"
    using handle_requests_state [OF assms r] by simp
qed

definition demo_reply :: "http_request \<Rightarrow> nat \<Rightarrow> response_out option \<times> int list" where
  "demo_reply rq k = (Some \<lparr>ro_data = ''OK'', ro_disconnect = True, ro_flag = 1\<rparr>, [2])"

theorem requests_after_disconnect_witness:
  "handle_requests demo_reply 0 [1..<2 + 1] demo_mirror_server = None \<and>
   (\<exists>h' evs. handle_requests demo_reply 0 [1..<1 + 1] demo_mirror_server = Some (h', evs) \<and> h_open_connections h' = 0)"
proof -
  have a: "0 < length (h_connections demo_mirror_server)" "c_request (h_connections demo_mirror_server ! 0) = Some http_request_init"
    "h_open_connections demo_mirror_server = 1" "\<And>k. disconnects (demo_reply rq k)" for rq
    by (simp_all add: demo_mirror_server_def demo_one_eq demo_started_eq set_request_def disconnects_def demo_reply_def)
  note two = requests_after_disconnect [OF a(1,2), of demo_reply 2] and one = requests_after_disconnect [OF a(1,2), of demo_reply 1]
  have "handle_requests demo_reply 0 [1..<1 + 1] demo_mirror_server \<noteq> None" using one by simp
  then obtain h' evs where "handle_requests demo_reply 0 [1..<1 + 1] demo_mirror_server = Some (h', evs)" by auto
  then show ?thesis using two one a(3,4) by (auto simp del: upt_Suc)
qed

text \<open>
  While \<open>open_connections\<close> is exact, the guard in front of \<open>accept\<close> is enough: an accepted connection
  always finds a free slot, takes the first one, and only the older connections are closed, all of them
  and each once, when mirroring is already running. Called on a full table the same code closes the new
  socket twice, in \<open>httpd_add_connection\<close> and again in its caller.
\<close>

theorem accept_takes_first_free:
  assumes "table_inv h" "ai_fd a \<noteq> -1" "ai_sockname_ok a" "ai_conn_init a = Some u"
    and "h_open_connections h < int (length (h_connections h))" "server_fd \<noteq> -1"
    and "accept_on server_fd (Some a) h = (ret, h', evs)"
  shows "ret = 1 \<and>
    closed_fds evs = (if ai_mirroring_running a then map c_socket_fd (filter c_connected (h_connections h)) else []) \<and>
    (\<exists>i<length (h_connections h).
       i = (if ai_mirroring_running a then 0 else first_free (h_connections h)) \<and>
       (ai_mirroring_running a \<or> \<not> c_connected (h_connections h ! i)) \<and>
       c_connected (h_connections h' ! i) \<and> c_socket_fd (h_connections h' ! i) = ai_fd a \<and>
       c_user_data (h_connections h' ! i) = u \<and>
       connected_count (h_connections h') = (if ai_mirroring_running a then 1 else connected_count (h_connections h) + 1))"
proof -
  define g where "g = (if ai_mirroring_running a then fst (remove_all h) else h)"
  define pre where "pre = (if ai_mirroring_running a then MirrorStop None # snd (remove_all h) else [])"
  have len: "length (h_connections g) = length (h_connections h)" by (simp add: g_def httpd_simps)
  have free_all: "first_free (map (\<lambda>c. if c_connected c then released c else c) cs) = 0" for cs
    by (cases cs) auto
  have ff: "first_free (h_connections g) = (if ai_mirroring_running a then 0 else first_free (h_connections h))"
    by (simp add: g_def httpd_simps free_all)
  have "connected_count (h_connections g) < int (length (h_connections g))"
    using assms(1,5) by (auto simp: g_def table_inv_def httpd_simps)
  then have lt: "first_free (h_connections g) < length (h_connections g)"
    using first_free_le [of "h_connections g"] first_free_full_iff [of "h_connections g"] by linarith
  note fr = first_free_is_free [OF lt]
  have "httpd_accept_connection a h = (ret, h', evs)" using assms(5-7) by (simp add: accept_on_def)
  then have eq: "ret = 1 \<and> evs = pre @ [ConnInit u] \<and> h' = fst (snd (httpd_add_connection (ai_fd a) (ai_remote a) (Some u) g))"
    using lt assms(2-4) by (auto simp: httpd_accept_connection_def httpd_add_connection_def g_def pre_def Let_def
        case_prod_beta split: if_splits)
  moreover have "closed_fds pre = (if ai_mirroring_running a then map c_socket_fd (filter c_connected (h_connections h)) else [])"
    by (simp add: pre_def httpd_simps closed_fds_removed closed_fds_Cons)
  moreover have "connected_count (h_connections g) = (if ai_mirroring_running a then 0 else connected_count (h_connections h))"
    by (simp add: g_def httpd_simps)
  ultimately show ?thesis
    using lt fr len ff
    by (auto simp: httpd_add_connection_def Let_def connected_count_update closed_fds_Cons g_def split: if_splits)
qed

theorem accept_takes_first_free_witness:
  "first_free (h_connections demo_one) = 1 \<and>
   fst (accept_on 3 (Some demo_accept) demo_one) = 1 \<and>
   closed_fds (snd (snd (accept_on 3 (Some (demo_accept\<lparr>ai_mirroring_running := True\<rparr>)) demo_one))) = [7]"
proof -
  have inv: "table_inv demo_one" using reachable_keeps [OF demo_one_reachable] by simp
  have a: "ai_fd demo_accept \<noteq> -1" "ai_sockname_ok demo_accept" "ai_conn_init demo_accept = Some 42"
    "h_open_connections demo_one < int (length (h_connections demo_one))" "(3 :: int) \<noteq> -1"
    "filter c_connected (h_connections demo_one) = [h_connections demo_one ! 0]" "c_socket_fd (h_connections demo_one ! 0) = 7"
    "first_free (h_connections demo_one) = 1"
    by (simp_all add: demo_accept_def demo_one_eq demo_started_eq)
  obtain r1 g1 e1 where 1: "accept_on 3 (Some demo_accept) demo_one = (r1, g1, e1)"
    by (cases "accept_on 3 (Some demo_accept) demo_one")
  obtain r2 g2 e2 where 2: "accept_on 3 (Some (demo_accept\<lparr>ai_mirroring_running := True\<rparr>)) demo_one = (r2, g2, e2)"
    by (cases "accept_on 3 (Some (demo_accept\<lparr>ai_mirroring_running := True\<rparr>)) demo_one")
  show ?thesis
    using accept_takes_first_free [OF inv _ _ _ _ _ 1] accept_takes_first_free [OF inv _ _ _ _ _ 2] a by (simp add: 1 2)
qed

definition freed_keys :: "httpd_event list \<Rightarrow> nat list" where
  "freed_keys evs = concat (map (\<lambda>e. case e of FreeKey k \<Rightarrow> [k] | _ \<Rightarrow> []) evs)"

lemma freed_keys_Nil [simp]: "freed_keys [] = []"
  by (simp add: freed_keys_def)

lemma freed_keys_Cons: "freed_keys (e # evs) = (case e of FreeKey k \<Rightarrow> [k] | _ \<Rightarrow> []) @ freed_keys evs"
  by (simp add: freed_keys_def)

lemma freed_keys_removed:
  "freed_keys (concat (map release_events cs)) =
     concat (map (\<lambda>c. case c_aes_key_context c of None \<Rightarrow> [] | Some k \<Rightarrow> [k]) cs)"
  by (induction cs) (auto simp: freed_keys_def release_events_def split: option.splits)

lemma freed_keys_append [simp]: "freed_keys (xs @ ys) = freed_keys xs @ freed_keys ys"
  by (simp add: freed_keys_def)

text \<open>
  Stopping a running server closes every connected socket once and the two server sockets, leaves no
  connection and exact bookkeeping, and the server is joined; but the key of every connection is freed,
  one \<open>free\<close> per connection that holds it, so connections that took the same global key context free
  it once each.
\<close>

theorem stop_releases_everything:
  assumes "h_running h" "\<not> h_joined h" "httpd_stop h = (h', evs)"
  shows "closed_fds evs = map c_socket_fd (filter c_connected (h_connections h))
       @ filter (\<lambda>fd. fd \<noteq> -1) [h_server_fd4 h, h_server_fd6 h] \<and>
    freed_keys evs = concat (map (\<lambda>c. case c_aes_key_context c of None \<Rightarrow> [] | Some k \<Rightarrow> [k])
       (filter c_connected (h_connections h))) \<and>
    connected_count (h_connections h') = 0 \<and>
    h_open_connections h' = h_open_connections h - connected_count (h_connections h) \<and>
    \<not> httpd_is_running h' \<and> h_server_fd4 h' = -1 \<and> h_server_fd6 h' = -1"
  using assms
  by (auto simp: httpd_stop_def httpd_exit_def httpd_simps Let_def closed_fds_removed freed_keys_removed httpd_is_running_def
      closed_fds_Cons freed_keys_Cons)

theorem stop_releases_everything_witness:
  "closed_fds (snd (httpd_stop demo_one)) = [7, 3]"
proof -
  have a: "h_running demo_one" "\<not> h_joined demo_one" "filter c_connected (h_connections demo_one) = [h_connections demo_one ! 0]"
    "c_socket_fd (h_connections demo_one ! 0) = 7" "h_server_fd4 demo_one = 3" "h_server_fd6 demo_one = -1"
    by (simp_all add: demo_one_eq demo_started_eq)
  show ?thesis using stop_releases_everything [OF a(1,2) surjective_pairing] a by simp
qed

text \<open>
  When \<open>accept\<close> or \<open>select\<close> fails once, the thread leaves its loop for good: all connections and the server
  sockets are closed, yet \<open>httpd_is_running\<close> keeps answering yes and \<open>httpd_start\<close> does nothing and answers 0,
  until \<open>httpd_stop\<close> has been called.
\<close>

theorem failed_accept_kills_server:
  assumes "h_running h" "\<not> h_joined h" "sel = SelectError \<or>
      (sel = Ready (Some a) a6 ready \<and> ai_fd a = -1 \<and> h_server_fd4 h \<noteq> -1 \<and>
       h_open_connections h < int (length (h_connections h)))"
  shows "\<exists>h' evs. httpd_turn sel h = Some (Break, h', evs) \<and>
     (let dead = fst (httpd_exit h') in
        connected_count (h_connections dead) = 0 \<and> h_server_fd4 dead = -1 \<and> h_server_fd6 dead = -1 \<and>
        httpd_is_running dead \<and> httpd_start fd ok dead = (0, dead, []) \<and>
        fst (httpd_start 5 True (fst (httpd_stop dead))) = 1)"
proof -
  have "httpd_turn sel h = Some (Break, h, [])"
    using assms by (auto simp: httpd_turn_def accept_on_def httpd_accept_connection_def)
  then show ?thesis
    using assms(1,2)
    by (auto simp: httpd_exit_def httpd_is_running_def httpd_start_def httpd_stop_def httpd_simps Let_def)
qed

theorem failed_accept_kills_server_witness:
  "\<exists>h' evs. httpd_turn SelectError demo_one = Some (Break, h', evs) \<and> httpd_is_running (fst (httpd_exit h'))"
proof -
  have a: "h_running demo_one" "\<not> h_joined demo_one" by (simp_all add: demo_one_eq demo_started_eq)
  show ?thesis using failed_accept_kills_server [OF a, of SelectError _ _ _ 0 True] by (simp add: Let_def) blast
qed

end
