(* ===== verification/Sdp.thy ===== *)
theory Sdp
  imports Airplay_Prelude
begin

text \<open>
  The session description parser of \<open>libairplay/airplay/sdp.c\<close>. The parser works in place: it copies the
  text, cuts it into C strings by writing NUL bytes over line ends and over the colon of an attribute, and
  its records are pointers into the copy. Here they are offsets into the buffer \<open>s_data\<close>, read back as
  C strings by the getters. The specification at the end is over the list of lines and never mentions
  the buffer.
\<close>

section \<open>The parser\<close>

datatype sdp_record = Version | Origin | Connection | Session | Time | Media
  | Rtpmap | Fmtp | Rsaaeskey | Fpaeskey | Aesiv | Min_latency

record sdp =
  s_data :: string
  s_fields :: "sdp_record \<Rightarrow> nat option"   \<comment> \<open>\<open>None\<close> is NULL, \<open>Some off\<close> is \<open>data + off\<close>\<close>

definition set_field :: "sdp_record \<Rightarrow> nat \<Rightarrow> sdp \<Rightarrow> sdp" where
  "set_field r off sdp = sdp\<lparr>s_fields := (s_fields sdp)(r \<mapsto> off)\<rparr>"

definition parse_sdp_line :: "nat \<Rightarrow> sdp \<Rightarrow> sdp" where
  "parse_sdp_line pos sdp =
     (let line = c_str (s_data sdp) pos
      in if length line < 2 \<or> line ! 1 \<noteq> CHR ''='' then sdp
      else if line ! 0 = CHR ''v'' then set_field Version (pos + 2) sdp
      else if line ! 0 = CHR ''o'' then set_field Origin (pos + 2) sdp
      else if line ! 0 = CHR ''s'' then set_field Session (pos + 2) sdp
      else if line ! 0 = CHR ''c'' then set_field Connection (pos + 2) sdp
      else if line ! 0 = CHR ''t'' then set_field Time (pos + 2) sdp
      else if line ! 0 = CHR ''m'' then set_field Media (pos + 2) sdp
      else if line ! 0 = CHR ''a'' then
        (case c_strstr line '':'' of
           None \<Rightarrow> sdp
         | Some rest \<Rightarrow>
             (let colon = pos + (length line - length rest);
                  sdp = sdp\<lparr>s_data := (s_data sdp)[colon := NUL]\<rparr>;
                  key = c_str (s_data sdp) (pos + 2);
                  value = colon + 1
              in if key = ''rtpmap'' \<and> s_fields sdp Rtpmap = None then set_field Rtpmap value sdp
              else if key = ''fmtp'' \<and> s_fields sdp Fmtp = None then set_field Fmtp value sdp
              else if key = ''rsaaeskey'' then set_field Rsaaeskey value sdp
              else if key = ''fpaeskey'' then set_field Fpaeskey value sdp
              else if key = ''aesiv'' then set_field Aesiv value sdp
              else if key = ''min-latency'' then set_field Min_latency value sdp
              else sdp))
      else sdp)"

definition find_lf :: "string \<Rightarrow> nat \<Rightarrow> nat" where
  \<comment> \<open>\<open>for (lfpos = pos; data[lfpos]; lfpos++) if (data[lfpos] == LF) break;\<close>\<close>
  "find_lf buf pos = pos + length (takeWhile (\<lambda>c. c \<noteq> NUL \<and> c \<noteq> LF) (drop pos buf))"

function parse_sdp_loop :: "nat \<Rightarrow> nat \<Rightarrow> sdp \<Rightarrow> sdp" where
  "parse_sdp_loop pos len sdp =
     (if \<not> pos < len then sdp
      else let lfpos = find_lf (s_data sdp) pos
      in if s_data sdp ! lfpos \<noteq> LF then sdp
      else let sdp = sdp\<lparr>s_data := (s_data sdp)[lfpos := NUL]\<rparr>;
               sdp = (if pos < lfpos \<and> s_data sdp ! (lfpos - 1) = CR
                      then sdp\<lparr>s_data := (s_data sdp)[lfpos - 1 := NUL]\<rparr> else sdp)
      in parse_sdp_loop (lfpos + 1) len (parse_sdp_line pos sdp))"
  by pat_completeness auto
termination
  by (relation "measure (\<lambda>(pos, len, sdp). len - pos)") (auto simp: find_lf_def)

declare parse_sdp_loop.simps [simp del]

definition parse_sdp_data :: "sdp \<Rightarrow> sdp" where
  "parse_sdp_data sdp = parse_sdp_loop 0 (length (c_str (s_data sdp) 0)) sdp"

definition sdp_init :: "string \<Rightarrow> sdp" where
  "sdp_init sdpdata = parse_sdp_data \<lparr>s_data = sdpdata @ [NUL], s_fields = (\<lambda>_. None)\<rparr>"

definition sdp_get :: "sdp_record \<Rightarrow> sdp \<Rightarrow> string option" where
  "sdp_get r sdp = map_option (c_str (s_data sdp)) (s_fields sdp r)"

definition sdp_get_version :: "sdp \<Rightarrow> string option" where "sdp_get_version = sdp_get Version"
definition sdp_get_origin :: "sdp \<Rightarrow> string option" where "sdp_get_origin = sdp_get Origin"
definition sdp_get_session :: "sdp \<Rightarrow> string option" where "sdp_get_session = sdp_get Session"
definition sdp_get_connection :: "sdp \<Rightarrow> string option" where "sdp_get_connection = sdp_get Connection"
definition sdp_get_time :: "sdp \<Rightarrow> string option" where "sdp_get_time = sdp_get Time"
definition sdp_get_media :: "sdp \<Rightarrow> string option" where "sdp_get_media = sdp_get Media"
definition sdp_get_rtpmap :: "sdp \<Rightarrow> string option" where "sdp_get_rtpmap = sdp_get Rtpmap"
definition sdp_get_fmtp :: "sdp \<Rightarrow> string option" where "sdp_get_fmtp = sdp_get Fmtp"
definition sdp_get_rsaaeskey :: "sdp \<Rightarrow> string option" where "sdp_get_rsaaeskey = sdp_get Rsaaeskey"
definition sdp_get_aesiv :: "sdp \<Rightarrow> string option" where "sdp_get_aesiv = sdp_get Aesiv"
definition sdp_get_min_latency :: "sdp \<Rightarrow> string option" where "sdp_get_min_latency = sdp_get Min_latency"
definition sdp_get_fpaeskey :: "sdp \<Rightarrow> string option" where "sdp_get_fpaeskey = sdp_get Fpaeskey"

section \<open>The specification over lines\<close>

definition attribute :: "string \<Rightarrow> (string \<times> string) option" where
  \<comment> \<open>\<open>a=key:value\<close>, cut at the first colon of the line\<close>
  "attribute l = (if CHR '':'' \<in> set l then Some (takeWhile (\<lambda>c. c \<noteq> CHR '':'') (drop 2 l),
                    tl (dropWhile (\<lambda>c. c \<noteq> CHR '':'') l)) else None)"

definition plain_record :: "char \<Rightarrow> sdp_record option" where
  "plain_record c = map_of [(CHR ''v'', Version), (CHR ''o'', Origin), (CHR ''s'', Session), (CHR ''c'', Connection),
     (CHR ''t'', Time), (CHR ''m'', Media)] c"

definition key_record :: "string \<Rightarrow> sdp_record option" where
  "key_record k = map_of [(''rtpmap'', Rtpmap), (''fmtp'', Fmtp), (''rsaaeskey'', Rsaaeskey),
     (''fpaeskey'', Fpaeskey), (''aesiv'', Aesiv), (''min-latency'', Min_latency)] k"

definition line_record :: "string \<Rightarrow> (sdp_record \<times> string) option" where
  \<comment> \<open>what one line says\<close>
  "line_record l =
     (if length l < 2 \<or> l ! 1 \<noteq> CHR ''='' then None
      else case plain_record (hd l) of
          Some r \<Rightarrow> Some (r, drop 2 l)
        | None \<Rightarrow> if hd l \<noteq> CHR ''a'' then None
                  else (case attribute l of
                      None \<Rightarrow> None
                    | Some (k, v) \<Rightarrow> map_option (\<lambda>r. (r, v)) (key_record k)))"

definition keeps_first :: "sdp_record \<Rightarrow> bool" where
  "keeps_first r \<longleftrightarrow> r = Rtpmap \<or> r = Fmtp"

definition record_line :: "(sdp_record \<Rightarrow> string option) \<Rightarrow> string \<Rightarrow> sdp_record \<Rightarrow> string option" where
  "record_line t l =
     (case line_record l of
        None \<Rightarrow> t
      | Some (r, v) \<Rightarrow> if keeps_first r \<and> t r \<noteq> None then t else t(r \<mapsto> v))"

definition chomp :: "string \<Rightarrow> string" where
  "chomp l = (if l \<noteq> [] \<and> last l = CR then butlast l else l)"

definition values_of :: "sdp_record \<Rightarrow> string list \<Rightarrow> string list" where
  "values_of r ls = map (\<lambda>p. snd p) (filter (\<lambda>p. fst p = r) (List.map_filter line_record ls))"

definition sdp_lookup :: "sdp_record \<Rightarrow> string list \<Rightarrow> string option" where
  \<comment> \<open>the first value of \<open>rtpmap\<close> and \<open>fmtp\<close>, the last value of every other record\<close>
  "sdp_lookup r ls = (let vs = values_of r ls in if vs = [] then None
                      else Some (if keeps_first r then hd vs else last vs))"

lemma record_lines_lookup:
  "foldl record_line (\<lambda>_. None) ls r = sdp_lookup r ls"
proof (induction ls rule: rev_induct)
  case Nil
  show ?case by (simp add: sdp_lookup_def values_of_def List.map_filter_def)
next
  case (snoc l ls)
  show ?case
    using snoc by (auto simp: sdp_lookup_def values_of_def List.map_filter_def record_line_def Let_def hd_append
        split: option.splits prod.splits if_splits)
qed

section \<open>The buffer carries the specification\<close>

definition line_effect :: "nat \<Rightarrow> string \<Rightarrow> string \<Rightarrow> string \<Rightarrow> sdp \<Rightarrow> sdp \<Rightarrow> bool" where
  \<comment> \<open>parsing the line \<open>l\<close> that stands behind \<open>P\<close> changes only its own bytes and records what it says\<close>
  "line_effect pos P l rest sdp sdp' \<longleftrightarrow>
     (\<exists>W. length W = length l \<and> s_data sdp' = P @ W @ NUL # rest \<and>
       (case line_record l of
          None \<Rightarrow> s_fields sdp' = s_fields sdp
        | Some (r, v) \<Rightarrow>
            if keeps_first r \<and> s_fields sdp r \<noteq> None then s_fields sdp' = s_fields sdp
            else \<exists>off. s_fields sdp' = (s_fields sdp)(r \<mapsto> off) \<and> off \<le> length P + length l \<and>
                   c_str (P @ W @ NUL # rest) off = v))"

lemma plain_line_effect:
  assumes "l = c # CHR ''='' # v" "NUL \<notin> set l" "plain_record c = Some r"
    and "s_data sdp = P @ l @ NUL # rest" "parse_sdp_line (length P) sdp = set_field r (length P + 2) sdp"
  shows "line_effect pos P l rest sdp (parse_sdp_line (length P) sdp)"
proof -
  have "\<not> keeps_first r" using assms(3) by (auto simp: plain_record_def keeps_first_def split: if_splits)
  moreover have "c_str (P @ l @ NUL # rest) (length P + 2) = v"
    using c_str_at [of v "length P + 2" "P @ [c, CHR ''='']" rest] assms(1,2) by simp
  ultimately show ?thesis
    unfolding line_effect_def assms(5)
    by (intro exI [of _ l]) (use assms in \<open>auto simp: line_record_def set_field_def\<close>)
qed

lemma attribute_split:
  assumes "l = CHR ''a'' # CHR ''='' # k @ CHR '':'' # v" "CHR '':'' \<notin> set k"
  shows "attribute l = Some (k, v)"
proof -
  have "takeWhile (\<lambda>c. c \<noteq> CHR '':'') (k @ CHR '':'' # v) = k" "dropWhile (\<lambda>c. c \<noteq> CHR '':'') (k @ CHR '':'' # v) = CHR '':'' # v"
    using assms(2) by (induction k) auto
  then show ?thesis by (simp add: attribute_def assms(1))
qed

lemma attribute_line_effect:
  assumes l: "l = CHR ''a'' # CHR ''='' # k @ CHR '':'' # v" and "CHR '':'' \<notin> set k" "NUL \<notin> set l"
    and "s_data sdp = P @ l @ NUL # rest"
  shows "line_effect pos P l rest sdp (parse_sdp_line (length P) sdp)"
proof -
  let ?W = "CHR ''a'' # CHR ''='' # k @ NUL # v"
  have line: "c_str (s_data sdp) (length P) = l" using assms(3,4) by (simp add: c_str_at)
  have colon: "c_strstr l '':'' = Some (CHR '':'' # v)"
    using c_strchr_append [of "CHR '':''" "CHR ''a'' # CHR ''='' # k" v] assms(2) l by (simp add: c_strstr_single)
  have upd: "(P @ l @ NUL # rest)[length P + (length l - length (CHR '':'' # v)) := NUL] = P @ ?W @ NUL # rest"
    by (simp add: l list_update_append)
  have key: "c_str (P @ ?W @ NUL # rest) (length P + 2) = k"
    using c_str_at [of k "length P + 2" "P @ [CHR ''a'', CHR ''='']" "v @ NUL # rest"] assms(3) l by simp
  have val: "c_str (P @ ?W @ NUL # rest) (length P + (length l - length (CHR '':'' # v)) + 1) = v"
    using c_str_at [of v _ "P @ CHR ''a'' # CHR ''='' # k @ [NUL]" rest] assms(3) l by simp
  have rec: "line_record l = map_option (\<lambda>r. (r, v)) (key_record k)"
    using attribute_split [OF l assms(2)] by (simp add: line_record_def l plain_record_def)
  have shape: "\<not> length l < 2" "l ! 1 = CHR ''=''" "l ! 0 = CHR ''a''" "length ?W = length l" by (simp_all add: l)
  define W where "W = ?W"
  define off where "off = length P + (length l - length (CHR '':'' # v)) + 1"
  have off: "off \<le> length P + length l" by (simp add: off_def l)
  have "parse_sdp_line (length P) sdp =
     (let sdp = sdp\<lparr>s_data := P @ ?W @ NUL # rest\<rparr>
      in case key_record k of None \<Rightarrow> sdp
         | Some r \<Rightarrow> if keeps_first r \<and> s_fields sdp r \<noteq> None then sdp else set_field r off sdp)"
    unfolding parse_sdp_line_def line Let_def
    by (simp add: shape shape(2) [unfolded One_nat_def] colon assms(4) upd [simplified] key [simplified] off_def key_record_def keeps_first_def)
  then have r: "parse_sdp_line (length P) sdp =
     (let sdp = sdp\<lparr>s_data := P @ W @ NUL # rest\<rparr>
      in case key_record k of None \<Rightarrow> sdp
         | Some r \<Rightarrow> if keeps_first r \<and> s_fields sdp r \<noteq> None then sdp else set_field r off sdp)"
    by (simp add: W_def)
  have "c_str (P @ W @ NUL # rest) off = v" "length W = length l"
    using val shape(4) by (simp_all add: W_def off_def)
  then show ?thesis
    unfolding line_effect_def r rec
    by (intro exI [of _ W]) (use off in \<open>auto simp: set_field_def Let_def split: option.splits\<close>)
qed

lemma parse_line_effect:
  assumes "NUL \<notin> set l" "s_data sdp = P @ l @ NUL # rest"
  shows "line_effect pos P l rest sdp (parse_sdp_line (length P) sdp)"
proof -
  have line: "c_str (s_data sdp) (length P) = l" using assms by (simp add: c_str_at)
  have none: ?thesis if "line_record l = None" "parse_sdp_line (length P) sdp = sdp"
    unfolding line_effect_def by (intro exI [of _ l]) (simp add: that assms(2))
  show ?thesis
  proof (cases "\<exists>c v. l = c # CHR ''='' # v")
    case False
    then have "length l < 2 \<or> l ! 1 \<noteq> CHR ''=''" by (cases l rule: remdups_adj.cases) auto
    then have "parse_sdp_line (length P) sdp = sdp" "line_record l = None"
      by (simp_all add: parse_sdp_line_def line line_record_def)
    then show ?thesis by (rule none [rotated])
  next
    case True
    then obtain c v where l: "l = c # CHR ''='' # v" by blast
    show ?thesis
    proof (cases "plain_record c")
      case (Some r)
      then have "parse_sdp_line (length P) sdp = set_field r (length P + 2) sdp"
        by (auto simp: parse_sdp_line_def line l plain_record_def split: if_splits)
      then show ?thesis by (rule plain_line_effect [OF l assms(1) Some assms(2)])
    next
      case no: None
      show ?thesis
      proof (cases "c = CHR ''a'' \<and> CHR '':'' \<in> set v")
        case True
        then obtain k w where "v = k @ CHR '':'' # w" "CHR '':'' \<notin> set k" by (meson split_list_first)
        then show ?thesis using attribute_line_effect [of l k w sdp P rest] assms l True by simp
      next
        case False
        then have "line_record l = None" using no by (auto simp: line_record_def l attribute_def)
        moreover have "c = CHR ''a'' \<Longrightarrow> c_strstr l '':'' = None"
          using False by (simp add: c_strstr_single l c_strchr_None_iff)
        then have "parse_sdp_line (length P) sdp = sdp"
          using no False by (auto simp: parse_sdp_line_def line l plain_record_def Let_def split: if_splits)
        ultimately show ?thesis by (rule none)
      qed
    qed
  qed
qed

section \<open>The loop over the lines\<close>

definition texts :: "sdp \<Rightarrow> sdp_record \<Rightarrow> string option" where
  "texts sdp r = sdp_get r sdp"

definition sdp_state :: "string \<Rightarrow> string \<Rightarrow> sdp \<Rightarrow> bool" where
  \<comment> \<open>the loop stands behind \<open>P\<close>: every record is a C string that ends inside \<open>P\<close>\<close>
  "sdp_state P rest sdp \<longleftrightarrow> s_data sdp = P @ rest \<and>
     (\<forall>r off. s_fields sdp r = Some off \<longrightarrow> NUL \<in> set (drop off P))"

lemma line_step:
  assumes "sdp_state P (l @ NUL # rest) sdp" "NUL \<notin> set l"
  shows "\<exists>W. length W = length l \<and> sdp_state (P @ W @ [NUL]) rest (parse_sdp_line (length P) sdp) \<and>
    texts (parse_sdp_line (length P) sdp) = record_line (texts sdp) l"
proof -
  let ?sdp' = "parse_sdp_line (length P) sdp"
  obtain W where W: "length W = length l" "s_data ?sdp' = P @ W @ NUL # rest"
    and f: "case line_record l of None \<Rightarrow> s_fields ?sdp' = s_fields sdp
        | Some (r, v) \<Rightarrow> if keeps_first r \<and> s_fields sdp r \<noteq> None then s_fields ?sdp' = s_fields sdp
            else \<exists>off. s_fields ?sdp' = (s_fields sdp)(r \<mapsto> off) \<and> off \<le> length P + length l \<and>
                   c_str (P @ W @ NUL # rest) off = v"
    using parse_line_effect [OF assms(2), of sdp P rest] assms(1) unfolding line_effect_def sdp_state_def by auto
  have old: "c_str (P @ X) off = c_str (P @ Y) off" if "s_fields sdp r = Some off" for r off X Y
    using assms(1) that by (simp add: sdp_state_def c_str_prefix)
  have same: "map_option (c_str (P @ X)) (s_fields sdp r) = map_option (c_str (P @ Y)) (s_fields sdp r)" for r X Y
    by (cases "s_fields sdp r") (use old in auto)
  have data: "s_data sdp = P @ (l @ NUL # rest)" using assms(1) by (simp add: sdp_state_def)
  have t: "texts ?sdp' = record_line (texts sdp) l"
    using f by (auto simp: fun_eq_iff texts_def sdp_get_def record_line_def W data same
        simp del: append_assoc split: option.splits if_splits)
  have nul: "NUL \<in> set (drop off (P @ W @ [NUL]))" if "off \<le> length P + length l" for off
  proof -
    have "drop off (P @ W @ [NUL]) = drop off (P @ W) @ [NUL]" using that W by simp
    then show ?thesis by simp
  qed
  have "NUL \<in> set (drop off (P @ W @ [NUL]))" if "s_fields ?sdp' r = Some off" for r off
  proof (cases "s_fields sdp r = Some off")
    case True
    then show ?thesis using assms(1) by (auto simp: sdp_state_def)
  next
    case False
    then show ?thesis using f that by (intro nul) (auto split: option.splits if_splits)
  qed
  then show ?thesis using W t by (intro exI [of _ W]) (auto simp: sdp_state_def)
qed

definition join_lines :: "string list \<Rightarrow> string" where
  "join_lines ls = concat (map (\<lambda>l. l @ [LF]) ls)"

definition text_line :: "string \<Rightarrow> bool" where
  "text_line l \<longleftrightarrow> NUL \<notin> set l \<and> LF \<notin> set l"

lemma find_lf_at:
  assumes "text_line l" "c = NUL \<or> c = LF"
  shows "find_lf (P @ l @ c # rest) (length P) = length P + length l"
proof -
  have "takeWhile (\<lambda>c. c \<noteq> NUL \<and> c \<noteq> LF) (l @ c # rest) = l"
    using assms by (induction l) (auto simp: text_line_def)
  then show ?thesis by (simp add: find_lf_def)
qed

lemma sdp_state_shift: "sdp_state P (c # rest) sdp \<Longrightarrow> sdp_state (P @ [c]) rest sdp"
  by (auto simp: sdp_state_def)

lemma sdp_state_data:
  "sdp_state P rest sdp \<Longrightarrow> sdp_state P rest' (sdp\<lparr>s_data := P @ rest'\<rparr>)"
  "sdp_state P rest sdp \<Longrightarrow> texts (sdp\<lparr>s_data := P @ rest'\<rparr>) = texts sdp"
proof -
  show "sdp_state P rest sdp \<Longrightarrow> sdp_state P rest' (sdp\<lparr>s_data := P @ rest'\<rparr>)" by (simp add: sdp_state_def)
  assume s: "sdp_state P rest sdp"
  show "texts (sdp\<lparr>s_data := P @ rest'\<rparr>) = texts sdp"
  proof
    fix r
    show "texts (sdp\<lparr>s_data := P @ rest'\<rparr>) r = texts sdp r"
      using s by (cases "s_fields sdp r") (auto simp: texts_def sdp_get_def sdp_state_def c_str_prefix)
  qed
qed

lemma loop_records:
  assumes "sdp_state P (join_lines ls @ tail @ [NUL]) sdp" "list_all text_line ls" "text_line tail"
    and "len = length P + length (join_lines ls) + length tail"
  shows "texts (parse_sdp_loop (length P) len sdp) = foldl record_line (texts sdp) (map chomp ls)"
  using assms
proof (induction ls arbitrary: P sdp)
  case Nil
  then have d: "s_data sdp = P @ tail @ [NUL]" by (simp add: sdp_state_def join_lines_def)
  have "parse_sdp_loop (length P) len sdp = sdp"
    using Nil.prems(3) by (subst parse_sdp_loop.simps) (simp add: d find_lf_at nth_append)
  then show ?case by simp
next
  case (Cons raw ls)
  let ?rest = "join_lines ls @ tail @ [NUL]"
  have raw: "text_line raw" "list_all text_line ls" using Cons.prems(2) by simp_all
  have st: "sdp_state P (raw @ LF # ?rest) sdp" using Cons.prems(1) by (simp add: join_lines_def)
  then have d: "s_data sdp = P @ raw @ LF # ?rest" by (simp add: sdp_state_def)
  define X where "X = (if raw \<noteq> [] \<and> last raw = CR then NUL # ?rest else ?rest)"
  define sdp1 where "sdp1 = sdp\<lparr>s_data := P @ chomp raw @ NUL # X\<rparr>"
  have s1: "sdp_state P (chomp raw @ NUL # X) sdp1" "texts sdp1 = texts sdp"
    using sdp_state_data [OF st] by (simp_all add: sdp1_def)
  have "NUL \<notin> set (chomp raw)" using raw by (auto simp: text_line_def chomp_def dest: in_set_butlastD)
  from line_step [OF s1(1) this] obtain W where W: "length W = length (chomp raw)"
    "sdp_state (P @ W @ [NUL]) X (parse_sdp_line (length P) sdp1)"
    "texts (parse_sdp_line (length P) sdp1) = record_line (texts sdp) (chomp raw)" using s1(2) by auto
  define P' where "P' = (if raw \<noteq> [] \<and> last raw = CR then P @ W @ [NUL] @ [NUL] else P @ W @ [NUL])"
  have len: "length P' = length P + length raw + 1"
    using W(1) by (cases raw rule: rev_cases) (auto simp: P'_def chomp_def)
  have "sdp_state P' ?rest (parse_sdp_line (length P) sdp1)"
    using W(2) sdp_state_shift [of "P @ W @ [NUL]"] by (auto simp: P'_def X_def)
  from Cons.IH [OF this raw(2) Cons.prems(3)] Cons.prems(4) len W(3)
  have rest: "texts (parse_sdp_loop (length P + length raw + 1) len (parse_sdp_line (length P) sdp1)) =
      foldl record_line (record_line (texts sdp) (chomp raw)) (map chomp ls)"
    by (simp add: join_lines_def)
  have lf: "find_lf (s_data sdp) (length P) = length P + length raw" by (simp add: d find_lf_at raw)
  have cut: "(let sdp = sdp\<lparr>s_data := (s_data sdp)[length P + length raw := NUL]\<rparr>
      in if length P < length P + length raw \<and> s_data sdp ! (length P + length raw - 1) = CR
         then sdp\<lparr>s_data := (s_data sdp)[length P + length raw - 1 := NUL]\<rparr> else sdp) = sdp1"
    by (cases raw rule: rev_cases)
      (auto simp: sdp1_def d X_def chomp_def Let_def nth_append list_update_append)
  have pos: "length P < len" using Cons.prems(4) by (simp add: join_lines_def)
  have at: "s_data sdp ! (length P + length raw) = LF" by (simp add: d nth_append)
  have "parse_sdp_loop (length P) len sdp =
      parse_sdp_loop (length P + length raw + 1) len (parse_sdp_line (length P) sdp1)"
    by (subst parse_sdp_loop.simps) (simp only: lf at pos Let_def cut [unfolded Let_def] simp_thms if_True if_False)
  then show ?case using rest by simp
qed

section \<open>Properties\<close>

text \<open>
  C37. For every text of lines ended by LF or CR LF, with or without an unfinished last line, each getter
  answers what the specification over the lines says: the last value given for the record, the first one
  for \<open>rtpmap\<close> and \<open>fmtp\<close>, and NULL when no complete line gives one; lines that are not \<open>letter=\<close>, attributes
  without a colon, unknown keys and an unfinished last line are ignored. Cutting the text in place never
  disturbs a value recorded before.
\<close>

theorem sdp_records:
  assumes "list_all text_line ls" "text_line tail"
  shows "let sdp = sdp_init (join_lines ls @ tail); look = (\<lambda>r. sdp_lookup r (map chomp ls)) in
    sdp_get_version sdp = look Version \<and> sdp_get_origin sdp = look Origin \<and> sdp_get_session sdp = look Session \<and>
    sdp_get_connection sdp = look Connection \<and> sdp_get_time sdp = look Time \<and> sdp_get_media sdp = look Media \<and>
    sdp_get_rtpmap sdp = look Rtpmap \<and> sdp_get_fmtp sdp = look Fmtp \<and> sdp_get_rsaaeskey sdp = look Rsaaeskey \<and>
    sdp_get_fpaeskey sdp = look Fpaeskey \<and> sdp_get_aesiv sdp = look Aesiv \<and> sdp_get_min_latency sdp = look Min_latency"
proof -
  let ?s0 = "\<lparr>s_data = (join_lines ls @ tail) @ [NUL], s_fields = (\<lambda>_. None)\<rparr>"
  have nul: "NUL \<notin> set (join_lines ls @ tail)"
    using assms by (auto simp: join_lines_def list_all_iff text_line_def)
  have len: "length (c_str (s_data ?s0) 0) = length (join_lines ls) + length tail"
    using c_str_at [OF nul, of 0 "[]" "[]"] by simp
  have "texts (parse_sdp_loop 0 (length (join_lines ls) + length tail) ?s0) = foldl record_line (texts ?s0) (map chomp ls)"
    using loop_records [of "[]" ls tail ?s0] assms by (simp add: sdp_state_def)
  moreover have "texts ?s0 = (\<lambda>_. None)" by (simp add: texts_def sdp_get_def fun_eq_iff)
  ultimately have "texts (sdp_init (join_lines ls @ tail)) = foldl record_line (\<lambda>_. None) (map chomp ls)"
    using len by (simp add: sdp_init_def parse_sdp_data_def)
  then have "sdp_get r (sdp_init (join_lines ls @ tail)) = sdp_lookup r (map chomp ls)" for r
    by (simp add: texts_def [symmetric] record_lines_lookup)
  then show ?thesis
    by (simp add: Let_def sdp_get_version_def sdp_get_origin_def sdp_get_session_def sdp_get_connection_def
      sdp_get_time_def sdp_get_media_def sdp_get_rtpmap_def sdp_get_fmtp_def sdp_get_rsaaeskey_def
      sdp_get_fpaeskey_def sdp_get_aesiv_def sdp_get_min_latency_def)
qed

theorem sdp_records_witness:
  "sdp_get_rtpmap (sdp_init (join_lines [''v=0'' @ [CR], ''a=rtpmap:96 Apple'', ''a=rtpmap:97'', ''noise''] @ ''o=x''))
     = Some ''96 Apple'' \<and>
   sdp_get_version (sdp_init (join_lines [''v=0'' @ [CR], ''a=rtpmap:96 Apple'', ''a=rtpmap:97'', ''noise''] @ ''o=x''))
     = Some ''0'' \<and>
   sdp_get_origin (sdp_init (join_lines [''v=0'' @ [CR], ''a=rtpmap:96 Apple'', ''a=rtpmap:97'', ''noise''] @ ''o=x''))
     = None"
proof -
  let ?ls = "[''v=0'' @ [CR], ''a=rtpmap:96 Apple'', ''a=rtpmap:97'', ''noise'']"
  have "sdp_lookup Rtpmap (map chomp ?ls) = Some ''96 Apple''" "sdp_lookup Version (map chomp ?ls) = Some ''0''"
    "sdp_lookup Origin (map chomp ?ls) = None"
    by code_simp+
  then show ?thesis
    using sdp_records [of ?ls "''o=x''"] by (simp add: text_line_def Let_def)
qed

end
