(* ===== verification/Base64.thy ===== *)
theory Base64
  imports Airplay_Prelude
begin

text \<open>
  The base64 codec of \<open>libairplay/crypt/base64.c\<close> used for the keys and signatures of the RAOP protocol:
  the alphabet and its inverse map, the encoder with its residue register, and the decoder with its
  treatment of spaces and padding. Negative results of the decoder are \<open>Inl\<close>. The result of the
  decoding loop lists what was written before it left, so that the bound of the output buffer can be stated.
\<close>

unbundle bit_operations_syntax

section \<open>The codec object\<close>

record base64 =
  b_charlist :: string
  b_charmap :: "byte list"
  b_charmap_inited :: bool
  b_use_padding :: bool
  b_skip_spaces :: bool

definition DEFAULT_CHARLIST :: string where
  "DEFAULT_CHARLIST = ''ABCDEFGHIJKLMNOPQRSTUVWXYZabcdefghijklmnopqrstuvwxyz0123456789+/''"

abbreviation BASE64_PADDING :: byte where "BASE64_PADDING \<equiv> 0x40"
abbreviation BASE64_INVALID :: byte where "BASE64_INVALID \<equiv> 0x80"

definition default_base64 :: base64 where
  "default_base64 = \<lparr>b_charlist = DEFAULT_CHARLIST, b_charmap = replicate 256 0, b_charmap_inited = False,
     b_use_padding = True, b_skip_spaces = False\<rparr>"

fun fill_charmap :: "nat \<Rightarrow> string \<Rightarrow> byte list \<Rightarrow> byte list" where
  \<comment> \<open>\<open>charmap[charlist[i]] = i\<close> for the characters from index \<open>i\<close> on\<close>
  "fill_charmap i [] m = m"
| "fill_charmap i (c # cs) m = fill_charmap (i + 1) cs (m[of_char c := of_nat i])"

definition initialize_charmap :: "base64 \<Rightarrow> base64" where
  "initialize_charmap b =
     b\<lparr>b_charmap := (fill_charmap 0 (b_charlist b) (replicate 256 BASE64_INVALID))[of_char (CHR ''='') := BASE64_PADDING],
       b_charmap_inited := True\<rparr>"

definition base64_init :: "string option \<Rightarrow> bool \<Rightarrow> bool \<Rightarrow> base64 option" where
  "base64_init charlist use_padding skip_spaces =
     (let cl = (case charlist of None \<Rightarrow> DEFAULT_CHARLIST | Some s \<Rightarrow> c_str s 0)
      in if length cl \<noteq> 64 then None
      else if list_ex (\<lambda>c. c = CR \<or> c = LF \<or> c = CHR ''='') cl then None
      else Some \<lparr>b_charlist = cl, b_charmap = replicate 256 0, b_charmap_inited = False,
                 b_use_padding = use_padding, b_skip_spaces = skip_spaces\<rparr>)"

definition or_default :: "base64 option \<Rightarrow> base64" where
  \<comment> \<open>\<open>if (!base64) base64 = &default_base64;\<close>\<close>
  "or_default b = (case b of None \<Rightarrow> default_base64 | Some b \<Rightarrow> b)"

section \<open>Encoding\<close>

definition base64_encoded_length :: "base64 option \<Rightarrow> nat \<Rightarrow> nat" where
  "base64_encoded_length base64 srclen =
     (let b = or_default base64
      in if b_use_padding b then (srclen + 2) div 3 * 4 + 1
      else (case srclen mod 3 of 0 \<Rightarrow> 0 | Suc 0 \<Rightarrow> 2 | _ \<Rightarrow> 1 + 2) + srclen div 3 * 4 + 1)"

fun encode_loop :: "string \<Rightarrow> nat \<Rightarrow> u32 \<Rightarrow> byte list \<Rightarrow> string \<times> u32" where
  "encode_loop cl i residue [] = ([], residue)"
| "encode_loop cl i residue (s # ss) =
     (let residue = residue OR ucast s;
          (out, residue) =
            (if i mod 3 = 0 then ([cl ! unat (drop_bit 2 residue mod 64)], residue AND 3)
             else if i mod 3 = 1 then ([cl ! unat (drop_bit 4 residue)], residue AND 0xf)
             else ([cl ! unat (drop_bit 6 residue), cl ! unat (residue AND 0x3f)], 0));
          (rest, residue) = encode_loop cl (i + 1) (push_bit 8 residue) ss
      in (out @ rest, residue))"

definition base64_encode :: "base64 option \<Rightarrow> byte list \<Rightarrow> string" where
  "base64_encode base64 src =
     (let b = or_default base64; cl = b_charlist b;
          (out, residue) = encode_loop cl 0 0 src
      in out @ (if length src mod 3 = 1
                then [cl ! unat (drop_bit 4 residue)] @ (if b_use_padding b then ''=='' else [])
                else if length src mod 3 = 2
                then [cl ! unat (drop_bit 6 residue)] @ (if b_use_padding b then ''='' else [])
                else []))"

section \<open>Decoding\<close>

fun decode_loop :: "byte list \<Rightarrow> string \<Rightarrow> byte list \<times> int" where
  \<comment> \<open>the bytes written and the error code the loop returns with, 0 when it is left normally\<close>
  "decode_loop m (p # q # r # s # rest) =
     (let a = m ! of_char p; b = m ! of_char q; c = m ! of_char r; d = m ! of_char s
      in if a = BASE64_INVALID \<or> b = BASE64_INVALID \<or> c = BASE64_INVALID \<or> d = BASE64_INVALID then ([], -5)
      else if a = BASE64_PADDING \<or> b = BASE64_PADDING then ([], -6)
      else let x = push_bit 2 a OR drop_bit 4 (b AND 0x30)
      in if c = BASE64_PADDING then ([x], 0)
      else let y = push_bit 4 (b AND 0x0f) OR drop_bit 2 (c AND 0x3c)
      in if d = BASE64_PADDING then ([x, y], 0)
      else let z = push_bit 6 (c AND 0x03) OR d;
               (out, err) = decode_loop m rest
           in (x # y # z # out, err))"
| "decode_loop m _ = ([], 0)"

definition pad_input :: "base64 \<Rightarrow> string \<Rightarrow> string option" where
  \<comment> \<open>removal of spaces and the padding added for codecs that use none; \<open>None\<close> is the error -2\<close>
  "pad_input b inbuf =
     (let inbuf = (if b_skip_spaces b then filter (\<lambda>c. \<not> is_space c) inbuf else inbuf); n = length inbuf mod 4
      in if b_use_padding b then Some inbuf
      else if n = 1 then None
      else Some (inbuf @ (if n = 2 then ''=='' else if n = 3 then ''='' else [])))"

definition output_length :: "string \<Rightarrow> nat" where
  "output_length inbuf =
     (let n = length inbuf; len = n div 4 * 3
      in if 4 \<le> n \<and> inbuf ! (n - 1) = CHR ''=''
         then (if inbuf ! (n - 2) = CHR ''='' then len - 1 - 1 else len - 1) else len)"

definition base64_decode :: "base64 option \<Rightarrow> string \<Rightarrow> (int + byte list) \<times> base64" where
  \<comment> \<open>the result, and the codec with its map initialised; allocation succeeds\<close>
  "base64_decode base64 src =
     (let b = or_default base64; b = (if b_charmap_inited b then b else initialize_charmap b)
      in (case pad_input b (c_str src 0) of
            None \<Rightarrow> Inl (-2)
          | Some inbuf \<Rightarrow>
              if length inbuf mod 4 \<noteq> 0 then Inl (-3)
              else let (out, err) = decode_loop (b_charmap b) inbuf
              in if err \<noteq> 0 then Inl err
              else if length out \<noteq> output_length inbuf then Inl (-7)
              else Inr out, b))"

section \<open>The map is the inverse of the alphabet\<close>

lemma of_char_lt [simp]: "(of_char c :: nat) < 256"
  by (rule nat_of_char_less_256)

lemma length_fill_charmap [simp]: "length (fill_charmap i cs m) = length m"
  by (induction i cs m rule: fill_charmap.induct) simp_all

lemma fill_charmap_other: "c \<notin> set cs \<Longrightarrow> fill_charmap i cs m ! of_char c = m ! of_char c"
  by (induction i cs m rule: fill_charmap.induct) auto

lemma fill_charmap_nth:
  "distinct cs \<Longrightarrow> length m = 256 \<Longrightarrow> j < length cs \<Longrightarrow> fill_charmap i cs m ! of_char (cs ! j) = of_nat (i + j)"
proof (induction i cs m arbitrary: j rule: fill_charmap.induct)
  case (2 i c cs m)
  then show ?case by (cases j) (auto simp: fill_charmap_other)
qed simp

definition codec_ok :: "base64 \<Rightarrow> bool" where
  "codec_ok b \<longleftrightarrow> length (b_charlist b) = 64 \<and> distinct (b_charlist b)
     \<and> list_all (\<lambda>c. c \<noteq> CHR ''='' \<and> c \<noteq> NUL \<and> (b_skip_spaces b \<longrightarrow> \<not> is_space c)) (b_charlist b)
     \<and> (b_charmap_inited b \<longrightarrow> b_charmap b = b_charmap (initialize_charmap b))"

definition ready_map :: "base64 \<Rightarrow> byte list" where
  "ready_map b = b_charmap (if b_charmap_inited b then b else initialize_charmap b)"

lemma ready_map_eq: "codec_ok b \<Longrightarrow> ready_map b = b_charmap (initialize_charmap b)"
  by (auto simp: codec_ok_def ready_map_def)

lemma ready_map_nth:
  assumes "codec_ok b" "i < 64"
  shows "ready_map b ! of_char (b_charlist b ! i) = of_nat i"
proof -
  have "b_charlist b ! i \<noteq> CHR ''=''" using assms by (auto simp: codec_ok_def list_all_length)
  then have "(of_char (b_charlist b ! i) :: nat) \<noteq> 61" using of_char_eq_iff [of "b_charlist b ! i" "CHR ''=''"] by simp
  then show ?thesis
    using assms fill_charmap_nth [of "b_charlist b" "replicate 256 BASE64_INVALID" i 0]
    by (simp add: ready_map_eq initialize_charmap_def codec_ok_def)
qed

lemma ready_map_padding: "codec_ok b \<Longrightarrow> ready_map b ! of_char (CHR ''='') = BASE64_PADDING"
  by (simp add: ready_map_eq initialize_charmap_def)

section \<open>Three bytes and four characters\<close>

definition sextet1 :: "byte \<Rightarrow> byte" where "sextet1 x = drop_bit 2 x"
definition sextet2 :: "byte \<Rightarrow> byte \<Rightarrow> byte" where "sextet2 x y = push_bit 4 (x AND 3) OR drop_bit 4 y"
definition sextet3 :: "byte \<Rightarrow> byte \<Rightarrow> byte" where "sextet3 y z = push_bit 2 (y AND 0xf) OR drop_bit 6 z"
definition sextet4 :: "byte \<Rightarrow> byte" where "sextet4 z = z AND 0x3f"

lemmas sextet_defs = sextet1_def sextet2_def sextet3_def sextet4_def

lemma sextet_small [simp]:
  "unat (sextet1 x) < 64" "unat (sextet2 x y) < 64" "unat (sextet3 y z) < 64" "unat (sextet4 z) < 64"
proof -
  have small: "unat w < 64" if "w AND 0x3f = w" for w :: byte
  proof -
    have "w AND 0x3f = take_bit 6 w" by (rule byte_eqI) (simp_all add: bit_simps)
    then have "take_bit 6 w = w" using that by simp
    then have "take_bit 6 (unat w) = unat w" by (metis unsigned_take_bit_eq)
    then show ?thesis using take_bit_nat_less_exp [of 6 "unat w"] by simp
  qed
  show "unat (sextet1 x) < 64" "unat (sextet2 x y) < 64" "unat (sextet3 y z) < 64" "unat (sextet4 z) < 64"
    by (rule small, rule byte_eqI, simp_all add: sextet_defs bit_simps)+
qed

lemma register_sextets:
  "drop_bit 2 (ucast x :: u32) mod 64 = ucast (sextet1 x)"
  "drop_bit 4 (push_bit 8 (ucast x AND 3) OR ucast y :: u32) = ucast (sextet2 x y)"
  "drop_bit 6 (push_bit 8 ((push_bit 8 r OR ucast y) AND 0xf) OR ucast z :: u32) = ucast (sextet3 y z)"
  "(push_bit 8 r OR ucast z :: u32) AND 0x3f = ucast (sextet4 z)"
  "drop_bit 4 (push_bit 8 (ucast x AND 3 :: u32)) = ucast (sextet2 x 0)"
  "drop_bit 6 (push_bit 8 ((push_bit 8 r OR ucast y :: u32) AND 0xf)) = ucast (sextet3 y 0)"
proof -
  have "w mod 64 = take_bit 6 w" for w :: u32 by (simp add: take_bit_eq_mod)
  then show "drop_bit 2 (ucast x :: u32) mod 64 = ucast (sextet1 x)"
    by simp (rule u32_eqI, simp_all add: sextet_defs bit_simps upt_rec)
qed (rule u32_eqI, simp_all add: sextet_defs bit_simps upt_rec)+

lemma bytes_of_sextets:
  "push_bit 2 (sextet1 x) OR drop_bit 4 (sextet2 x y AND 0x30) = x"
  "push_bit 4 (sextet2 x y AND 0x0f) OR drop_bit 2 (sextet3 y z AND 0x3c) = y"
  "push_bit 6 (sextet3 y z AND 0x03) OR sextet4 z = z"
  by ((rule byte_eqI, simp only: list.pred_inject simp_thms, intro conjI); simp add: sextet_defs bit_simps)+

section \<open>The reference encoding\<close>

fun groups :: "bool \<Rightarrow> string \<Rightarrow> byte list \<Rightarrow> string" where
  \<comment> \<open>three bytes give four characters, a rest of one or two bytes two or three and the padding\<close>
  "groups pad cl [] = []"
| "groups pad cl [x] = [cl ! unat (sextet1 x), cl ! unat (sextet2 x 0)] @ (if pad then ''=='' else [])"
| "groups pad cl [x, y] =
     [cl ! unat (sextet1 x), cl ! unat (sextet2 x y), cl ! unat (sextet3 y 0)] @ (if pad then ''='' else [])"
| "groups pad cl (x # y # z # ss) =
     [cl ! unat (sextet1 x), cl ! unat (sextet2 x y), cl ! unat (sextet3 y z), cl ! unat (sextet4 z)] @ groups pad cl ss"

lemma mod3_succ: "i mod 3 = 0 \<Longrightarrow> Suc i mod 3 = 1 \<and> Suc (Suc i) mod 3 = 2 \<and> Suc (Suc (Suc i)) mod 3 = (0::nat)"
  by presburger

lemma encode_loop_groups:
  assumes "i mod 3 = 0"
  shows "(let (out, r) = encode_loop cl i 0 src in
     out @ (if length src mod 3 = 1 then [cl ! unat (drop_bit 4 r)] @ (if pad then ''=='' else [])
            else if length src mod 3 = 2 then [cl ! unat (drop_bit 6 r)] @ (if pad then ''='' else []) else []))
     = groups pad cl src"
  using assms
proof (induction pad cl src arbitrary: i rule: groups.induct)
  case (2 pad cl x)
  then show ?case by (simp add: register_sextets del: push_bit_and push_bit_or drop_bit_and drop_bit_or)
next
  case (3 pad cl x y)
  then show ?case using mod3_succ [of i] by (simp add: register_sextets Let_def del: push_bit_and push_bit_or drop_bit_and drop_bit_or)
next
  case (4 pad cl x y z ss)
  have "Suc (Suc (Suc (length ss))) mod 3 = length ss mod 3" by presburger
  moreover note mod3 = mod3_succ [OF 4(2)]
  moreover note IH = 4(1) [OF conjunct2 [OF conjunct2 [OF mod3]]]
  ultimately show ?case
    using 4(2) by (auto simp add: register_sextets Let_def case_prod_beta
        simp del: push_bit_and push_bit_or drop_bit_and drop_bit_or split: if_splits)
qed simp

lemma encode_groups:
  "base64_encode base64 src = groups (b_use_padding (or_default base64)) (b_charlist (or_default base64)) src"
  using encode_loop_groups [of 0 "b_charlist (or_default base64)" src "b_use_padding (or_default base64)"]
  by (simp add: base64_encode_def Let_def)

lemma decode_groups:
  assumes "codec_ok b"
  shows "decode_loop (ready_map b) (groups True (b_charlist b) src) = (src, 0)"
proof -
  have small: "w \<noteq> BASE64_INVALID" "w \<noteq> BASE64_PADDING" if "unat w < 64" for w :: byte
    using that by auto
  have map: "ready_map b ! of_char (b_charlist b ! unat w) = w" if "unat w < 64" for w
    using ready_map_nth [OF assms that] by simp
  note m = map [OF sextet_small(1)] map [OF sextet_small(2)] map [OF sextet_small(3)] map [OF sextet_small(4)]
    small [OF sextet_small(1)] small [OF sextet_small(2)] small [OF sextet_small(3)] small [OF sextet_small(4)]
    ready_map_padding [OF assms]
  have pad: "ready_map b ! 61 = BASE64_PADDING" using ready_map_padding [OF assms] by simp
  show ?thesis
    by (induction True "b_charlist b" src rule: groups.induct) (simp_all add: m pad bytes_of_sextets Let_def del: push_bit_and push_bit_or drop_bit_and drop_bit_or)
qed

lemma groups_chars:
  assumes "codec_ok b" "c \<in> set (groups pad (b_charlist b) src)"
  shows "c \<in> set (b_charlist b) \<or> c = CHR ''=''"
proof -
  have "b_charlist b ! unat w \<in> set (b_charlist b)" if "unat w < 64" for w :: byte
    using assms(1) that by (simp add: codec_ok_def)
  then show ?thesis
    using assms(2) sextet_small
    by (induction pad "b_charlist b" src rule: groups.induct) (auto split: if_splits)
qed

lemma groups_length:
  "length (groups pad cl src) = length src div 3 * 4
     + (if length src mod 3 = 0 then 0 else if pad then 4 else length src mod 3 + 1)"
proof (induction pad cl src rule: groups.induct)
  case (4 pad cl x y z ss)
  have "Suc (Suc (Suc (length ss))) div 3 = length ss div 3 + 1" "Suc (Suc (Suc (length ss))) mod 3 = length ss mod 3"
    by presburger+
  with 4 show ?case by simp
qed simp_all

lemma pad_groups:
  assumes "codec_ok b"
  shows "pad_input b (c_str (base64_encode (Some b) src) 0) = Some (groups True (b_charlist b) src)"
proof -
  let ?g = "groups (b_use_padding b) (b_charlist b) src"
  have ok: "c \<noteq> NUL \<and> (b_skip_spaces b \<longrightarrow> \<not> is_space c)" if "c \<in> set ?g" for c
    using groups_chars [OF assms that]
  proof
    assume "c \<in> set (b_charlist b)"
    then show ?thesis using assms by (simp add: codec_ok_def list_all_iff)
  next
    assume "c = CHR ''=''"
    then show ?thesis by (simp add: is_space_def)
  qed
  have str: "c_str ?g 0 = ?g" unfolding c_str_def drop_0 takeWhile_eq_all_conv using ok by blast
  have filt: "(if b_skip_spaces b then filter (\<lambda>c. \<not> is_space c) ?g else ?g) = ?g"
    using ok by (simp add: filter_id_conv)
  have pads: "groups True (b_charlist b) src = groups False (b_charlist b) src
      @ (if length (groups False (b_charlist b) src) mod 4 = 2 then ''==''
         else if length (groups False (b_charlist b) src) mod 4 = 3 then ''='' else [])"
    by (induction False "b_charlist b" src rule: groups.induct) auto
  have one: "length (groups False (b_charlist b) src) mod 4 \<noteq> 1"
  proof -
    have "(q * 4 + r) mod 4 \<noteq> 1" if "r = 0 \<or> r = 2 \<or> r = 3" for q r :: nat using that by auto
    moreover have "(if n mod 3 = 0 then 0 else n mod 3 + 1) \<in> {0, 2, 3}" for n :: nat
    proof -
      have "n mod 3 < 3" by simp
      then have "n mod 3 = 0 \<or> n mod 3 = 1 \<or> n mod 3 = 2" by linarith
      then show ?thesis by auto
    qed
    ultimately show ?thesis unfolding groups_length by simp
  qed
  have "pad_input b ?g = Some (groups True (b_charlist b) src)"
    unfolding pad_input_def Let_def filt using one by (cases "b_use_padding b") (simp_all add: pads)
  then show ?thesis by (simp add: encode_groups or_default_def str)
qed

lemma output_length_step:
  assumes "rest \<noteq> []" "length rest mod 4 = 0"
  shows "output_length (p # q # r # s # rest) = 3 + output_length rest"
proof -
  obtain k where "length rest = 4 * k" using assms(2) by (auto elim: dvdE)
  then obtain j where n: "length rest = 4 * j + 4" using assms(1) by (cases k) auto
  have "(4 * j + 8) div 4 * 3 = 3 + (4 * j + 4) div 4 * 3" "3 \<le> (4 * j + 4) div 4 * 3" by simp_all
  moreover have "(p # q # r # s # rest) ! (4 * j + 7) = rest ! (4 * j + 3)"
    "(p # q # r # s # rest) ! (4 * j + 6) = rest ! (4 * j + 2)"
    using nth_append [of "[p, q, r, s]" rest "4 * j + 7"] nth_append [of "[p, q, r, s]" rest "4 * j + 6"] by (simp_all add: add.commute)
  ultimately show ?thesis
    by (simp add: output_length_def n Let_def)
qed

lemma output_length_four:
  "output_length [p, q, r, s] = (if s = CHR ''='' then (if r = CHR ''='' then 1 else 2) else 3)"
  by (simp add: output_length_def)

lemma groups_blocks: "length (groups True cl src) mod 4 = 0" "groups True cl src = [] \<longleftrightarrow> src = []"
  by (simp add: groups_length) (induction True cl src rule: groups.induct, simp_all)

lemma output_length_groups:
  assumes "codec_ok b"
  shows "output_length (groups True (b_charlist b) src) = length src"
proof -
  have no: "b_charlist b ! unat w \<noteq> CHR ''=''" if "unat w < 64" for w :: byte
    using assms that by (simp add: codec_ok_def list_all_length)
  show ?thesis
  proof (induction True "b_charlist b" src rule: groups.induct)
    case (4 x y z ss)
    then show ?case
      using no [OF sextet_small(4)] groups_blocks [of "b_charlist b" ss]
      by (cases "ss = []") (simp_all add: output_length_four output_length_step)
  qed (use no [OF sextet_small(3)] in \<open>simp_all add: output_length_four\<close>, simp add: output_length_def)
qed

lemma decode_loop_bound:
  assumes "m ! of_char (CHR ''='') = BASE64_PADDING" "length inbuf mod 4 = 0"
  shows "length (fst (decode_loop m inbuf)) \<le> output_length inbuf"
  using assms
proof (induction m inbuf rule: decode_loop.induct)
  case (1 m p q r s rest)
  have "length rest mod 4 = 0" using 1(3) by simp
  with 1 show ?case
    by (cases "rest = []")
      (auto simp: Let_def case_prod_beta output_length_four output_length_step split: if_splits)
qed simp_all

lemma base64_encode_groups: "base64_encode (Some b) src = groups (b_use_padding b) (b_charlist b) src"
  by (simp add: encode_groups or_default_def)

lemma length_base64_encode:
  "base64_encoded_length (Some b) (length src) = length (base64_encode (Some b) src) + 1"
proof -
  obtain q r where n: "length src = 3 * q + r" "r = 0 \<or> r = 1 \<or> r = 2"
  proof
    show "length src = 3 * (length src div 3) + length src mod 3" by simp
    have "length src mod 3 < 3" by simp
    then show "length src mod 3 = 0 \<or> length src mod 3 = 1 \<or> length src mod 3 = 2" by linarith
  qed
  have "Suc (Suc (3 * q)) mod 3 = Suc (Suc 0)" "Suc (Suc (3 * q)) div 3 = q" by presburger+
  with n show ?thesis
    by (cases "b_use_padding b"; elim disjE)
      (simp_all add: base64_encoded_length_def or_default_def Let_def base64_encode_groups groups_length)
qed

section \<open>Properties\<close>

text \<open>
  C32. The codec is lossless: for every byte sequence, with or without padding and space skipping, and for
  every alphabet of 64 different characters, decoding what was encoded gives the bytes back, and the
  encoded text with its terminating NUL has exactly the length \<open>base64_encoded_length\<close> announces. The
  encoder with its residue register computes the textbook encoding by groups of three bytes.
\<close>

theorem base64_lossless:
  assumes "codec_ok b"
  shows "fst (base64_decode (Some b) (base64_encode (Some b) src)) = Inr src \<and>
    base64_encode (Some b) src = groups (b_use_padding b) (b_charlist b) src \<and>
    base64_encoded_length (Some b) (length src) = length (base64_encode (Some b) src) + 1"
proof (intro conjI)
  show enc: "base64_encode (Some b) src = groups (b_use_padding b) (b_charlist b) src"
    by (rule base64_encode_groups)
  have pb: "pad_input (if b_charmap_inited b then b else initialize_charmap b) t = pad_input b t" for t
    by (simp add: pad_input_def initialize_charmap_def)
  show "fst (base64_decode (Some b) (base64_encode (Some b) src)) = Inr src"
    using groups_blocks(1) [of "b_charlist b" src] decode_groups [OF assms, of src] pad_groups [OF assms, of src]
      output_length_groups [OF assms, of src]
    by (simp add: base64_decode_def or_default_def Let_def pb ready_map_def)
  show "base64_encoded_length (Some b) (length src) = length (base64_encode (Some b) src) + 1"
    by (rule length_base64_encode)
qed

lemma base64_init_ok:
  "base64_init None p sk = Some b \<Longrightarrow> codec_ok b"
proof -
  have cl: "length DEFAULT_CHARLIST = 64" "distinct DEFAULT_CHARLIST"
    "list_all (\<lambda>c. c \<noteq> CHR ''='' \<and> c \<noteq> NUL \<and> \<not> is_space c) DEFAULT_CHARLIST"
    by code_simp+
  then have "list_all (\<lambda>c. c \<noteq> CHR ''='' \<and> c \<noteq> NUL \<and> (sk \<longrightarrow> \<not> is_space c)) DEFAULT_CHARLIST"
    by (simp add: list_all_iff)
  then show "base64_init None p sk = Some b \<Longrightarrow> codec_ok b"
    using cl by (auto simp: base64_init_def codec_ok_def Let_def split: if_splits)
qed

theorem base64_lossless_witness:
  "\<exists>b. base64_init None False True = Some b \<and> fst (base64_decode (Some b) (base64_encode (Some b) [77, 97, 110, 255])) = Inr [77, 97, 110, 255]"
proof -
  have "base64_init None False True \<noteq> None" by code_simp
  then obtain b where "base64_init None False True = Some b" by blast
  then show ?thesis using base64_lossless [OF base64_init_ok, of False True b] by blast
qed

text \<open>
  Decoding never writes past the output buffer, whatever the input is: every byte the loop has written
  when it leaves, normally or with an error, lies within the length computed from the padded text, and
  a successful result has exactly that length; texts of length 1 modulo 4 are rejected with -2 or -3.
\<close>

theorem base64_decode_in_bounds:
  assumes "codec_ok b" "pad_input b (c_str src 0) = Some inbuf" "length inbuf mod 4 = 0"
  shows "length (fst (decode_loop (ready_map b) inbuf)) \<le> output_length inbuf \<and>
    (case fst (base64_decode (Some b) src) of
       Inr out \<Rightarrow> length out = output_length inbuf
     | Inl err \<Rightarrow> err \<in> {-5, -6, -7})"
proof -
  have err: "snd (decode_loop m t) \<in> {0, -5, -6}" for m t
    by (induction m t rule: decode_loop.induct) (auto simp: Let_def case_prod_beta)
  have pb: "pad_input (if b_charmap_inited b then b else initialize_charmap b) t = pad_input b t" for t
    by (simp add: pad_input_def initialize_charmap_def)
  show ?thesis
    using assms(2,3) err [of "ready_map b" inbuf]
      decode_loop_bound [OF ready_map_padding [OF assms(1)] assms(3)]
    by (auto simp: base64_decode_def or_default_def Let_def pb ready_map_def case_prod_beta)
qed

theorem base64_decode_in_bounds_witness:
  "\<exists>b. base64_init None True False = Some b \<and> output_length ''AA=A'' = 3 \<and>
     length (fst (decode_loop (ready_map b) ''AA=A'')) \<le> 3"
proof -
  have "base64_init None True False \<noteq> None" by code_simp
  then obtain b where b: "base64_init None True False = Some b" by blast
  have "b_use_padding b" "\<not> b_skip_spaces b" using b by (auto simp: base64_init_def Let_def split: if_splits)
  then have p: "pad_input b (c_str ''AA=A'' 0) = Some ''AA=A''" by (simp add: pad_input_def c_str_def)
  have "output_length ''AA=A'' = 3" by code_simp
  then show ?thesis using base64_decode_in_bounds [OF base64_init_ok [OF b] p] b by simp
qed

end
