(* ===== verification/Block_Hash.thy ===== *)
theory Block_Hash
  imports Airplay_Prelude
begin

text \<open>
  What the digests of \<open>libairplay/crypt\<close> share: the interface of a streaming context, and the folding of a
  compression function over the complete 64-byte blocks of a message, the reference their contexts implement.
\<close>

section \<open>Streaming digests\<close>

text \<open>
  What a digest context promises: feeding a piece extends the message it stands for, and finishing gives the
  digest of that message. Pieces are below \<open>limit\<close> bytes, the range of the length argument.
\<close>

locale stream_hash =
  fixes holds :: "'ctx \<Rightarrow> byte list \<Rightarrow> bool"
    and update :: "byte list \<Rightarrow> 'ctx \<Rightarrow> 'ctx"
    and final :: "'ctx \<Rightarrow> byte list"
    and digest :: "byte list \<Rightarrow> byte list"
    and limit :: nat
  assumes update_holds: "holds ctx msg \<Longrightarrow> length d < limit \<Longrightarrow> holds (update d ctx) (msg @ d)"
    and final_digest: "holds ctx msg \<Longrightarrow> final ctx = digest msg"
begin

lemma fold_holds:
  "holds ctx msg \<Longrightarrow> (\<forall>d\<in>set ds. length d < limit) \<Longrightarrow> holds (fold update ds ctx) (msg @ concat ds)"
proof (induction ds arbitrary: ctx msg)
  case (Cons d ds)
  then show ?case using Cons.IH [of "update d ctx" "msg @ d"] update_holds by simp
qed simp

lemma digest_of_pieces:
  "holds ctx [] \<Longrightarrow> (\<forall>d\<in>set ds. length d < limit) \<Longrightarrow> final (fold update ds ctx) = digest (concat ds)"
  using fold_holds [of ctx "[]" ds] final_digest by simp

end

section \<open>Complete blocks\<close>

function absorb :: "('s \<Rightarrow> byte list \<Rightarrow> 's) \<Rightarrow> 's \<Rightarrow> byte list \<Rightarrow> 's" where
  \<comment> \<open>the compression function over all complete blocks of a message, in order\<close>
  "absorb f st msg = (if length msg < 64 then st else absorb f (f st (take 64 msg)) (drop 64 msg))"
  by pat_completeness auto
termination by (relation "measure (\<lambda>(f, st, msg). length msg)") auto

declare absorb.simps [simp del]

lemma absorb_short: "length msg < 64 \<Longrightarrow> absorb f st msg = st"
  by (simp add: absorb.simps)

lemma absorb_block: "length b = 64 \<Longrightarrow> absorb f st (b @ msg) = absorb f (f st b) msg"
  by (subst absorb.simps) simp

lemma absorb_append:
  assumes "length a mod 64 = 0"
  shows "absorb f st (a @ b) = absorb f (absorb f st a) b"
  using assms
proof (induction f st a rule: absorb.induct)
  case (1 f st a)
  show ?case
  proof (cases "length a < 64")
    case True
    then have "a = []" using 1(2) by simp
    then show ?thesis by (simp add: absorb_short)
  next
    case False
    then have len: "length (take 64 a) = 64" "length (drop 64 a) mod 64 = 0"
      using 1(2) by (simp_all add: le_mod_geq)
    have "absorb f st (a @ b) = absorb f st (take 64 a @ (drop 64 a @ b))"
      by (metis append_assoc append_take_drop_id)
    also have "\<dots> = absorb f (f st (take 64 a)) (drop 64 a @ b)" by (rule absorb_block [OF len(1)])
    also have "\<dots> = absorb f (absorb f (f st (take 64 a)) (drop 64 a)) b"
      by (rule 1(1) [OF False len(2)])
    also have "absorb f (f st (take 64 a)) (drop 64 a) = absorb f st a"
      using False by (subst (2) absorb.simps) simp
    finally show ?thesis .
  qed
qed

lemma absorb_prefix: "absorb f st msg = absorb f st (take (64 * (length msg div 64)) msg)"
proof -
  let ?n = "64 * (length msg div 64)"
  have n: "?n \<le> length msg" by simp
  have "absorb f st (take ?n msg @ drop ?n msg) = absorb f (absorb f st (take ?n msg)) (drop ?n msg)"
    by (rule absorb_append) simp
  moreover have "length (drop ?n msg) < 64" by (simp add: minus_mult_div_eq_mod)
  ultimately show ?thesis by (simp add: absorb_short)
qed

definition pending :: "byte list \<Rightarrow> byte list" where
  \<comment> \<open>the bytes behind the last complete block\<close>
  "pending msg = drop (64 * (length msg div 64)) msg"

lemma pending_Nil [simp]: "pending [] = []"
  by (simp add: pending_def)

lemma length_pending [simp]: "length (pending msg) = length msg mod 64"
  by (simp add: pending_def minus_mult_div_eq_mod)

lemma div_mod_64: "(64 * a + y) div 64 = a + y div 64" "(64 * a + y) mod 64 = y mod (64 :: nat)"
  by simp_all

lemma pending_split:
  "length msg + length d = 64 * (length msg div 64) + (length msg mod 64 + length (d :: byte list))"
  "length (msg :: byte list) = 64 * (length msg div 64) + length msg mod 64"
  by (simp_all only: mult_div_mod_eq add.assoc [symmetric])

lemma pending_short:
  assumes "length msg mod 64 + length d < 64"
  shows "absorb f st (msg @ d) = absorb f st msg" "pending (msg @ d) = pending msg @ d"
    "(length msg + length d) mod 64 = length msg mod 64 + length d"
proof -
  have q: "(length msg + length d) div 64 = length msg div 64"
    "(length msg + length d) mod 64 = length msg mod 64 + length d"
    using div_mod_64 [of "length msg div 64" "length msg mod 64 + length d"] assms
    unfolding pending_split(1) [symmetric] by (simp_all only: div_less mod_less)
  then show "(length msg + length d) mod 64 = length msg mod 64 + length d" by simp
  show "absorb f st (msg @ d) = absorb f st msg"
    unfolding absorb_prefix [of f st "msg @ d"] absorb_prefix [of f st msg] by (simp add: q)
  show "pending (msg @ d) = pending msg @ d" by (simp add: pending_def q)
qed

lemma pending_full:
  assumes "length msg mod 64 + length d = 64"
  shows "absorb f st (msg @ d) = f (absorb f st msg) (pending msg @ d)" "pending (msg @ d) = []"
    "(length msg + length d) mod 64 = 0"
proof -
  have n: "length msg + length d = 64 * (length msg div 64 + 1)"
    using assms pending_split(1) [of msg d] by (simp only: add_mult_distrib2 mult_1_right)
  then show "(length msg + length d) mod 64 = 0" by simp
  show "pending (msg @ d) = []"
    using n by (simp add: pending_def)
  let ?pre = "take (64 * (length msg div 64)) msg"
  have split: "msg @ d = ?pre @ (pending msg @ d)" by (simp add: pending_def)
  have "absorb f st (msg @ d) = absorb f (absorb f st ?pre) ((pending msg @ d) @ [])"
    by (subst split, subst absorb_append) simp_all
  also have "\<dots> = f (absorb f st ?pre) (pending msg @ d)"
    by (subst absorb_block) (use assms in \<open>simp_all add: absorb_short\<close>)
  finally show "absorb f st (msg @ d) = f (absorb f st msg) (pending msg @ d)"
    using absorb_prefix [of f st msg] by simp
qed

lemma unat_of_nat32 [simp]: "unat (of_nat n :: u32) = n mod 4294967296"
  by (simp add: unsigned_of_nat take_bit_eq_mod)

end
