(* ===== verification/Md5.thy ===== *)
theory Md5
  imports Block_Hash
begin

text \<open>
  The MD5 context of \<open>libairplay/crypt/md5.c\<close>: the transformation of one block with its table of sixty-four
  steps, the streaming update with its 64-byte buffer and two-word bit counter, and the final padding.
  The interface \<open>stream_hash\<close> states what a client may rely on: a digest depends only on the concatenation
  of what was fed.
\<close>

unbundle bit_operations_syntax

section \<open>The transformation of a block\<close>

datatype md5_round = FF | GG | HH | II

type_synonym md5_state = "u32 \<times> u32 \<times> u32 \<times> u32"

fun round_fun :: "md5_round \<Rightarrow> u32 \<Rightarrow> u32 \<Rightarrow> u32 \<Rightarrow> u32" where
  "round_fun FF x y z = (x AND y) OR (NOT x AND z)"
| "round_fun GG x y z = (x AND z) OR (y AND NOT z)"
| "round_fun HH x y z = x XOR y XOR z"
| "round_fun II x y z = y XOR (x OR NOT z)"

definition ROTATE_LEFT :: "u32 \<Rightarrow> nat \<Rightarrow> u32" where
  "ROTATE_LEFT x n = push_bit n x OR drop_bit (32 - n) x"

definition md5_table :: "(md5_round \<times> nat \<times> nat \<times> u32) list" where
  \<comment> \<open>macro, word of the block, rotation, constant, in the order of the source\<close>
  "md5_table = [
    (FF, 0, 7, 0xd76aa478), (FF, 1, 12, 0xe8c7b756), (FF, 2, 17, 0x242070db), (FF, 3, 22, 0xc1bdceee),
    (FF, 4, 7, 0xf57c0faf), (FF, 5, 12, 0x4787c62a), (FF, 6, 17, 0xa8304613), (FF, 7, 22, 0xfd469501),
    (FF, 8, 7, 0x698098d8), (FF, 9, 12, 0x8b44f7af), (FF, 10, 17, 0xffff5bb1), (FF, 11, 22, 0x895cd7be),
    (FF, 12, 7, 0x6b901122), (FF, 13, 12, 0xfd987193), (FF, 14, 17, 0xa679438e), (FF, 15, 22, 0x49b40821),
    (GG, 1, 5, 0xf61e2562), (GG, 6, 9, 0xc040b340), (GG, 11, 14, 0x265e5a51), (GG, 0, 20, 0xe9b6c7aa),
    (GG, 5, 5, 0xd62f105d), (GG, 10, 9, 0x2441453), (GG, 15, 14, 0xd8a1e681), (GG, 4, 20, 0xe7d3fbc8),
    (GG, 9, 5, 0x21e1cde6), (GG, 14, 9, 0xc33707d6), (GG, 3, 14, 0xf4d50d87), (GG, 8, 20, 0x455a14ed),
    (GG, 13, 5, 0xa9e3e905), (GG, 2, 9, 0xfcefa3f8), (GG, 7, 14, 0x676f02d9), (GG, 12, 20, 0x8d2a4c8a),
    (HH, 5, 4, 0xfffa3942), (HH, 8, 11, 0x8771f681), (HH, 11, 16, 0x6d9d6122), (HH, 14, 23, 0xfde5380c),
    (HH, 1, 4, 0xa4beea44), (HH, 4, 11, 0x4bdecfa9), (HH, 7, 16, 0xf6bb4b60), (HH, 10, 23, 0xbebfbc70),
    (HH, 13, 4, 0x289b7ec6), (HH, 0, 11, 0xeaa127fa), (HH, 3, 16, 0xd4ef3085), (HH, 6, 23, 0x4881d05),
    (HH, 9, 4, 0xd9d4d039), (HH, 12, 11, 0xe6db99e5), (HH, 15, 16, 0x1fa27cf8), (HH, 2, 23, 0xc4ac5665),
    (II, 0, 6, 0xf4292244), (II, 7, 10, 0x432aff97), (II, 14, 15, 0xab9423a7), (II, 5, 21, 0xfc93a039),
    (II, 12, 6, 0x655b59c3), (II, 3, 10, 0x8f0ccc92), (II, 10, 15, 0xffeff47d), (II, 1, 21, 0x85845dd1),
    (II, 8, 6, 0x6fa87e4f), (II, 15, 10, 0xfe2ce6e0), (II, 6, 15, 0xa3014314), (II, 13, 21, 0x4e0811a1),
    (II, 4, 6, 0xf7537e82), (II, 11, 10, 0xbd3af235), (II, 2, 15, 0x2ad7d2bb), (II, 9, 21, 0xeb86d391)]"

fun md5_step :: "u32 list \<Rightarrow> md5_round \<times> nat \<times> nat \<times> u32 \<Rightarrow> md5_state \<Rightarrow> md5_state" where
  \<comment> \<open>one macro call; the next one names its variables \<open>(d, a, b, c)\<close>\<close>
  "md5_step x (r, k, s, ac) (a, b, c, d) =
     (let a = a + (round_fun r b c d + x ! k + ac); a = ROTATE_LEFT a s; a = a + b in (d, a, b, c))"

fun Decode :: "byte list \<Rightarrow> u32 list" where
  "Decode (p # q # r # s # rest) =
     (ucast p OR push_bit 8 (ucast q) OR push_bit 16 (ucast r) OR push_bit 24 (ucast s)) # Decode rest"
| "Decode _ = []"

definition Encode :: "u32 list \<Rightarrow> byte list" where
  "Encode ws = concat (map (\<lambda>w. [ucast (w AND 0xff), ucast (drop_bit 8 w AND 0xff), ucast (drop_bit 16 w AND 0xff),
     ucast (drop_bit 24 w AND 0xff)]) ws)"

fun MD5Transform :: "md5_state \<Rightarrow> byte list \<Rightarrow> md5_state" where
  "MD5Transform (s0, s1, s2, s3) block =
     (let (a, b, c, d) = fold (md5_step (Decode block)) md5_table (s0, s1, s2, s3)
      in (s0 + a, s1 + b, s2 + c, s3 + d))"

section \<open>The streaming context\<close>

record md5_ctx =
  m_state :: md5_state
  m_count :: "u32 \<times> u32"          \<comment> \<open>number of bits, low word first\<close>
  m_buffer :: "byte list"

abbreviation md5_iv :: md5_state where
  "md5_iv \<equiv> (0x67452301, 0xefcdab89, 0x98badcfe, 0x10325476)"

definition MD5_Init :: "byte list \<Rightarrow> md5_ctx" where
  \<comment> \<open>the buffer keeps whatever the memory held\<close>
  "MD5_Init buffer = \<lparr>m_state = md5_iv, m_count = (0, 0), m_buffer = buffer\<rparr>"

function transform_blocks :: "md5_state \<Rightarrow> byte list \<Rightarrow> nat \<Rightarrow> md5_state \<times> nat" where
  \<comment> \<open>\<open>for (i = partLen; i + 63 < len; i += 64) MD5Transform(ctx->state, &msg[i]);\<close>\<close>
  "transform_blocks st msg i =
     (if i + 63 < length msg then transform_blocks (MD5Transform st (take 64 (drop i msg))) msg (i + 64) else (st, i))"
  by pat_completeness auto
termination by (relation "measure (\<lambda>(st, msg, i). length msg - i)") auto

declare transform_blocks.simps [simp del]

definition buffered :: "md5_ctx \<Rightarrow> nat" where
  \<comment> \<open>\<open>(count[0] >> 3) & 0x3F\<close>\<close>
  "buffered ctx = unat (drop_bit 3 (fst (m_count ctx)) AND 0x3F)"

definition MD5_Update :: "byte list \<Rightarrow> md5_ctx \<Rightarrow> md5_ctx" where
  "MD5_Update msg ctx =
     (let len = of_nat (length msg) :: u32; x = buffered ctx;
          (count0, count1) = m_count ctx;
          count0 = count0 + push_bit 3 len;
          count1 = (if count0 < push_bit 3 len then count1 + 1 else count1) + drop_bit 29 len;
          ctx = ctx\<lparr>m_count := (count0, count1)\<rparr>;
          partLen = 64 - x
      in if partLen \<le> length msg then
           (let buffer = write_at x (take partLen msg) (m_buffer ctx);
                st = MD5Transform (m_state ctx) buffer;
                (st, i) = transform_blocks st msg partLen
            in ctx\<lparr>m_state := st, m_buffer := write_at 0 (drop i msg) buffer\<rparr>)
         else ctx\<lparr>m_buffer := write_at x msg (m_buffer ctx)\<rparr>)"

definition PADDING :: "byte list" where
  "PADDING = 0x80 # replicate 63 0"

definition MD5_Final :: "md5_ctx \<Rightarrow> byte list" where
  "MD5_Final ctx =
     (let bits = Encode [fst (m_count ctx), snd (m_count ctx)]; x = buffered ctx;
          padLen = (if x < 56 then 56 - x else 120 - x);
          ctx = MD5_Update (take padLen PADDING) ctx;
          ctx = MD5_Update bits ctx;
          (a, b, c, d) = m_state ctx
      in Encode [a, b, c, d])"

section \<open>The reference digest\<close>

definition md5_pad :: "byte list \<Rightarrow> byte list" where
  \<comment> \<open>a one bit, zeros up to 56 modulo 64, and the length in bits modulo \<open>2 ^ 64\<close>, low byte first\<close>
  "md5_pad msg = msg @ 0x80 # replicate ((119 - length msg mod 64) mod 64) 0
     @ Encode [of_nat (8 * length msg), of_nat (8 * length msg div 2 ^ 32)]"

definition md5 :: "byte list \<Rightarrow> byte list" where
  "md5 msg = (let (a, b, c, d) = absorb MD5Transform md5_iv (md5_pad msg) in Encode [a, b, c, d])"

section \<open>The counter\<close>

lemma count_bits: "push_bit 3 (of_nat n :: u32) = of_nat (8 * n)"
  by (simp add: push_bit_eq_mult)

lemma count_buffered: "unat (drop_bit 3 (of_nat (8 * n) :: u32) AND 0x3F) = n mod 64"
proof -
  have "unat (drop_bit 3 (of_nat (8 * n) :: u32) AND 0x3F) = unat (take_bit 6 (drop_bit 3 (of_nat (8 * n) :: u32)))"
    by (simp add: take_bit_eq_mask mask_numeral)
  also have "\<dots> = (8 * n mod 4294967296 div 8) mod 64"
    by (simp only: unsigned_take_bit_eq unat_drop_bit_eq unat_of_nat32, simp only: take_bit_eq_mod drop_bit_eq_div) simp
  also have "\<dots> = (8 * (n mod 536870912)) div 8 mod 64"
    using mult_mod_right [of 8 n 536870912] by simp
  also have "\<dots> = n mod 64" by (simp add: mod_mod_cancel)
  finally show ?thesis .
qed

lemma count_low: "(of_nat (8 * n) :: u32) + of_nat (8 * k) = of_nat (8 * (n + k))"
  by (simp add: algebra_simps)

lemma count_high:
  assumes "k < 4294967296"
  shows "(if (of_nat (8 * (n + k)) :: u32) < of_nat (8 * k) then of_nat (8 * n div 2 ^ 32) + 1 else of_nat (8 * n div 2 ^ 32))
      + drop_bit 29 (of_nat k :: u32) = of_nat (8 * (n + k) div 2 ^ 32)"
proof -
  have d: "drop_bit 29 (of_nat k :: u32) = of_nat (8 * k div 2 ^ 32)"
  proof -
    have "unat (drop_bit 29 (of_nat k :: u32)) = k div 536870912"
      using assms by (simp only: unat_drop_bit_eq unat_of_nat32, simp only: drop_bit_eq_div) simp
    moreover have "8 * k div 4294967296 = k div 536870912" by (simp add: div_mult2_eq [symmetric])
    moreover have "k div 536870912 mod 4294967296 = k div 536870912" using assms by (intro mod_less) linarith
    ultimately show ?thesis by (simp add: word_unat_eq_iff)
  qed
  have c: "(of_nat (8 * (n + k)) :: u32) < of_nat (8 * k) \<longleftrightarrow> 8 * (n + k) mod 4294967296 < 8 * k mod 4294967296"
    by (simp only: word_less_nat_alt unat_of_nat32)
  have "(8 * n + 8 * k) div 4294967296 = 8 * n div 4294967296 + 8 * k div 4294967296
      + (if (8 * n + 8 * k) mod 4294967296 < 8 * k mod 4294967296 then 1 else 0)" (is "?l = ?r")
  proof -
    have "(a + b) div m = a div m + b div m + (if (a + b) mod m < b mod m then 1 else 0)" if "0 < m" for a b m :: nat
    proof (cases "a mod m + b mod m < m")
      case True
      then have "(a + b) mod m = a mod m + b mod m" using mod_add_eq [of a m b] by simp
      with True show ?thesis using div_add1_eq [of a b m] by simp
    next
      case False
      have l: "a mod m < m" "b mod m < m" using that by simp_all
      have "(a mod m + b mod m - m) mod m = a mod m + b mod m - m" by (rule mod_less) (use l in linarith)
      then have "(a + b) mod m = a mod m + b mod m - m"
        using mod_add_eq [of a m b] le_mod_geq [of m "a mod m + b mod m"] False by simp
      moreover have "(a mod m + b mod m) div m = 1" by (rule div_nat_eqI) (use False l in \<open>simp_all add: add_strict_mono\<close>)
      moreover have "a mod m + b mod m - m < b mod m" using False l by linarith
      ultimately show ?thesis using div_add1_eq [of a b m] by simp
    qed
    from this [of 4294967296 "8 * n" "8 * k"] show ?thesis by simp
  qed
  then have "(of_nat (8 * (n + k) div 2 ^ 32) :: u32) = of_nat (8 * n div 4294967296) + of_nat (8 * k div 4294967296)
      + (if (8 * n + 8 * k) mod 4294967296 < 8 * k mod 4294967296 then 1 else 0)"
    by (simp add: distrib_left)
  then show ?thesis
    unfolding d c by (simp add: distrib_left)
qed

section \<open>The invariant of the context\<close>

definition md5_holds :: "md5_ctx \<Rightarrow> byte list \<Rightarrow> bool" where
  \<comment> \<open>the context after feeding \<open>msg\<close>\<close>
  "md5_holds ctx msg \<longleftrightarrow>
     m_state ctx = absorb MD5Transform md5_iv msg \<and> length (m_buffer ctx) = 64 \<and>
     take (length msg mod 64) (m_buffer ctx) = drop (64 * (length msg div 64)) msg \<and>
     m_count ctx = (of_nat (8 * length msg), of_nat (8 * length msg div 2 ^ 32))"

lemma transform_blocks_absorb:
  "transform_blocks st msg i = (absorb MD5Transform st (drop i msg), i + 64 * ((length msg - i) div 64))"
proof (induction st msg i rule: transform_blocks.induct)
  case (1 st msg i)
  show ?case
  proof (cases "i + 63 < length msg")
    case True
    have eq: "drop i msg = take 64 (drop i msg) @ drop (i + 64) msg"
      by (metis append_take_drop_id drop_drop add.commute)
    have "absorb MD5Transform st (drop i msg) = absorb MD5Transform (MD5Transform st (take 64 (drop i msg))) (drop (i + 64) msg)"
      by (subst eq, rule absorb_block) (use True in simp)
    moreover have "(length msg - i) div 64 = Suc ((length msg - (i + 64)) div 64)"
      using True by (simp add: le_div_geq)
    ultimately show ?thesis
      using True 1 by (subst transform_blocks.simps) simp
  next
    case False
    then show ?thesis by (subst transform_blocks.simps) (simp add: absorb_short)
  qed
qed

lemma md5_holds_init: "length buffer = 64 \<Longrightarrow> md5_holds (MD5_Init buffer) []"
  by (simp add: md5_holds_def MD5_Init_def absorb_short)

lemma md5_holds_update:
  assumes "md5_holds ctx msg" "length d < 4294967296"
  shows "md5_holds (MD5_Update d ctx) (msg @ d)"
proof -
  let ?n = "length msg" and ?k = "length d"
  define x where "x = ?n mod 64"
  define tl where "tl = drop (64 * (?n div 64)) msg"
  have st: "m_state ctx = absorb MD5Transform md5_iv msg" and buf: "length (m_buffer ctx) = 64" "take x (m_buffer ctx) = tl"
    and cnt: "m_count ctx = (of_nat (8 * ?n), of_nat (8 * ?n div 2 ^ 32))"
    using assms(1) by (simp_all add: md5_holds_def x_def tl_def)
  have x: "buffered ctx = x" using count_buffered [of ?n] by (simp only: buffered_def cnt fst_conv x_def)
  have ltl: "length tl = x" by (simp add: tl_def x_def minus_mult_div_eq_mod)
  have xlt: "x < 64" by (simp add: x_def)
  have msg: "msg = take (64 * (?n div 64)) msg @ tl" by (simp add: tl_def)
  have count: "m_count (MD5_Update d ctx) = (of_nat (8 * (?n + ?k)), of_nat (8 * (?n + ?k) div 2 ^ 32))"
    using count_high [OF assms(2), of ?n]
    by (simp only: MD5_Update_def Let_def cnt case_prod_conv count_bits count_low x) (simp split: prod.splits)
  have pre: "absorb MD5Transform md5_iv msg = absorb MD5Transform md5_iv (take (64 * (?n div 64)) msg)" by (rule absorb_prefix)
  have "m_state (MD5_Update d ctx) = absorb MD5Transform md5_iv (msg @ d) \<and> length (m_buffer (MD5_Update d ctx)) = 64 \<and>
     take ((?n + ?k) mod 64) (m_buffer (MD5_Update d ctx)) = drop (64 * ((?n + ?k) div 64)) (msg @ d)"
  proof (cases "64 - x \<le> ?k")
    case False
    then have "x + ?k < 64" by simp
    moreover have "?n + ?k = 64 * (?n div 64) + (x + ?k)" by (simp add: x_def)
    ultimately have q: "(?n + ?k) div 64 = ?n div 64" "(?n + ?k) mod 64 = x + ?k"
      using div_mod_64 [of "?n div 64" "x + ?k"] by (simp_all only: div_less mod_less)
    have "absorb MD5Transform md5_iv (msg @ d) = absorb MD5Transform md5_iv msg"
      unfolding absorb_prefix [of MD5Transform md5_iv "msg @ d"] absorb_prefix [of MD5Transform md5_iv msg] by (simp add: q)
    moreover have "drop (64 * (?n div 64)) (msg @ d) = tl @ d" by (simp add: tl_def)
    ultimately show ?thesis
      using False buf xlt st
      by (simp add: MD5_Update_def Let_def x q case_prod_beta take_write_at_end)
  next
    case True
    let ?b = "write_at x (take (64 - x) d) (m_buffer ctx)"
    have b: "?b = tl @ take (64 - x) d" using True buf xlt by (simp add: write_at_def)
    have lb: "length ?b = 64" using True xlt by (simp add: b ltl)
    have split: "msg @ d = (take (64 * (?n div 64)) msg @ ?b) @ drop (64 - x) d"
      by (simp add: b) (metis append_assoc append_take_drop_id msg)
    have abs: "absorb MD5Transform md5_iv (msg @ d) = absorb MD5Transform (MD5Transform (absorb MD5Transform md5_iv msg) ?b) (drop (64 - x) d)"
      unfolding split pre
      by (subst absorb_append) (use lb in \<open>simp_all add: absorb_append absorb_block [where msg = "[]", simplified] absorb_short\<close>)
    have nk: "?n + ?k = 64 * (?n div 64) + 64 + (?k - (64 - x))" using True xlt by (simp add: x_def)
    then have q: "(?n + ?k) div 64 = ?n div 64 + 1 + (?k - (64 - x)) div 64" "(?n + ?k) mod 64 = (?k - (64 - x)) mod 64"
      using div_mod_64 [of "?n div 64 + 1" "?k - (64 - x)"] by (simp_all only: add_mult_distrib2 mult_1_right)
    define i where "i = (64 - x) + 64 * ((?k - (64 - x)) div 64)"
    have r: "length (drop i d) = (?k - (64 - x)) mod 64" by (simp add: i_def minus_mult_div_eq_mod [symmetric])
    have upd: "m_state (MD5_Update d ctx) = absorb MD5Transform md5_iv (msg @ d)"
      "m_buffer (MD5_Update d ctx) = write_at 0 (drop i d) ?b"
      using True by (simp_all add: MD5_Update_def Let_def x case_prod_beta transform_blocks_absorb i_def abs st)
    have "drop (64 * ((?n + ?k) div 64)) (msg @ d) = drop i d"
      unfolding split q using lb by (simp add: i_def algebra_simps)
    moreover have "length (write_at 0 (drop i d) ?b) = 64" using lb r by simp
    moreover have "take ((?n + ?k) mod 64) (write_at 0 (drop i d) ?b) = drop i d"
      using r unfolding q write_at_def [of 0] by simp
    ultimately show ?thesis by (simp add: upd)
  qed
  with count show ?thesis by (simp add: md5_holds_def)
qed

section \<open>The final padding\<close>

lemma Encode_Cons: "Encode (w # ws) = Encode [w] @ Encode ws"
  by (simp add: Encode_def)

lemma length_Encode [simp]: "length (Encode ws) = 4 * length ws"
  by (induction ws) (simp_all add: Encode_def)

lemma padding_bytes:
  assumes "0 < k" "k \<le> 64"
  shows "take k PADDING = 0x80 # replicate (k - 1) 0"
  using assms by (cases k) (simp_all add: PADDING_def)

lemma md5_final_digest:
  assumes "md5_holds ctx msg"
  shows "MD5_Final ctx = md5 msg"
proof -
  define x where "x = length msg mod 64"
  define pad where "pad = (if x < 56 then 56 - x else 120 - x)"
  have x: "buffered ctx = x"
    using assms count_buffered [of "length msg"] by (simp only: buffered_def md5_holds_def fst_conv x_def)
  have xlt: "x < 64" by (simp add: x_def)
  have "(119 - x) mod 64 = pad - 1"
  proof (cases "x < 56")
    case True
    then have "119 - x = 64 + (55 - x)" by linarith
    then have "(119 - x) mod 64 = (55 - x) mod 64" by (simp only: mod_add_self1)
    with True show ?thesis by (simp add: pad_def)
  next
    case False
    with xlt show ?thesis by (simp add: pad_def)
  qed
  moreover have "0 < pad" "pad \<le> 64" using xlt by (auto simp: pad_def)
  ultimately have p: "take pad PADDING = 0x80 # replicate ((119 - x) mod 64) 0" by (simp add: padding_bytes)
  have bits: "Encode [fst (m_count ctx), snd (m_count ctx)] = Encode [of_nat (8 * length msg), of_nat (8 * length msg div 2 ^ 32)]"
    using assms by (simp add: md5_holds_def)
  have "length (take pad PADDING) < 4294967296" by (simp add: PADDING_def)
  from md5_holds_update [OF md5_holds_update [OF assms this], of "Encode [fst (m_count ctx), snd (m_count ctx)]"]
  have "md5_holds (MD5_Update (Encode [fst (m_count ctx), snd (m_count ctx)]) (MD5_Update (take pad PADDING) ctx)) (md5_pad msg)"
    unfolding bits p md5_pad_def x_def by simp
  then show ?thesis
    by (simp add: MD5_Final_def Let_def x pad_def [symmetric] md5_holds_def md5_def)
qed

interpretation md5_hash: stream_hash md5_holds MD5_Update MD5_Final md5 2147483584
  by unfold_locales (simp_all add: md5_holds_update md5_final_digest)

section \<open>Properties\<close>

text \<open>
  C29. However a message is cut into pieces for \<open>MD5_Update\<close>, and whatever the buffer of the context held
  before \<open>MD5_Init\<close>, \<open>MD5_Final\<close> returns the sixteen bytes of the MD5 digest of the whole message: the
  block transformation folded over the padded message, with the bit length kept modulo \<open>2 ^ 64\<close> in two words.
\<close>

theorem md5_of_pieces:
  assumes "length buffer = 64" "\<forall>d\<in>set pieces. length d < 2147483584"
  shows "MD5_Final (fold MD5_Update pieces (MD5_Init buffer)) = md5 (concat pieces) \<and>
    length (MD5_Final (fold MD5_Update pieces (MD5_Init buffer))) = 16"
proof
  show eq: "MD5_Final (fold MD5_Update pieces (MD5_Init buffer)) = md5 (concat pieces)"
    by (rule md5_hash.digest_of_pieces [OF md5_holds_init [OF assms(1)] assms(2)])
  show "length (MD5_Final (fold MD5_Update pieces (MD5_Init buffer))) = 16"
    unfolding eq by (simp add: md5_def Let_def split: prod.splits)
qed

definition abc_block :: "u32 list" where
  "abc_block = [2153996897, 0, 0, 0, 0, 0, 0, 0, 0, 0, 0, 0, 0, 0, 24, 0]"

lemma abc_rounds:
  "fold (md5_step abc_block) (take 16 md5_table) md5_iv = (3718887846, 1924133600, 3818292587, 2701465749)"
  "fold (md5_step abc_block) (take 16 (drop 16 md5_table)) (3718887846, 1924133600, 3818292587, 2701465749)
     = (2030729211, 1919107795, 2787673258, 2672289016)"
  "fold (md5_step abc_block) (take 16 (drop 32 md5_table)) (2030729211, 1919107795, 2787673258, 2672289016)
     = (2133741691, 2079037184, 2410570649, 2581161885)"
  "fold (md5_step abc_block) (drop 48 md5_table) (2133741691, 2079037184, 2410570649, 2581161885)
     = (822795919, 3229755059, 3833903576, 1649249458)"
  by (simp_all add: md5_table_def abc_block_def ROTATE_LEFT_def)

lemma md5_table_rounds:
  "md5_table = take 16 md5_table @ take 16 (drop 16 md5_table) @ take 16 (drop 32 md5_table) @ drop 48 md5_table"
  by (simp add: md5_table_def)

lemma md5_abc: "md5 [97, 98, 99] = [144, 1, 80, 152, 60, 210, 79, 176, 214, 150, 63, 125, 40, 225, 127, 114]"
proof -
  have pad: "md5_pad [97, 98, 99] = [97, 98, 99, 128] @ replicate 52 0 @ [24, 0, 0, 0, 0, 0, 0, 0]"
  proof -
    have "(119 - length [97, 98, 99 :: byte] mod 64) mod 64 = 52" by simp
    then show ?thesis unfolding md5_pad_def by (simp add: Encode_def)
  qed
  have block: "Decode (md5_pad [97, 98, 99]) = abc_block"
    unfolding pad abc_block_def by code_simp
  have "fold (md5_step abc_block) md5_table md5_iv = (822795919, 3229755059, 3833903576, 1649249458)"
    by (subst md5_table_rounds) (simp add: abc_rounds)
  then have "MD5Transform md5_iv (md5_pad [97, 98, 99]) = (2555380112, 2958021180, 2101319382, 1920983336)"
    by (simp add: block)
  moreover have "absorb MD5Transform md5_iv (md5_pad [97, 98, 99]) = MD5Transform md5_iv (md5_pad [97, 98, 99])"
  proof -
    have "length (md5_pad [97, 98, 99]) = 64" by (simp add: pad)
    then show ?thesis using absorb_block [of "md5_pad [97, 98, 99]" MD5Transform md5_iv "[]"] by (simp add: absorb_short)
  qed
  ultimately show ?thesis by (simp add: md5_def Encode_def)
qed

theorem md5_of_pieces_witness:
  "MD5_Final (fold MD5_Update [[97], [], [98, 99]] (MD5_Init (replicate 64 7))) =
     [144, 1, 80, 152, 60, 210, 79, 176, 214, 150, 63, 125, 40, 225, 127, 114]"
  using md5_of_pieces [of "replicate 64 7" "[[97], [], [98, 99]]"] md5_abc by simp

end
