(* ===== verification/Digest.thy ===== *)
theory Digest
  imports Utils_C Md5
begin

text \<open>
  HTTP digest authentication, \<open>libairplay/airplay/digest.c\<close>: the response a client must give, the nonce, and
  the check of an \<open>Authorization\<close> header. The MD5 context lives in uninitialised memory; \<open>mem k\<close> is what its
  buffer holds at the \<open>k\<close>th \<open>MD5_Init\<close>. Strings are C strings without their NUL. The specification is
  RFC 2069: the hash of the two inner hashes and the nonce.
\<close>

section \<open>The code\<close>

definition bytes_of :: "string \<Rightarrow> byte list" where
  "bytes_of s = map of_char s"

definition digest_md5_to_hex :: "byte list \<Rightarrow> string" where
  "digest_md5_to_hex md5buf =
     map (\<lambda>i. hex_char CHR ''a''
                (unat (if i mod 2 \<noteq> 0 then md5buf ! (i div 2) AND 0x0f
                       else drop_bit 4 (md5buf ! (i div 2) AND 0xf0))))
       [0..<32]"

definition digest_get_response ::
    "(nat \<Rightarrow> byte list) \<Rightarrow> string \<Rightarrow> string \<Rightarrow> string \<Rightarrow> string \<Rightarrow> string \<Rightarrow> string \<Rightarrow> string" where
  "digest_get_response mem username realm password nonce method uri =
     (let ctx = MD5_Init (mem 0);
          ctx = MD5_Update (bytes_of username) ctx;
          ctx = MD5_Update (bytes_of '':'') ctx;
          ctx = MD5_Update (bytes_of realm) ctx;
          ctx = MD5_Update (bytes_of '':'') ctx;
          ctx = MD5_Update (bytes_of password) ctx;
          md5buf = MD5_Final ctx;
          md5hex = digest_md5_to_hex md5buf;
          ctx = MD5_Init (mem 1);
          ctx = MD5_Update (bytes_of method) ctx;
          ctx = MD5_Update (bytes_of '':'') ctx;
          ctx = MD5_Update (bytes_of uri) ctx;
          md5buf = MD5_Final ctx;
          ctx = MD5_Init (mem 2);
          ctx = MD5_Update (bytes_of md5hex) ctx;
          ctx = MD5_Update (bytes_of '':'') ctx;
          ctx = MD5_Update (bytes_of nonce) ctx;
          ctx = MD5_Update (bytes_of '':'') ctx;
          md5hex = digest_md5_to_hex md5buf;
          ctx = MD5_Update (bytes_of md5hex) ctx;
          md5buf = MD5_Final ctx
      in digest_md5_to_hex md5buf)"

definition digest_generate_nonce :: "byte list \<Rightarrow> u32 \<Rightarrow> nat \<Rightarrow> string option" where
  \<comment> \<open>\<open>None\<close>: \<open>strncpy\<close> would read behind the 32 characters, which have no terminating NUL\<close>
  "digest_generate_nonce mem time resultlen =
     (let md5hex = digest_md5_to_hex (MD5_Final (MD5_Update (Encode [time]) (MD5_Init mem)))
      in if 32 < resultlen - 1 then None
      else Some (take (resultlen - 1) md5hex @ replicate (resultlen - (resultlen - 1)) NUL))"

record auth_values =
  a_username :: "string option"
  a_realm :: "string option"
  a_nonce :: "string option"
  a_uri :: "string option"
  a_response :: "string option"

fun trim_front :: "string \<Rightarrow> string" where
  \<comment> \<open>\<open>while (*first == ' ' && first < last) first++;\<close>\<close>
  "trim_front (c # d # rest) = (if c = CHR '' '' then trim_front (d # rest) else c # d # rest)"
| "trim_front s = s"

definition trim :: "string \<Rightarrow> string" where
  "trim value = rev (trim_front (rev (trim_front value)))"

definition store_value :: "string \<Rightarrow> auth_values \<Rightarrow> auth_values" where
  \<comment> \<open>one pass of the loop; an empty piece sees the byte in front of it, which is never a quote\<close>
  "store_value value a =
     (let v = trim value
      in if value = [] \<or> last v \<noteq> CHR 0x22 then a
      else let first = butlast v
      in if starts_with first (''username='' @ [CHR 0x22]) then a\<lparr>a_username := Some (drop 10 first)\<rparr>
      else if starts_with first (''realm='' @ [CHR 0x22]) then a\<lparr>a_realm := Some (drop 7 first)\<rparr>
      else if starts_with first (''nonce='' @ [CHR 0x22]) then a\<lparr>a_nonce := Some (drop 7 first)\<rparr>
      else if starts_with first (''uri='' @ [CHR 0x22]) then a\<lparr>a_uri := Some (drop 5 first)\<rparr>
      else if starts_with first (''response='' @ [CHR 0x22]) then a\<lparr>a_response := Some (drop 10 first)\<rparr>
      else a)"

definition digest_parse :: "string \<Rightarrow> auth_values" where
  "digest_parse auth = fold store_value (strsep_all CHR '','' (Some (drop 6 auth))) \<lparr>a_username = None, a_realm = None,
     a_nonce = None, a_uri = None, a_response = None\<rparr>"

definition digest_is_valid ::
    "(nat \<Rightarrow> byte list) \<Rightarrow> string \<Rightarrow> string \<Rightarrow> string \<Rightarrow> string \<Rightarrow> string \<Rightarrow> string option \<Rightarrow> bool" where
  "digest_is_valid mem our_realm password our_nonce method our_uri authorization =
     (case authorization of
        None \<Rightarrow> False
      | Some auth \<Rightarrow>
          if \<not> starts_with auth ''Digest'' then False
          else let a = digest_parse auth
          in case (a_username a, a_realm a, a_nonce a, a_uri a, a_response a) of
               (Some username, Some realm, Some nonce, Some uri, Some response) \<Rightarrow>
                 if realm \<noteq> our_realm \<or> nonce \<noteq> our_nonce \<or> uri \<noteq> our_uri then False
                 else response = digest_get_response mem username realm password nonce method uri
             | _ \<Rightarrow> False)"

section \<open>The specification\<close>

definition md5_hex :: "string \<Rightarrow> string" where
  "md5_hex s = bin2hex (md5 (bytes_of s))"

definition rfc2069_response :: "string \<Rightarrow> string \<Rightarrow> string \<Rightarrow> string \<Rightarrow> string \<Rightarrow> string \<Rightarrow> string" where
  "rfc2069_response username realm password nonce method uri =
     md5_hex (md5_hex (username @ '':'' @ realm @ '':'' @ password) @ '':'' @ nonce @ '':'' @ md5_hex (method @ '':'' @ uri))"

definition auth_param :: "string \<times> string \<Rightarrow> string" where
  "auth_param p = fst p @ CHR ''='' # CHR 0x22 # snd p @ [CHR 0x22]"

fun join_params :: "(string \<times> string) list \<Rightarrow> string" where
  "join_params [] = []"
| "join_params [p] = auth_param p"
| "join_params (p # ps) = auth_param p @ '', '' @ join_params ps"

definition auth_header :: "(string \<times> string) list \<Rightarrow> string" where
  "auth_header ps = ''Digest '' @ join_params ps"

definition last_value :: "string \<Rightarrow> (string \<times> string) list \<Rightarrow> string option" where
  "last_value k ps = map_of (rev ps) k"

lemma length_md5 [simp]: "length (md5 msg) = 16"
  by (simp add: md5_def Let_def split: prod.splits)

lemma digest_hex_is_bin2hex: "length buf = 16 \<Longrightarrow> digest_md5_to_hex buf = bin2hex buf"
  by (simp add: digest_md5_to_hex_def bin2hex_def)

lemma bytes_of_append [simp]: "bytes_of (s @ t) = bytes_of s @ bytes_of t"
  by (simp add: bytes_of_def)

lemma length_bytes_of [simp]: "length (bytes_of s) = length s"
  by (simp add: bytes_of_def)

lemma md5_update_chain:
  assumes "length buf = 64" "\<forall>d\<in>set ds. length d < 2147483584"
  shows "digest_md5_to_hex (MD5_Final (fold MD5_Update (map bytes_of ds) (MD5_Init buf))) = md5_hex (concat ds)"
proof -
  have "concat (map bytes_of ds) = bytes_of (concat ds)" by (induction ds) (simp_all add: bytes_of_def)
  then have "MD5_Final (fold MD5_Update (map bytes_of ds) (MD5_Init buf)) = md5 (bytes_of (concat ds))"
    using md5_hash.digest_of_pieces [OF md5_holds_init [OF assms(1)], of "map bytes_of ds"] assms(2) by simp
  then show ?thesis by (simp add: md5_hex_def digest_hex_is_bin2hex)
qed

lemma length_md5_hex [simp]: "length (md5_hex s) = 32"
  by (simp add: md5_hex_def bin2hex_def)

lemma get_response_rfc2069:
  assumes "\<forall>k. length (mem k) = 64" "\<forall>s\<in>{username, realm, password, nonce, method, uri}. length s < 2147483584"
  shows "digest_get_response mem username realm password nonce method uri =
    rfc2069_response username realm password nonce method uri"
proof -
  have h1: "digest_md5_to_hex (MD5_Final (fold MD5_Update (map bytes_of [username, '':'', realm, '':'', password]) (MD5_Init (mem 0))))
      = md5_hex (concat [username, '':'', realm, '':'', password])"
    by (rule md5_update_chain) (use assms in auto)
  have h2: "digest_md5_to_hex (MD5_Final (fold MD5_Update (map bytes_of [method, '':'', uri]) (MD5_Init (mem 1))))
      = md5_hex (concat [method, '':'', uri])"
    by (rule md5_update_chain) (use assms in auto)
  have h3: "digest_md5_to_hex (MD5_Final (fold MD5_Update (map bytes_of [md5_hex x, '':'', nonce, '':'', md5_hex y]) (MD5_Init (mem 2))))
      = md5_hex (concat [md5_hex x, '':'', nonce, '':'', md5_hex y])" for x y
    by (rule md5_update_chain) (use assms in auto)
  show ?thesis
    using h1 h2 h3 by (simp add: digest_get_response_def rfc2069_response_def Let_def)
qed

section \<open>Reading the header\<close>

definition set_param :: "string \<times> string \<Rightarrow> auth_values \<Rightarrow> auth_values" where
  "set_param p a =
     (if fst p = ''username'' then a\<lparr>a_username := Some (snd p)\<rparr>
      else if fst p = ''realm'' then a\<lparr>a_realm := Some (snd p)\<rparr>
      else if fst p = ''nonce'' then a\<lparr>a_nonce := Some (snd p)\<rparr>
      else if fst p = ''uri'' then a\<lparr>a_uri := Some (snd p)\<rparr>
      else if fst p = ''response'' then a\<lparr>a_response := Some (snd p)\<rparr>
      else a)"

definition param_ok :: "string \<times> string \<Rightarrow> bool" where
  "param_ok p \<longleftrightarrow> fst p \<noteq> [] \<and> hd (fst p) \<noteq> CHR '' '' \<and> CHR ''='' \<notin> set (fst p) \<and> CHR '','' \<notin> set (fst p)
     \<and> CHR '','' \<notin> set (snd p)"

lemma starts_with_key:
  assumes "CHR ''='' \<notin> set k" "CHR ''='' \<notin> set n"
  shows "starts_with (k @ CHR ''='' # CHR 0x22 # v) (n @ [CHR ''='', CHR 0x22]) \<longleftrightarrow> k = n"
proof
  assume "starts_with (k @ CHR ''='' # CHR 0x22 # v) (n @ [CHR ''='', CHR 0x22])"
  then obtain t where "k @ CHR ''='' # CHR 0x22 # v = n @ CHR ''='' # CHR 0x22 # t"
    unfolding starts_with_def by (metis append_take_drop_id append_assoc append_Cons append_Nil)
  with assms show "k = n" by (simp add: append_eq_append_conv2) (auto simp: append_eq_Cons_conv Cons_eq_append_conv)
qed (simp add: starts_with_def)

lemma trim_param:
  assumes "param_ok p" "pre = [] \<or> pre = '' ''"
  shows "trim (pre @ auth_param p) = auth_param p"
proof -
  have front: "trim_front s = s" if "s \<noteq> []" "hd s \<noteq> CHR '' ''" for s
    using that by (cases s rule: trim_front.cases) auto
  obtain c r where "fst p = c # r" "c \<noteq> CHR '' ''" using assms(1) by (cases "fst p") (auto simp: param_ok_def)
  then have "trim_front (pre @ auth_param p) = auth_param p"
    using assms(2) front [of "auth_param p"] by (auto simp: auth_param_def)
  moreover have "trim_front (rev (auth_param p)) = rev (auth_param p)"
    by (rule front) (simp_all add: auth_param_def)
  ultimately show ?thesis by (simp add: trim_def)
qed

lemma store_param:
  assumes "param_ok p" "pre = [] \<or> pre = '' ''"
  shows "store_value (pre @ auth_param p) a = set_param p a"
proof -
  have eq: "CHR ''='' \<notin> set (fst p)" using assms(1) by (simp add: param_ok_def)
  define F where "F = fst p @ CHR ''='' # CHR 0x22 # snd p"
  have b: "butlast (auth_param p) = F" "last (auth_param p) = CHR 0x22" "pre @ auth_param p \<noteq> []"
    by (simp_all add: auth_param_def butlast_append F_def)
  have k: "starts_with F (''username='' @ [CHR 0x22]) \<longleftrightarrow> fst p = ''username''"
    "starts_with F (''realm='' @ [CHR 0x22]) \<longleftrightarrow> fst p = ''realm''"
    "starts_with F (''nonce='' @ [CHR 0x22]) \<longleftrightarrow> fst p = ''nonce''"
    "starts_with F (''uri='' @ [CHR 0x22]) \<longleftrightarrow> fst p = ''uri''"
    "starts_with F (''response='' @ [CHR 0x22]) \<longleftrightarrow> fst p = ''response''"
    using starts_with_key [OF eq, of "''username''" "snd p"] starts_with_key [OF eq, of "''realm''" "snd p"]
      starts_with_key [OF eq, of "''nonce''" "snd p"] starts_with_key [OF eq, of "''uri''" "snd p"]
      starts_with_key [OF eq, of "''response''" "snd p"] by (simp_all add: F_def)
  have d: "fst p = ''username'' \<Longrightarrow> drop 10 F = snd p" "fst p = ''realm'' \<Longrightarrow> drop 7 F = snd p"
    "fst p = ''nonce'' \<Longrightarrow> drop 7 F = snd p" "fst p = ''uri'' \<Longrightarrow> drop 5 F = snd p"
    "fst p = ''response'' \<Longrightarrow> drop 10 F = snd p" by (simp_all add: F_def)
  show ?thesis
    unfolding store_value_def Let_def trim_param [OF assms] b(1,2) k set_param_def using b(3) d by (simp only: simp_thms if_False) simp
qed

lemma pieces_of_params:
  assumes "list_all param_ok ps" "ps \<noteq> []" "pre = [] \<or> pre = '' ''"
  shows "fold store_value (strsep_all CHR '','' (Some (pre @ join_params ps))) a = fold set_param ps a"
  using assms
proof (induction ps arbitrary: a pre rule: join_params.induct)
  case (2 p)
  have "CHR '','' \<notin> set (pre @ auth_param p)" using 2 by (auto simp: auth_param_def param_ok_def)
  then show ?case using 2 store_param [of p pre a] by simp
next
  case (3 p q ps)
  have no: "CHR '','' \<notin> set (pre @ auth_param p)" using 3 by (auto simp: auth_param_def param_ok_def)
  have "strsep_all CHR '','' (Some (pre @ join_params (p # q # ps))) =
      (pre @ auth_param p) # strsep_all CHR '','' (Some ('' '' @ join_params (q # ps)))"
    using strsep_all_simps(3) [OF no, of "'' '' @ join_params (q # ps)"] by simp
  moreover have "fold store_value (strsep_all CHR '','' (Some ('' '' @ join_params (q # ps)))) (set_param p a) =
      fold set_param (q # ps) (set_param p a)"
    by (rule 3(1)) (use 3 in auto)
  moreover have "store_value (pre @ auth_param p) a = set_param p a" using 3 store_param [of p pre a] by simp
  ultimately show ?case by (simp only: fold_simps)
qed simp

lemma fold_set_param:
  "a_username (fold set_param ps a) = (case last_value ''username'' ps of None \<Rightarrow> a_username a | Some v \<Rightarrow> Some v)"
  "a_realm (fold set_param ps a) = (case last_value ''realm'' ps of None \<Rightarrow> a_realm a | Some v \<Rightarrow> Some v)"
  "a_nonce (fold set_param ps a) = (case last_value ''nonce'' ps of None \<Rightarrow> a_nonce a | Some v \<Rightarrow> Some v)"
  "a_uri (fold set_param ps a) = (case last_value ''uri'' ps of None \<Rightarrow> a_uri a | Some v \<Rightarrow> Some v)"
  "a_response (fold set_param ps a) = (case last_value ''response'' ps of None \<Rightarrow> a_response a | Some v \<Rightarrow> Some v)"
  by (induction ps rule: rev_induct) (auto simp: last_value_def set_param_def)

lemma hex_char_neq_comma: "n < 16 \<Longrightarrow> hex_char CHR ''a'' n \<noteq> CHR '',''"
proof -
  have "list_all (\<lambda>n. hex_char CHR ''a'' n \<noteq> CHR '','') [0..<16]" by code_simp
  then show "n < 16 \<Longrightarrow> hex_char CHR ''a'' n \<noteq> CHR '',''" by (simp add: list_all_iff)
qed

section \<open>Properties\<close>

text \<open>
  C31. A header of parameters in any order, with or without further parameters, is accepted exactly when its
  last realm, nonce and uri are the server's own and its last response is the RFC 2069 response for its
  last user name and the server's password; a missing parameter, a wrong value or a wrong response is
  rejected, and the response compared with is the one the streaming hash computes.
\<close>

theorem digest_accepts_rfc2069:
  assumes "\<forall>k. length (mem k) = 64" "ps \<noteq> []" "list_all param_ok ps"
    and "\<forall>s\<in>{our_realm, password, our_nonce, method, our_uri} \<union> snd ` set ps. length s < 2147483584"
  shows "digest_is_valid mem our_realm password our_nonce method our_uri (Some (auth_header ps)) \<longleftrightarrow>
    (\<exists>user. last_value ''username'' ps = Some user \<and> last_value ''realm'' ps = Some our_realm \<and>
       last_value ''nonce'' ps = Some our_nonce \<and> last_value ''uri'' ps = Some our_uri \<and>
       last_value ''response'' ps = Some (rfc2069_response user our_realm password our_nonce method our_uri))"
proof -
  have vals: "fold store_value (strsep_all CHR '','' (Some (drop 6 (auth_header ps)))) a = fold set_param ps a" for a
    using pieces_of_params [OF assms(3,2), of "'' ''"] by (simp add: auth_header_def)
  have resp: "digest_get_response mem user our_realm password our_nonce method our_uri =
      rfc2069_response user our_realm password our_nonce method our_uri" if "last_value ''username'' ps = Some user" for user
  proof -
    have "user \<in> snd ` set ps" using that by (force simp: last_value_def dest: map_of_SomeD)
    then show ?thesis using assms(4) by (intro get_response_rfc2069 [OF assms(1)]) auto
  qed
  have "starts_with (auth_header ps) ''Digest''" by (simp add: auth_header_def starts_with_def)
  then show ?thesis
    using resp by (simp add: digest_is_valid_def digest_parse_def vals fold_set_param split: option.splits) fastforce
qed

theorem digest_accepts_rfc2069_witness:
  "let params = (\<lambda>r. [(''realm'', ''airplay''), (''username'', ''iTunes''), (''nonce'', ''abc''), (''algorithm'', ''MD5''),
       (''uri'', ''*''), (''response'', r)])
   in digest_is_valid (\<lambda>_. replicate 64 0) ''airplay'' ''pw'' ''abc'' ''OPTIONS'' ''*''
        (Some (auth_header (params (rfc2069_response ''iTunes'' ''airplay'' ''pw'' ''abc'' ''OPTIONS'' ''*'')))) \<and>
      \<not> digest_is_valid (\<lambda>_. replicate 64 0) ''airplay'' ''pw'' ''abc'' ''OPTIONS'' ''*'' (Some (auth_header (params ''0'')))"
proof -
  define params where "params = (\<lambda>r. [(''realm'', ''airplay''), (''username'', ''iTunes''), (''nonce'', ''abc''),
    (''algorithm'', ''MD5''), (''uri'', ''*''), (''response'', r)])"
  have ok: "list_all param_ok (params r)" if "CHR '','' \<notin> set r" for r using that by (simp add: params_def param_ok_def)
  have nib: "CHR '','' \<noteq> hex_char CHR ''a'' (unat (if P then v AND 0x0f else drop_bit 4 (v AND 0xf0)))" for P and v :: byte
    using hex_char_neq_comma [OF unat_low_nibble [of v]] hex_char_neq_comma [OF unat_high_nibble [of v]] by (cases P) metis+
  have comma: "CHR '','' \<notin> set (md5_hex s)" for s
    unfolding md5_hex_def bin2hex_def set_map using nib by blast
  let ?r = "rfc2069_response ''iTunes'' ''airplay'' ''pw'' ''abc'' ''OPTIONS'' ''*''"
  have len: "length ?r = 32" by (simp add: rfc2069_response_def)
  have "digest_is_valid (\<lambda>_. replicate 64 0) ''airplay'' ''pw'' ''abc'' ''OPTIONS'' ''*'' (Some (auth_header (params r)))
      \<longleftrightarrow> r = ?r" if "CHR '','' \<notin> set r" "length r \<le> 32" for r
    using digest_accepts_rfc2069 [OF _ _ ok [OF that(1)], of "\<lambda>_. replicate 64 0" "''airplay''" "''pw''" "''abc''" "''OPTIONS''" "''*''"]
      that(2) by (simp add: params_def last_value_def)
  note valid = this
  have "length ''0'' \<noteq> length ?r" unfolding len by simp
  then have "''0'' \<noteq> ?r" by metis
  moreover have "CHR '','' \<notin> set ?r" using comma by (simp only: rfc2069_response_def not_False_eq_True)
  ultimately show ?thesis
    unfolding Let_def params_def [symmetric] using valid [of ?r] valid [of "''0''"] len by simp
qed

end
