(* ===== verification/Sha1.thy ===== *)
theory Sha1
  imports Block_Hash
begin

text \<open>
  The SHA-1 context of \<open>libairplay/crypt/sha1.c\<close>: the message schedule and the eighty steps of a block, the
  update that stores one byte at a time, and the padding in one or two blocks. It implements the same
  interface \<open>stream_hash\<close> as the MD5 context.
\<close>

unbundle bit_operations_syntax

section \<open>The transformation of a block\<close>

type_synonym sha1_state = "u32 \<times> u32 \<times> u32 \<times> u32 \<times> u32"

definition SHA1CircularShift :: "nat \<Rightarrow> u32 \<Rightarrow> u32" where
  "SHA1CircularShift bits w = push_bit bits w OR drop_bit (32 - bits) w"

fun block_words :: "byte list \<Rightarrow> u32 list" where
  \<comment> \<open>the first sixteen words of \<open>W\<close>\<close>
  "block_words (p # q # r # s # rest) = be32 p q r s # block_words rest"
| "block_words _ = []"

definition schedule_word :: "nat \<Rightarrow> u32 list \<Rightarrow> u32 list" where
  "schedule_word t W = W @ [SHA1CircularShift 1 (W ! (t - 3) XOR W ! (t - 8) XOR W ! (t - 14) XOR W ! (t - 16))]"

definition schedule :: "byte list \<Rightarrow> u32 list" where
  "schedule block = fold schedule_word [16..<80] (block_words block)"

definition sha1_choose :: "u32 \<Rightarrow> u32 \<Rightarrow> u32 \<Rightarrow> u32" where
  "sha1_choose B C D = (B AND C) OR (NOT B AND D)"

definition sha1_parity :: "u32 \<Rightarrow> u32 \<Rightarrow> u32 \<Rightarrow> u32" where
  "sha1_parity B C D = B XOR C XOR D"

definition sha1_majority :: "u32 \<Rightarrow> u32 \<Rightarrow> u32 \<Rightarrow> u32" where
  "sha1_majority B C D = (B AND C) OR (B AND D) OR (C AND D)"

fun sha1_step :: "(u32 \<Rightarrow> u32 \<Rightarrow> u32 \<Rightarrow> u32) \<Rightarrow> u32 \<Rightarrow> u32 \<Rightarrow> sha1_state \<Rightarrow> sha1_state" where
  \<comment> \<open>the body of each of the four loops, with \<open>w = W[t]\<close>\<close>
  "sha1_step f k w (A, B, C, D, E) =
     (let temp = SHA1CircularShift 5 A + f B C D + E + w + k in (temp, A, SHA1CircularShift 30 B, C, D))"

definition sha1_rounds :: "u32 list \<Rightarrow> sha1_state \<Rightarrow> sha1_state" where
  "sha1_rounds W s =
     (let s = fold (sha1_step sha1_choose 0x5A827999) (take 20 W) s;
          s = fold (sha1_step sha1_parity 0x6ED9EBA1) (take 20 (drop 20 W)) s;
          s = fold (sha1_step sha1_majority 0x8F1BBCDC) (take 20 (drop 40 W)) s
      in fold (sha1_step sha1_parity 0xCA62C1D6) (take 20 (drop 60 W)) s)"

fun SHA1ProcessMessageBlock :: "sha1_state \<Rightarrow> byte list \<Rightarrow> sha1_state" where
  "SHA1ProcessMessageBlock (h0, h1, h2, h3, h4) block =
     (let (A, B, C, D, E) = sha1_rounds (schedule block) (h0, h1, h2, h3, h4)
      in (h0 + A, h1 + B, h2 + C, h3 + D, h4 + E))"

section \<open>The streaming context\<close>

record sha1_ctx =
  s_hash :: sha1_state              \<comment> \<open>\<open>Intermediate_Hash\<close>\<close>
  s_low :: u32                      \<comment> \<open>\<open>Length_Low\<close>\<close>
  s_high :: u32
  s_index :: nat                    \<comment> \<open>\<open>Message_Block_Index\<close>\<close>
  s_block :: "byte list"            \<comment> \<open>\<open>Message_Block\<close>\<close>

abbreviation sha1_iv :: sha1_state where
  "sha1_iv \<equiv> (0x67452301, 0xEFCDAB89, 0x98BADCFE, 0x10325476, 0xC3D2E1F0)"

definition SHA1_Init :: "byte list \<Rightarrow> sha1_ctx" where
  \<comment> \<open>the block keeps whatever the memory held\<close>
  "SHA1_Init block = \<lparr>s_hash = sha1_iv, s_low = 0, s_high = 0, s_index = 0, s_block = block\<rparr>"

definition process_block :: "sha1_ctx \<Rightarrow> sha1_ctx" where
  "process_block ctx = ctx\<lparr>s_hash := SHA1ProcessMessageBlock (s_hash ctx) (s_block ctx), s_index := 0\<rparr>"

definition sha1_byte :: "byte \<Rightarrow> sha1_ctx \<Rightarrow> sha1_ctx" where
  \<comment> \<open>the body of the loop of \<open>SHA1_Update\<close>\<close>
  "sha1_byte b ctx =
     (let ctx = ctx\<lparr>s_block := (s_block ctx)[s_index ctx := b], s_index := s_index ctx + 1,
                    s_low := s_low ctx + 8\<rparr>;
          ctx = (if s_low ctx = 0 then ctx\<lparr>s_high := s_high ctx + 1\<rparr> else ctx)
      in if s_index ctx = 64 then process_block ctx else ctx)"

definition SHA1_Update :: "byte list \<Rightarrow> sha1_ctx \<Rightarrow> sha1_ctx" where
  "SHA1_Update msg ctx = fold sha1_byte msg ctx"

definition fill_to :: "nat \<Rightarrow> sha1_ctx \<Rightarrow> sha1_ctx" where
  \<comment> \<open>\<open>while (Message_Block_Index < n) Message_Block[Message_Block_Index++] = 0;\<close>\<close>
  "fill_to n ctx = ctx\<lparr>s_block := write_at (s_index ctx) (replicate (n - s_index ctx) 0) (s_block ctx),
     s_index := max n (s_index ctx)\<rparr>"

definition store_byte :: "byte \<Rightarrow> sha1_ctx \<Rightarrow> sha1_ctx" where
  "store_byte b ctx = ctx\<lparr>s_block := (s_block ctx)[s_index ctx := b], s_index := s_index ctx + 1\<rparr>"

definition be32_of :: "u32 \<Rightarrow> byte list" where
  "be32_of w = [ucast (drop_bit 24 w), ucast (drop_bit 16 w), ucast (drop_bit 8 w), ucast w]"

definition SHA1PadMessage :: "sha1_ctx \<Rightarrow> sha1_ctx" where
  "SHA1PadMessage ctx =
     (let ctx = (if s_index ctx > 55 then fill_to 56 (process_block (fill_to 64 (store_byte 0x80 ctx)))
                 else fill_to 56 (store_byte 0x80 ctx));
          ctx = ctx\<lparr>s_block := write_at 56 (be32_of (s_high ctx) @ be32_of (s_low ctx)) (s_block ctx)\<rparr>
      in process_block ctx)"

definition SHA1_Final :: "sha1_ctx \<Rightarrow> byte list" where
  \<comment> \<open>\<open>digest[i] = Intermediate_Hash[i>>2] >> 8 * (3 - (i & 3))\<close>\<close>
  "SHA1_Final ctx =
     (case s_hash (SHA1PadMessage ctx) of (h0, h1, h2, h3, h4) \<Rightarrow>
        map (\<lambda>i. ucast (drop_bit (8 * (3 - i mod 4)) ([h0, h1, h2, h3, h4] ! (i div 4)))) [0..<20])"

definition sha1 :: "byte list \<Rightarrow> byte list \<Rightarrow> byte list" where
  \<comment> \<open>with the indeterminate block of the local context\<close>
  "sha1 mem message = SHA1_Final (SHA1_Update message (SHA1_Init mem))"

section \<open>The reference digest\<close>

definition sha1_pad :: "byte list \<Rightarrow> byte list" where
  \<comment> \<open>a one bit, zeros up to 56 modulo 64, and the length in bits modulo \<open>2 ^ 64\<close>, high byte first\<close>
  "sha1_pad msg = msg @ 0x80 # replicate ((119 - length msg mod 64) mod 64) 0
     @ be32_of (of_nat (8 * length msg div 2 ^ 32)) @ be32_of (of_nat (8 * length msg))"

definition sha1_digest :: "byte list \<Rightarrow> byte list" where
  "sha1_digest msg =
     (let (a, b, c, d, e) = absorb SHA1ProcessMessageBlock sha1_iv (sha1_pad msg)
      in be32_of a @ be32_of b @ be32_of c @ be32_of d @ be32_of e)"

section \<open>The invariant of the context\<close>

definition sha1_holds :: "sha1_ctx \<Rightarrow> byte list \<Rightarrow> bool" where
  "sha1_holds ctx msg \<longleftrightarrow>
     s_hash ctx = absorb SHA1ProcessMessageBlock sha1_iv msg \<and> length (s_block ctx) = 64 \<and>
     s_index ctx = length msg mod 64 \<and>
     take (s_index ctx) (s_block ctx) = pending msg \<and>
     s_low ctx = of_nat (8 * length msg) \<and> s_high ctx = of_nat (8 * length msg div 2 ^ 32)"

lemma sha1_holds_init: "length block = 64 \<Longrightarrow> sha1_holds (SHA1_Init block) []"
  by (simp add: sha1_holds_def SHA1_Init_def absorb_short)

lemma sha1_count:
  "(of_nat (8 * n) + 8 :: u32) = of_nat (8 * Suc n)"
  "(if (of_nat (8 * Suc n) :: u32) = 0 then of_nat (8 * n div 4294967296) + 1 else of_nat (8 * n div 4294967296))
    = (of_nat (8 * Suc n div 4294967296) :: u32)"
proof -
  have z: "(of_nat (8 * Suc n) :: u32) = 0 \<longleftrightarrow> 8 * Suc n mod 4294967296 = 0"
    by (simp only: word_unat_eq_iff unat_of_nat32 unat_0)
  have "8 * Suc n div 4294967296 = (if 8 * Suc n mod 4294967296 = 0 then 8 * n div 4294967296 + 1 else 8 * n div 4294967296)"
  proof -
    have "8 * n div 4294967296 = n div 536870912" "8 * Suc n div 4294967296 = Suc n div 536870912"
      by (simp_all add: div_mult2_eq [symmetric])
    moreover have e: "8 * Suc n mod 4294967296 = 8 * (Suc n mod 536870912)"
      using mult_mod_right [of 8 "Suc n" 536870912] by simp
    moreover have "8 * Suc n mod 4294967296 = 0 \<longleftrightarrow> Suc n mod 536870912 = 0" unfolding e by simp
    ultimately show ?thesis by (simp add: div_Suc)
  qed
  then show "(if (of_nat (8 * Suc n) :: u32) = 0 then of_nat (8 * n div 4294967296) + 1 else of_nat (8 * n div 4294967296))
    = (of_nat (8 * Suc n div 4294967296) :: u32)" unfolding z by simp
qed simp

lemma sha1_byte_simps:
  "s_low (sha1_byte b ctx) = s_low ctx + 8"
  "s_high (sha1_byte b ctx) = (if s_low ctx + 8 = 0 then s_high ctx + 1 else s_high ctx)"
  "s_index (sha1_byte b ctx) = (if s_index ctx = 63 then 0 else s_index ctx + 1)"
  "s_block (sha1_byte b ctx) = (s_block ctx)[s_index ctx := b]"
  "s_hash (sha1_byte b ctx) = (if s_index ctx = 63
     then SHA1ProcessMessageBlock (s_hash ctx) ((s_block ctx)[s_index ctx := b]) else s_hash ctx)"
  by (simp_all add: sha1_byte_def process_block_def Let_def)

lemma sha1_holds_byte:
  assumes "sha1_holds ctx msg"
  shows "sha1_holds (sha1_byte b ctx) (msg @ [b])"
proof -
  let ?n = "length msg"
  have h: "s_hash ctx = absorb SHA1ProcessMessageBlock sha1_iv msg" "length (s_block ctx) = 64"
    "s_index ctx = ?n mod 64" "take (?n mod 64) (s_block ctx) = pending msg"
    "s_low ctx = of_nat (8 * ?n)" "s_high ctx = of_nat (8 * ?n div 4294967296)"
    using assms unfolding sha1_holds_def by (auto simp del: of_nat_mult)
  let ?block = "(s_block ctx)[?n mod 64 := b]"
  have blk: "take (Suc (?n mod 64)) ?block = pending msg @ [b]"
    using h(2,4) by (simp add: take_Suc_conv_app_nth)
  have low: "s_low (sha1_byte b ctx) = of_nat (8 * Suc ?n)"
    using sha1_count(1) [of ?n] by (simp only: sha1_byte_simps h(5))
  have high: "s_high (sha1_byte b ctx) = of_nat (8 * Suc ?n div 4294967296)"
    using sha1_count(2) [of ?n] by (simp only: sha1_byte_simps h(5,6) sha1_count(1))
  show ?thesis
  proof (cases "?n mod 64 = 63")
    case True
    then have full: "length msg mod 64 + length [b] = 64" by simp
    have "?block = pending msg @ [b]" using blk True h(2) by simp
    then show ?thesis
      using pending_full(1) [OF full, of SHA1ProcessMessageBlock sha1_iv] pending_full(2,3) [OF full] low high True h
      by (simp add: sha1_holds_def sha1_byte_simps(3-) del: of_nat_mult of_nat_Suc)
  next
    case False
    then have short: "length msg mod 64 + length [b] < 64" using mod_less_divisor [of 64 ?n] by simp
    then show ?thesis
      using pending_short(1) [OF short, of SHA1ProcessMessageBlock sha1_iv] pending_short(2,3) [OF short] low high False h blk
      by (simp add: sha1_holds_def sha1_byte_simps(3-) del: of_nat_mult of_nat_Suc)
  qed
qed

lemma sha1_holds_update: "sha1_holds ctx msg \<Longrightarrow> sha1_holds (SHA1_Update d ctx) (msg @ d)"
proof (induction d arbitrary: ctx msg)
  case (Cons b d)
  then show ?case using Cons.IH [OF sha1_holds_byte [OF Cons.prems, of b]] by (simp add: SHA1_Update_def)
qed (simp add: SHA1_Update_def)

section \<open>The final padding\<close>

lemma length_be32_of [simp]: "length (be32_of w) = 4"
  by (simp add: be32_of_def)

lemma fill_holds:
  assumes "length (s_block ctx) = 64" "s_index ctx \<le> n" "n \<le> 64"
  shows "take n (s_block (fill_to n ctx)) = take (s_index ctx) (s_block ctx) @ replicate (n - s_index ctx) 0"
    "length (s_block (fill_to n ctx)) = 64" "s_index (fill_to n ctx) = n" "s_hash (fill_to n ctx) = s_hash ctx"
    "s_low (fill_to n ctx) = s_low ctx" "s_high (fill_to n ctx) = s_high ctx"
  using assms take_write_at_end [of "s_index ctx" "s_block ctx" "replicate (n - s_index ctx) 0"]
  by (simp_all add: fill_to_def)

lemma digest_bytes:
  "map (\<lambda>i. ucast (drop_bit (8 * (3 - i mod 4)) ([h0, h1, h2, h3, h4] ! (i div 4)))) [0..<20]
    = be32_of h0 @ be32_of h1 @ be32_of h2 @ be32_of h3 @ be32_of h4"
  by (simp add: be32_of_def upt_rec)

lemma hash_of_process: "s_hash (process_block ctx) = SHA1ProcessMessageBlock (s_hash ctx) (s_block ctx)"
  by (simp add: process_block_def)

lemma sha1_pad_message:
  assumes "sha1_holds ctx msg"
  shows "s_hash (SHA1PadMessage ctx) = absorb SHA1ProcessMessageBlock sha1_iv (sha1_pad msg)"
proof -
  let ?f = SHA1ProcessMessageBlock and ?x = "length msg mod 64"
  let ?len = "be32_of (of_nat (8 * length msg div 2 ^ 32)) @ be32_of (of_nat (8 * length msg))"
  have h: "s_hash ctx = absorb ?f sha1_iv msg" "length (s_block ctx) = 64" "s_index ctx = ?x"
    "take ?x (s_block ctx) = pending msg"
    and cnt: "be32_of (s_high ctx) @ be32_of (s_low ctx) = ?len"
    using assms unfolding sha1_holds_def by (auto simp del: of_nat_mult)
  have x: "?x < 64" by simp
  define c1 where "c1 = store_byte 0x80 ctx"
  have c1: "length (s_block c1) = 64" "s_index c1 = ?x + 1" "take (?x + 1) (s_block c1) = pending msg @ [0x80]"
    "s_hash c1 = s_hash ctx" "s_low c1 = s_low ctx" "s_high c1 = s_high ctx"
    using h x by (simp_all add: c1_def store_byte_def take_Suc_conv_app_nth)
  show ?thesis
  proof (cases "?x > 55")
    case True
    let ?z = "0x80 # replicate (63 - ?x) 0 :: byte list"
    define c2 where "c2 = process_block (fill_to 64 c1)"
    define c3 where "c3 = fill_to 56 c2"
    have b2: "s_block (fill_to 64 c1) = pending msg @ ?z"
      using fill_holds(1,2) [of c1 64] c1 x by simp
    have c2: "s_hash c2 = ?f (absorb ?f sha1_iv msg) (pending msg @ ?z)" "s_index c2 = 0" "length (s_block c2) = 64"
      "s_low c2 = s_low ctx" "s_high c2 = s_high ctx"
      using c1 h b2 x fill_holds [of c1 64] by (simp_all add: c2_def process_block_def)
    have c3: "take 56 (s_block c3) = replicate 56 0" "s_hash c3 = s_hash c2" "length (s_block c3) = 64"
      "s_low c3 = s_low ctx" "s_high c3 = s_high ctx"
      using c2 fill_holds [of c2 56] by (simp_all add: c3_def)
    have "write_at 56 ?len (s_block c3) = replicate 56 0 @ ?len"
      using c3(1,3) by (simp add: write_at_def)
    then have l: "s_hash (SHA1PadMessage ctx) = ?f (s_hash c2) (replicate 56 0 @ ?len)"
      using True h(3) c3 cnt
      by (simp add: SHA1PadMessage_def c1_def [symmetric] c2_def [symmetric] c3_def [symmetric] Let_def hash_of_process)
    have full: "length msg mod 64 + length ?z = 64" using True by simp
    have "(119 - ?x) mod 64 = 119 - ?x" using True by simp
    moreover have "119 - ?x = (63 - ?x) + 56" using x by linarith
    ultimately have "sha1_pad msg = (msg @ ?z) @ (replicate 56 0 @ ?len)"
      by (simp only: sha1_pad_def replicate_add append_assoc append_Cons)
    moreover have "length (msg @ ?z) mod 64 = 0" using pending_full(3) [OF full] by simp
    ultimately have "absorb ?f sha1_iv (sha1_pad msg) = absorb ?f (s_hash c2) ((replicate 56 0 @ ?len) @ [])"
      using pending_full(1) [OF full, of ?f sha1_iv] by (simp only: absorb_append c2(1) append_Nil2)
    also have "\<dots> = ?f (s_hash c2) (replicate 56 0 @ ?len)"
      by (subst absorb_block) (simp_all add: absorb_short)
    finally show ?thesis using l by simp
  next
    case False
    let ?z = "0x80 # replicate (55 - ?x) 0 @ ?len :: byte list"
    define c3 where "c3 = fill_to 56 c1"
    have c3: "take 56 (s_block c3) = pending msg @ 0x80 # replicate (55 - ?x) 0" "s_hash c3 = s_hash ctx"
      "length (s_block c3) = 64" "s_low c3 = s_low ctx" "s_high c3 = s_high ctx"
      using c1 False fill_holds [of c1 56] by (simp_all add: c3_def)
    have "write_at 56 ?len (s_block c3) = pending msg @ ?z"
      using c3(1,3) by (simp add: write_at_def)
    then have l: "s_hash (SHA1PadMessage ctx) = ?f (s_hash ctx) (pending msg @ ?z)"
      using False h(3) c3 cnt
      by (simp add: SHA1PadMessage_def c1_def [symmetric] c3_def [symmetric] Let_def hash_of_process)
    have full: "length msg mod 64 + length ?z = 64" using False by simp
    have "119 - ?x = 64 + (55 - ?x)" using False by linarith
    then have "(119 - ?x) mod 64 = (55 - ?x) mod 64" by (simp only: mod_add_self1)
    then have "sha1_pad msg = msg @ ?z" using False by (simp add: sha1_pad_def)
    then show ?thesis using pending_full(1) [OF full, of ?f sha1_iv] l h(1) by simp
  qed
qed

lemma sha1_final_digest: "sha1_holds ctx msg \<Longrightarrow> SHA1_Final ctx = sha1_digest msg"
  using sha1_pad_message [of ctx msg] digest_bytes
  by (simp add: SHA1_Final_def sha1_digest_def Let_def split: prod.splits)

interpretation sha1_hash: stream_hash sha1_holds SHA1_Update SHA1_Final sha1_digest 2147483648
  by unfold_locales (simp_all add: sha1_holds_update sha1_final_digest)

section \<open>Properties\<close>

text \<open>
  However a message is cut into pieces for \<open>SHA1_Update\<close>, and whatever the block of the context held
  before, \<open>SHA1_Final\<close> returns the twenty bytes of the SHA-1 digest of the whole message: the block
  transformation folded over the padded message, for every length of the message modulo 64, with the bit
  length modulo \<open>2 ^ 64\<close>.
\<close>

theorem sha1_of_pieces:
  assumes "length block = 64" "length (concat pieces) < 2147483648"
  shows "SHA1_Final (fold SHA1_Update pieces (SHA1_Init block)) = sha1_digest (concat pieces) \<and>
    sha1 block (concat pieces) = sha1_digest (concat pieces) \<and> length (sha1_digest (concat pieces)) = 20"
proof -
  have "length d \<le> length (concat pieces)" if "d \<in> set pieces" for d
    using that by (induction pieces) auto
  then have "\<forall>d\<in>set pieces. length d < 2147483648" using assms(2) by fastforce
  from sha1_hash.digest_of_pieces [OF sha1_holds_init [OF assms(1)] this]
    sha1_hash.digest_of_pieces [OF sha1_holds_init [OF assms(1)], of "[concat pieces]"] assms(2)
  show ?thesis
    by (simp add: sha1_def) (simp add: sha1_digest_def Let_def split: prod.splits)
qed

definition abc_words :: "u32 list" where
  \<comment> \<open>the schedule of the padded message \<open>abc\<close>\<close>
  "abc_words = [
     1633837952, 0, 0, 0, 0, 0, 0, 0,
     0, 0, 0, 0, 0, 0, 0, 24,
     3267675904, 0, 48, 2240384513, 0, 96, 185801731, 48,
     2240384705, 371603462, 0, 384, 743206924, 240, 2477765895, 1486413896,
     2392494594, 1536, 2972827888, 371604422, 1321128990, 1650688161, 371603462, 6336,
     3537975492, 3840, 989548665, 2307785957, 3803855915, 24768, 87701453, 1950713159,
     3667138029, 641206806, 1650688929, 1321161950, 943043659, 62976, 512018339, 2564836760,
     1696405152, 1650822305, 1166361814, 1146637495, 2074109465, 1669377698, 182801001, 1652246945,
     2094292125, 983040, 4216354106, 3966199272, 3124505570, 6340608, 976735493, 1166362356,
     3092880854, 940186150, 31465987, 3888919638, 3873835881, 16124416, 1469443919, 2184054905]"

lemma abc_schedule:
  "fold schedule_word [16..<48] (take 16 abc_words) = take 48 abc_words"
  "fold schedule_word [48..<80] (take 48 abc_words) = abc_words"
  by (simp_all add: abc_words_def schedule_word_def SHA1CircularShift_def upt_rec)

lemma sha1_abc_rounds:
  "fold (sha1_step sha1_choose 0x5a827999) (take 20 (drop 0 abc_words)) (1732584193, 4023233417, 2562383102, 271733878, 3285377520)
    = (4254997885, 3697578013, 548051402, 3550778888, 3358553483)"
  "fold (sha1_step sha1_parity 0x6ed9eba1) (take 20 (drop 20 abc_words)) (4254997885, 3697578013, 548051402, 3550778888, 3358553483)
    = (853417146, 1285055493, 4145604047, 64243702, 4147047474)"
  "fold (sha1_step sha1_majority 0x8f1bbcdc) (take 20 (drop 40 abc_words)) (853417146, 1285055493, 4145604047, 64243702, 4147047474)
    = (1062395482, 165119485, 882425812, 4061233743, 3617133995)"
  "fold (sha1_step sha1_parity 0xca62c1d6) (take 20 (drop 60 abc_words)) (1062395482, 165119485, 882425812, 4061233743, 3617133995)
    = (1112808245, 1463342561, 562251891, 1746824694, 3640522413)"
  by (simp_all add: abc_words_def SHA1CircularShift_def sha1_choose_def sha1_parity_def sha1_majority_def)

lemma sha1_abc: "sha1_digest [97, 98, 99]
    = [169, 153, 62, 54, 71, 6, 129, 106, 186, 62, 37, 113, 120, 80, 194, 108, 156, 208, 216, 157]"
proof -
  have pad: "sha1_pad [97, 98, 99] = [97, 98, 99, 128] @ replicate 59 0 @ [24]"
  proof -
    have "(119 - length [97, 98, 99 :: byte] mod 64) mod 64 = 52" by simp
    moreover have "replicate 59 (0 :: byte) = replicate 52 0 @ replicate 7 0" by (subst replicate_add [symmetric]) simp
    moreover have "be32_of (of_nat (8 * length [97, 98, 99 :: byte] div 2 ^ 32)) @ be32_of (of_nat (8 * length [97, 98, 99 :: byte]))
        = replicate 7 0 @ [24]"
    proof -
      have "replicate 7 (0 :: byte) = [0, 0, 0, 0] @ [0, 0, 0]" by code_simp
      then show ?thesis by (simp add: be32_of_def)
    qed
    ultimately show ?thesis unfolding sha1_pad_def by (simp only: append_assoc append_Cons append_Nil)
  qed
  have words: "block_words (sha1_pad [97, 98, 99]) = take 16 abc_words"
    unfolding pad abc_words_def by code_simp
  have "[16..<80] = [16..<48] @ [48..<80 :: nat]"
    using upt_add_eq_append [of 16 48 32] by simp
  then have sched: "schedule (sha1_pad [97, 98, 99]) = abc_words"
    unfolding schedule_def words by (simp only: fold_append o_apply abc_schedule)
  have "sha1_rounds abc_words sha1_iv = (1112808245, 1463342561, 562251891, 1746824694, 3640522413)"
    using sha1_abc_rounds by (simp add: sha1_rounds_def)
  then have "SHA1ProcessMessageBlock sha1_iv (sha1_pad [97, 98, 99]) = (2845392438, 1191608682, 3124634993, 2018558572, 2630932637)"
    by (simp add: sched)
  moreover have "absorb SHA1ProcessMessageBlock sha1_iv (sha1_pad [97, 98, 99])
      = SHA1ProcessMessageBlock sha1_iv (sha1_pad [97, 98, 99])"
  proof -
    have "length (sha1_pad [97, 98, 99]) = 64" by (simp add: pad)
    then show ?thesis
      using absorb_block [of "sha1_pad [97, 98, 99]" SHA1ProcessMessageBlock sha1_iv "[]"] by (simp add: absorb_short)
  qed
  ultimately show ?thesis by (simp add: sha1_digest_def be32_of_def)
qed

theorem sha1_of_pieces_witness:
  "SHA1_Final (fold SHA1_Update [[97], [], [98, 99]] (SHA1_Init (replicate 64 7)))
    = [169, 153, 62, 54, 71, 6, 129, 106, 186, 62, 37, 113, 120, 80, 194, 108, 156, 208, 216, 157]"
  using sha1_of_pieces [of "replicate 64 7" "[[97], [], [98, 99]]"] sha1_abc by simp

end
