(* ===== verification/Hmac.thy ===== *)
theory Hmac
  imports Md5 Sha1
begin

text \<open>
  The keyed digests of \<open>libairplay/crypt/hmac.c\<close> over the two streaming contexts. A key longer than the
  block is copied past the two pads, which is the result \<open>None\<close>; \<open>mem\<close> is what the local context's block
  holds at each initialisation.
\<close>

unbundle bit_operations_syntax

definition k_pad :: "byte \<Rightarrow> byte list \<Rightarrow> byte list" where
  \<comment> \<open>\<open>k_ipad\<close> or \<open>k_opad\<close> after the loop\<close>
  "k_pad c key = map (\<lambda>b. b XOR c) (write_at 0 key (replicate 64 0))"

definition hmac_md5 :: "(nat \<Rightarrow> byte list) \<Rightarrow> byte list \<Rightarrow> byte list \<Rightarrow> byte list option" where
  "hmac_md5 mem msg key =
     (if length key > 64 then None
      else let context = MD5_Init (mem 0);
               context = MD5_Update (k_pad 0x36 key) context;
               context = MD5_Update msg context;
               digest = MD5_Final context;
               context = MD5_Init (mem 1);
               context = MD5_Update (k_pad 0x5c key) context;
               context = MD5_Update digest context
           in Some (MD5_Final context))"

definition hmac_sha1 :: "(nat \<Rightarrow> byte list) \<Rightarrow> byte list \<Rightarrow> byte list \<Rightarrow> byte list option" where
  "hmac_sha1 mem msg key =
     (if length key > 64 then None
      else let context = SHA1_Init (mem 0);
               context = SHA1_Update (k_pad 0x36 key) context;
               context = SHA1_Update msg context;
               digest = SHA1_Final context;
               context = SHA1_Init (mem 1);
               context = SHA1_Update (k_pad 0x5c key) context;
               context = SHA1_Update digest context
           in Some (SHA1_Final context))"

section \<open>The specification\<close>

definition hmac :: "(byte list \<Rightarrow> byte list) \<Rightarrow> byte list \<Rightarrow> byte list \<Rightarrow> byte list" where
  \<comment> \<open>RFC 2104 for a key of at most one block: the key is padded with zeros to the block\<close>
  "hmac H msg key =
     (let k = key @ replicate (64 - length key) 0
      in H (map (\<lambda>b. b XOR 0x5c) k @ H (map (\<lambda>b. b XOR 0x36) k @ msg)))"

lemma k_pad_padded: "length key \<le> 64 \<Longrightarrow> k_pad c key = map (\<lambda>b. b XOR c) (key @ replicate (64 - length key) 0)"
  by (simp add: k_pad_def write_at_def)

lemma length_k_pad: "length key \<le> 64 \<Longrightarrow> length (k_pad c key) = 64"
  by (simp add: k_pad_padded)

context stream_hash
begin

lemma hmac_of_contexts:
  \<comment> \<open>two contexts, each fed a pad and then its text, give the keyed digest of whatever they implement\<close>
  assumes "holds c0 []" "holds c1 []" "64 < limit" "length key \<le> 64" "length msg < limit"
    "\<And>m. length (digest m) < limit"
  shows "final (update (final (update msg (update (k_pad 0x36 key) c0))) (update (k_pad 0x5c key) c1)) = hmac digest msg key"
proof -
  have pads: "length (k_pad c key) < limit" for c using length_k_pad [OF assms(4)] assms(3) by simp
  have inner: "final (update msg (update (k_pad 0x36 key) c0)) = digest (k_pad 0x36 key @ msg)"
    using digest_of_pieces [OF assms(1), of "[k_pad 0x36 key, msg]"] pads assms(5) by simp
  show ?thesis
    unfolding inner
    using digest_of_pieces [OF assms(2), of "[k_pad 0x5c key, digest (k_pad 0x36 key @ msg)]"] pads assms(6)
    by (simp add: hmac_def k_pad_padded assms(4))
qed

end

section \<open>Properties\<close>

text \<open>
  For every key of at most 64 bytes and every message an \<open>int\<close> can measure, \<open>hmac_md5\<close> and
  \<open>hmac_sha1\<close> compute RFC 2104 over the MD5 and SHA-1 digests, whatever the local context held before; a
  longer key overruns the pads of both.
\<close>

theorem hmac_rfc2104:
  assumes "length (mem 0) = 64" "length (mem 1) = 64" "length msg < 2147483584"
  shows "hmac_md5 mem msg key = (if length key \<le> 64 then Some (hmac md5 msg key) else None) \<and>
    hmac_sha1 mem msg key = (if length key \<le> 64 then Some (hmac sha1_digest msg key) else None)"
proof -
  have len: "length (md5 m) < 2147483584" "length (sha1_digest m) < 2147483648" for m
    by (simp_all add: md5_def sha1_digest_def Let_def split: prod.splits)
  show ?thesis
    using md5_hash.hmac_of_contexts [OF md5_holds_init md5_holds_init, of "mem 0" "mem 1" key msg] len(1)
      sha1_hash.hmac_of_contexts [OF sha1_holds_init sha1_holds_init, of "mem 0" "mem 1" key msg] len(2) assms
    by (auto simp: hmac_md5_def hmac_sha1_def Let_def)
qed

theorem hmac_rfc2104_witness:
  "hmac_sha1 (\<lambda>n. replicate 64 (of_nat n)) [1, 2] [7] = Some (hmac sha1_digest [1, 2] [7]) \<and>
    hmac_md5 (\<lambda>n. replicate 64 (of_nat n)) [1, 2] (replicate 65 0) = None"
  using hmac_rfc2104 [of "\<lambda>n. replicate 64 (of_nat n)" "[1, 2]" "[7]"]
    hmac_rfc2104 [of "\<lambda>n. replicate 64 (of_nat n)" "[1, 2]" "replicate 65 0"] by simp

end
