(* ===== verification/Plist.thy ===== *)
theory Plist
  imports C_Float
begin

text \<open>
  The nodes of \<open>libairplay/plist/src/plist.c\<close> as far as the protocol handlers read them: \<open>None\<close> for a
  NULL node, and for each reader of a value the result \<open>None\<close> where its closing \<open>assert\<close> on the length
  fails, which it does for every node of another type. The value of a date, which no handler reads, is left
  out of its node. The parsers and writers of the library are arguments of the handlers.
\<close>

datatype plist =
    PBoolean byte
  | PUint u64
  | PReal cfloat
  | PString string
  | PArray "plist list"
  | PDict "(string \<times> plist) list"
  | PDate
  | PData "byte list"
  | PUid u64

definition plist_is_array :: "plist option \<Rightarrow> bool" where
  \<comment> \<open>\<open>plist_get_node_type(node) == PLIST_ARRAY\<close>\<close>
  "plist_is_array node \<longleftrightarrow> (case node of Some (PArray _) \<Rightarrow> True | _ \<Rightarrow> False)"

definition plist_array_get_size :: "plist option \<Rightarrow> nat" where
  "plist_array_get_size node = (case node of Some (PArray items) \<Rightarrow> length items | _ \<Rightarrow> 0)"

definition plist_array_get_item :: "plist option \<Rightarrow> nat \<Rightarrow> plist option" where
  "plist_array_get_item node n =
     (case node of Some (PArray items) \<Rightarrow> if n < length items then Some (items ! n) else None | _ \<Rightarrow> None)"

definition plist_dict_get_size :: "plist option \<Rightarrow> nat" where
  "plist_dict_get_size node = (case node of Some (PDict items) \<Rightarrow> length items | _ \<Rightarrow> 0)"

fun dict_search :: "(string \<times> plist) list \<Rightarrow> string \<Rightarrow> plist option" where
  "dict_search [] key = None"
| "dict_search ((k, v) # items) key = (if k = key then Some v else dict_search items key)"

definition plist_dict_get_item :: "plist option \<Rightarrow> string \<Rightarrow> plist option" where
  "plist_dict_get_item node key = (case node of Some (PDict items) \<Rightarrow> dict_search items key | _ \<Rightarrow> None)"

definition plist_get_bool_val :: "plist option \<Rightarrow> byte option" where
  "plist_get_bool_val node = (case node of Some (PBoolean v) \<Rightarrow> Some v | _ \<Rightarrow> None)"

definition plist_get_uint_val :: "plist option \<Rightarrow> u64 option" where
  "plist_get_uint_val node = (case node of Some (PUint v) \<Rightarrow> Some v | _ \<Rightarrow> None)"

definition plist_get_string_val :: "plist option \<Rightarrow> string option" where
  \<comment> \<open>\<open>None\<close>: the variable keeps its value and the closing assertion takes \<open>strlen\<close> of it\<close>
  "plist_get_string_val node = (case node of Some (PString s) \<Rightarrow> Some s | _ \<Rightarrow> None)"

definition plist_get_real_val :: "plist option \<Rightarrow> cfloat option" where
  "plist_get_real_val node = (case node of Some (PReal v) \<Rightarrow> Some v | _ \<Rightarrow> None)"

definition plist_get_data_val :: "plist option \<Rightarrow> byte list option \<Rightarrow> byte list option" where
  \<comment> \<open>the caller's pointer afterwards; this reader has no assertion\<close>
  "plist_get_data_val node p = (case node of Some (PData bs) \<Rightarrow> Some bs | _ \<Rightarrow> p)"

lemma dict_search_map_of: "dict_search items key = map_of items key"
  by (induction items key rule: dict_search.induct) auto

end
