(* ===== verification/Airdata.thy ===== *)
theory Airdata
  imports Raop_Rtp
begin

text \<open>
  The event channel of \<open>libairplay/airplay/raop.c\<close> (\<open>airdata_t\<close>): a listening socket and a thread that
  accepts one client and reads and drops what it sends. One turn of the thread is a function of what
  \<open>select\<close>, \<open>accept\<close> and \<open>recv\<close> answered; stopping joins the thread with no other operation in between.
\<close>

section \<open>State and operations\<close>

datatype ad_thread =
    AdNone
  | AdRunning int bool bool   \<comment> \<open>\<open>sock\<close>, \<open>v2\<close> (only sleep), \<open>v16\<close>\<close>
  | AdFinished

record airdata =
  ad_family :: int
  ad_addr_len :: int
  ad_started :: bool
  ad_terminated :: bool
  ad_socket :: int
  ad_port :: u16
  ad_thread :: ad_thread

definition airdata_parse_remote ::
  "(int \<Rightarrow> string \<Rightarrow> int \<times> sockaddr) \<Rightarrow> bool \<Rightarrow> string \<Rightarrow> airdata option option" where
  \<comment> \<open>\<open>raop_rtp_parse_remote\<close> of \<open>raop.c\<close>; the outer \<open>None\<close> is \<open>strcmp\<close> on a NULL piece, the inner NULL\<close>
  "airdata_parse_remote parse_address calloc_ok remote =
     (let (tmpstr, current) = utils_strsep (Some remote) '' ''
      in if tmpstr \<noteq> Some ''IN'' then Some None
      else case utils_strsep current '' '' of
          (None, _) \<Rightarrow> None
        | (Some tmpstr, current) \<Rightarrow>
            (case (if tmpstr = ''IP4'' \<and> current \<noteq> None then Some AF_INET
                   else if tmpstr = ''IP6'' \<and> current \<noteq> None then Some AF_INET6 else None) of
               None \<Rightarrow> Some None
             | Some family \<Rightarrow>
                 (let addr = the current;
                      family = (if c_strstr addr '':'' \<noteq> None then AF_INET6 else family);
                      (ret, saddr) = parse_address family addr
                  in if \<not> calloc_ok \<or> ret < 0 then Some None
                     else Some (Some \<lparr>ad_family = ss_family saddr, ad_addr_len = ret, ad_started = False,
                            ad_terminated = True, ad_socket = 0, ad_port = 0, ad_thread = AdNone\<rparr>))))"

definition airdata_init_socket :: "(bool \<Rightarrow> int \<times> u16) \<Rightarrow> bool \<Rightarrow> bool \<Rightarrow> airdata \<Rightarrow> int \<times> airdata \<times> int list" where
  \<comment> \<open>\<open>init_socket\<close> is what \<open>netutils_init_socket\<close> answers for port 0 and each \<open>use_ipv6\<close>, \<open>listen_ok\<close> what
     \<open>listen\<close> does; the last component is the sockets closed\<close>
  "airdata_init_socket init_socket listen_ok use_ipv6 a1 =
     (let (sock, port) = init_socket use_ipv6
      in if sock = -1 then (-1, a1, [])
      else if \<not> listen_ok then (-1, a1, [sock])
      else (0, a1\<lparr>ad_socket := sock, ad_port := port\<rparr>, []))"

definition airdata_start :: "(bool \<Rightarrow> int \<times> u16) \<Rightarrow> bool \<Rightarrow> airdata \<Rightarrow> airdata \<times> u16 option \<times> int list" where
  \<comment> \<open>with the value written through \<open>port\<close>, if any\<close>
  "airdata_start init_socket listen_ok airdata =
     (if \<not> ad_started airdata \<and> ad_terminated airdata then
        (let use_ipv6 = (ad_family airdata = 23);
             (ret, airdata, closed) = airdata_init_socket init_socket listen_ok use_ipv6 airdata
         in if ret \<noteq> 0 then (airdata, None, closed)
            else (airdata\<lparr>ad_started := True, ad_terminated := False, ad_thread := AdRunning (-1) False False\<rparr>,
                  Some (ad_port airdata), closed))
      else (airdata, None, []))"

datatype ad_input =
    AdTimeout
  | AdSelectError
  | AdAccept int                      \<comment> \<open>the listening socket is readable: the result of \<open>accept\<close>\<close>
  | AdReceive "byte list option"      \<comment> \<open>the client socket is readable: \<open>recv\<close>, \<open>None\<close> for -1\<close>

definition ad_exit :: "int \<Rightarrow> int list" where
  \<comment> \<open>\<open>LABEL_21\<close>\<close>
  "ad_exit sock = (if sock \<noteq> -1 then [sock] else [])"

definition airdata_turn :: "ad_input \<Rightarrow> airdata \<Rightarrow> airdata \<times> int list" where
  \<comment> \<open>one turn of \<open>airdata_thread_proc\<close> and the sockets it closes\<close>
  "airdata_turn input airdata =
     (case ad_thread airdata of
        AdRunning sock v2 v16 \<Rightarrow>
          if \<not> ad_started airdata then (airdata\<lparr>ad_thread := AdFinished\<rparr>, ad_exit sock)
          else if v2 then (airdata, [])
          else (case input of
              AdTimeout \<Rightarrow> (airdata, [])
            | AdSelectError \<Rightarrow> (airdata\<lparr>ad_thread := AdFinished\<rparr>, ad_exit sock)
            | AdAccept fd \<Rightarrow>
                if sock \<noteq> -1 then (airdata, [])
                else if fd \<noteq> -1 then (airdata\<lparr>ad_thread := AdRunning fd v2 v16\<rparr>, [])
                else (airdata\<lparr>ad_thread := AdRunning fd True True\<rparr>, [])
            | AdReceive r \<Rightarrow>
                if sock = -1 then (airdata, [])
                else (case r of
                    None \<Rightarrow> (airdata\<lparr>ad_thread := AdFinished\<rparr>, ad_exit sock)
                  | Some bs \<Rightarrow> if bs = [] then (airdata\<lparr>ad_thread := AdFinished\<rparr>, ad_exit sock)
                               else (airdata\<lparr>ad_thread := AdRunning sock v16 v16\<rparr>, [])))
      | _ \<Rightarrow> (airdata, []))"

definition airdata_stop :: "airdata \<Rightarrow> airdata \<times> int list" where
  "airdata_stop airdata =
     (if ad_started airdata \<and> \<not> ad_terminated airdata then
        (let airdata = airdata\<lparr>ad_started := False\<rparr>;
             (airdata, closed) = airdata_turn AdTimeout airdata;
             closed' = (if ad_socket airdata \<noteq> -1 then [ad_socket airdata] else [])
         in (airdata\<lparr>ad_terminated := True\<rparr>, closed @ closed'))
      else (airdata, []))"

definition airdata_free :: "airdata option \<Rightarrow> int list" where
  "airdata_free a1 = (case a1 of None \<Rightarrow> [] | Some airdata \<Rightarrow> snd (airdata_stop airdata))"

section \<open>Balance of sockets\<close>

definition held :: "airdata \<Rightarrow> int list" where
  \<comment> \<open>the client socket the thread holds\<close>
  "held a = (case ad_thread a of AdRunning sock _ _ \<Rightarrow> if sock \<noteq> -1 then [sock] else [] | _ \<Rightarrow> [])"

definition accepted :: "ad_input \<Rightarrow> airdata \<Rightarrow> int list" where
  \<comment> \<open>the client socket a turn takes over\<close>
  "accepted i a = (case (i, ad_thread a) of
     (AdAccept fd, AdRunning sock v2 _) \<Rightarrow> if ad_started a \<and> \<not> v2 \<and> sock = -1 \<and> fd \<noteq> -1 then [fd] else []
   | _ \<Rightarrow> [])"

fun airdata_turns :: "ad_input list \<Rightarrow> airdata \<Rightarrow> airdata \<times> int list \<times> int list" where
  \<comment> \<open>the turns of the thread with the sockets accepted and closed\<close>
  "airdata_turns [] a = (a, [], [])"
| "airdata_turns (i # ins) a =
     (let (b, cl) = airdata_turn i a; (c, acc', cl') = airdata_turns ins b
      in (c, accepted i a @ acc', cl @ cl'))"

lemma turn_balance: "airdata_turn i a = (b, cl) \<Longrightarrow> held a @ accepted i a = cl @ held b"
  by (auto simp: airdata_turn_def held_def accepted_def ad_exit_def split: ad_thread.splits ad_input.splits if_splits option.splits)

lemma turn_frame: "airdata_turn i a = (b, cl) \<Longrightarrow>
    ad_started b = ad_started a \<and> ad_terminated b = ad_terminated a \<and> ad_socket b = ad_socket a"
  by (auto simp: airdata_turn_def split: ad_thread.splits ad_input.splits if_splits option.splits)

lemma turns_balance: "airdata_turns ins a = (b, acc, cl) \<Longrightarrow> held a @ acc = cl @ held b
    \<and> ad_started b = ad_started a \<and> ad_terminated b = ad_terminated a \<and> ad_socket b = ad_socket a"
proof (induction ins arbitrary: a b acc cl)
  case (Cons i ins)
  obtain b1 c1 where 1: "airdata_turn i a = (b1, c1)" by fastforce
  obtain b2 a2 c2 where 2: "airdata_turns ins b1 = (b2, a2, c2)" by (rule prod_cases3)
  have e: "b = b2" "acc = accepted i a @ a2" "cl = c1 @ c2" using Cons.prems 1 2 by auto
  have "held a @ accepted i a @ a2 = c1 @ held b1 @ a2" using turn_balance [OF 1] by (simp flip: append_assoc)
  then show ?case using Cons.IH [OF 2] turn_frame [OF 1] e by simp
qed simp

lemma turns_from_start:
  assumes "airdata_start init_socket listen_ok a = (b, Some port, cl0)" "airdata_turns ins b = (c, acc, cl)"
  shows "airdata_stop c = (c\<lparr>ad_started := False, ad_terminated := True, ad_thread := AdFinished\<rparr>, held c @ [fst (init_socket (ad_family a = 23))]) \<or>
    (ad_thread c = AdFinished \<or> ad_thread c = AdNone) \<and>
    airdata_stop c = (c\<lparr>ad_started := False, ad_terminated := True\<rparr>, [fst (init_socket (ad_family a = 23))])"
proof -
  have b: "ad_started b \<and> \<not> ad_terminated b \<and> ad_socket b = fst (init_socket (ad_family a = 23)) \<and> ad_socket b \<noteq> -1"
    using assms(1) by (auto simp: airdata_start_def airdata_init_socket_def Let_def split: if_splits prod.splits)
  then have "ad_started c \<and> \<not> ad_terminated c \<and> ad_socket c = fst (init_socket (ad_family a = 23)) \<and> ad_socket c \<noteq> -1"
    using turns_balance [OF assms(2)] by simp
  then show ?thesis by (cases "ad_thread c") (auto simp: airdata_stop_def airdata_turn_def held_def ad_exit_def Let_def)
qed

section \<open>Properties\<close>

text \<open>
  Whatever select, accept and recv answer between a successful start and the stop, every client socket the
  event channel accepted is closed exactly once and in the order of acceptance, the listening socket last, the
  thread has ended, and a second stop closes nothing.
\<close>

theorem event_channel_releases_sockets:
  assumes "airdata_start init_socket listen_ok a = (b, Some port, cl0)" "airdata_turns ins b = (c, acc, cl)"
    "airdata_stop c = (d, cl')"
  shows "cl0 = [] \<and> cl @ cl' = acc @ [fst (init_socket (ad_family a = 23))] \<and> held d = [] \<and>
    ad_terminated d \<and> \<not> ad_started d \<and> airdata_stop d = (d, []) \<and> airdata_free (Some d) = []"
proof -
  have 0: "cl0 = []" "held b = []"
    using assms(1) by (auto simp: airdata_start_def airdata_init_socket_def held_def Let_def split: if_splits prod.splits)
  have 1: "acc = cl @ held c" using turns_balance [OF assms(2)] 0 by simp
  show ?thesis
    using turns_from_start [OF assms(1,2)] assms(3) 0 1
    by (auto simp: held_def airdata_stop_def airdata_free_def)
qed

definition demo_airdata :: airdata where
  "demo_airdata = \<lparr>ad_family = 2, ad_addr_len = 4, ad_started = False, ad_terminated = True, ad_socket = 0, ad_port = 0,
     ad_thread = AdNone\<rparr>"

theorem event_channel_releases_sockets_witness:
  "let (b, port, cl0) = airdata_start (\<lambda>v6. (7, 5000)) True demo_airdata;
       (c, acc, cl) = airdata_turns [AdTimeout, AdAccept 9, AdReceive (Some [1, 2])] b;
       (d, cl') = airdata_stop c
   in port = Some 5000 \<and> acc = [9] \<and> cl' = [9, 7]"
proof -
  let ?b = "demo_airdata\<lparr>ad_socket := 7, ad_port := 5000, ad_started := True, ad_terminated := False, ad_thread := AdRunning (-1) False False\<rparr>"
  let ?c = "?b\<lparr>ad_thread := AdRunning 9 False False\<rparr>"
  have 1: "airdata_start (\<lambda>v6. (7, 5000)) True demo_airdata = (?b, Some 5000, [])"
    by (simp add: airdata_start_def airdata_init_socket_def demo_airdata_def Let_def)
  have 2: "airdata_turns [AdTimeout, AdAccept 9, AdReceive (Some [1, 2])] ?b = (?c, [9], [])"
    by (simp add: airdata_turn_def accepted_def demo_airdata_def)
  have 3: "airdata_stop ?c = (?c\<lparr>ad_started := False, ad_terminated := True, ad_thread := AdFinished\<rparr>, [9, 7])"
    by (simp add: airdata_stop_def airdata_turn_def ad_exit_def demo_airdata_def Let_def)
  show ?thesis using event_channel_releases_sockets [OF 1 2 3] 3 by (simp add: 1 2 del: airdata_turns.simps)
qed

end
