(* ===== verification/Rsakey.thy ===== *)
theory Rsakey
  imports Base64 Sha1
begin

text \<open>
  The RSA operations of \<open>libairplay/crypt/rsakey.c\<close>: the signature of an Apple challenge, OAEP decryption
  with its mask generation over SHA-1, and the base64 helpers. The modular power of the bigint library is a
  field of the key, on big-endian strings of \<open>keylen\<close> bytes; \<open>mem\<close> is what the block of the local SHA-1
  context holds at each initialisation. Decryption is modelled for keys of at least 41 bytes.
\<close>

unbundle bit_operations_syntax

section \<open>Operations\<close>

record rsakey =
  k_keylen :: nat
  k_modpow :: "byte list \<Rightarrow> byte list"   \<comment> \<open>\<open>bi_import\<close>, \<open>rsakey_modpow\<close>, \<open>bi_export\<close>\<close>
  k_base64 :: base64

abbreviation SHA1_SIZE :: nat where "SHA1_SIZE \<equiv> 20"
abbreviation MAX_KEYLEN :: nat where "MAX_KEYLEN \<equiv> 512"

definition sign_block :: "nat \<Rightarrow> byte list \<Rightarrow> byte list" where
  \<comment> \<open>\<open>buffer\<close> before the power, \<open>data\<close> the digest with the two addresses\<close>
  "sign_block keylen data =
     (let inputlen = max 32 (length data)
      in [0x00, 0x01] @ replicate (keylen - inputlen - 3) 0xff @ [0x00] @ data @ replicate (inputlen - length data) 0)"

definition rsakey_sign :: "rsakey \<Rightarrow> nat \<Rightarrow> string \<Rightarrow> byte list \<Rightarrow> byte list \<Rightarrow> (int \<times> string option) option" where
  \<comment> \<open>the result and the text written to \<open>dst\<close>; the outer \<open>None\<close> is a padding of negative length\<close>
  "rsakey_sign rsakey dstlen b64digest ipaddr hwaddr =
     (if dstlen < base64_encoded_length (Some (k_base64 rsakey)) (k_keylen rsakey) then Some (-1, None)
      else case fst (base64_decode (Some (k_base64 rsakey)) b64digest) of
          Inl _ \<Rightarrow> Some (-2, None)
        | Inr digest \<Rightarrow>
            (let data = digest @ ipaddr @ hwaddr
             in if int (length data) > int (k_keylen rsakey) - 3 - 8 then Some (-3, None)
                else if k_keylen rsakey < max 32 (length data) + 3 then None
                else Some (0, Some (base64_encode (Some (k_base64 rsakey))
                                      (k_modpow rsakey (sign_block (k_keylen rsakey) data))))))"

definition rsakey_mfg1 :: "(nat \<Rightarrow> byte list) \<Rightarrow> nat \<Rightarrow> byte list \<Rightarrow> nat \<Rightarrow> byte list option" where
  \<comment> \<open>the bytes written to \<open>dst\<close>, of which \<open>masklen\<close> are used; \<open>None\<close> is the result -1\<close>
  "rsakey_mfg1 mem dstlen seed masklen =
     (let iterations = (masklen + SHA1_SIZE - 1) div SHA1_SIZE
      in if dstlen < iterations * SHA1_SIZE then None
      else Some (concat (map (\<lambda>i.
             let counter = [of_nat (drop_bit 24 i), of_nat (drop_bit 16 i), of_nat (drop_bit 8 i), of_nat i];
                 sha_ctx = SHA1_Update counter (SHA1_Update seed (SHA1_Init (mem i)))
             in SHA1_Final sha_ctx) [0..<iterations])))"

definition rsakey_base64_decode :: "rsakey \<Rightarrow> string option \<Rightarrow> int + byte list" where
  "rsakey_base64_decode rsakey b64input =
     (case b64input of None \<Rightarrow> Inl (-1) | Some s \<Rightarrow> fst (base64_decode (Some (k_base64 rsakey)) s))"

definition xor_at :: "nat \<Rightarrow> byte list \<Rightarrow> byte list \<Rightarrow> byte list" where
  \<comment> \<open>\<open>for (i = 0; i < ret; i++) buffer[off+i] ^= maskbuf[i];\<close>\<close>
  "xor_at off maskbuf buffer = write_at off (map2 (\<lambda>a b. a XOR b) (take (length maskbuf) (drop off buffer)) maskbuf) buffer"

function first_data :: "byte list \<Rightarrow> nat \<Rightarrow> nat" where
  \<comment> \<open>\<open>for (...; i < keylen && !buffer[i++];);\<close>\<close>
  "first_data buffer i =
     (if i < length buffer then (if buffer ! i = 0 then first_data buffer (i + 1) else i + 1) else i)"
  by pat_completeness auto
termination by (relation "measure (\<lambda>(buffer, i). length buffer - i)") auto

declare first_data.simps [simp del]

definition rsakey_decrypt :: "(nat \<Rightarrow> byte list) \<Rightarrow> rsakey \<Rightarrow> nat \<Rightarrow> string option \<Rightarrow> int + byte list" where
  "rsakey_decrypt mem rsakey dstlen b64input =
     (case b64input of
        None \<Rightarrow> Inl (-1)
      | Some s \<Rightarrow>
          (case fst (base64_decode (Some (k_base64 rsakey)) s) of
             Inl _ \<Rightarrow> Inl (-2)
           | Inr input \<Rightarrow>
               let keylen = k_keylen rsakey
               in if length input > keylen then Inl (-2)
               else let buffer = k_modpow rsakey (replicate (keylen - length input) 0 @ input)
               in case rsakey_mfg1 mem MAX_KEYLEN (drop (1 + SHA1_SIZE) buffer) SHA1_SIZE of
                    None \<Rightarrow> Inl (-3)
                  | Some maskbuf \<Rightarrow>
                      let buffer = xor_at 1 (take SHA1_SIZE maskbuf) buffer
                      in case rsakey_mfg1 mem MAX_KEYLEN (take SHA1_SIZE (drop 1 buffer)) (keylen - 1 - SHA1_SIZE) of
                           None \<Rightarrow> Inl (-4)
                         | Some maskbuf \<Rightarrow>
                             let buffer = xor_at (1 + SHA1_SIZE) (take (keylen - 1 - SHA1_SIZE) maskbuf) buffer;
                                 i = first_data buffer (1 + 2 * SHA1_SIZE)
                             in if keylen - i > dstlen then Inl (-5) else Inr (drop i buffer)))"

definition rsakey_parseiv :: "rsakey \<Rightarrow> nat \<Rightarrow> string option \<Rightarrow> int + byte list" where
  "rsakey_parseiv rsakey dstlen b64input =
     (case b64input of
        None \<Rightarrow> Inl (-1)
      | Some s \<Rightarrow>
          (case fst (base64_decode (Some (k_base64 rsakey)) s) of
             Inl _ \<Rightarrow> Inl (-1)
           | Inr bytes \<Rightarrow> if length bytes > dstlen then Inl (-2) else Inr bytes))"

section \<open>Mask generation\<close>

definition mgf1 :: "byte list \<Rightarrow> nat \<Rightarrow> byte list" where
  \<comment> \<open>RFC 8017 B.2.1 over SHA-1\<close>
  "mgf1 seed n = take n (concat (map (\<lambda>i. sha1_digest (seed @ be32_of (of_nat i))) [0..<(n + 19) div 20]))"

lemma length_sha1_digest [simp]: "length (sha1_digest m) = 20"
  by (simp add: sha1_digest_def Let_def split: prod.splits)

lemma length_hashes [simp]: "length (concat (map (\<lambda>i. sha1_digest (f i)) [0..<k])) = 20 * k"
  by (induction k) simp_all

lemma length_mgf1 [simp]: "length (mgf1 seed n) = n"
proof -
  have "n \<le> 20 * ((n + 19) div 20)" by linarith
  then show ?thesis by (simp add: mgf1_def)
qed

lemma counter_bytes: "[of_nat (drop_bit 24 i), of_nat (drop_bit 16 i), of_nat (drop_bit 8 i), of_nat i] = be32_of (of_nat i)"
proof -
  have "(of_nat (drop_bit k i) :: byte) = ucast (drop_bit k (of_nat i :: u32))" if "k \<le> 24" for k
    by (rule bit_word_eqI) (use that in \<open>auto simp: bit_simps\<close>)
  from this [of 24] this [of 16] this [of 8] this [of 0] show ?thesis by (simp add: be32_of_def)
qed

lemma rsakey_mfg1_mgf1:
  assumes "\<forall>i. length (mem i) = 64" "length seed < 2147483648" "masklen \<le> 492"
  shows "\<exists>dst. rsakey_mfg1 mem MAX_KEYLEN seed masklen = Some dst \<and> take masklen dst = mgf1 seed masklen"
proof -
  have "(masklen + 19) div 20 * 20 \<le> masklen + 19" by simp
  then have "\<not> 512 < (masklen + 20 - 1) div 20 * 20" using assms(3) by simp
  moreover have "SHA1_Final (SHA1_Update c (SHA1_Update seed (SHA1_Init (mem i)))) = sha1_digest (seed @ c)"
    if "length c = 4" for c i
    using sha1_hash.digest_of_pieces [OF sha1_holds_init [OF assms(1) [THEN spec, of i]], of "[seed, c]"] assms(2) that by simp
  ultimately show ?thesis
    by (simp add: rsakey_mfg1_def mgf1_def counter_bytes Let_def add.commute [of 19])
qed

section \<open>OAEP\<close>

definition xor_bytes :: "byte list \<Rightarrow> byte list \<Rightarrow> byte list" where
  "xor_bytes a b = map2 (\<lambda>x y. x XOR y) a b"

definition oaep_encode :: "nat \<Rightarrow> byte list \<Rightarrow> byte list \<Rightarrow> byte list \<Rightarrow> byte list" where
  \<comment> \<open>RFC 8017 7.1.1 for a key of \<open>k\<close> bytes: seed, hash of the label, message\<close>
  "oaep_encode k seed lhash m =
     (let db = lhash @ replicate (k - 42 - length m) 0 @ 0x01 # m;
          masked_db = xor_bytes db (mgf1 seed (k - 21));
          masked_seed = xor_bytes seed (mgf1 masked_db 20)
      in 0x00 # masked_seed @ masked_db)"

lemma length_xor_bytes [simp]: "length (xor_bytes a b) = min (length a) (length b)"
  by (simp add: xor_bytes_def)

lemma xor_bytes_twice: "length a = length b \<Longrightarrow> xor_bytes (xor_bytes a b) b = a"
  by (induction a b rule: list_induct2) (simp_all add: xor_bytes_def xor.assoc)

lemma xor_at_split:
  assumes "length mid = length m"
  shows "xor_at (length pre) m (pre @ mid @ post) = pre @ xor_bytes mid m @ post"
  using assms by (simp add: xor_at_def write_at_def xor_bytes_def)

lemma first_data_zeros:
  assumes "x \<noteq> 0"
  shows "first_data (pre @ replicate n 0 @ x # m) (length pre) = length pre + n + 1"
proof (induction n arbitrary: pre)
  case 0
  then show ?case using assms by (subst first_data.simps) simp
next
  case (Suc n)
  have "first_data (pre @ replicate (Suc n) 0 @ x # m) (length pre)
      = first_data ((pre @ [0]) @ replicate n 0 @ x # m) (length (pre @ [0]))"
    by (subst first_data.simps) simp
  then show ?case using Suc.IH [of "pre @ [0]"] by simp
qed

lemma oaep_decrypt_block:
  assumes "\<forall>i. length (mem i) = 64" "length seed = 20" "length lhash = 20" "length m + 42 \<le> k" "k \<le> 512"
    "fst (base64_decode (Some (k_base64 key)) s) = Inr input" "length input \<le> k" "k_keylen key = k"
    "k_modpow key (replicate (k - length input) 0 @ input) = oaep_encode k seed lhash m" "length m \<le> dstlen"
  shows "rsakey_decrypt mem key dstlen (Some s) = Inr m"
proof -
  define db where "db = lhash @ replicate (k - 42 - length m) 0 @ 0x01 # m"
  define mdb where "mdb = xor_bytes db (mgf1 seed (k - 21))"
  define mseed where "mseed = xor_bytes seed (mgf1 mdb 20)"
  have len: "length db = k - 21" "length mdb = k - 21" "length mseed = 20"
    using assms(2-4) by (simp_all add: db_def mdb_def mseed_def)
  have em: "oaep_encode k seed lhash m = [0x00] @ mseed @ mdb"
    by (simp add: oaep_encode_def db_def mdb_def mseed_def Let_def)
  have "length mdb < 2147483648" using len(2) assms(5) by linarith
  then obtain d1 where d1: "rsakey_mfg1 mem MAX_KEYLEN mdb 20 = Some d1" "take 20 d1 = mgf1 mdb 20"
    using rsakey_mfg1_mgf1 [OF assms(1), of mdb 20] by auto
  obtain d2 where d2: "rsakey_mfg1 mem MAX_KEYLEN seed (k - 21) = Some d2" "take (k - 21) d2 = mgf1 seed (k - 21)"
    using rsakey_mfg1_mgf1 [OF assms(1), of seed "k - 21"] assms(2,5) by (auto simp: le_diff_conv)
  have "xor_bytes mseed (mgf1 mdb 20) = seed" unfolding mseed_def by (rule xor_bytes_twice) (simp add: assms(2))
  then have b1: "xor_at 1 (take 20 d1) ([0x00] @ mseed @ mdb) = [0x00] @ seed @ mdb"
    using xor_at_split [of mseed "mgf1 mdb 20" "[0x00]" mdb] len(3) by (simp add: d1(2))
  have "xor_bytes mdb (mgf1 seed (k - 21)) = db" unfolding mdb_def by (rule xor_bytes_twice) (simp add: len(1))
  then have b2: "xor_at 21 (take (k - 21) d2) ([0x00] @ seed @ mdb) = [0x00] @ seed @ db"
    using xor_at_split [of mdb "mgf1 seed (k - 21)" "[0x00] @ seed" "[]"] len(2) assms(2) by (simp add: d2(2))
  let ?pre = "[0x00] @ seed @ lhash"
  have pre: "length ?pre = 41" using assms(2,3) by simp
  have buf: "[0x00] @ seed @ db = ?pre @ replicate (k - 42 - length m) 0 @ 0x01 # m" by (simp add: db_def)
  have i: "first_data ([0x00] @ seed @ db) 41 = k - length m"
    using first_data_zeros [of 1 ?pre "k - 42 - length m" m] pre assms(4) unfolding buf by simp
  define e1 e2 e3 where "e1 = [0x00] @ mseed @ mdb" and "e2 = [0x00] @ seed @ mdb" and "e3 = [0x00] @ seed @ db"
  have e: "oaep_encode k seed lhash m = e1" "xor_at (Suc 0) (take 20 d1) e1 = e2" "xor_at 21 (take (k - 21) d2) e2 = e3"
    "first_data e3 41 = k - length m"
    using em b1 b2 i by (simp_all add: e1_def e2_def e3_def)
  have d: "drop 21 e1 = mdb" "take 20 (drop (Suc 0) e2) = seed" "drop (k - length m) e3 = m"
  proof -
    show "drop 21 e1 = mdb" "take 20 (drop (Suc 0) e2) = seed" using len(3) assms(2) by (simp_all add: e1_def e2_def)
    show "drop (k - length m) e3 = m" using pre assms(4) unfolding e3_def buf by (simp add: drop_Cons')
  qed
  show ?thesis
    using assms(4,6-10) d1(1) d2(1) e d by (simp add: rsakey_decrypt_def Let_def)
qed

section \<open>Signatures\<close>

lemma length_sign_block:
  "max 32 (length data) + 3 \<le> keylen \<Longrightarrow> length (sign_block keylen data) = keylen"
  by (auto simp: sign_block_def Let_def)

section \<open>Properties\<close>

text \<open>
  C34. Decryption inverts OAEP: for every key of 42 to 512 bytes, every seed, label hash and message that fits,
  a cipher text whose power is the encoded block is decrypted to exactly the message; a message longer than the
  destination is refused with -5, a missing text with -1.
\<close>

theorem rsa_oaep_decrypts:
  assumes "\<forall>i. length (mem i) = 64" "length seed = 20" "length lhash = 20" "length m + 42 \<le> k_keylen key"
    "k_keylen key \<le> 512" "fst (base64_decode (Some (k_base64 key)) s) = Inr input" "length input \<le> k_keylen key"
    "k_modpow key (replicate (k_keylen key - length input) 0 @ input) = oaep_encode (k_keylen key) seed lhash m"
    "length m \<le> dstlen"
  shows "rsakey_decrypt mem key dstlen (Some s) = Inr m \<and> rsakey_decrypt mem key dstlen None = Inl (-1)"
  using oaep_decrypt_block [OF assms(1-5,6,7) refl assms(8,9)] by (simp add: rsakey_decrypt_def)

definition demo_key :: rsakey where
  "demo_key = \<lparr>k_keylen = 64, k_modpow = (\<lambda>c. oaep_encode 64 (replicate 20 3) (replicate 20 5) [1, 2, 0, 4]),
     k_base64 = default_base64\<rparr>"

theorem rsa_oaep_decrypts_witness:
  "rsakey_decrypt (\<lambda>i. replicate 64 9) demo_key 16 (Some ''AAAA'') = Inr [1, 2, 0, 4]"
proof -
  have "fst (base64_decode (Some default_base64) ''AAAA'') = Inr [0, 0, 0]" by code_simp
  then show ?thesis
    using rsa_oaep_decrypts [of "\<lambda>i. replicate 64 9" "replicate 20 3" "replicate 20 5" "[1, 2, 0, 4]" demo_key
        "''AAAA''" "[0, 0, 0]" 16] by (simp add: demo_key_def)
qed

text \<open>
  A signature is made exactly when the destination holds the encoded key length, the challenge is base64
  and challenge and addresses leave eight bytes of padding; then the block that is raised to the private
  exponent has the length of the key, begins with 00 01 and at least eight FF, and carries challenge, address
  and hardware address padded with zeros to 32 bytes, and the text fits the destination.
\<close>

theorem rsa_signature_block:
  assumes "codec_ok (k_base64 key)" "43 \<le> k_keylen key" "\<And>bs. length (k_modpow key bs) = k_keylen key"
    "rsakey_sign key dstlen challenge ip hw = r"
  shows "(\<forall>text. r = Some (0, Some text) \<longrightarrow> (\<exists>digest n.
      fst (base64_decode (Some (k_base64 key)) challenge) = Inr digest \<and> 8 \<le> n \<and>
      text = base64_encode (Some (k_base64 key)) (k_modpow key (
        [0, 1] @ replicate n 0xff @ [0] @ digest @ ip @ hw @ replicate (32 - length (digest @ ip @ hw)) 0)) \<and>
      length ([0, 1] @ replicate n 0xff @ [0] @ digest @ ip @ hw @ replicate (32 - length (digest @ ip @ hw)) 0) = k_keylen key \<and>
      length text + 1 \<le> dstlen)) \<and>
    r \<noteq> None \<and> (\<forall>err. r = Some (err, None) \<longrightarrow> err \<in> {-1, -2, -3})"
proof (cases "dstlen < base64_encoded_length (Some (k_base64 key)) (k_keylen key)")
  case True
  then show ?thesis using assms(4) by (auto simp: rsakey_sign_def)
next
  case fits: False
  show ?thesis
  proof (cases "fst (base64_decode (Some (k_base64 key)) challenge)")
    case (Inl e)
    then show ?thesis using fits assms(4) by (auto simp: rsakey_sign_def)
  next
    case (Inr digest)
    define data where "data = digest @ ip @ hw"
    show ?thesis
    proof (cases "int (length data) > int (k_keylen key) - 3 - 8")
      case True
      then show ?thesis using Inr fits assms(4) by (auto simp: rsakey_sign_def data_def)
    next
      case False
      then have "length data + 11 \<le> k_keylen key" by linarith
      then have ok: "max 32 (length data) + 3 \<le> k_keylen key" "8 \<le> k_keylen key - max 32 (length data) - 3"
        using assms(2) by (cases "32 \<le> length data"; linarith)+
      let ?text = "base64_encode (Some (k_base64 key)) (k_modpow key (sign_block (k_keylen key) data))"
      have r: "r = Some (0, Some ?text)"
        using Inr fits False ok(1) assms(4) by (auto simp: rsakey_sign_def data_def Let_def)
      have len: "length ?text + 1 \<le> dstlen"
        using fits length_base64_encode [of "k_base64 key" "k_modpow key (sign_block (k_keylen key) data)"] assms(3) by simp
      have "max 32 (length data) - length data = 32 - length data" by simp
      then have blk: "sign_block (k_keylen key) data = [0, 1] @ replicate (k_keylen key - max 32 (length data) - 3) 0xff @ [0]
          @ digest @ ip @ hw @ replicate (32 - length (digest @ ip @ hw)) 0"
        by (simp add: sign_block_def Let_def data_def)
      show ?thesis
        unfolding r using len ok Inr length_sign_block [OF ok(1)]
        by (auto simp only: blk option.inject prod.inject intro!: exI [of _ digest] exI [of _ "k_keylen key - max 32 (length data) - 3"])
    qed
  qed
qed

theorem rsa_signature_block_witness:
  "rsakey_sign (demo_key\<lparr>k_modpow := (\<lambda>c. rev (take 64 c) @ replicate (64 - length c) 0)\<rparr>) 100 ''AAEC'' [10, 0, 0, 1] [1, 2, 3, 4, 5, 6] \<noteq> None"
proof -
  have codec: "codec_ok default_base64" by code_simp
  show ?thesis
    using rsa_signature_block [of "demo_key\<lparr>k_modpow := (\<lambda>c. rev (take 64 c) @ replicate (64 - length c) 0)\<rparr>"
        100 "''AAEC''" "[10, 0, 0, 1]" "[1, 2, 3, 4, 5, 6]"] codec by (simp add: demo_key_def)
qed

end
