(* ===== verification/Aes_Ctr.thy ===== *)
theory Aes_Ctr
  imports Airplay_Prelude
begin

text \<open>
  Counter mode of \<open>libairplay/crypt/new_aes.c\<close>, which decrypts the mirroring stream and the pairing
  signatures: \<open>CRYPTO_ctr128_encrypt\<close> with its word-at-a-time path for aligned pointers and its
  byte-at-a-time path for others. The block function (\<open>new_AES_encrypt\<close> under a key) is an argument.
\<close>

unbundle bit_operations_syntax

record ctr_state =
  ct_ivec :: "byte list"
  ct_ecount :: "byte list"
  ct_num :: nat

section \<open>Operations\<close>

definition inc_step :: "nat \<Rightarrow> byte list \<times> u32 \<Rightarrow> byte list \<times> u32" where
  \<comment> \<open>the body of the loop of \<open>ctr128_inc\<close>\<close>
  "inc_step n s = (case s of (counter, c) \<Rightarrow>
     let c = c + ucast (counter ! n) in (counter[n := ucast c], drop_bit 8 c))"

definition ctr128_inc :: "byte list \<Rightarrow> byte list" where
  "ctr128_inc counter = fst (fold inc_step (rev [0..<16]) (counter, 1))"

fun drain_keystream :: "nat \<Rightarrow> byte list \<Rightarrow> byte list \<Rightarrow> byte list \<times> nat \<times> byte list" where
  \<comment> \<open>\<open>while (n && len)\<close>: the output, \<open>n\<close>, and the input that is left\<close>
  "drain_keystream n ecount [] = ([], n, [])"
| "drain_keystream n ecount (x # xs) =
     (if n = 0 then ([], n, x # xs)
      else let (out, n', rest) = drain_keystream ((n + 1) mod 16) ecount xs in ((x XOR ecount ! n) # out, n', rest))"

definition next_block :: "(byte list \<Rightarrow> byte list) \<Rightarrow> ctr_state \<Rightarrow> ctr_state" where
  "next_block block st = st\<lparr>ct_ecount := block (ct_ivec st), ct_ivec := ctr128_inc (ct_ivec st)\<rparr>"

function ctr_words :: "(byte list \<Rightarrow> byte list) \<Rightarrow> ctr_state \<Rightarrow> byte list \<Rightarrow> byte list \<times> ctr_state" where
  \<comment> \<open>\<open>while (len >= 16)\<close> and the tail behind it\<close>
  "ctr_words block st inp =
     (if 16 \<le> length inp then
        (let st = next_block block st; out = map2 (\<lambda>a b. a XOR b) (take 16 inp) (ct_ecount st);
             (rest, st) = ctr_words block (st\<lparr>ct_num := 0\<rparr>) (drop 16 inp)
         in (out @ rest, st))
      else if inp \<noteq> [] then
        (let st = next_block block st; n = ct_num st
         in (map2 (\<lambda>a b. a XOR b) inp (drop n (ct_ecount st)), st\<lparr>ct_num := n + length inp\<rparr>))
      else ([], st))"
  by pat_completeness auto
termination by (relation "measure (\<lambda>(f, st, inp). length inp)") auto

fun ctr_bytes :: "(byte list \<Rightarrow> byte list) \<Rightarrow> ctr_state \<Rightarrow> byte list \<Rightarrow> byte list \<times> ctr_state" where
  \<comment> \<open>\<open>while (l < len)\<close>\<close>
  "ctr_bytes block st [] = ([], st)"
| "ctr_bytes block st (x # xs) =
     (let st = (if ct_num st = 0 then next_block block st else st);
          y = x XOR ct_ecount st ! ct_num st;
          (out, st) = ctr_bytes block (st\<lparr>ct_num := (ct_num st + 1) mod 16\<rparr>) xs
      in (y # out, st))"

definition CRYPTO_ctr128_encrypt ::
  "(byte list \<Rightarrow> byte list) \<Rightarrow> bool \<Rightarrow> ctr_state \<Rightarrow> byte list \<Rightarrow> byte list \<times> ctr_state" where
  \<comment> \<open>\<open>aligned\<close>: the pointers behind the drained bytes are multiples of the word size\<close>
  "CRYPTO_ctr128_encrypt block aligned st inp =
     (let (out, n, rest) = drain_keystream (ct_num st) (ct_ecount st) inp;
          st = st\<lparr>ct_num := n\<rparr>;
          (out', st) = (if aligned then ctr_words block st rest else ctr_bytes block st rest)
      in (out @ out', st))"

definition new_AES_ctr128_encrypt ::
  "(byte list \<Rightarrow> byte list) \<Rightarrow> bool \<Rightarrow> ctr_state \<Rightarrow> byte list \<Rightarrow> byte list \<times> ctr_state" where
  "new_AES_ctr128_encrypt block aligned st inp = CRYPTO_ctr128_encrypt block aligned st inp"

declare ctr_words.simps [simp del]

section \<open>Both paths are the byte-wise stream\<close>

lemma ctr_bytes_append:
  "ctr_bytes block st (xs @ ys) = (fst (ctr_bytes block st xs) @ fst (ctr_bytes block (snd (ctr_bytes block st xs)) ys),
     snd (ctr_bytes block (snd (ctr_bytes block st xs)) ys))"
  by (induction xs arbitrary: st) (simp_all add: Let_def case_prod_beta)

lemma num_same: "ct_num st = n \<Longrightarrow> st\<lparr>ct_num := n\<rparr> = st"
  by (cases st) simp

lemma drain_bytes:
  "drain_keystream n ecount inp = (out, n', rest) \<Longrightarrow> ct_num st = n \<Longrightarrow> ct_ecount st = ecount \<Longrightarrow>
    ctr_bytes block st inp = (out @ fst (ctr_bytes block (st\<lparr>ct_num := n'\<rparr>) rest), snd (ctr_bytes block (st\<lparr>ct_num := n'\<rparr>) rest))
    \<and> (rest \<noteq> [] \<longrightarrow> n' = 0)"
proof (induction n ecount inp arbitrary: out n' rest st rule: drain_keystream.induct)
  case (1 n ecount)
  then show ?case by simp
next
  case (2 n ecount x xs)
  show ?case
  proof (cases "n = 0")
    case False
    obtain out' where o: "drain_keystream ((n + 1) mod 16) ecount xs = (out', n', rest)" "out = (x XOR ecount ! n) # out'"
      using 2(2) False by (auto simp: Let_def split: prod.splits)
    show ?thesis
      using 2(1) [OF False o(1), of "st\<lparr>ct_num := (n + 1) mod 16\<rparr>"] False 2(3,4) o(2)
      by (simp add: Let_def case_prod_beta)
  next
    case True
    then have "st\<lparr>ct_num := 0\<rparr> = st" using 2(3) by (simp add: num_same)
    moreover have "out = []" "n' = 0" "rest = x # xs" using True 2(2) by simp_all
    ultimately show ?thesis by (simp del: ctr_bytes.simps)
  qed
qed

lemma ctr_bytes_within:
  assumes "0 < ct_num st" "ct_num st < 16" "ct_num st + length xs \<le> 16" "length (ct_ecount st) = 16"
  shows "ctr_bytes block st xs = (map2 (\<lambda>a b. a XOR b) xs (drop (ct_num st) (ct_ecount st)),
    st\<lparr>ct_num := (if ct_num st + length xs = 16 then 0 else ct_num st + length xs)\<rparr>)"
  using assms
proof (induction xs arbitrary: st)
  case (Cons x xs)
  have d: "drop (ct_num st) (ct_ecount st) = ct_ecount st ! ct_num st # drop (Suc (ct_num st)) (ct_ecount st)"
    using Cons.prems by (intro Cons_nth_drop_Suc [symmetric]) simp
  show ?case
  proof (cases "xs = []")
    case True
    then show ?thesis using Cons.prems d by auto
  next
    case False
    then have lt: "Suc (ct_num st) < 16" using Cons.prems by (cases xs) auto
    then show ?thesis
      using Cons.IH [of "st\<lparr>ct_num := Suc (ct_num st)\<rparr>"] Cons.prems d by (simp add: Let_def case_prod_beta)
  qed
qed (simp add: num_same)

lemma ctr_bytes_fresh:
  assumes "ct_num st = 0" "xs \<noteq> []" "length xs \<le> 16" "length (block (ct_ivec st)) = 16"
  shows "ctr_bytes block st xs = (map2 (\<lambda>a b. a XOR b) xs (ct_ecount (next_block block st)),
    (next_block block st)\<lparr>ct_num := (if length xs = 16 then 0 else length xs)\<rparr>)"
proof -
  obtain x ys where xs: "xs = x # ys" using assms(2) by (cases xs) auto
  let ?st = "next_block block st"
  have st: "ct_num ?st = 0" "length (ct_ecount ?st) = 16" using assms by (simp_all add: next_block_def)
  have e: "ct_ecount ?st = ct_ecount ?st ! 0 # drop 1 (ct_ecount ?st)"
    using Cons_nth_drop_Suc [of 0 "ct_ecount ?st"] st(2) by simp
  have "ctr_bytes block (?st\<lparr>ct_num := 1\<rparr>) ys = (map2 (\<lambda>a b. a XOR b) ys (drop 1 (ct_ecount ?st)),
      ?st\<lparr>ct_num := (if 1 + length ys = 16 then 0 else 1 + length ys)\<rparr>)"
    using ctr_bytes_within [of "?st\<lparr>ct_num := 1\<rparr>" ys block] assms(3) st(2) by (simp add: xs)
  then show ?thesis
    using assms(1) st(1) by (subst e) (simp add: xs Let_def)
qed

lemma ctr_words_bytes:
  assumes "ct_num st = 0 \<or> inp = []" "\<And>iv. length (block iv) = 16"
  shows "ctr_words block st inp = ctr_bytes block st inp"
  using assms(1)
proof (induction "length inp" arbitrary: st inp rule: less_induct)
  case less
  show ?case
  proof (cases "16 \<le> length inp")
    case True
    let ?st = "(next_block block st)\<lparr>ct_num := 0\<rparr>"
    have z: "ct_num st = 0" using True less.prems by auto
    have f: "ctr_bytes block st (take 16 inp) = (map2 (\<lambda>a b. a XOR b) (take 16 inp) (ct_ecount ?st), ?st)"
    proof -
      have "take 16 inp \<noteq> []" "length (take 16 inp) = 16" using True by auto
      then show ?thesis using z assms(2) [of "ct_ivec st"] by (subst ctr_bytes_fresh) simp_all
    qed
    have "ctr_words block ?st (drop 16 inp) = ctr_bytes block ?st (drop 16 inp)"
      using less.hyps [of "drop 16 inp" ?st] True by simp
    then show ?thesis
      using True ctr_bytes_append [of block st "take 16 inp" "drop 16 inp"] f
      by (subst ctr_words.simps) (simp add: Let_def case_prod_beta)
  next
    case False
    then show ?thesis
      using ctr_bytes_fresh [of st inp block] less.prems assms(2)
      by (subst ctr_words.simps) (auto simp: Let_def next_block_def)
  qed
qed

section \<open>The stream law\<close>

lemma ctr_encrypt_bytes:
  assumes "\<And>iv. length (block iv) = 16"
  shows "CRYPTO_ctr128_encrypt block aligned st inp = ctr_bytes block st inp"
proof -
  obtain out n rest where d: "drain_keystream (ct_num st) (ct_ecount st) inp = (out, n, rest)" by (rule prod_cases3)
  have b: "ctr_bytes block st inp = (out @ fst (ctr_bytes block (st\<lparr>ct_num := n\<rparr>) rest), snd (ctr_bytes block (st\<lparr>ct_num := n\<rparr>) rest))"
    "rest \<noteq> [] \<longrightarrow> n = 0"
    using drain_bytes [OF d refl refl, of block] by auto
  then show ?thesis
    using ctr_words_bytes [of "st\<lparr>ct_num := n\<rparr>" rest block] assms
    by (auto simp: CRYPTO_ctr128_encrypt_def d Let_def case_prod_beta)
qed

lemma ctr_bytes_twice: "ctr_bytes block st (fst (ctr_bytes block st xs)) = (xs, snd (ctr_bytes block st xs))"
  by (induction xs arbitrary: st) (simp_all add: Let_def case_prod_beta xor.assoc)

fun ctr_calls :: "(byte list \<Rightarrow> byte list) \<Rightarrow> ctr_state \<Rightarrow> (bool \<times> byte list) list \<Rightarrow> byte list" where
  \<comment> \<open>successive calls on one state, each with its own alignment\<close>
  "ctr_calls block st [] = []"
| "ctr_calls block st ((aligned, piece) # ps) =
     (let (out, st) = new_AES_ctr128_encrypt block aligned st piece in out @ ctr_calls block st ps)"

lemma ctr_calls_bytes:
  assumes "\<And>iv. length (block iv) = 16"
  shows "ctr_calls block st ps = fst (ctr_bytes block st (concat (map snd ps)))"
  by (induction ps arbitrary: st)
    (auto simp: new_AES_ctr128_encrypt_def ctr_encrypt_bytes [OF assms] ctr_bytes_append case_prod_beta)

section \<open>The counter\<close>

definition be_value :: "byte list \<Rightarrow> nat" where
  "be_value bs = foldl (\<lambda>a b. 256 * a + unat b) 0 bs"

lemma be_value_snoc: "be_value (bs @ [b]) = 256 * be_value bs + unat b"
  by (simp add: be_value_def)

lemma mod_step: "(256 * v + s) mod (256 * m) = 256 * ((v + s div 256) mod m) + s mod (256 :: nat)"
  using mod_mult2_eq [of "256 * v + s" 256 m] by simp

lemma inc_loop:
  assumes "n \<le> length counter" "c < 2" "fold inc_step (rev [0..<n]) (counter, c) = (counter', c')"
  shows "length counter' = length counter \<and> drop n counter' = drop n counter \<and>
    be_value (take n counter') = (be_value (take n counter) + unat c) mod 256 ^ n"
  using assms
proof (induction n arbitrary: counter c)
  case (Suc n)
  define s where "s = unat (counter ! n) + unat c"
  have c: "unat c < 2" using Suc.prems(2) by (simp add: word_less_nat_alt)
  have sb: "s < 512" using unat_byte_lt [of "counter ! n"] c unfolding s_def by linarith
  define k where "k = c + ucast (counter ! n)"
  have k: "unat k = s"
    using sb by (simp add: k_def s_def unat_word_ariths unat_ucast_byte)
  have "unat (drop_bit 8 k) = s div 256" by (simp only: unat_drop_bit_eq k, simp only: drop_bit_eq_div) simp
  moreover have "s div 256 < 2" using sb by (simp add: div_less_iff_less_mult)
  ultimately have k8: "drop_bit 8 k < 2" "unat (drop_bit 8 k) = s div 256"
    by (simp_all add: word_less_nat_alt)
  have kb: "unat (ucast k :: byte) = s mod 256"
    by (simp add: unsigned_ucast_eq take_bit_eq_mod k)
  have step: "inc_step n (counter, c) = (counter[n := ucast k], drop_bit 8 k)"
    by (simp add: inc_step_def Let_def k_def)
  have "fold inc_step (rev [0..<n]) (counter[n := ucast k], drop_bit 8 k) = (counter', c')"
    using Suc.prems(3) step by simp
  from Suc.IH [OF _ k8(1) this] Suc.prems(1)
  have IH: "length counter' = length counter" "drop n counter' = drop n (counter[n := ucast k])"
    "be_value (take n counter') = (be_value (take n counter) + s div 256) mod 256 ^ n"
    by (simp_all add: k8(2))
  have n: "counter' ! n = ucast k"
    using IH(1,2) Suc.prems(1) by (metis Suc_le_lessD hd_drop_conv_nth length_list_update nth_list_update_eq)
  have "drop (Suc n) counter' = drop 1 (drop n counter')" by simp
  also have "\<dots> = drop (Suc n) counter" unfolding IH(2) by (simp add: drop_update_cancel)
  finally have "drop (Suc n) counter' = drop (Suc n) counter" .
  moreover have "be_value (take (Suc n) counter') = 256 * be_value (take n counter') + s mod 256"
    using Suc.prems(1) IH(1) n kb by (simp add: take_Suc_conv_app_nth be_value_snoc)
  moreover have "be_value (take (Suc n) counter) + unat c = 256 * be_value (take n counter) + s"
    using Suc.prems(1) by (simp add: take_Suc_conv_app_nth be_value_snoc s_def)
  ultimately show ?case using IH(1,3) mod_step [of "be_value (take n counter)" s "256 ^ n"] by simp
qed (simp add: be_value_def)

lemma ctr128_inc_value:
  assumes "length counter = 16"
  shows "be_value (ctr128_inc counter) = (be_value counter + 1) mod 2 ^ 128" "length (ctr128_inc counter) = 16"
proof -
  obtain counter' c' where f: "fold inc_step (rev [0..<16]) (counter, 1) = (counter', c')" by (rule prod.exhaust)
  have l: "length counter' = 16" "be_value (take 16 counter') = (be_value (take 16 counter) + 1) mod 256 ^ 16"
  proof -
    have "(16 :: nat) \<le> length counter" "(1 :: u32) < 2" using assms by simp_all
    note inc_loop [OF this f]
    then show "length counter' = 16" "be_value (take 16 counter') = (be_value (take 16 counter) + 1) mod 256 ^ 16"
      using assms unat_1 by metis+
  qed
  moreover have "(256 :: nat) ^ 16 = 2 ^ 128" by simp
  moreover have "take 16 counter' = counter'" "take 16 counter = counter" using l(1) assms by simp_all
  ultimately have "be_value counter' = (be_value counter + 1) mod 2 ^ 128" by metis
  with l(1) show "be_value (ctr128_inc counter) = (be_value counter + 1) mod 2 ^ 128"
    "length (ctr128_inc counter) = 16"
    unfolding ctr128_inc_def f by simp_all
qed

section \<open>Properties\<close>

text \<open>
  C33. For every block function the word-wise and the byte-wise path of \<open>CRYPTO_ctr128_encrypt\<close> give the same
  output and the same state, whatever is left of the current key block; so a stream that was encrypted in
  some pieces is decrypted in any other pieces, whatever the alignment of each buffer. Each key block
  advances the counter by one as a 128-bit big-endian number.
\<close>

theorem ctr_paths_and_pieces:
  assumes "\<And>iv. length (block iv) = 16" "concat (map snd received) = ctr_calls block st sent"
  shows "new_AES_ctr128_encrypt block True st inp = new_AES_ctr128_encrypt block False st inp \<and>
    ctr_calls block st received = concat (map snd sent) \<and>
    (length (ct_ivec st) = 16 \<longrightarrow>
       be_value (ct_ivec (next_block block st)) = (be_value (ct_ivec st) + 1) mod 2 ^ 128)"
  using assms(2) ctr_bytes_twice [of block st "concat (map snd sent)"]
  by (simp add: new_AES_ctr128_encrypt_def ctr_encrypt_bytes [OF assms(1)] ctr_calls_bytes [OF assms(1)] next_block_def
      ctr128_inc_value)

definition demo_ctr :: ctr_state where
  "demo_ctr = \<lparr>ct_ivec = [0, 0, 0, 0] @ [0, 0, 0, 0] @ [0, 0, 0, 0] @ [0, 0, 0, 255], ct_ecount = replicate 16 0, ct_num = 0\<rparr>"

definition demo_block :: "byte list \<Rightarrow> byte list" where
  "demo_block iv = map (\<lambda>b. b XOR 0xa5) (take 16 (iv @ replicate 16 0))"

theorem ctr_paths_and_pieces_witness:
  "\<exists>c. ctr_calls demo_block demo_ctr [(True, [1, 2]), (False, replicate 17 3)] = c
    \<and> ctr_calls demo_block demo_ctr [(False, take 5 c), (True, drop 5 c)] = [1, 2] @ replicate 17 3
    \<and> be_value (ct_ivec (next_block demo_block demo_ctr)) = 256"
proof -
  let ?sent = "[(True, [1, 2]), (False, replicate 17 3)]" and ?c = "ctr_calls demo_block demo_ctr [(True, [1, 2]), (False, replicate 17 3)]"
  have len: "length (demo_block iv) = 16" for iv by (simp add: demo_block_def)
  have "concat (map snd [(False, take 5 ?c), (True, drop 5 ?c)]) = ?c" by simp
  note c = ctr_paths_and_pieces [OF len this]
  have "length (ct_ivec demo_ctr) = 16" "(be_value (ct_ivec demo_ctr) + 1) mod 2 ^ 128 = 256"
    by (simp_all add: demo_ctr_def be_value_def)
  with c have "be_value (ct_ivec (next_block demo_block demo_ctr)) = 256" by metis
  moreover have "concat (map snd ?sent) = [1, 2] @ replicate 17 3" by simp
  ultimately show ?thesis using c by metis
qed

end
