(* ===== verification/Fairplay.thy ===== *)
theory Fairplay
  imports Airplay_Prelude
begin

text \<open>
  The FairPlay entry points: \<open>fairplay_setup\<close> and \<open>fairplay_decrypt\<close> of \<open>libairplay/airplay/dmr/playfair.c\<close>,
  and the helpers of \<open>libairplay/airplay/fairplay.c\<close>. A message is the byte string the pointer addresses, up to
  the end of its block. The obfuscated cipher (\<open>omg_hax.c\<close>, \<open>hand_garble.c\<close> and their tables) and the
  SHA-512 implementation are arguments.
\<close>

unbundle bit_operations_syntax

section \<open>Setup\<close>

datatype fp_error = FpOutOfBounds | FpUninitialised

abbreviation SETUP1_RESPONSE_LENGTH :: nat where "SETUP1_RESPONSE_LENGTH \<equiv> 142"
abbreviation SETUP2_RESPONSE_LENGTH :: nat where "SETUP2_RESPONSE_LENGTH \<equiv> 32"
abbreviation SETUP2_RESPONSE_SUFFIX_LENGTH :: nat where "SETUP2_RESPONSE_SUFFIX_LENGTH \<equiv> 20"

definition reply_message :: "byte list list" where
  "reply_message =
    [[0x46, 0x50, 0x4c, 0x59, 0x03, 0x01, 0x02, 0x00, 0x00, 0x00, 0x00, 0x82, 0x02, 0x00, 0x0f, 0x9f, 0x3f, 0x9e, 0x0a, 0x25, 0x21, 0xdb, 0xdf, 0x31,
      0x2a, 0xb2, 0xbf, 0xb2, 0x9e, 0x8d, 0x23, 0x2b, 0x63, 0x76, 0xa8, 0xc8, 0x18, 0x70, 0x1d, 0x22, 0xae, 0x93, 0xd8, 0x27, 0x37, 0xfe, 0xaf, 0x9d,
      0xb4, 0xfd, 0xf4, 0x1c, 0x2d, 0xba, 0x9d, 0x1f, 0x49, 0xca, 0xaa, 0xbf, 0x65, 0x91, 0xac, 0x1f, 0x7b, 0xc6, 0xf7, 0xe0, 0x66, 0x3d, 0x21, 0xaf,
      0xe0, 0x15, 0x65, 0x95, 0x3e, 0xab, 0x81, 0xf4, 0x18, 0xce, 0xed, 0x09, 0x5a, 0xdb, 0x7c, 0x3d, 0x0e, 0x25, 0x49, 0x09, 0xa7, 0x98, 0x31, 0xd4,
      0x9c, 0x39, 0x82, 0x97, 0x34, 0x34, 0xfa, 0xcb, 0x42, 0xc6, 0x3a, 0x1c, 0xd9, 0x11, 0xa6, 0xfe, 0x94, 0x1a, 0x8a, 0x6d, 0x4a, 0x74, 0x3b, 0x46,
      0xc3, 0xa7, 0x64, 0x9e, 0x44, 0xc7, 0x89, 0x55, 0xe4, 0x9d, 0x81, 0x55, 0x00, 0x95, 0x49, 0xc4, 0xe2, 0xf7, 0xa3, 0xf6, 0xd5, 0xba],
     [0x46, 0x50, 0x4c, 0x59, 0x03, 0x01, 0x02, 0x00, 0x00, 0x00, 0x00, 0x82, 0x02, 0x01, 0xcf, 0x32, 0xa2, 0x57, 0x14, 0xb2, 0x52, 0x4f, 0x8a, 0xa0,
      0xad, 0x7a, 0xf1, 0x64, 0xe3, 0x7b, 0xcf, 0x44, 0x24, 0xe2, 0x00, 0x04, 0x7e, 0xfc, 0x0a, 0xd6, 0x7a, 0xfc, 0xd9, 0x5d, 0xed, 0x1c, 0x27, 0x30,
      0xbb, 0x59, 0x1b, 0x96, 0x2e, 0xd6, 0x3a, 0x9c, 0x4d, 0xed, 0x88, 0xba, 0x8f, 0xc7, 0x8d, 0xe6, 0x4d, 0x91, 0xcc, 0xfd, 0x5c, 0x7b, 0x56, 0xda,
      0x88, 0xe3, 0x1f, 0x5c, 0xce, 0xaf, 0xc7, 0x43, 0x19, 0x95, 0xa0, 0x16, 0x65, 0xa5, 0x4e, 0x19, 0x39, 0xd2, 0x5b, 0x94, 0xdb, 0x64, 0xb9, 0xe4,
      0x5d, 0x8d, 0x06, 0x3e, 0x1e, 0x6a, 0xf0, 0x7e, 0x96, 0x56, 0x16, 0x2b, 0x0e, 0xfa, 0x40, 0x42, 0x75, 0xea, 0x5a, 0x44, 0xd9, 0x59, 0x1c, 0x72,
      0x56, 0xb9, 0xfb, 0xe6, 0x51, 0x38, 0x98, 0xb8, 0x02, 0x27, 0x72, 0x19, 0x88, 0x57, 0x16, 0x50, 0x94, 0x2a, 0xd9, 0x46, 0x68, 0x8a],
     [0x46, 0x50, 0x4c, 0x59, 0x03, 0x01, 0x02, 0x00, 0x00, 0x00, 0x00, 0x82, 0x02, 0x02, 0xc1, 0x69, 0xa3, 0x52, 0xee, 0xed, 0x35, 0xb1, 0x8c, 0xdd,
      0x9c, 0x58, 0xd6, 0x4f, 0x16, 0xc1, 0x51, 0x9a, 0x89, 0xeb, 0x53, 0x17, 0xbd, 0x0d, 0x43, 0x36, 0xcd, 0x68, 0xf6, 0x38, 0xff, 0x9d, 0x01, 0x6a,
      0x5b, 0x52, 0xb7, 0xfa, 0x92, 0x16, 0xb2, 0xb6, 0x54, 0x82, 0xc7, 0x84, 0x44, 0x11, 0x81, 0x21, 0xa2, 0xc7, 0xfe, 0xd8, 0x3d, 0xb7, 0x11, 0x9e,
      0x91, 0x82, 0xaa, 0xd7, 0xd1, 0x8c, 0x70, 0x63, 0xe2, 0xa4, 0x57, 0x55, 0x59, 0x10, 0xaf, 0x9e, 0x0e, 0xfc, 0x76, 0x34, 0x7d, 0x16, 0x40, 0x43,
      0x80, 0x7f, 0x58, 0x1e, 0xe4, 0xfb, 0xe4, 0x2c, 0xa9, 0xde, 0xdc, 0x1b, 0x5e, 0xb2, 0xa3, 0xaa, 0x3d, 0x2e, 0xcd, 0x59, 0xe7, 0xee, 0xe7, 0x0b,
      0x36, 0x29, 0xf2, 0x2a, 0xfd, 0x16, 0x1d, 0x87, 0x73, 0x53, 0xdd, 0xb9, 0x9a, 0xdc, 0x8e, 0x07, 0x00, 0x6e, 0x56, 0xf8, 0x50, 0xce],
     [0x46, 0x50, 0x4c, 0x59, 0x03, 0x01, 0x02, 0x00, 0x00, 0x00, 0x00, 0x82, 0x02, 0x03, 0x90, 0x01, 0xe1, 0x72, 0x7e, 0x0f, 0x57, 0xf9, 0xf5, 0x88,
      0x0d, 0xb1, 0x04, 0xa6, 0x25, 0x7a, 0x23, 0xf5, 0xcf, 0xff, 0x1a, 0xbb, 0xe1, 0xe9, 0x30, 0x45, 0x25, 0x1a, 0xfb, 0x97, 0xeb, 0x9f, 0xc0, 0x01,
      0x1e, 0xbe, 0x0f, 0x3a, 0x81, 0xdf, 0x5b, 0x69, 0x1d, 0x76, 0xac, 0xb2, 0xf7, 0xa5, 0xc7, 0x08, 0xe3, 0xd3, 0x28, 0xf5, 0x6b, 0xb3, 0x9d, 0xbd,
      0xe5, 0xf2, 0x9c, 0x8a, 0x17, 0xf4, 0x81, 0x48, 0x7e, 0x3a, 0xe8, 0x63, 0xc6, 0x78, 0x32, 0x54, 0x22, 0xe6, 0xf7, 0x8e, 0x16, 0x6d, 0x18, 0xaa,
      0x7f, 0xd6, 0x36, 0x25, 0x8b, 0xce, 0x28, 0x72, 0x6f, 0x66, 0x1f, 0x73, 0x88, 0x93, 0xce, 0x44, 0x31, 0x1e, 0x4b, 0xe6, 0xc0, 0x53, 0x51, 0x93,
      0xe5, 0xef, 0x72, 0xe8, 0x68, 0x62, 0x33, 0x72, 0x9c, 0x22, 0x7d, 0x82, 0x0c, 0x99, 0x94, 0x45, 0xd8, 0x92, 0x46, 0xc8, 0xc3, 0x59]]"

definition fp_header :: "byte list" where
  "fp_header = [0x46, 0x50, 0x4c, 0x59, 0x03, 0x01, 0x04, 0x00, 0x00, 0x00, 0x00, 0x14]"

definition fairplay_setup :: "byte list \<Rightarrow> nat \<Rightarrow> fp_error + byte list option" where
  \<comment> \<open>\<open>None\<close> is the NULL returned. The characters are unsigned, as on the ARM targets of the build; an
     allocation succeeds.\<close>
  "fairplay_setup message len =
     (if length message < 7 then Inl FpOutOfBounds
      else let type = message ! 5; seq = message ! 6
      in if type = 1 then
           (if seq = 1 then
              (if length message < 15 then Inl FpOutOfBounds
               else let mode = unat (message ! 14)
               in if mode < length reply_message then Inr (Some (reply_message ! mode)) else Inl FpOutOfBounds)
            else if seq = 3 then
              (if len < SETUP2_RESPONSE_SUFFIX_LENGTH \<or> length message < len then Inl FpOutOfBounds
               else Inr (Some (fp_header @ take SETUP2_RESPONSE_SUFFIX_LENGTH
                                 (drop (len - SETUP2_RESPONSE_SUFFIX_LENGTH) message))))
            else Inl FpUninitialised)
         else Inr None)"

section \<open>Decryption of the session key\<close>

record playfair =
  pf_session_key :: "byte list \<Rightarrow> byte list"        \<comment> \<open>\<open>generate_session_key(default_sap, message3, sapKey)\<close>\<close>
  pf_cycle :: "byte list \<Rightarrow> byte list \<Rightarrow> byte list" \<comment> \<open>\<open>generate_key_schedule\<close> of the key, then \<open>cycle\<close>\<close>
  pf_z_xor :: "byte list \<Rightarrow> byte list"
  pf_x_xor :: "byte list \<Rightarrow> byte list"

definition fairplay_decrypt :: "playfair \<Rightarrow> byte list \<Rightarrow> byte list \<Rightarrow> fp_error + byte list option" where
  \<comment> \<open>the memory that can be read from the two pointers on, of which \<open>print_block\<close> reads eleven and five blocks
     of 16 bytes whatever the message is; \<open>None\<close> is the NULL returned\<close>
  "fairplay_decrypt pf message3 cipherText =
     (if length message3 < 0xA0 + 16 \<or> length cipherText < 0x40 + 16 then Inl FpOutOfBounds
      else if message3 ! 5 \<noteq> 1 \<or> message3 ! 6 \<noteq> 3 \<or> cipherText ! 5 \<noteq> 2 then Inr None
      else let chunk1 = take 16 (drop 16 cipherText);
               chunk2 = take 16 (drop 56 cipherText);
               sapKey = pf_session_key pf message3;
               blockIn = pf_cycle pf sapKey (pf_z_xor pf chunk2);
               keyOut = map2 (\<lambda>a b. a XOR b) blockIn chunk1
           in Inr (Some (pf_z_xor pf (pf_x_xor pf keyOut))))"

section \<open>Queries and digests\<close>

record query_io =
  q_connect :: int                        \<comment> \<open>the descriptor \<open>get_fairplay_socket\<close> answers when none is open\<close>
  q_send :: int                           \<comment> \<open>\<open>send\<close>\<close>
  q_recv :: "byte list option"            \<comment> \<open>\<open>recv\<close>, \<open>None\<close> for -1; at most 1024 bytes\<close>

definition fairplay_query :: "query_io \<Rightarrow> int \<Rightarrow> byte list \<Rightarrow> int \<Rightarrow> (byte list \<times> byte list option \<times> int) option" where
  \<comment> \<open>the bytes sent, the block returned (its length is what is stored through \<open>size_p\<close>) and the new
     \<open>fairplay_sock_fd\<close>; \<open>None\<close>: \<open>data\<close> does not fit \<open>sendbuf\<close>\<close>
  "fairplay_query io cmd data fd =
     (if cmd < 1 \<or> cmd > 3 then Some ([], None, fd)
      else let fd = (if fd > 0 then fd else q_connect io);
               sendbuf = [of_int cmd, of_nat (length data + 2)] @ data
           in if length data + 2 > 1024 then None
           else if q_send io < 0 then Some (sendbuf, None, 0)
           else case q_recv io of
               None \<Rightarrow> Some (sendbuf, None, 0)
             | Some bs \<Rightarrow>
                 if bs = [] then Some (sendbuf, None, 0)
                 else Some (sendbuf, Some (take 1024 bs), if cmd = 3 then 0 else fd))"

definition sha512msg :: "(byte list list \<Rightarrow> byte list) \<Rightarrow> byte list \<Rightarrow> byte list \<Rightarrow> byte list" where
  \<comment> \<open>\<open>sha512\<close> of the pieces one after the other\<close>
  "sha512msg sha512 msg1 msg2 = sha512 [msg1, msg2]"

definition sha512msg2 :: "(byte list list \<Rightarrow> byte list) \<Rightarrow> byte list \<Rightarrow> byte list \<Rightarrow> byte list \<Rightarrow> byte list \<times> byte list" where
  "sha512msg2 sha512 msg1 msg2 key = (sha512 [msg1, take 16 key], sha512 [msg2, take 16 key])"

lemma reply_lengths: "list_all (\<lambda>r. length r = SETUP1_RESPONSE_LENGTH) reply_message \<and> length reply_message = 4"
  by (simp add: reply_message_def)

lemma length_reply [simp]: "mode < 4 \<Longrightarrow> length (reply_message ! mode) = SETUP1_RESPONSE_LENGTH"
  using reply_lengths by (auto simp: list_all_length)

lemma length_reply_message [simp]: "length reply_message = 4"
  using reply_lengths by simp

lemma length_fp_header [simp]: "length fp_header = 12"
  by (simp add: fp_header_def)

end
