(* ===== verification/Pairing.thy ===== *)
theory Pairing
  imports Aes_Ctr Fairplay
begin

text \<open>
  The pairing data of \<open>libairplay/airplay/global.h\<close> (one per server, not per connection) and the operations the
  handlers of \<open>raop.c\<close> and \<open>airplay.c\<close> perform on it: pair-setup, and the two messages of pair-verify.
  The signature scheme, the Diffie-Hellman function, SHA-512 and the AES block are arguments, collected in
  \<open>pair_crypto\<close>. The specification is the client's side of the exchange.
\<close>

section \<open>State and operations\<close>

record pair_crypto =
  pc_donna :: "byte list \<Rightarrow> byte list option \<Rightarrow> byte list"  \<comment> \<open>\<open>curve25519_donna\<close>, \<open>None\<close> for the NULL base point\<close>
  pc_sign :: "byte list \<Rightarrow> byte list \<Rightarrow> byte list \<Rightarrow> byte list"
  pc_verify :: "byte list \<Rightarrow> byte list \<Rightarrow> byte list \<Rightarrow> bool"
  pc_sha512 :: "byte list list \<Rightarrow> byte list"
  pc_aes :: "byte list option \<Rightarrow> byte list \<Rightarrow> byte list"     \<comment> \<open>\<open>None\<close>: the zeroed schedule before a key is set\<close>

record air_pair =
  pr_cv_pub :: "byte list"
  pr_cv_pri :: "byte list"
  pr_cv_sha :: "byte list"
  pr_cv_his :: "byte list"
  pr_ed_pub :: "byte list"
  pr_ed_pri :: "byte list"
  pr_ed_his :: "byte list"
  pr_ctr_key :: "byte list"
  pr_ctr :: ctr_state                                     \<comment> \<open>\<open>ctr_iv\<close>, \<open>ctr_ec\<close>, \<open>ctr_num\<close>\<close>
  pr_aes_key :: "byte list option"

definition zero_pair :: air_pair where
  "zero_pair = \<lparr>pr_cv_pub = replicate 32 0, pr_cv_pri = replicate 32 0, pr_cv_sha = replicate 32 0,
     pr_cv_his = replicate 32 0, pr_ed_pub = replicate 32 0, pr_ed_pri = replicate 64 0, pr_ed_his = replicate 32 0,
     pr_ctr_key = replicate 16 0, pr_ctr = \<lparr>ct_ivec = replicate 16 0, ct_ecount = replicate 16 0, ct_num = 0\<rparr>,
     pr_aes_key = None\<rparr>"

definition ascii :: "string \<Rightarrow> byte list" where
  "ascii s = map of_char s"

definition pair_setup :: "byte list \<times> byte list \<Rightarrow> byte list \<Rightarrow> air_pair \<Rightarrow> air_pair" where
  \<comment> \<open>with the global key pair \<open>g_ed_public_key\<close>, \<open>g_ed_private_key\<close>\<close>
  "pair_setup keys body cx =
     (let cx = cx\<lparr>pr_ed_pub := fst keys, pr_ed_pri := snd keys\<rparr>
      in if length body = 32 then cx\<lparr>pr_ed_his := body\<rparr> else cx)"

datatype verify_reply =
    VerifyNull                   \<comment> \<open>\<open>*body_data\<close> with no body\<close>
  | VerifyOutOfBounds            \<comment> \<open>the copies read behind the body\<close>
  | Challenge "byte list"        \<comment> \<open>the answer to the first message\<close>
  | Accepted                     \<comment> \<open>the signature of the second message is valid\<close>
  | Rejected

definition pair_start :: "pair_crypto \<Rightarrow> bool \<Rightarrow> byte list \<Rightarrow> byte list \<Rightarrow> air_pair \<Rightarrow> air_pair \<times> byte list" where
  \<comment> \<open>the first message; \<open>seed\<close> is what \<open>ed25519_create_seed\<close> leaves in \<open>cv_pri\<close>\<close>
  "pair_start pc aligned seed body cx =
     (let cx = cx\<lparr>pr_cv_his := take 32 (drop 4 body), pr_ed_his := take 32 (drop 36 body), pr_cv_pri := seed\<rparr>;
          cx = cx\<lparr>pr_cv_pub := pc_donna pc (pr_cv_pri cx) None\<rparr>;
          cx = cx\<lparr>pr_cv_sha := pc_donna pc (pr_cv_pri cx) (Some (pr_cv_his cx))\<rparr>;
          ed_msg = pr_cv_pub cx @ pr_cv_his cx;
          ed_sig = pc_sign pc ed_msg (pr_ed_pub cx) (pr_ed_pri cx);
          key_buf = sha512msg (pc_sha512 pc) (ascii ''Pair-Verify-AES-Key'') (pr_cv_sha cx);
          iv_buf = sha512msg (pc_sha512 pc) (ascii ''Pair-Verify-AES-IV'') (pr_cv_sha cx);
          cx = cx\<lparr>pr_ctr_key := take 16 key_buf,
                  pr_ctr := \<lparr>ct_ivec = take 16 iv_buf, ct_ecount = replicate 16 0, ct_num = 0\<rparr>\<rparr>;
          cx = cx\<lparr>pr_aes_key := Some (pr_ctr_key cx)\<rparr>;
          (ed_sig, st) = new_AES_ctr128_encrypt (pc_aes pc (pr_aes_key cx)) aligned (pr_ctr cx) ed_sig
      in (cx\<lparr>pr_ctr := st\<rparr>, pr_cv_pub cx @ ed_sig))"

definition pair_finish :: "pair_crypto \<Rightarrow> bool \<Rightarrow> byte list \<Rightarrow> air_pair \<Rightarrow> air_pair \<times> bool" where
  \<comment> \<open>the second message\<close>
  "pair_finish pc aligned body cx =
     (let (ed_sig, st) = new_AES_ctr128_encrypt (pc_aes pc (pr_aes_key cx)) aligned (pr_ctr cx) (take 64 (drop 4 body));
          cx = cx\<lparr>pr_ctr := st\<rparr>;
          ed_msg = pr_cv_his cx @ pr_cv_pub cx
      in (cx, pc_verify pc ed_sig ed_msg (pr_ed_his cx)))"

definition pair_verify :: "pair_crypto \<Rightarrow> bool \<Rightarrow> byte list \<Rightarrow> byte list \<Rightarrow> air_pair \<Rightarrow> air_pair \<times> verify_reply" where
  "pair_verify pc aligned seed body cx =
     (if body = [] then (cx, VerifyNull)
      else if length body < 68 then (cx, VerifyOutOfBounds)
      else if body ! 0 = 1 then (let (cx, reply) = pair_start pc aligned seed body cx in (cx, Challenge reply))
      else (let (cx, ok) = pair_finish pc aligned body cx in (cx, if ok then Accepted else Rejected)))"

section \<open>The client's side\<close>

record pair_client =
  cl_pri :: "byte list"           \<comment> \<open>its Diffie-Hellman secret\<close>
  cl_ed_pub :: "byte list"
  cl_ed_pri :: "byte list"

definition client_hello :: "pair_crypto \<Rightarrow> pair_client \<Rightarrow> byte list" where
  "client_hello pc c = [1, 0, 0, 0] @ pc_donna pc (cl_pri c) None @ cl_ed_pub c"

definition client_answer :: "pair_crypto \<Rightarrow> pair_client \<Rightarrow> byte list \<Rightarrow> byte list \<times> byte list" where
  \<comment> \<open>the signature it finds in the server's answer and its second message\<close>
  "client_answer pc c answer =
     (let his = take 32 answer;
          secret = pc_donna pc (cl_pri c) (Some his);
          block = pc_aes pc (Some (take 16 (pc_sha512 pc [ascii ''Pair-Verify-AES-Key'', secret])));
          st = \<lparr>ct_ivec = take 16 (pc_sha512 pc [ascii ''Pair-Verify-AES-IV'', secret]), ct_ecount = replicate 16 0, ct_num = 0\<rparr>;
          (sig, st) = ctr_bytes block st (drop 32 answer);
          mine = pc_sign pc (pc_donna pc (cl_pri c) None @ his) (cl_ed_pub c) (cl_ed_pri c);
          (enc, st) = ctr_bytes block st mine
      in (sig, [0, 0, 0, 0] @ enc))"

lemma ctr_bytes_state: "length xs = length ys \<Longrightarrow> snd (ctr_bytes block st xs) = snd (ctr_bytes block st ys)"
  by (induction xs ys arbitrary: st rule: list_induct2) (simp_all add: Let_def case_prod_beta)

lemma length_ctr_bytes [simp]: "length (fst (ctr_bytes block st xs)) = length xs"
  by (induction xs arbitrary: st) (simp_all add: Let_def case_prod_beta)

lemma pair_exchange:
  assumes "\<forall>k iv. length (pc_aes pc k iv) = 16" "\<forall>m p s. length (pc_sign pc m p s) = 64"
    "\<forall>s b. length (pc_donna pc s b) = 32" "length (cl_ed_pub c) = 32"
    "pc_donna pc (cl_pri c) (Some (pc_donna pc seed None)) = pc_donna pc seed (Some (pc_donna pc (cl_pri c) None))"
    "pair_verify pc al seed (client_hello pc c) cx = (cx1, r1)" "r1 = Challenge answer"
    "client_answer pc c answer = (sig, msg)" "pair_verify pc al' seed' msg cx1 = (cx2, r2)"
  shows "sig = pc_sign pc (take 32 answer @ pc_donna pc (cl_pri c) None) (pr_ed_pub cx) (pr_ed_pri cx)"
    "r2 = (if pc_verify pc (pc_sign pc (pc_donna pc (cl_pri c) None @ take 32 answer) (cl_ed_pub c) (cl_ed_pri c))
                (pc_donna pc (cl_pri c) None @ take 32 answer) (cl_ed_pub c) then Accepted else Rejected)"
    "pr_cv_sha cx1 = pc_donna pc (cl_pri c) (Some (take 32 answer))"
proof -
  define A where "A = pc_donna pc (cl_pri c) None"
  define B where "B = pc_donna pc seed None"
  define z where "z = pc_donna pc seed (Some A)"
  define block where "block = pc_aes pc (Some (take 16 (pc_sha512 pc [ascii ''Pair-Verify-AES-Key'', z])))"
  define st where "st = \<lparr>ct_ivec = take 16 (pc_sha512 pc [ascii ''Pair-Verify-AES-IV'', z]), ct_ecount = replicate 16 0, ct_num = 0\<rparr>"
  define s1 where "s1 = pc_sign pc (B @ A) (pr_ed_pub cx) (pr_ed_pri cx)"
  define s2 where "s2 = pc_sign pc (A @ B) (cl_ed_pub c) (cl_ed_pri c)"
  have len: "length A = 32" "length B = 32" "length s1 = 64" "length s2 = 64"
    using assms(2,3) by (simp_all add: A_def B_def s1_def s2_def)
  have blk: "\<And>iv. length (block iv) = 16" using assms(1) by (simp add: block_def)
  have hello: "client_hello pc c = [1, 0, 0, 0] @ A @ cl_ed_pub c" by (simp add: client_hello_def A_def)
  have cut: "take 32 (drop 4 (client_hello pc c)) = A" "take 32 (drop 36 (client_hello pc c)) = cl_ed_pub c"
    using len assms(4) by (simp_all add: hello)
  obtain cx' a where s: "pair_start pc al seed (client_hello pc c) cx = (cx', a)" by fastforce
  have "pair_verify pc al seed (client_hello pc c) cx = (cx', Challenge a)"
    using s len assms(4) by (simp add: pair_verify_def hello)
  then have e: "cx1 = cx'" "a = answer" using assms(6,7) by simp_all
  have cx1: "pr_cv_pub cx1 = B" "pr_cv_his cx1 = A" "pr_cv_sha cx1 = z" "pr_ed_his cx1 = cl_ed_pub c"
    "pc_aes pc (pr_aes_key cx1) = block" "pr_ctr cx1 = snd (ctr_bytes block st s1)"
    and answer: "answer = B @ fst (ctr_bytes block st s1)"
    using s by (auto simp: pair_start_def cut e new_AES_ctr128_encrypt_def sha512msg_def ctr_encrypt_bytes [OF blk]
        A_def [symmetric] B_def [symmetric] z_def [symmetric] block_def [symmetric] st_def [symmetric]
        s1_def [symmetric] Let_def split: prod.splits)
  have secret: "pc_donna pc (cl_pri c) (Some B) = z" using assms(5) by (simp add: A_def B_def z_def)
  have "take 32 answer = B" "drop 32 answer = fst (ctr_bytes block st s1)" using len answer by simp_all
  then have ans: "sig = s1" "msg = [0, 0, 0, 0] @ fst (ctr_bytes block (snd (ctr_bytes block st s1)) s2)"
    using assms(8)
    by (auto simp: client_answer_def secret block_def [symmetric] st_def [symmetric] A_def [symmetric] s2_def [symmetric]
        ctr_bytes_twice Let_def split: prod.splits)
  show "sig = pc_sign pc (take 32 answer @ pc_donna pc (cl_pri c) None) (pr_ed_pub cx) (pr_ed_pri cx)"
    using ans(1) \<open>take 32 answer = B\<close> by (simp add: s1_def A_def)
  show "pr_cv_sha cx1 = pc_donna pc (cl_pri c) (Some (take 32 answer))" using cx1(3) secret \<open>take 32 answer = B\<close> by simp
  show "r2 = (if pc_verify pc (pc_sign pc (pc_donna pc (cl_pri c) None @ take 32 answer) (cl_ed_pub c) (cl_ed_pri c))
                (pc_donna pc (cl_pri c) None @ take 32 answer) (cl_ed_pub c) then Accepted else Rejected)"
    using assms(9) len ans(2) cx1 \<open>take 32 answer = B\<close>
    by (auto simp: pair_verify_def pair_finish_def new_AES_ctr128_encrypt_def ctr_encrypt_bytes [OF blk] ctr_bytes_twice
        A_def [symmetric] s2_def [symmetric] Let_def split: prod.splits if_splits)
qed

lemma hello_forgets:
  assumes "length (cl_ed_pub c1) = 32" "length (cl_ed_pub c2) = 32" "\<forall>s b. length (pc_donna pc s b) = 32"
  shows "pair_verify pc al s (client_hello pc c2) (fst (pair_verify pc al' s' (client_hello pc c1) cx))
    = pair_verify pc al s (client_hello pc c2) cx"
proof -
  have l: "client_hello pc c ! 0 = 1" "client_hello pc c \<noteq> []" "length (client_hello pc c) = 36 + length (cl_ed_pub c)" for c
    using assms(3) by (simp_all add: client_hello_def)
  have forget: "pair_start pc al s b cx' = pair_start pc al s b cx"
    if "pr_ed_pub cx' = pr_ed_pub cx" "pr_ed_pri cx' = pr_ed_pri cx" for b cx'
    using that by (cases cx; cases cx') (simp add: pair_start_def Let_def split: prod.splits)
  have keeps: "pr_ed_pub (fst (pair_start pc al' s' b cx)) = pr_ed_pub cx" "pr_ed_pri (fst (pair_start pc al' s' b cx)) = pr_ed_pri cx" for b
    by (simp_all add: pair_start_def Let_def split: prod.splits)
  have "fst (pair_verify pc al' s' (client_hello pc c1) cx) = fst (pair_start pc al' s' (client_hello pc c1) cx)"
    using l [of c1] assms(1) by (simp add: pair_verify_def split: prod.splits)
  then show ?thesis
    using l [of c2] assms(2) forget [OF keeps] by (simp add: pair_verify_def)
qed

section \<open>Properties\<close>

text \<open>
  C12. The pair-verify exchange: the client finds in the server's answer, under the key stream of the common
  secret, the server's signature over both public values; its own signature, encrypted with the rest of the
  stream, is recovered and accepted; both sides hold the same secret. A message shorter than 68 bytes is read
  behind its end and an empty one through NULL. The data is shared by all connections: the first message of
  another client in between discards the exchange.
\<close>

theorem pair_verify_genuine:
  assumes "\<forall>k iv. length (pc_aes pc k iv) = 16" "\<forall>m p s. length (pc_sign pc m p s) = 64"
    "\<forall>s b. length (pc_donna pc s b) = 32" "length (cl_ed_pub c) = 32" "length (cl_ed_pub other) = 32"
    "pc_donna pc (cl_pri c) (Some (pc_donna pc seed None)) = pc_donna pc seed (Some (pc_donna pc (cl_pri c) None))"
    "\<forall>m. pc_verify pc (pc_sign pc m (cl_ed_pub c) (cl_ed_pri c)) m (cl_ed_pub c)"
    "pair_verify pc al seed (client_hello pc c) cx = (cx1, Challenge answer)"
    "client_answer pc c answer = (sig, msg)"
  shows "sig = pc_sign pc (take 32 answer @ pc_donna pc (cl_pri c) None) (pr_ed_pub cx) (pr_ed_pri cx) \<and>
    snd (pair_verify pc al' seed' msg cx1) = Accepted \<and>
    pr_cv_sha cx1 = pc_donna pc (cl_pri c) (Some (take 32 answer)) \<and>
    snd (pair_verify pc al' seed' [] cx1) = VerifyNull \<and>
    (\<forall>body. body \<noteq> [] \<and> length body < 68 \<longrightarrow> pair_verify pc al' seed' body cx1 = (cx1, VerifyOutOfBounds)) \<and>
    pair_verify pc al' seed' (client_hello pc other) cx1 = pair_verify pc al' seed' (client_hello pc other) cx"
proof -
  obtain cx2 r2 where r: "pair_verify pc al' seed' msg cx1 = (cx2, r2)" by fastforce
  note x = pair_exchange [OF assms(1-4,6,8) refl assms(9) r]
  moreover have "pair_verify pc al' seed' (client_hello pc other) cx1 = pair_verify pc al' seed' (client_hello pc other) cx"
    using hello_forgets [OF assms(4,5,3), of al' seed' al seed cx] assms(8) by simp
  ultimately show ?thesis using assms(7) r by (auto simp: pair_verify_def)
qed

definition demo_crypto :: pair_crypto where
  "demo_crypto = \<lparr>pc_donna = (\<lambda>s b. take 32 ((case b of None \<Rightarrow> s | Some b \<Rightarrow> map2 (\<lambda>x y. x + y) s b) @ replicate 32 0)),
     pc_sign = (\<lambda>m p s. take 64 (m @ replicate 64 0)),
     pc_verify = (\<lambda>sig m p. sig = take 64 (m @ replicate 64 0)), pc_sha512 = (\<lambda>ms. replicate 64 (of_nat (length (concat ms)))),
     pc_aes = (\<lambda>k iv. take 16 (iv @ replicate 16 0))\<rparr>"

definition demo_client :: pair_client where
  "demo_client = \<lparr>cl_pri = replicate 32 3, cl_ed_pub = replicate 32 4, cl_ed_pri = []\<rparr>"

lemma demo_crypto_laws:
  "\<forall>k iv. length (pc_aes demo_crypto k iv) = 16" "\<forall>m p s. length (pc_sign demo_crypto m p s) = 64"
  "\<forall>s b. length (pc_donna demo_crypto s b) = 32"
  "pc_donna demo_crypto (cl_pri demo_client) (Some (pc_donna demo_crypto (replicate 32 5) None))
      = pc_donna demo_crypto (replicate 32 5) (Some (pc_donna demo_crypto (cl_pri demo_client) None))"
  "length (cl_ed_pub demo_client) = 32"
  "\<forall>m. pc_verify demo_crypto (pc_sign demo_crypto m (cl_ed_pub demo_client) (cl_ed_pri demo_client)) m (cl_ed_pub demo_client)"
proof -
  have pad: "length (take n (xs @ replicate n z)) = n" for n and xs :: "byte list" and z by (simp add: min_def)
  show "\<forall>k iv. length (pc_aes demo_crypto k iv) = 16" "\<forall>m p s. length (pc_sign demo_crypto m p s) = 64"
    "\<forall>s b. length (pc_donna demo_crypto s b) = 32"
    by (simp_all only: demo_crypto_def pair_crypto.simps pad) simp_all
qed (simp_all add: demo_crypto_def demo_client_def)

theorem pair_verify_genuine_witness:
  "snd (pair_verify demo_crypto True [] (snd (client_answer demo_crypto demo_client
     (case pair_verify demo_crypto True (replicate 32 5) (client_hello demo_crypto demo_client) zero_pair of
        (_, Challenge a) \<Rightarrow> a)))
     (fst (pair_verify demo_crypto True (replicate 32 5) (client_hello demo_crypto demo_client) zero_pair))) = Accepted"
proof -
  obtain cx1 r where 1: "pair_verify demo_crypto True (replicate 32 5) (client_hello demo_crypto demo_client) zero_pair = (cx1, r)"
    by fastforce
  have "length (client_hello demo_crypto demo_client) = 68" "client_hello demo_crypto demo_client ! 0 = 1"
    "client_hello demo_crypto demo_client \<noteq> []"
    by (simp_all add: client_hello_def demo_crypto_def demo_client_def)
  then obtain a where r: "r = Challenge a" using 1 by (auto simp: pair_verify_def split: prod.splits)
  obtain sig msg where 2: "client_answer demo_crypto demo_client a = (sig, msg)" by fastforce
  have "snd (pair_verify demo_crypto True [] msg cx1) = Accepted"
    using pair_verify_genuine [OF demo_crypto_laws(1-3,5,5,4,6) 1 [unfolded r] 2] by blast
  then show ?thesis by (simp add: 1 2 r)
qed

end
