(* ===== verification/Raop.thy ===== *)
theory Raop
  imports Airdata Digest Http_Request Http_Response Pairing Plist Rsakey Sdp
begin

text \<open>
  The remote audio protocol server of \<open>libairplay/airplay/raop.c\<close>: its state, one function per request
  handler, and the dispatcher \<open>conn_request\<close>. A handler maps the frame of a request (server, connection,
  response so far, body and emitted events) to the next frame or to the error that ends the process. What
  lies outside (system calls, the property list parsers, cryptography, the decoders) is the record \<open>world\<close>;
  allocations that no code checks succeed.
\<close>

section \<open>State\<close>

datatype raop_error =
    NullPointer
  | OutOfBounds
  | Uninitialised
  | AssertionFails
  | SignedOverflow
  | ResponseError resp_error

datatype raop_event =
    Audio rtp_event
  | MirroringLive
  | MirroringStop "byte list"
  | PlaybackStop
  | CloseEventSocket int

record aes_key_context =
  g_ctr_key :: "byte list"
  g_ctr :: ctr_state

record raop =
  r_callbacks :: callbacks
  r_rsakey :: rsakey
  r_hwaddr :: "byte list"               \<comment> \<open>six bytes, of which \<open>hwaddrlen\<close> are set\<close>
  r_hwaddrlen :: nat
  r_height :: int
  r_width :: int
  r_maxfps :: int
  r_password :: string
  r_pair_data :: air_pair
  r_message3 :: "byte list"             \<comment> \<open>the global \<open>message3\<close>\<close>
  r_aes_key_ctx :: "aes_key_context option"   \<comment> \<open>the global \<open>g_aes_key_ctx\<close>\<close>

record 'd raop_conn =
  c_raop_rtp :: "'d raop_rtp option"
  c_airdata_1 :: "airdata option"
  c_airdata_2 :: "airdata option"
  c_local :: "byte list"
  c_remote_addr :: "byte list"
  c_et :: int
  c_cn :: int
  c_nonce :: string
  c_controlPort :: u16
  c_timingPort :: u16
  c_dataPort :: u16
  c_eventPort :: u16
  c_rsa_key :: "byte list"
  c_rsa_iv :: "byte list"
  c_rsa_cbc_key :: "byte list"
  c_rsa_cbc_iv :: "byte list"
  c_cv_sha :: "byte list"

record 'd frame =
  f_raop :: raop
  f_conn :: "'d raop_conn"
  f_response :: http_response
  f_body :: string                      \<comment> \<open>\<open>responseData\<close>; empty when there is none\<close>
  f_events :: "raop_event list"

record rtp_env =
  e_calloc :: bool
  e_buffer_calloc :: bool
  e_malloc :: "int \<Rightarrow> byte list option"
  e_control :: "int \<times> u16"              \<comment> \<open>what the three \<open>netutils_init_socket\<close> calls answer\<close>
  e_timing :: "int \<times> u16"
  e_data :: "int \<times> u16"
  e_listen :: bool
  e_stack :: "byte list"                \<comment> \<open>the packet array of the new thread\<close>
  e_airdata_calloc :: bool
  e_event_socket :: "bool \<Rightarrow> int \<times> u16"
  e_event_listen :: bool

record 'd world =
  w_codec :: "'d codec"
  w_parse_address :: "int \<Rightarrow> string \<Rightarrow> int \<times> sockaddr"
  w_rtp :: "nat \<Rightarrow> rtp_env"             \<comment> \<open>for the audio session of the \<open>n\<close>th stream\<close>
  w_md5 :: "nat \<Rightarrow> byte list"           \<comment> \<open>what the blocks of the local digest contexts hold\<close>
  w_sha1 :: "nat \<Rightarrow> byte list"
  w_time :: string                       \<comment> \<open>\<open>asctime(gmtime(...))\<close> without its line end\<close>
  w_from_bin :: "string \<Rightarrow> plist option option"  \<comment> \<open>\<open>plist_from_bin\<close>; the outer \<open>None\<close> writes nothing\<close>
  w_xml_to_bin :: "string \<Rightarrow> string"     \<comment> \<open>\<open>plist_from_xml\<close>, then \<open>plist_to_bin\<close>\<close>
  w_scan_double :: "string \<Rightarrow> cfloat option"   \<comment> \<open>\<open>sscanf\<close> with \<open>%lf\<close> and \<open>%f\<close>\<close>
  w_crypto :: pair_crypto
  w_aligned :: bool
  w_seed :: "byte list"
  w_keys :: "byte list \<times> byte list"      \<comment> \<open>the global Ed25519 key pair\<close>
  w_playfair :: playfair
  w_behind :: "byte list \<times> byte list"  \<comment> \<open>what can be read behind \<open>message3\<close> and behind the encrypted key\<close>
  w_query :: query_io
  w_aeskey :: "byte list"                \<comment> \<open>the local arrays of \<open>ANNOUNCE\<close>\<close>
  w_aesiv :: "byte list"

type_synonym 'd handler = "'d frame \<Rightarrow> raop_error + 'd frame"

section \<open>Errors and edits\<close>

fun ebind :: "'e + 'a \<Rightarrow> ('a \<Rightarrow> 'e + 'b) \<Rightarrow> 'e + 'b" where
  "ebind (Inl e) g = Inl e"
| "ebind (Inr x) g = g x"

lemma ebind_eq_Inr [simp]: "ebind m g = Inr y \<longleftrightarrow> (\<exists>x. m = Inr x \<and> g x = Inr y)"
  by (cases m) auto

lemma ebind_eq_Inl [simp]: "ebind m g = Inl e \<longleftrightarrow> m = Inl e \<or> (\<exists>x. m = Inr x \<and> g x = Inl e)"
  by (cases m) auto

fun in_turn :: "'d handler list \<Rightarrow> 'd handler" where
  "in_turn [] f = Inr f"
| "in_turn (h # hs) f = ebind (h f) (in_turn hs)"

declare in_turn.simps [simp del]

definition add_header :: "string \<Rightarrow> string \<Rightarrow> 'd handler" where
  "add_header name val f =
     (case http_response_add_header (f_response f) name val of
        Inl e \<Rightarrow> Inl (ResponseError e)
      | Inr res \<Rightarrow> Inr (f\<lparr>f_response := res\<rparr>))"

definition set_disconnect :: "'d frame \<Rightarrow> 'd frame" where
  "set_disconnect f = f\<lparr>f_response := http_response_set_disconnect (f_response f) 1\<rparr>"

definition set_body :: "string \<Rightarrow> 'd handler" where
  "set_body s f = Inr (f\<lparr>f_body := s\<rparr>)"

definition emit :: "raop_event list \<Rightarrow> 'd frame \<Rightarrow> 'd frame" where
  "emit evs f = f\<lparr>f_events := f_events f @ evs\<rparr>"

definition upd_conn :: "('d raop_conn \<Rightarrow> 'd raop_conn) \<Rightarrow> 'd frame \<Rightarrow> 'd frame" where
  "upd_conn g f = f\<lparr>f_conn := g (f_conn f)\<rparr>"

definition upd_raop :: "(raop \<Rightarrow> raop) \<Rightarrow> 'd frame \<Rightarrow> 'd frame" where
  "upd_raop g f = f\<lparr>f_raop := g (f_raop f)\<rparr>"

definition chars_of :: "byte list \<Rightarrow> string" where
  "chars_of bs = map (\<lambda>b. char_of (unat b)) bs"

fun text_lines :: "string list \<Rightarrow> string" where
  "text_lines [] = []"
| "text_lines (l # ls) = l @ CRLF @ text_lines ls"

definition dec_int :: "int \<Rightarrow> string" where
  \<comment> \<open>\<open>%d\<close>\<close>
  "dec_int i = (if i < 0 then CHR ''-'' # dec_digits (nat (- i)) else dec_digits (nat i))"

definition plist_prolog :: "string list" where
  \<open>plist_prolog = [''<?xml version="1.0" encoding="UTF-8"?>'',
     ''<!DOCTYPE plist PUBLIC "-//Apple//DTD PLIST 1.0//EN" "http://www.apple.com/DTDs/PropertyList-1.0.dtd">'',
     ''<plist version="1.0">'', ''<dict>'']\<close>

definition plist_epilog :: "string list" where
  "plist_epilog = [''</dict>'', ''</plist>'']"

section \<open>Handlers without a body\<close>

definition request_handle_feedback :: "'d handler" where
  "request_handle_feedback f = add_header ''Content-Type'' ''application/octet-stream'' (emit [MirroringLive] f)"

definition request_handle_getparameter :: "'d handler" where
  "request_handle_getparameter f = in_turn [add_header ''Audio-Jack-Status'' ''connected; type=analog'',
     set_body (''Volume: 1.000000'' @ CRLF)] f"

definition request_handle_record :: "'d handler" where
  "request_handle_record f = in_turn [add_header ''Audio-Jack-Status'' ''connected; type=analog'',
     add_header ''Audio-Latency'' ''4410''] f"

definition request_handle_options :: "'d handler" where
  "request_handle_options f = add_header ''Public'' (''ANNOUNCE, SETUP, PLAY, DESCRIBE, REDIRECT, RECORD, PAUSE, FLUSH, ''
     @ ''TEARDOWN, OPTIONS, GET_PARAMETER, SET_PARAMETER, POST, GET'') f"

definition request_handle_authsetup :: "http_request \<Rightarrow> 'd handler" where
  "request_handle_authsetup rq f = set_body (http_request_get_data rq) f"

definition rtp_destroy :: "'d frame \<Rightarrow> 'd frame" where
  \<comment> \<open>\<open>if (conn->raop_rtp) raop_rtp_destroy(conn->raop_rtp), conn->raop_rtp = NULL\<close>\<close>
  "rtp_destroy f =
     (case c_raop_rtp (f_conn f) of
        None \<Rightarrow> f
      | Some rr \<Rightarrow> emit (map Audio (snd (raop_rtp_stop rr))) (upd_conn (c_raop_rtp_update (\<lambda>_. None)) f))"

definition c_strtol :: "string \<Rightarrow> int" where
  \<comment> \<open>\<open>strtol(s, NULL, 10)\<close> stored in an \<open>int\<close>; a \<open>long\<close> has 64 bits\<close>
  "c_strtol s = sint (of_int (max (- (2 ^ 63)) (min (2 ^ 63 - 1) (c_atoi s))) :: u32)"

definition request_handle_flush :: "http_request \<Rightarrow> 'd handler" where
  "request_handle_flush rq f =
     (let next_seq = (case http_request_get_header rq ''RTP-Info'' 1 of
            Some rtpinfo \<Rightarrow> if starts_with rtpinfo ''seq='' then c_strtol (drop 4 rtpinfo) else -1
          | None \<Rightarrow> -1)
      in Inr (upd_conn (\<lambda>c. c\<lparr>c_raop_rtp := map_option (\<lambda>rr. raop_rtp_flush rr next_seq) (c_raop_rtp c)\<rparr>) f))"

section \<open>Property list replies\<close>

definition stream_xml :: "int \<Rightarrow> int \<Rightarrow> string list" where
  "stream_xml h w = [
     ''  <key>height</key>'', ''  <integer>'' @ dec_int h @ ''</integer>'', ''  <key>overscanned</key>'', ''  <true/>'',
     ''  <key>refreshRate</key>'', ''  <real>0.016666666666667</real>'', ''  <key>version</key>'', ''  <string>150.33</string>'',
     ''  <key>width</key>'', ''  <integer>'' @ dec_int w @ ''</integer>'']"

definition request_handle_streamxml :: "'d handler" where
  "request_handle_streamxml f =
     in_turn [add_header ''Content-Type'' ''text/x-apple-plist+xml'',
       set_body (text_lines (plist_prolog @ stream_xml (r_height (f_raop f)) (r_width (f_raop f)) @ plist_epilog))] f"

definition hex2_upper :: "byte \<Rightarrow> string" where
  \<comment> \<open>\<open>%02X\<close>\<close>
  "hex2_upper b = [hex_char CHR ''A'' (unat (drop_bit 4 b)), hex_char CHR ''A'' (unat (b AND 0x0f))]"

definition info_xml :: "string \<Rightarrow> byte list \<Rightarrow> int \<Rightarrow> int \<Rightarrow> int \<Rightarrow> string list" where
  "info_xml pk hw h w fps = [
     ''<key>pk</key>'', ''<data>'', pk, ''</data>'', ''<key>name</key>'', ''<string>Apple TV</string>'', ''<key>vv</key>'', ''<integer>2</integer>'',
     ''<key>statusFlags</key>'', ''<integer>68</integer>'', ''<key>keepAliveLowPower</key>'', ''<integer>1</integer>'',
     ''<key>keepAliveSendStatsAsBody</key>'', ''<integer>1</integer>'', ''<key>pi</key>'', ''<string>b08f5a79-db29-4384-b456-a4784d9e6055</string>'',
     ''<key>sourceVersion</key>'', ''<string>220.68</string>'', ''<key>deviceID</key>'',
     ''<string>'' @ hex2_upper (hw ! 0) @ '':'' @ hex2_upper (hw ! 1) @ '':'' @ hex2_upper (hw ! 2) @ '':'' @ hex2_upper (hw ! 3) @ '':'' @ hex2_upper (hw ! 4) @ '':'' @ hex2_upper (hw ! 5) @ ''</string>'',
     ''<key>macAddress</key>'',
     ''<string>'' @ hex2_upper (hw ! 0) @ '':'' @ hex2_upper (hw ! 1) @ '':'' @ hex2_upper (hw ! 2) @ '':'' @ hex2_upper (hw ! 3) @ '':'' @ hex2_upper (hw ! 4) @ '':'' @ hex2_upper (hw ! 5) @ ''</string>'',
     ''<key>initialVolume</key>'', ''<string>-15.0</string>'', ''<key>model</key>'', ''<string>AppleTV3,2</string>'', ''<key>audioFormats</key>'',
     ''<array>'', ''<dict>'', ''<key>audioInputFormats</key>'', ''<integer>67108860</integer>'', ''<key>audioOutputFormats</key>'',
     ''<integer>67108860</integer>'', ''<key>type</key>'', ''<integer>100</integer>'', ''</dict>'', ''<dict>'', ''<key>audioInputFormats</key>'',
     ''<integer>67108860</integer>'', ''<key>audioOutputFormats</key>'', ''<integer>67108860</integer>'', ''<key>type</key>'',
     ''<integer>101</integer>'', ''</dict>'', ''</array>'', ''<key>audioLatencies</key>'', ''<array>'', ''<dict>'', ''<key>audioType</key>'',
     ''<string>default</string>'', ''<key>inputLatencyMicros</key>'', ''<false/>'', ''<key>outputLatencyMicros</key>'', ''<false/>'',
     ''<key>type</key>'', ''<integer>100</integer>'', ''</dict>'', ''<dict>'', ''<key>audioType</key>'', ''<string>default</string>'',
     ''<key>inputLatencyMicros</key>'', ''<false/>'', ''<key>outputLatencyMicros</key>'', ''<false/>'', ''<key>type</key>'',
     ''<integer>101</integer>'', ''</dict>'', ''</array>'', ''<key>features</key>'', ''<integer>130367356919</integer>'', ''<key>displays</key>'',
     ''<array>'', ''<dict>'', ''<key>height</key>'', ''<integer>'' @ dec_int h @ ''</integer>'', ''<key>width</key>'',
     ''<integer>'' @ dec_int w @ ''</integer>'', ''<key>rotation</key>'', ''<false/>'', ''<key>widthPhysical</key>'', ''<false/>'',
     ''<key>heightPhysical</key>'', ''<false/>'', ''<key>widthPixels</key>'', ''<integer>'' @ dec_int w @ ''</integer>'',
     ''<key>heightPixels</key>'', ''<integer>'' @ dec_int h @ ''</integer>'', ''<key>refreshRate</key>'', ''<integer>60</integer>'',
     ''<key>maxFPS</key>'', ''<integer>'' @ dec_int fps @ ''</integer>'', ''<key>features</key>'', ''<integer>14</integer>'',
     ''<key>overscanned</key>'', ''<false/>'', ''<key>uuid</key>'', ''<string>e5f7a68d-7b0f-4305-984b-974f677a150b</string>'', ''</dict>'',
     ''</array>'']"

definition request_handle_info :: "'d world \<Rightarrow> 'd handler" where
  \<comment> \<open>the key in base64 without padding, with one character 61 appended\<close>
  "request_handle_info w f =
     (let raop = f_raop f;
          pk_str = base64_encode (base64_init None False False) (pr_ed_pub (r_pair_data raop)) @ ''=''
      in set_body (w_xml_to_bin w (text_lines (plist_prolog
           @ info_xml pk_str (r_hwaddr raop) (r_height raop) (r_width raop) (r_maxfps raop) @ plist_epilog))) f)"

section \<open>Parameters\<close>

definition scan_u :: "string \<Rightarrow> (u32 \<times> string) option" where
  \<comment> \<open>\<open>%u\<close>: spaces, a sign, digits; the value is read as 64 bits and truncated\<close>
  "scan_u s =
     (let s = dropWhile is_space s;
          (neg, s) = (case s of c # cs \<Rightarrow> if c = CHR ''-'' then (True, cs) else if c = CHR ''+'' then (False, cs) else (False, s)
                      | [] \<Rightarrow> (False, s));
          ds = takeWhile is_digit s;
          v = digits_val 0 ds
      in if ds = [] then None
         else Some (of_int (if v \<ge> 2 ^ 64 then 2 ^ 64 - 1 else if neg then - v else v), dropWhile is_digit s))"

definition scan_slash :: "string \<Rightarrow> string option" where
  "scan_slash s = (case s of c # cs \<Rightarrow> if c = CHR ''/'' then Some cs else None | [] \<Rightarrow> None)"

definition scan_progress :: "string \<Rightarrow> (u32 \<times> u32 \<times> u32) option" where
  \<comment> \<open>\<open>sscanf(s, "%u/%u/%u", ...)\<close>; \<open>None\<close> when not all three are converted\<close>
  "scan_progress s = do {
     (start, s) \<leftarrow> scan_u s;
     s \<leftarrow> scan_slash s;
     (cur, s) \<leftarrow> scan_u s;
     s \<leftarrow> scan_slash s;
     (fin, s) \<leftarrow> scan_u s;
     Some (start, cur, fin)
   }"

definition content_length :: "http_request \<Rightarrow> int \<Rightarrow> int option \<Rightarrow> int option" where
  \<comment> \<open>\<open>contentLength\<close> after the lookup; \<open>None\<close> as long as it is uninitialised\<close>
  "content_length rq index old =
     (case http_request_get_iheader rq ''Content-Length'' index of Some s \<Rightarrow> Some (c_atoi s) | None \<Rightarrow> old)"

function data_offset :: "http_request \<Rightarrow> int \<Rightarrow> int option \<Rightarrow> nat" where
  \<comment> \<open>\<open>for(; index > 1; index--)\<close>: how far \<open>data\<close> is advanced\<close>
  "data_offset rq index len =
     (if index \<le> 1 then 0
      else let len = content_length rq (index - 1) len
           in (case len of Some n \<Rightarrow> nat n | None \<Rightarrow> 0) + data_offset rq (index - 1) len)"
  by pat_completeness auto
termination by (relation "measure (\<lambda>(rq, index, len). nat index)") auto

declare data_offset.simps [simp del]

definition text_parameter :: "'d world \<Rightarrow> string \<Rightarrow> 'd raop_rtp \<Rightarrow> raop_error + 'd raop_rtp" where
  "text_parameter w datastr rr =
     (if starts_with datastr ''volume: '' then
        Inr (raop_rtp_set_volume rr (case w_scan_double w (drop 8 datastr) of None \<Rightarrow> Fin 0 | Some vol \<Rightarrow> vol))
      else if starts_with datastr ''progress: '' then
        (case scan_progress (drop 10 datastr) of
           None \<Rightarrow> Inl Uninitialised
         | Some (start, cur, fin) \<Rightarrow> Inr (raop_rtp_set_progress rr start cur fin))
      else Inr rr)"

definition binary_parameter ::
    "('d raop_rtp \<Rightarrow> byte list \<Rightarrow> int \<Rightarrow> 'd raop_rtp) \<Rightarrow> string \<Rightarrow> nat \<Rightarrow> int \<Rightarrow> 'd raop_rtp \<Rightarrow> raop_error + 'd raop_rtp" where
  \<comment> \<open>\<open>raop_rtp_set_coverart\<close> or \<open>raop_rtp_set_metadata\<close> on \<open>data + offset\<close>\<close>
  "binary_parameter store data offset datalen rr =
     (if datalen > 0 \<and> length data < offset + nat datalen then Inl OutOfBounds
      else Inr (store rr (bytes_of (drop offset data)) datalen))"

definition set_rtp :: "'d raop_rtp \<Rightarrow> 'd frame \<Rightarrow> 'd frame" where
  "set_rtp rr = upd_conn (c_raop_rtp_update (\<lambda>_. Some rr))"

definition request_handle_setparameter :: "'d world \<Rightarrow> http_request \<Rightarrow> int \<Rightarrow> 'd handler" where
  "request_handle_setparameter w rq index f =
     (case content_length rq index None of
        None \<Rightarrow> Inl Uninitialised
      | Some contentLength \<Rightarrow>
          (let data = http_request_get_data rq;
               datalen = min contentLength (int (length data));
               offset = data_offset rq index (Some contentLength);
               audio = (\<lambda>g. case c_raop_rtp (f_conn f) of None \<Rightarrow> Inr f
                              | Some rr \<Rightarrow> ebind (g rr) (\<lambda>rr. Inr (set_rtp rr f)))
           in case http_request_get_iheader rq ''Content-Type'' index of
                None \<Rightarrow> Inl NullPointer
              | Some content_type \<Rightarrow>
                  if content_type = ''text/parameters'' then
                    (if datalen < -1 \<or> (data = [] \<and> offset = 0) then Inr f
                     else audio (\<lambda>rr.
                       if datalen = -1 \<or> length data < offset + nat datalen then Inl OutOfBounds
                       else text_parameter w (c_str (take (nat datalen) (drop offset data) @ [NUL]) 0) rr))
                  else if content_type = ''image/jpeg'' \<or> content_type = ''image/png'' then
                    audio (binary_parameter raop_rtp_set_coverart data offset datalen)
                  else if content_type = ''application/x-dmap-tagged'' then
                    audio (binary_parameter raop_rtp_set_metadata data offset datalen)
                  else Inr f))"

section \<open>TEARDOWN\<close>

definition binary_plist :: "http_request \<Rightarrow> bool" where
  "binary_plist rq \<longleftrightarrow> http_request_get_header rq ''Content-Type'' 1 = Some ''application/x-apple-binary-plist''"

fun first_type :: "plist option list \<Rightarrow> raop_error + u64" where
  \<comment> \<open>the loop over the streams up to the first one with a type\<close>
  "first_type [] = Inr 0"
| "first_type (item # items) =
     (case plist_dict_get_item item ''type'' of
        None \<Rightarrow> first_type items
      | Some t \<Rightarrow> (case plist_get_uint_val (Some t) of None \<Rightarrow> Inl AssertionFails | Some n \<Rightarrow> Inr n))"

definition array_items :: "plist option \<Rightarrow> plist option list" where
  "array_items p = map (plist_array_get_item p) [0..<plist_array_get_size p]"

definition teardown_type :: "'d world \<Rightarrow> http_request \<Rightarrow> raop_error + u64" where
  "teardown_type w rq =
     (if \<not> binary_plist rq then Inr 0
      else case w_from_bin w (http_request_get_data rq) of
          None \<Rightarrow> Inl Uninitialised
        | Some p_dict \<Rightarrow>
            if plist_dict_get_size p_dict = 0 then Inr 0
            else let p_streams = plist_dict_get_item p_dict ''streams''
                 in if plist_is_array p_streams then first_type (array_items p_streams) else Inr 0)"

definition request_handle_teardown :: "'d world \<Rightarrow> http_request \<Rightarrow> 'd handler" where
  "request_handle_teardown w rq f = ebind (teardown_type w rq) (\<lambda>n_type.
     Inr (if n_type = 96 then rtp_destroy f
          else if n_type = 110 then emit [MirroringStop (c_remote_addr (f_conn f))] f
          else if n_type = 0 then emit [PlaybackStop] f
          else f))"

section \<open>Pairing and FairPlay\<close>

definition request_handle_pairsetup :: "'d world \<Rightarrow> http_request \<Rightarrow> 'd handler" where
  "request_handle_pairsetup w rq f =
     (let f = upd_raop (r_pair_data_update (pair_setup (w_keys w) (bytes_of (http_request_get_data rq)))) f
      in in_turn [set_body (chars_of (pr_ed_pub (r_pair_data (f_raop f)))),
           add_header ''Content-Type'' ''application/octet-stream''] f)"

definition request_handle_pairverify :: "'d world \<Rightarrow> http_request \<Rightarrow> 'd handler" where
  "request_handle_pairverify w rq f =
     (let (cx, reply) = pair_verify (w_crypto w) (w_aligned w) (w_seed w) (bytes_of (http_request_get_data rq))
                          (r_pair_data (f_raop f));
          f = upd_raop (r_pair_data_update (\<lambda>_. cx)) f
      in case reply of
           VerifyNull \<Rightarrow> Inl NullPointer
         | VerifyOutOfBounds \<Rightarrow> Inl OutOfBounds
         | Challenge bs \<Rightarrow>
             in_turn [set_body (chars_of bs), add_header ''Content-Type'' ''application/octet-stream'']
               (upd_conn (c_cv_sha_update (\<lambda>_. pr_cv_sha cx)) f)
         | Accepted \<Rightarrow> add_header ''Content-Type'' ''application/octet-stream'' f
         | Rejected \<Rightarrow> in_turn [add_header ''Connection'' ''close'', add_header ''Content-Type'' ''application/octet-stream''] f)"

definition fp_result :: "fp_error + byte list option \<Rightarrow> raop_error + byte list option" where
  "fp_result r = (case r of Inl FpOutOfBounds \<Rightarrow> Inl OutOfBounds | Inl FpUninitialised \<Rightarrow> Inl Uninitialised | Inr b \<Rightarrow> Inr b)"

definition logged :: "byte list option \<Rightarrow> nat \<Rightarrow> raop_error + byte list" where
  \<comment> \<open>\<open>bin2hex(buf, size)\<close> in the debug output reads \<open>size\<close> = \<open>n\<close> bytes\<close>
  "logged buf n = (case buf of None \<Rightarrow> Inl NullPointer | Some bs \<Rightarrow> if length bs < n then Inl OutOfBounds else Inr bs)"

definition request_handle_fpsetup :: "http_request \<Rightarrow> 'd handler" where
  "request_handle_fpsetup rq f =
     (let data = bytes_of (http_request_get_data rq); datalen = length data
      in if data = [] then Inl NullPointer
      else if datalen = 16 then
        ebind (fp_result (fairplay_setup data datalen)) (\<lambda>buf.
        ebind (logged buf 142) (\<lambda>bs.
        set_body (chars_of (take 142 bs)) f))
      else
        ebind (fp_result (fairplay_setup data datalen)) (\<lambda>buf.
        ebind (logged buf 32) (\<lambda>bs.
        if datalen < 164 then Inl OutOfBounds
        else let f = upd_raop (r_message3_update (\<lambda>_. take 164 data)) f
        in ebind (logged (Some (r_message3 (f_raop f))) datalen) (\<lambda>_.
        set_body (chars_of (take 32 bs)) f))))"

section \<open>SETUP\<close>

definition cfloat_ge :: "cfloat \<Rightarrow> real \<Rightarrow> bool" where
  "cfloat_ge v c = (case v of Fin r \<Rightarrow> r \<ge> c | PosInf \<Rightarrow> True | _ \<Rightarrow> False)"

definition cfloat_lt :: "cfloat \<Rightarrow> real \<Rightarrow> bool" where
  "cfloat_lt v c = (case v of Fin r \<Rightarrow> r < c | NegInf \<Rightarrow> True | _ \<Rightarrow> False)"

definition agent_version :: "'d world \<Rightarrow> http_request \<Rightarrow> cfloat" where
  \<comment> \<open>\<open>double_value\<close>\<close>
  "agent_version w rq =
     (case http_request_get_header rq ''User-Agent'' 1 of
        None \<Rightarrow> Fin 0
      | Some ua \<Rightarrow>
          if c_strstr ua ''AirPlay/'' \<noteq> None \<and> starts_with ua ''AirPlay/''
          then (case w_scan_double w (drop 8 ua) of None \<Rightarrow> Fin 0 | Some v \<Rightarrow> v)
          else Fin 0)"

definition g_aes_crt_setkey :: "byte list \<Rightarrow> byte list \<Rightarrow> aes_key_context" where
  "g_aes_crt_setkey key iv = \<lparr>g_ctr_key = take 16 key,
     g_ctr = \<lparr>ct_ivec = take 16 iv, ct_ecount = replicate 16 0, ct_num = 0\<rparr>\<rparr>"

definition take_eiv :: "plist option \<Rightarrow> 'd handler" where
  "take_eiv p_dict f =
     (case plist_get_data_val (plist_dict_get_item p_dict ''eiv'') None of
        None \<Rightarrow> Inr f
      | Some iv \<Rightarrow> if length iv > 16 then Inl OutOfBounds else Inr (upd_conn (c_rsa_iv_update (write_at 0 iv)) f))"

definition opened_ekey :: "'d world \<Rightarrow> raop \<Rightarrow> byte list \<Rightarrow> raop_error + byte list option" where
  \<comment> \<open>the call of \<open>fairplay_decrypt\<close> on the global message and on a block of 72 bytes\<close>
  "opened_ekey w raop ekey =
     fp_result (fairplay_decrypt (w_playfair w) (r_message3 raop @ fst (w_behind w)) (ekey @ snd (w_behind w)))"

definition take_ekey :: "'d world \<Rightarrow> plist option \<Rightarrow> 'd handler" where
  "take_ekey w p_dict f =
     (case plist_get_data_val (plist_dict_get_item p_dict ''ekey'') None of
        None \<Rightarrow> Inr f
      | Some ekey \<Rightarrow>
          if length ekey \<noteq> 72 then Inr f
          else ebind (opened_ekey w (f_raop f) ekey) (\<lambda>key.
            Inr (case key of None \<Rightarrow> f | Some key \<Rightarrow> upd_conn (c_rsa_key_update (\<lambda>_. take 16 key)) f)))"

definition take_keys :: "'d world \<Rightarrow> plist option \<Rightarrow> 'd handler" where
  \<comment> \<open>\<open>eiv\<close> and \<open>ekey\<close> of the dictionary\<close>
  "take_keys w p_dict f = ebind (take_eiv p_dict f) (take_ekey w p_dict)"

definition uint_of :: "plist option \<Rightarrow> raop_error + u64" where
  "uint_of p = (case plist_get_uint_val p of None \<Rightarrow> Inl AssertionFails | Some n \<Rightarrow> Inr n)"

definition stream_keys :: "'d world \<Rightarrow> cfloat \<Rightarrow> u64 \<Rightarrow> plist option \<Rightarrow> 'd handler" where
  \<comment> \<open>the mirroring key of the global context, or the key of the audio session\<close>
  "stream_keys w ver n_type p_stmid f =
     (let conn = f_conn f;
          hashed = sha512msg (pc_sha512 (w_crypto w)) (c_rsa_key conn) (c_cv_sha conn)
      in if n_type = 110 \<and> p_stmid \<noteq> None then
           ebind (uint_of p_stmid) (\<lambda>n_stmid.
             (let key_salt = ascii (''AirPlayStreamKey'' @ dec_digits (unat n_stmid));
                  iv_salt = ascii (''AirPlayStreamIV'' @ dec_digits (unat n_stmid));
                  digest0 = (if cfloat_ge ver 230 then hashed else c_rsa_key conn);
                  (digest1, digest2) = sha512msg2 (pc_sha512 (w_crypto w)) key_salt iv_salt digest0
              in Inr (upd_raop (r_aes_key_ctx_update (\<lambda>_. Some (g_aes_crt_setkey digest1 digest2))) f)))
         else if n_type = 96 then
           Inr (upd_conn (\<lambda>c. c\<lparr>c_rsa_cbc_key := (if cfloat_ge ver 280 then take 16 hashed else c_rsa_key c),
                               c_rsa_cbc_iv := c_rsa_iv c\<rparr>) f)
         else Inr f)"

definition dotted :: "byte list \<Rightarrow> string" where
  \<comment> \<open>\<open>%d.%d.%d.%d\<close> of the first four bytes\<close>
  "dotted a = dec_digits (unat (a ! 0)) @ ''.'' @ dec_digits (unat (a ! 1)) @ ''.'' @ dec_digits (unat (a ! 2))
     @ ''.'' @ dec_digits (unat (a ! 3))"

definition remote_text :: "'d raop_conn \<Rightarrow> string" where
  "remote_text c = (if length (c_local c) = 4 then ''IN IP4 '' @ dotted (c_remote_addr c) else [])"

definition audio_texts :: "u64 \<Rightarrow> string \<times> string" where
  \<comment> \<open>\<open>buf_rtpmap\<close> and \<open>buf_ftmp\<close>\<close>
  "audio_texts n_audioFormat =
     (if n_audioFormat = 0x40000 then (''96 AppleLossless'', ''96 352 0 16 40 10 14 2 255 0 0 44100'')
      else if n_audioFormat = 0x400000 then
        (''96 mpeg4-generic/44100/2'', ''96 mode=AAC-main; constantDuration=1024'')
      else if n_audioFormat = 0x1000000 then
        (''96 mpeg4-generic/44100/2'', ''96 mode=AAC-eld; constantDuration=480'')
      else ([], []))"

definition open_event_channel :: "'d world \<Rightarrow> rtp_env \<Rightarrow> string \<Rightarrow> 'd handler" where
  \<comment> \<open>\<open>if (!conn->eventPort) ...\<close>\<close>
  "open_event_channel w env remote f =
     (if c_eventPort (f_conn f) \<noteq> 0 then Inr f
      else let f = (case c_airdata_2 (f_conn f) of
                      None \<Rightarrow> f
                    | Some a \<Rightarrow> emit (map CloseEventSocket (airdata_free (Some a)))
                                 (upd_conn (c_airdata_2_update (\<lambda>_. None)) f))
      in case airdata_parse_remote (w_parse_address w) (e_airdata_calloc env) remote of
           None \<Rightarrow> Inl NullPointer
         | Some None \<Rightarrow> Inr (set_disconnect f)
         | Some (Some a) \<Rightarrow>
             (let (a, port, cl) = airdata_start (e_event_socket env) (e_event_listen env) a
              in Inr (emit (map CloseEventSocket cl)
                   (upd_conn (\<lambda>c. c\<lparr>c_airdata_2 := Some a,
                                     c_eventPort := (case port of None \<Rightarrow> c_eventPort c | Some p \<Rightarrow> p)\<rparr>) f))))"

definition rtp_create :: "'d world \<Rightarrow> rtp_env \<Rightarrow> raop \<Rightarrow> string \<Rightarrow> string \<Rightarrow> string \<Rightarrow> byte list \<Rightarrow> byte list
    \<Rightarrow> raop_error + 'd raop_rtp option" where
  "rtp_create w env raop remote rtpmap fmtp key iv =
     (case raop_rtp_init (w_codec w) (e_calloc env) (e_buffer_calloc env) (e_malloc env) (w_parse_address w)
             (r_callbacks raop) remote rtpmap fmtp key iv of
        None \<Rightarrow> Inl NullPointer
      | Some rr \<Rightarrow> Inr rr)"

definition rtp_start :: "rtp_env \<Rightarrow> 'd raop_rtp \<Rightarrow> bool \<Rightarrow> u16 \<Rightarrow> u16
    \<Rightarrow> 'd raop_rtp \<times> (u16 \<times> u16 \<times> u16) option \<times> rtp_event list" where
  "rtp_start env rr use_udp control_rport timing_rport =
     raop_rtp_start (e_stack env) (e_control env) (e_timing env) (e_data env) (e_listen env) rr use_udp
       control_rport timing_rport"

definition run_audio :: "rtp_env \<Rightarrow> u16 \<Rightarrow> 'd raop_rtp \<Rightarrow> 'd frame \<Rightarrow> 'd frame" where
  \<comment> \<open>the new session is stored and started; the ports are stored only when that succeeds\<close>
  "run_audio env controlPort rr f =
     (let (rr, ports, evs) = rtp_start env rr True controlPort 0;
          f = emit (map Audio evs) (set_rtp rr f)
      in case ports of
           None \<Rightarrow> f
         | Some (cport, tport, dport) \<Rightarrow>
             upd_conn (\<lambda>c. c\<lparr>c_controlPort := cport, c_timingPort := tport, c_dataPort := dport\<rparr>) f)"

definition start_audio :: "'d world \<Rightarrow> rtp_env \<Rightarrow> string \<Rightarrow> string \<Rightarrow> string \<Rightarrow> u16 \<Rightarrow> 'd handler" where
  "start_audio w env remote rtpmap fmtp controlPort f =
     (let f = rtp_destroy f; conn = f_conn f
      in ebind (rtp_create w env (f_raop f) remote rtpmap fmtp (c_rsa_cbc_key conn) (c_rsa_cbc_iv conn)) (\<lambda>r.
           Inr (case r of None \<Rightarrow> set_disconnect f | Some rr \<Rightarrow> run_audio env controlPort rr f)))"

definition audio_stream :: "'d world \<Rightarrow> rtp_env \<Rightarrow> plist option \<Rightarrow> 'd handler" where
  "audio_stream w env arr_item f =
     ebind (uint_of (plist_dict_get_item arr_item ''controlPort'')) (\<lambda>n_controlPort.
     ebind (uint_of (plist_dict_get_item arr_item ''audioFormat'')) (\<lambda>n_audioFormat.
     ebind (uint_of (plist_dict_get_item arr_item ''spf'')) (\<lambda>_.
     (let p_usingScreen = plist_dict_get_item arr_item ''usingScreen''
      in if p_usingScreen \<noteq> None \<and> plist_get_bool_val p_usingScreen = None then Inl AssertionFails
      else let remote = remote_text (f_conn f); (rtpmap, fmtp) = audio_texts n_audioFormat
      in in_turn [start_audio w env remote rtpmap fmtp (ucast n_controlPort), open_event_channel w env remote] f))))"

definition setup_stream :: "'d world \<Rightarrow> cfloat \<Rightarrow> rtp_env \<Rightarrow> plist option \<Rightarrow> u64 \<times> 'd frame \<Rightarrow> raop_error + u64 \<times> 'd frame" where
  \<comment> \<open>one stream; \<open>n_type\<close> keeps the value of the last stream that had one\<close>
  "setup_stream w ver env arr_item s =
     (let (n_type, f) = s; p_type = plist_dict_get_item arr_item ''type''
      in ebind (if p_type = None then Inr n_type else uint_of p_type) (\<lambda>n_type.
         ebind (in_turn [stream_keys w ver n_type (plist_dict_get_item arr_item ''streamConnectionID''),
                  (if n_type = 96 then audio_stream w env arr_item
                   else if n_type = 110 then (\<lambda>f. open_event_channel w env (remote_text (f_conn f)) f)
                   else Inr)] f) (\<lambda>f. Inr (n_type, f))))"

fun setup_streams :: "'d world \<Rightarrow> cfloat \<Rightarrow> nat \<Rightarrow> plist option list \<Rightarrow> u64 \<times> 'd frame \<Rightarrow> raop_error + u64 \<times> 'd frame" where
  "setup_streams w ver n [] s = Inr s"
| "setup_streams w ver n (item # items) s =
     ebind (setup_stream w ver (w_rtp w n) item s) (setup_streams w ver (n + 1) items)"

definition dec_port :: "u16 \<Rightarrow> string" where
  "dec_port p = dec_digits (unat p)"

definition mirroring_reply :: "bool \<Rightarrow> 'd raop_conn \<Rightarrow> string list" where
  "mirroring_reply with_key c =
     (if with_key then [
     ''  <key>eventPort</key>'', ''  <integer>'' @ dec_port (c_eventPort c) @ ''</integer>'', ''  <key>streams</key>'', ''  <array>'',
     ''    <dict>'', ''      <key>dataPort</key>'', ''      <integer>53291</integer>'', ''      <key>type</key>'',
     ''      <integer>110</integer>'', ''    </dict>'', ''  </array>'', ''  <key>timingPort</key>'',
     ''  <integer>'' @ ''0'' @ ''</integer>'']
      else [
     ''  <key>streams</key>'', ''  <array>'', ''    <dict>'', ''      <key>type</key>'', ''      <integer>110</integer>'',
     ''      <key>dataPort</key>'', ''      <integer>53291</integer>'', ''    </dict>'', ''  </array>''])"

definition audio_reply :: "cfloat \<Rightarrow> 'd raop_conn \<Rightarrow> string list" where
  "audio_reply ver c =
     (if cfloat_lt ver 230 then [
     ''  <key>streams</key>'', ''  <array>'', ''    <dict>'', ''      <key>dataPort</key>'',
     ''      <integer>'' @ dec_port (c_dataPort c) @ ''</integer>'', ''      <key>controlPort</key>'',
     ''      <integer>'' @ dec_port (c_controlPort c) @ ''</integer>'', ''      <key>type</key>'', ''      <integer>96</integer>'',
     ''    </dict>'', ''  </array>'', ''  <key>eventPort</key>'', ''  <integer>'' @ dec_port (c_eventPort c) @ ''</integer>'',
     ''  <key>timingPort</key>'', ''  <integer>'' @ dec_port (c_timingPort c) @ ''</integer>'']
      else [
     ''  <key>streams</key>'', ''  <array>'', ''    <dict>'', ''      <key>dataPort</key>'',
     ''      <integer>'' @ dec_port (c_dataPort c) @ ''</integer>'', ''      <key>controlPort</key>'',
     ''      <integer>'' @ dec_port (c_controlPort c) @ ''</integer>'', ''      <key>type</key>'', ''      <integer>96</integer>'',
     ''    </dict>'', ''  </array>'', ''  <key>timingPort</key>'', ''  <integer>'' @ dec_port (c_timingPort c) @ ''</integer>''])"

definition setup_reply :: "'d world \<Rightarrow> cfloat \<Rightarrow> bool \<Rightarrow> u64 \<Rightarrow> 'd handler" where
  \<comment> \<open>with no text for other types the body is empty\<close>
  "setup_reply w ver with_key n_type f =
     in_turn [add_header ''Content-Type'' ''application/x-apple-binary-plist'',
       (if n_type = 110 then set_body (w_xml_to_bin w (text_lines (plist_prolog @ mirroring_reply with_key (f_conn f) @ plist_epilog)))
        else if n_type = 96 then set_body (w_xml_to_bin w (text_lines (plist_prolog @ audio_reply ver (f_conn f) @ plist_epilog)))
        else if n_type \<noteq> 0 then set_body []
        else add_header ''Content-Length'' ''0'')] f"

definition setup_plist :: "'d world \<Rightarrow> http_request \<Rightarrow> 'd handler" where
  "setup_plist w rq f =
     (case w_from_bin w (http_request_get_data rq) of
        None \<Rightarrow> Inl Uninitialised
      | Some p_dict \<Rightarrow>
          if plist_dict_get_size p_dict = 0 then Inr f
          else (let ver = agent_version w rq;
                    p_streams = plist_dict_get_item p_dict ''streams'';
                    with_key = (plist_get_data_val (plist_dict_get_item p_dict ''ekey'') None \<noteq> None)
                in ebind (take_keys w p_dict f) (\<lambda>f.
                   ebind (setup_streams w ver 0 (if plist_is_array p_streams then array_items p_streams else []) (0, f)) (\<lambda>s.
                   setup_reply w ver with_key (fst s) (snd s)))))"

definition scan_port :: "string \<Rightarrow> string \<Rightarrow> u16 option" where
  \<comment> \<open>\<open>sscanf(tmpstr, "control_port=%hu", &value)\<close>\<close>
  "scan_port prefix s = (if starts_with s prefix then map_option (\<lambda>(v, _). ucast v) (scan_u (drop (length prefix) s)) else None)"

definition last_port :: "string \<Rightarrow> string list \<Rightarrow> u16" where
  \<comment> \<open>what the loop over the pieces leaves in the variable\<close>
  "last_port prefix pieces = fold (\<lambda>s v. case scan_port prefix s of None \<Rightarrow> v | Some p \<Rightarrow> p) pieces 0"

definition setup_transport :: "'d world \<Rightarrow> http_request \<Rightarrow> 'd handler" where
  "setup_transport w rq f =
     (case http_request_get_header rq ''Transport'' 1 of
        None \<Rightarrow> Inl AssertionFails
      | Some transport \<Rightarrow>
          (let use_udp = (\<not> starts_with transport ''RTP/AVP/TCP'');
               pieces = (if use_udp then strsep_all CHR '';'' (Some transport) else []);
               remote_cport = last_port ''control_port='' pieces;
               remote_tport = last_port ''timing_port='' pieces;
               (f, ports) = (case c_raop_rtp (f_conn f) of
                   None \<Rightarrow> (set_disconnect f, None)
                 | Some rr \<Rightarrow>
                     (let (rr, ports, evs) = rtp_start (w_rtp w 0) rr use_udp remote_cport remote_tport
                      in (emit (map Audio evs) (set_rtp rr f), ports)));
               (cport, tport, dport) = (case ports of None \<Rightarrow> (0, 0, 0) | Some p \<Rightarrow> p);
               reply = (if use_udp
                        then ''RTP/AVP/UDP;unicast;mode=record;timing_port='' @ dec_port tport @ '';events;control_port=''
                               @ dec_port cport @ '';server_port='' @ dec_port dport
                        else ''RTP/AVP/TCP;unicast;interleaved=0-1;mode=record;server_port='' @ dec_port dport)
           in in_turn [add_header ''Transport'' reply, add_header ''Session'' ''1'',
                add_header ''Audio-Jack-Status'' ''Connected''] f))"

definition request_handle_setup :: "'d world \<Rightarrow> http_request \<Rightarrow> 'd handler" where
  "request_handle_setup w rq f = (if binary_plist rq then setup_plist w rq f else setup_transport w rq f)"

section \<open>ANNOUNCE\<close>

definition announced_key :: "'d world \<Rightarrow> rsakey \<Rightarrow> string option \<Rightarrow> string option \<Rightarrow> raop_error + byte list" where
  \<comment> \<open>the array \<open>aeskey\<close>; what no branch writes keeps its indeterminate bytes\<close>
  "announced_key w key fpaeskeystr aeskeystr =
     (if fpaeskeystr \<noteq> None \<and> aeskeystr = None then
        (case rsakey_base64_decode key fpaeskeystr of
           Inl _ \<Rightarrow> Inr (w_aeskey w)
         | Inr buf \<Rightarrow>
             if length buf \<noteq> 72 then Inr (w_aeskey w)
             else (case fairplay_query (w_query w) 3 buf 0 of
                 None \<Rightarrow> Inl OutOfBounds
               | Some (_, None, _) \<Rightarrow> Inl Uninitialised   \<comment> \<open>\<open>aeskeylen\<close>\<close>
               | Some (_, Some p, _) \<Rightarrow> Inr (if length p = 16 then p else w_aeskey w)))
      else (case rsakey_decrypt (w_sha1 w) key 16 aeskeystr of
          Inl _ \<Rightarrow> Inr (w_aeskey w)
        | Inr bs \<Rightarrow> Inr (write_at 0 bs (w_aeskey w))))"

definition announced_iv :: "'d world \<Rightarrow> rsakey \<Rightarrow> string option \<Rightarrow> byte list" where
  "announced_iv w key aesivstr =
     (case rsakey_parseiv key 16 aesivstr of Inl _ \<Rightarrow> w_aesiv w | Inr bs \<Rightarrow> write_at 0 bs (w_aesiv w))"

definition announce_session :: "'d world \<Rightarrow> string option \<Rightarrow> string option \<Rightarrow> string \<Rightarrow> byte list \<Rightarrow> byte list \<Rightarrow> 'd handler" where
  \<comment> \<open>the old audio session is destroyed; \<open>raop_rtp_init\<close> asserts that its texts are there\<close>
  "announce_session w remotestr rtpmapstr fmtpstr aeskey aesiv f =
     (let f = rtp_destroy f
      in case (remotestr, rtpmapstr) of
           (Some remotestr, Some rtpmapstr) \<Rightarrow>
             ebind (rtp_create w (w_rtp w 0) (f_raop f) remotestr rtpmapstr fmtpstr aeskey aesiv) (\<lambda>r.
               Inr (case r of None \<Rightarrow> set_disconnect f | Some rr \<Rightarrow> set_rtp rr f))
         | _ \<Rightarrow> Inl AssertionFails)"

definition request_handle_announce :: "'d world \<Rightarrow> http_request \<Rightarrow> 'd handler" where
  "request_handle_announce w rq f =
     (let data = http_request_get_data rq
      in if data = [] then Inr f
      else let sdp = sdp_init data; key = r_rsakey (f_raop f);
               aeskeystr = sdp_get_rsaaeskey sdp; fpaeskeystr = sdp_get_fpaeskey sdp
      in case sdp_get_fmtp sdp of
           None \<Rightarrow> Inl NullPointer
         | Some fmtpstr \<Rightarrow>
             (let f = upd_conn (\<lambda>c. c\<lparr>c_cn := (if c_strstr fmtpstr ''AAC-eld'' \<noteq> None then 3
                                               else if c_strstr fmtpstr ''AAC'' \<noteq> None then 2 else c_cn c),
                                     c_et := (if fpaeskeystr \<noteq> None \<and> aeskeystr = None then 3 else c_et c)\<rparr>) f
              in ebind (announced_key w key fpaeskeystr aeskeystr) (\<lambda>aeskey.
                   announce_session w (sdp_get_connection sdp) (sdp_get_rtpmap sdp) fmtpstr aeskey
                     (announced_iv w key (sdp_get_aesiv sdp)) f)))"

section \<open>Authorization\<close>

abbreviation REALM :: string where "REALM \<equiv> ''AppleTV''"

definition compares_uri :: "string \<Rightarrow> string \<Rightarrow> string option \<Rightarrow> bool" where
  \<comment> \<open>\<open>digest_is_valid\<close> comes to \<open>strcmp(uri, our_uri)\<close>\<close>
  "compares_uri our_realm our_nonce authorization =
     (case authorization of
        None \<Rightarrow> False
      | Some auth \<Rightarrow> starts_with auth ''Digest'' \<and>
          (let a = digest_parse auth
           in a_username a \<noteq> None \<and> a_uri a \<noteq> None \<and> a_response a \<noteq> None \<and>
              a_realm a = Some our_realm \<and> a_nonce a = Some our_nonce))"

definition authorized :: "'d world \<Rightarrow> http_request \<Rightarrow> string \<Rightarrow> 'd frame \<Rightarrow> raop_error + bool" where
  "authorized w rq method f =
     (let authorization = http_request_get_header rq ''Authorization'' 1; nonce = c_nonce (f_conn f)
      in case http_request_get_url rq 1 of
           None \<Rightarrow> Inl NullPointer
         | Some None \<Rightarrow> if compares_uri REALM nonce authorization then Inl NullPointer else Inr False
         | Some (Some url) \<Rightarrow>
             Inr (digest_is_valid (w_md5 w) REALM (r_password (f_raop f)) nonce method url authorization))"

definition www_authenticate :: "string \<Rightarrow> string" where
  \<open>www_authenticate nonce = ''Digest realm="'' @ REALM @ ''", nonce="'' @ nonce @ ''"''\<close>

definition start_response :: "nat \<Rightarrow> string \<Rightarrow> 'd handler" where
  "start_response code message f =
     (case http_response_init ''RTSP/1.0'' code message of
        Inl e \<Rightarrow> Inl (ResponseError e)
      | Inr res \<Rightarrow> Inr (f\<lparr>f_response := res\<rparr>))"

definition request_handle_authorization :: "'d world \<Rightarrow> http_request \<Rightarrow> string \<Rightarrow> 'd frame \<Rightarrow> raop_error + bool \<times> 'd frame" where
  \<comment> \<open>with \<open>require_auth\<close>; the refusal starts a new response\<close>
  "request_handle_authorization w rq method f = ebind (authorized w rq method f) (\<lambda>ok.
     if ok then Inr (False, f)
     else ebind (in_turn [start_response 401 ''Unauthorized'',
                   add_header ''WWW-Authenticate'' (www_authenticate (c_nonce (f_conn f)))] f)
            (\<lambda>f. Inr (True, f)))"

section \<open>The dispatcher\<close>

definition apple_response :: "string \<Rightarrow> 'd handler" where
  "apple_response challenge f =
     (let raop = f_raop f
      in case rsakey_sign (r_rsakey raop) 512 challenge (c_local (f_conn f)) (take (r_hwaddrlen raop) (r_hwaddr raop)) of
           None \<Rightarrow> Inl OutOfBounds
         | Some (_, signature) \<Rightarrow> add_header ''Apple-Response'' (case signature of None \<Rightarrow> [] | Some s \<Rightarrow> s) f)"

definition answer_challenge :: "bool \<Rightarrow> string option \<Rightarrow> 'd handler" where
  "answer_challenge require_auth challenge f =
     (case challenge of None \<Rightarrow> Inr f | Some ch \<Rightarrow> if require_auth then Inr f else apple_response ch f)"

definition check_password :: "'d world \<Rightarrow> http_request \<Rightarrow> string \<Rightarrow> 'd frame \<Rightarrow> raop_error + bool \<times> 'd frame" where
  "check_password w rq method f =
     (if method \<noteq> ''OPTIONS'' \<and> r_password (f_raop f) \<noteq> [] then request_handle_authorization w rq method f
      else Inr (False, f))"

definition with_uri :: "string option \<Rightarrow> (string \<Rightarrow> 'd handler) \<Rightarrow> 'd handler" where
  \<comment> \<open>\<open>strcmp(uri, ...)\<close>\<close>
  "with_uri uri g f = (case uri of None \<Rightarrow> Inl NullPointer | Some u \<Rightarrow> g u f)"

definition handle_request :: "'d world \<Rightarrow> http_request \<Rightarrow> string \<Rightarrow> string option \<Rightarrow> int \<Rightarrow> 'd handler" where
  "handle_request w rq method uri index =
     (if method = ''POST'' then with_uri uri (\<lambda>u.
        if u = ''/pair-setup'' then request_handle_pairsetup w rq
        else if u = ''/pair-verify'' then request_handle_pairverify w rq
        else if u = ''/fp-setup'' then request_handle_fpsetup rq
        else if u = ''/auth-setup'' then request_handle_authsetup rq
        else if u = ''/feedback'' then request_handle_feedback
        else Inr)
      else if method = ''GET'' then with_uri uri (\<lambda>u.
        if u = ''/info'' then request_handle_info w
        else if u = ''/stream.xml'' then request_handle_streamxml
        else Inr)
      else if method = ''OPTIONS'' then request_handle_options
      else if method = ''ANNOUNCE'' then request_handle_announce w rq
      else if method = ''SETUP'' then request_handle_setup w rq
      else if method = ''SET_PARAMETER'' then request_handle_setparameter w rq index
      else if method = ''FLUSH'' then request_handle_flush rq
      else if method = ''TEARDOWN'' then request_handle_teardown w rq
      else if method = ''RECORD'' then request_handle_record
      else if method = ''GET_PARAMETER'' then request_handle_getparameter
      else Inr)"

definition finish_response :: "'d handler" where
  "finish_response f =
     (case http_response_finish (f_response f) (f_body f) of
        Inl e \<Rightarrow> Inl (ResponseError e)
      | Inr res \<Rightarrow> Inr (f\<lparr>f_response := res\<rparr>))"

definition closing_headers :: "'d world \<Rightarrow> string option \<Rightarrow> 'd handler" where
  "closing_headers w cseq = in_turn
     [add_header ''Server'' ''AirTunes/373.8'',
      (case cseq of None \<Rightarrow> Inr | Some s \<Rightarrow> add_header ''CSeq'' s),
      add_header ''Date'' (w_time w), finish_response]"

definition new_frame :: "raop \<Rightarrow> 'd raop_conn \<Rightarrow> 'd frame" where
  "new_frame raop conn = \<lparr>f_raop = raop, f_conn = conn, f_response = fresh_response, f_body = [], f_events = []\<rparr>"

definition conn_request :: "'d world \<Rightarrow> http_request \<Rightarrow> int \<Rightarrow> raop \<Rightarrow> 'd raop_conn \<Rightarrow> raop_error + 'd frame option" where
  \<comment> \<open>\<open>None\<close>: no response is stored\<close>
  "conn_request w rq index raop conn =
     (case http_request_get_url rq index of
        None \<Rightarrow> Inl NullPointer
      | Some uri \<Rightarrow>
          (case http_request_get_method rq of
             None \<Rightarrow> Inr None
           | Some method \<Rightarrow>
               ebind (start_response 200 ''OK'' (new_frame raop conn)) (\<lambda>f.
               ebind (check_password w rq method f) (\<lambda>(require_auth, f).
               ebind (in_turn [answer_challenge require_auth (http_request_get_header rq ''Apple-Challenge'' index),
                        handle_request w rq method uri index,
                        closing_headers w (http_request_get_header rq ''CSeq'' index)] f) (\<lambda>f. Inr (Some f))))))"

section \<open>Connections\<close>

definition conn_init :: "bool \<Rightarrow> byte list \<Rightarrow> u32 \<Rightarrow> byte list \<Rightarrow> byte list \<Rightarrow> 'd raop_conn option" where
  \<comment> \<open>\<open>mem\<close> and \<open>time\<close> for the nonce\<close>
  "conn_init calloc_ok mem time loc rem =
     (if \<not> calloc_ok then None
      else map_option (\<lambda>nonce. \<lparr>c_raop_rtp = None, c_airdata_1 = None, c_airdata_2 = None, c_local = loc,
             c_remote_addr = rem, c_et = 1, c_cn = 1, c_nonce = c_str nonce 0, c_controlPort = 0, c_timingPort = 0,
             c_dataPort = 53291, c_eventPort = 55556, c_rsa_key = replicate 16 0, c_rsa_iv = replicate 16 0,
             c_rsa_cbc_key = replicate 16 0, c_rsa_cbc_iv = replicate 16 0, c_cv_sha = replicate 32 0\<rparr>)
           (digest_generate_nonce mem time 33))"

definition conn_destroy :: "'d raop_conn \<Rightarrow> raop_event list" where
  "conn_destroy conn =
     (case c_raop_rtp conn of None \<Rightarrow> [] | Some rr \<Rightarrow> map Audio (snd (raop_rtp_stop rr)))
     @ map CloseEventSocket (airdata_free (c_airdata_1 conn) @ airdata_free (c_airdata_2 conn))"

section \<open>The server object\<close>

definition raop_init :: "nat \<Rightarrow> bool \<Rightarrow> bool \<Rightarrow> callbacks \<Rightarrow> bool \<Rightarrow> bool \<Rightarrow> rsakey option \<Rightarrow> raop_error + raop option" where
  \<comment> \<open>\<open>net_ok\<close>: \<open>netutils_init\<close>; \<open>audio_init\<close>: that callback is set; \<open>httpd_ok\<close>: \<open>httpd_init\<close>; \<open>key\<close>: what
     \<open>rsakey_init_pem\<close> makes of the key. The globals have their initial values.\<close>
  "raop_init max_clients net_ok audio_init callbacks calloc_ok httpd_ok key =
     (if \<not> (0 < max_clients \<and> max_clients < 100) then Inl AssertionFails
      else if \<not> net_ok \<or> \<not> (audio_init \<and> cb_process callbacks \<and> cb_destroy callbacks) \<or> \<not> calloc_ok \<or> \<not> httpd_ok
      then Inr None
      else Inr (map_option (\<lambda>rsakey. \<lparr>r_callbacks = callbacks, r_rsakey = rsakey, r_hwaddr = replicate 6 0,
             r_hwaddrlen = 0, r_height = 0, r_width = 0, r_maxfps = 0, r_password = [], r_pair_data = zero_pair,
             r_message3 = replicate 164 0, r_aes_key_ctx = None\<rparr>) key))"

definition raop_start :: "byte list \<Rightarrow> string option \<Rightarrow> int \<Rightarrow> int \<Rightarrow> int \<Rightarrow> raop \<Rightarrow> bool \<times> raop" where
  \<comment> \<open>whether \<open>httpd_start\<close> is called, which then gives the result; else -1\<close>
  "raop_start hwaddr password width height maxfps raop =
     (if length hwaddr > 6 then (False, raop)
      else let raop = raop\<lparr>r_password := []\<rparr>
      in case password of
           Some pw \<Rightarrow> if length pw > 64 then (False, raop)
             else (True, raop\<lparr>r_password := pw, r_hwaddr := write_at 0 hwaddr (r_hwaddr raop), r_hwaddrlen := length hwaddr,
                     r_height := height, r_width := width, r_maxfps := maxfps\<rparr>)
         | None \<Rightarrow> (True, raop\<lparr>r_hwaddr := write_at 0 hwaddr (r_hwaddr raop), r_hwaddrlen := length hwaddr,
                     r_height := height, r_width := width, r_maxfps := maxfps\<rparr>))"

end
