(* ===== verification/Raop_State.thy ===== *)
theory Raop_State
  imports Raop
begin

text \<open>
  The state of the remote audio protocol server over any interleaving of connections, requests and turns of
  the audio threads: what every reachable state satisfies. The laws of the arguments (\<open>world_ok\<close>) are
  the sizes of the results of the cryptographic functions and of the local arrays.
\<close>

section \<open>Well-formed states\<close>

definition world_ok :: "'d world \<Rightarrow> bool" where
  "world_ok w \<longleftrightarrow> length (w_seed w) = 32 \<and> length (fst (w_keys w)) = 32 \<and> length (snd (w_keys w)) = 64
     \<and> (\<forall>s b. length (pc_donna (w_crypto w) s b) = 32) \<and> (\<forall>ms. length (pc_sha512 (w_crypto w) ms) = 64)
     \<and> (\<forall>k iv. length (pc_aes (w_crypto w) k iv) = 16)
     \<and> (\<forall>k b. length (pf_cycle (w_playfair w) k b) = 16)
     \<and> (\<forall>b. length (pf_z_xor (w_playfair w) b) = 16) \<and> (\<forall>b. length (pf_x_xor (w_playfair w) b) = 16)"

definition ctr_ok :: "ctr_state \<Rightarrow> bool" where
  "ctr_ok st \<longleftrightarrow> length (ct_ivec st) = 16 \<and> length (ct_ecount st) = 16 \<and> ct_num st < 16"

definition pair_ok :: "air_pair \<Rightarrow> bool" where
  "pair_ok cx \<longleftrightarrow> length (pr_cv_pub cx) = 32 \<and> length (pr_cv_pri cx) = 32 \<and> length (pr_cv_sha cx) = 32
     \<and> length (pr_cv_his cx) = 32 \<and> length (pr_ed_pub cx) = 32 \<and> length (pr_ed_pri cx) = 64 \<and> length (pr_ed_his cx) = 32
     \<and> length (pr_ctr_key cx) = 16 \<and> ctr_ok (pr_ctr cx) \<and> (\<forall>k. pr_aes_key cx = Some k \<longrightarrow> length k = 16)"

definition raop_ok :: "raop \<Rightarrow> bool" where
  "raop_ok r \<longleftrightarrow> length (r_hwaddr r) = 6 \<and> r_hwaddrlen r \<le> 6 \<and> length (r_password r) \<le> 64 \<and> length (r_message3 r) = 164
     \<and> pair_ok (r_pair_data r) \<and> (\<forall>ctx. r_aes_key_ctx r = Some ctx \<longrightarrow> length (g_ctr_key ctx) = 16 \<and> ctr_ok (g_ctr ctx))"

definition session_ok :: "'d codec \<Rightarrow> 'd raop_conn \<Rightarrow> bool" where
  "session_ok cdc c \<longleftrightarrow> c_et c \<in> {1, 3} \<and> c_cn c \<in> {1, 2, 3} \<and> length (c_nonce c) \<le> 32
     \<and> c_eventPort c = 55556 \<and> c_airdata_1 c = None \<and> c_airdata_2 c = None
     \<and> length (c_rsa_key c) = 16 \<and> length (c_rsa_iv c) = 16 \<and> length (c_rsa_cbc_key c) = 16 \<and> length (c_rsa_cbc_iv c) = 16
     \<and> length (c_cv_sha c) = 32 \<and> (\<forall>rr. c_raop_rtp c = Some rr \<longrightarrow> rtp_reachable cdc rr)"

definition frame_ok :: "'d codec \<Rightarrow> 'd frame \<Rightarrow> bool" where
  "frame_ok cdc f \<longleftrightarrow> raop_ok (f_raop f) \<and> session_ok cdc (f_conn f)"

definition keeps :: "'d codec \<Rightarrow> 'd handler \<Rightarrow> bool" where
  "keeps cdc h \<longleftrightarrow> (\<forall>f f'. frame_ok cdc f \<longrightarrow> h f = Inr f' \<longrightarrow> frame_ok cdc f')"

section \<open>Edits\<close>

named_theorems keeps \<open>handlers and steps that keep frames well-formed\<close>

lemma keepsI: "(\<And>f f'. frame_ok cdc f \<Longrightarrow> h f = Inr f' \<Longrightarrow> frame_ok cdc f') \<Longrightarrow> keeps cdc h"
  by (simp add: keeps_def)

lemma keepsD: "keeps cdc h \<Longrightarrow> frame_ok cdc f \<Longrightarrow> h f = Inr f' \<Longrightarrow> frame_ok cdc f'"
  by (simp add: keeps_def)

lemma frame_ok_edits [simp]:
  "frame_ok cdc (f\<lparr>f_response := res\<rparr>) = frame_ok cdc f"
  "frame_ok cdc (f\<lparr>f_body := s\<rparr>) = frame_ok cdc f"
  "frame_ok cdc (emit evs f) = frame_ok cdc f"
  "frame_ok cdc (set_disconnect f) = frame_ok cdc f"
  by (simp_all add: frame_ok_def emit_def set_disconnect_def)

lemma frame_ok_conn: "frame_ok cdc f \<Longrightarrow> session_ok cdc (g (f_conn f)) \<Longrightarrow> frame_ok cdc (upd_conn g f)"
  by (simp add: frame_ok_def upd_conn_def)

lemma frame_ok_raop: "frame_ok cdc f \<Longrightarrow> raop_ok (g (f_raop f)) \<Longrightarrow> frame_ok cdc (upd_raop g f)"
  by (simp add: frame_ok_def upd_raop_def)

lemma frame_okD: "frame_ok cdc f \<Longrightarrow> raop_ok (f_raop f)" "frame_ok cdc f \<Longrightarrow> session_ok cdc (f_conn f)"
  by (simp_all add: frame_ok_def)

lemma keeps_Inr [keeps]: "keeps cdc Inr"
  by (simp add: keeps_def)

lemma keeps_add_header [keeps]: "keeps cdc (add_header n v)"
  by (auto simp: keeps_def add_header_def split: sum.splits)

lemma keeps_set_body [keeps]: "keeps cdc (set_body s)"
  by (auto simp: keeps_def set_body_def)

lemma keeps_Cons: "keeps cdc h \<Longrightarrow> keeps cdc (in_turn hs) \<Longrightarrow> keeps cdc (in_turn (h # hs))"
  by (intro keepsI) (auto simp: in_turn.simps dest: keepsD)

lemma keeps_Nil: "keeps cdc (in_turn [])"
  by (simp add: keeps_def in_turn.simps)

lemma keeps_in_turn [keeps]: "(\<forall>h \<in> set hs. keeps cdc h) \<Longrightarrow> keeps cdc (in_turn hs)"
  by (induction hs) (simp_all add: keeps_Nil keeps_Cons)

lemma keeps_finish [keeps]: "keeps cdc finish_response"
  by (auto simp: keeps_def finish_response_def split: sum.splits)

lemma keeps_start_response [keeps]: "keeps cdc (start_response code message)"
  by (auto simp: keeps_def start_response_def split: sum.splits)

lemmas keeps_list = keeps_Cons keeps_Nil keeps

lemma keeps_if: "keeps cdc g \<Longrightarrow> keeps cdc h \<Longrightarrow> keeps cdc (if p then g else h)"
  by simp

lemma keeps_closing [keeps]: "keeps cdc (closing_headers w cseq)"
  unfolding closing_headers_def by (auto intro!: keeps split: option.splits)

section \<open>The audio session\<close>

lemma session_ok_rtp:
  "session_ok cdc c \<Longrightarrow> (\<And>rr. r = Some rr \<Longrightarrow> rtp_reachable cdc rr) \<Longrightarrow> session_ok cdc (c\<lparr>c_raop_rtp := r\<rparr>)"
  by (auto simp: session_ok_def)

lemma frame_ok_set_rtp: "frame_ok cdc f \<Longrightarrow> rtp_reachable cdc rr \<Longrightarrow> frame_ok cdc (set_rtp rr f)"
  unfolding set_rtp_def by (rule frame_ok_conn) (auto dest: frame_okD intro!: session_ok_rtp)

lemma frame_ok_destroy: "frame_ok cdc f \<Longrightarrow> frame_ok cdc (rtp_destroy f)"
  by (auto simp: rtp_destroy_def dest: frame_okD intro!: frame_ok_conn session_ok_rtp split: option.splits)

lemma frame_ok_reachable: "frame_ok cdc f \<Longrightarrow> c_raop_rtp (f_conn f) = Some rr \<Longrightarrow> rtp_reachable cdc rr"
  by (simp add: frame_ok_def session_ok_def)

lemma rtp_create_reachable: "rtp_create w env raop remote rtpmap fmtp key iv = Inr (Some rr) \<Longrightarrow> rtp_reachable (w_codec w) rr"
  by (auto simp: rtp_create_def split: option.splits intro: rtp_reachable.init)

lemma rtp_start_reachable:
  "rtp_reachable cdc rr \<Longrightarrow> rtp_start env rr udp cp tp = (rr', ports, evs) \<Longrightarrow> rtp_reachable cdc rr'"
  unfolding rtp_start_def by (rule rtp_reachable.start)

lemma keeps_flush [keeps]: "keeps cdc (request_handle_flush rq)"
proof (rule keepsI)
  fix f f' :: "'a frame"
  assume f: "frame_ok cdc f" "request_handle_flush rq f = Inr f'"
  then obtain n where "f' = upd_conn (\<lambda>c. c\<lparr>c_raop_rtp := map_option (\<lambda>rr. raop_rtp_flush rr n) (c_raop_rtp c)\<rparr>) f"
    by (auto simp: request_handle_flush_def Let_def)
  then show "frame_ok cdc f'"
    using f(1) by (auto intro!: frame_ok_conn session_ok_rtp rtp_reachable.flush dest: frame_okD frame_ok_reachable)
qed

lemma text_parameter_reachable: "rtp_reachable cdc rr \<Longrightarrow> text_parameter w s rr = Inr rr' \<Longrightarrow> rtp_reachable cdc rr'"
  by (auto simp: text_parameter_def intro: rtp_reachable.volume rtp_reachable.progress split: if_splits option.splits prod.splits)

lemma binary_parameter_reachable:
  "binary_parameter store data n len rr = Inr rr' \<Longrightarrow> \<exists>bs. rr' = store rr bs len"
  by (auto simp: binary_parameter_def split: if_splits)

lemma keeps_setparameter [keeps]: "keeps cdc (request_handle_setparameter w rq index)"
proof (rule keepsI)
  fix f f' :: "'a frame"
  assume f: "frame_ok cdc f" "request_handle_setparameter w rq index f = Inr f'"
  have "f' = f \<or> (\<exists>rr rr' g. c_raop_rtp (f_conn f) = Some rr \<and> g rr = Inr rr' \<and> f' = set_rtp rr' f \<and>
      ((\<exists>s. g = text_parameter w s) \<or> (\<exists>d n k. g = binary_parameter raop_rtp_set_coverart d n k) \<or>
       (\<exists>d n k. g = binary_parameter raop_rtp_set_metadata d n k)))"
    using f(2) by (auto simp: request_handle_setparameter_def Let_def split: option.splits if_splits) blast+
  then show "frame_ok cdc f'"
    using f(1) by (auto intro!: frame_ok_set_rtp dest!: binary_parameter_reachable
        intro: text_parameter_reachable rtp_reachable.coverart rtp_reachable.metadata frame_ok_reachable [OF f(1)])
qed

lemma keeps_teardown [keeps]: "keeps cdc (request_handle_teardown w rq)"
  by (auto simp: keeps_def request_handle_teardown_def intro: frame_ok_destroy)

section \<open>Pairing and FairPlay\<close>

lemma ctr_bytes_ok:
  assumes "\<forall>iv. length (block iv) = 16" "ctr_ok st"
  shows "ctr_ok (snd (ctr_bytes block st xs))"
  using assms(2)
proof (induction xs arbitrary: st)
  case (Cons x xs)
  have "ctr_ok (if ct_num st = 0 then next_block block st else st)"
    using Cons.prems assms(1) by (simp add: ctr_ok_def next_block_def ctr128_inc_value(2))
  then have "ctr_ok ((if ct_num st = 0 then next_block block st else st)\<lparr>ct_num := (ct_num (if ct_num st = 0 then next_block block st else st) + 1) mod 16\<rparr>)"
    by (simp add: ctr_ok_def)
  then show ?case using Cons.IH by (simp add: Let_def case_prod_beta)
qed simp

lemma ctr_encrypt_ok:
  assumes "\<forall>iv. length (block iv) = 16" "ctr_ok st"
  shows "ctr_ok (snd (new_AES_ctr128_encrypt block al st inp))"
  using ctr_bytes_ok [OF assms] assms(1) by (simp add: new_AES_ctr128_encrypt_def ctr_encrypt_bytes)

lemma pair_start_fields:
  assumes "pair_start pc al seed body cx = (cx', reply)"
  shows "pr_cv_his cx' = take 32 (drop 4 body)" "pr_ed_his cx' = take 32 (drop 36 body)" "pr_cv_pri cx' = seed"
    "pr_cv_pub cx' = pc_donna pc seed None" "pr_cv_sha cx' = pc_donna pc seed (Some (take 32 (drop 4 body)))"
    "pr_ed_pub cx' = pr_ed_pub cx" "pr_ed_pri cx' = pr_ed_pri cx" "\<exists>ms. pr_ctr_key cx' = take 16 (pc_sha512 pc ms)"
    "pr_aes_key cx' = Some (pr_ctr_key cx')"
    "\<exists>k ms inp. pr_ctr cx' = snd (new_AES_ctr128_encrypt (pc_aes pc k) al
       \<lparr>ct_ivec = take 16 (pc_sha512 pc ms), ct_ecount = replicate 16 0, ct_num = 0\<rparr> inp)"
  using assms by (auto simp: pair_start_def sha512msg_def Let_def split: prod.splits) (metis snd_conv)

lemma pair_ok_verify:
  assumes "world_ok w" "pair_ok cx" "pair_verify (w_crypto w) al (w_seed w) body cx = (cx', reply)"
  shows "pair_ok cx'"
proof -
  note w = assms(1) [unfolded world_ok_def]
  have fin: "pair_ok (fst (pair_finish (w_crypto w) al body cx))"
    using assms(2) w ctr_encrypt_ok [of "pc_aes (w_crypto w) (pr_aes_key cx)" "pr_ctr cx" al "take 64 (drop 4 body)"]
    by (simp add: pair_finish_def pair_ok_def case_prod_beta)
  have start: "pair_ok (fst (pair_start (w_crypto w) al (w_seed w) body cx))" if len: "68 \<le> length body"
  proof -
    obtain cx' reply where s: "pair_start (w_crypto w) al (w_seed w) body cx = (cx', reply)" by fastforce
    note f = pair_start_fields [OF s]
    obtain k ms inp where c: "pr_ctr cx' = snd (new_AES_ctr128_encrypt (pc_aes (w_crypto w) k) al
       \<lparr>ct_ivec = take 16 (pc_sha512 (w_crypto w) ms), ct_ecount = replicate 16 0, ct_num = 0\<rparr> inp)" using f(10) by blast
    have "ctr_ok (pr_ctr cx')"
      unfolding c by (rule ctr_encrypt_ok) (use w in \<open>simp_all add: ctr_ok_def\<close>)
    then show ?thesis using s w assms(2) len f(1-7,9) f(8) by (auto simp: pair_ok_def)
  qed
  show ?thesis using assms(2,3) fin start by (auto simp: pair_verify_def split: if_splits prod.splits)
qed

lemma keeps_pairsetup [keeps]:
  assumes "world_ok w"
  shows "keeps cdc (request_handle_pairsetup w rq)"
proof (rule keepsI)
  fix f f' :: "'a frame"
  assume f: "frame_ok cdc f" "request_handle_pairsetup w rq f = Inr f'"
  let ?f = "upd_raop (r_pair_data_update (pair_setup (w_keys w) (bytes_of (http_request_get_data rq)))) f"
  have "frame_ok cdc ?f"
    using f(1) assms
    by (auto simp: frame_ok_def upd_raop_def raop_ok_def pair_ok_def pair_setup_def world_ok_def Let_def)
  moreover have "in_turn [set_body (chars_of (pr_ed_pub (r_pair_data (f_raop ?f)))),
       add_header ''Content-Type'' ''application/octet-stream''] ?f = Inr f'"
    using f(2) by (simp add: request_handle_pairsetup_def Let_def)
  moreover have "keeps cdc (in_turn [set_body x, add_header n v])" for x n v by (intro keeps_list)
  ultimately show "frame_ok cdc f'" using keepsD by blast
qed

lemma keeps_pairverify [keeps]:
  assumes "world_ok w"
  shows "keeps cdc (request_handle_pairverify w rq)"
proof (rule keepsI)
  fix f f' :: "'a frame"
  assume f: "frame_ok cdc f" "request_handle_pairverify w rq f = Inr f'"
  obtain cx reply where v: "pair_verify (w_crypto w) (w_aligned w) (w_seed w) (bytes_of (http_request_get_data rq))
      (r_pair_data (f_raop f)) = (cx, reply)" by fastforce
  have cx: "pair_ok cx"
    using pair_ok_verify [OF assms _ v] frame_okD(1) [OF f(1)] by (simp add: raop_ok_def)
  let ?f = "upd_raop (r_pair_data_update (\<lambda>_. cx)) f"
  have ok: "frame_ok cdc ?f" using f(1) cx by (auto simp: frame_ok_def upd_raop_def raop_ok_def)
  then have ok': "frame_ok cdc (upd_conn (c_cv_sha_update (\<lambda>_. pr_cv_sha cx)) ?f)"
    using cx by (auto simp: frame_ok_def upd_conn_def session_ok_def pair_ok_def)
  have k: "keeps cdc (in_turn [set_body s, add_header n v])" "keeps cdc (in_turn [add_header n' v', add_header n v])" for s n v n' v'
    by (intro keeps_list)+
  show "frame_ok cdc f'"
  proof (cases reply)
    case (Challenge bs)
    then show ?thesis using f(2) keepsD [OF k(1) ok'] by (simp add: request_handle_pairverify_def v)
  next
    case Rejected
    then show ?thesis using f(2) keepsD [OF k(2) ok] by (simp add: request_handle_pairverify_def v)
  next
    case Accepted
    then show ?thesis using f(2) keepsD [OF keeps_add_header ok] by (simp add: request_handle_pairverify_def v)
  qed (use f(2) in \<open>simp_all add: request_handle_pairverify_def v\<close>)
qed

lemma keeps_fpsetup [keeps]: "keeps cdc (request_handle_fpsetup rq)"
  by (auto simp: keeps_def request_handle_fpsetup_def set_body_def frame_ok_def upd_raop_def raop_ok_def Let_def
      split: if_splits)

section \<open>ANNOUNCE and SETUP\<close>

lemma keeps_announce_session:
  assumes "w_codec w = cdc"
  shows "keeps cdc (announce_session w remote rtpmap fmtp key iv)"
proof (rule keepsI)
  fix f f' :: "'a frame"
  assume f: "frame_ok cdc f" "announce_session w remote rtpmap fmtp key iv f = Inr f'"
  note d = frame_ok_destroy [OF f(1)]
  show "frame_ok cdc f'"
    using f(2) d assms
    by (auto simp: announce_session_def Let_def split: option.splits intro!: frame_ok_set_rtp dest: rtp_create_reachable)
qed

lemma keeps_announce [keeps]:
  assumes "w_codec w = cdc"
  shows "keeps cdc (request_handle_announce w rq)"
proof (rule keepsI)
  fix f f' :: "'a frame"
  assume f: "frame_ok cdc f" "request_handle_announce w rq f = Inr f'"
  have "f' = f \<or> (\<exists>p q r a b c d e. announce_session w a b c d e
      (upd_conn (\<lambda>c. c\<lparr>c_cn := (if p then 3 else if q then 2 else c_cn c), c_et := (if r then 3 else c_et c)\<rparr>) f) = Inr f')"
    using f(2) by (auto simp: request_handle_announce_def Let_def split: if_splits option.splits)
  then show "frame_ok cdc f'"
  proof (elim disjE exE)
    fix p q r a b c d e
    let ?f = "upd_conn (\<lambda>c. c\<lparr>c_cn := (if p then 3 else if q then 2 else c_cn c), c_et := (if r then 3 else c_et c)\<rparr>) f"
    assume "announce_session w a b c d e ?f = Inr f'"
    moreover have "frame_ok cdc ?f" using f(1) by (auto simp: frame_ok_def upd_conn_def session_ok_def)
    ultimately show "frame_ok cdc f'" using keepsD [OF keeps_announce_session [OF assms]] by blast
  qed (use f(1) in simp)
qed

lemma length_decrypted:
  assumes "world_ok w" "opened_ekey w r ekey = Inr (Some key)"
  shows "length (take 16 key) = 16"
  using assms by (auto simp: opened_ekey_def fairplay_decrypt_def fp_result_def world_ok_def Let_def split: if_splits)

lemma keeps_take_eiv [keeps]: "keeps cdc (take_eiv p)"
proof (rule keepsI)
  fix f f'
  assume f: "frame_ok cdc f" "take_eiv p f = Inr f'"
  have "frame_ok cdc (upd_conn (c_rsa_iv_update (write_at 0 iv)) f)" if "length iv \<le> 16" for iv
    using f(1) that by (auto simp: frame_ok_def upd_conn_def session_ok_def)
  then show "frame_ok cdc f'" using f by (auto simp: take_eiv_def not_less split: option.splits if_splits)
qed

lemma keeps_take_ekey [keeps]:
  assumes "world_ok w"
  shows "keeps cdc (take_ekey w p)"
proof (rule keepsI)
  fix f f'
  assume f: "frame_ok cdc f" "take_ekey w p f = Inr f'"
  have "frame_ok cdc (upd_conn (c_rsa_key_update (\<lambda>_. take 16 k)) f)" if "length (take 16 k) = 16" for k
    using f(1) that by (auto simp: frame_ok_def upd_conn_def session_ok_def)
  then show "frame_ok cdc f'"
    using f length_decrypted [OF assms] by (auto simp: take_ekey_def split: option.splits if_splits)
qed

lemma keeps_take_keys [keeps]:
  assumes "world_ok w"
  shows "keeps cdc (take_keys w p)"
proof (rule keepsI)
  fix f f'
  assume f: "frame_ok cdc f" "take_keys w p f = Inr f'"
  then obtain g where "take_eiv p f = Inr g" "take_ekey w p g = Inr f'" by (auto simp: take_keys_def)
  then show "frame_ok cdc f'" using f(1) keepsD [OF keeps_take_eiv] keepsD [OF keeps_take_ekey [OF assms]] by blast
qed

lemma keeps_stream_keys [keeps]:
  assumes "world_ok w"
  shows "keeps cdc (stream_keys w ver n_type p)"
proof (rule keepsI)
  fix f f' :: "'a frame"
  assume f: "frame_ok cdc f" "stream_keys w ver n_type p f = Inr f'"
  have l: "length (sha512msg (pc_sha512 (w_crypto w)) a b) = 64" for a b
    using assms by (simp add: sha512msg_def world_ok_def)
  have m: "frame_ok cdc (upd_raop (r_aes_key_ctx_update (\<lambda>_. Some (g_aes_crt_setkey a b))) f)" if "length a = 64" "length b = 64" for a b
    using f(1) that by (auto simp: frame_ok_def upd_raop_def raop_ok_def g_aes_crt_setkey_def ctr_ok_def)
  have a: "frame_ok cdc (upd_conn (\<lambda>c. c\<lparr>c_rsa_cbc_key := (if q then take 16 (sha512msg (pc_sha512 (w_crypto w)) x y) else c_rsa_key c),
                               c_rsa_cbc_iv := c_rsa_iv c\<rparr>) f)" for q x y
    using f(1) l by (auto simp: frame_ok_def upd_conn_def session_ok_def)
  show "frame_ok cdc f'"
    using f m a assms by (auto simp: stream_keys_def sha512msg2_def world_ok_def Let_def split: if_splits)
qed

lemma open_event_channel_closed: "c_eventPort (f_conn f) \<noteq> 0 \<Longrightarrow> open_event_channel w env remote f = Inr f"
  by (simp add: open_event_channel_def)

lemma keeps_event_channel [keeps]:
  "keeps cdc (open_event_channel w env remote)" "keeps cdc (\<lambda>f. open_event_channel w env (remote_text (f_conn f)) f)"
proof -
  have "c_eventPort (f_conn f) \<noteq> 0" if "frame_ok cdc f" for f :: "'a frame"
    using frame_okD(2) [OF that] by (simp add: session_ok_def)
  then show "keeps cdc (open_event_channel w env remote)" "keeps cdc (\<lambda>f. open_event_channel w env (remote_text (f_conn f)) f)"
    by (simp_all add: keeps_def open_event_channel_closed)
qed

lemma frame_ok_ports:
  "frame_ok cdc f \<Longrightarrow> frame_ok cdc (upd_conn (\<lambda>c. c\<lparr>c_controlPort := p, c_timingPort := q, c_dataPort := r\<rparr>) f)"
  by (simp add: frame_ok_def upd_conn_def session_ok_def)

lemma frame_ok_run_audio:
  assumes "frame_ok cdc f" "rtp_reachable cdc rr"
  shows "frame_ok cdc (run_audio env port rr f)"
proof -
  obtain rr' ports evs where s: "rtp_start env rr True port 0 = (rr', ports, evs)" by (rule prod_cases3)
  have "frame_ok cdc (emit (map Audio evs) (set_rtp rr' f))"
    using frame_ok_set_rtp [OF assms(1) rtp_start_reachable [OF assms(2) s]] by simp
  note this frame_ok_ports [OF this]
  then show ?thesis by (auto simp: run_audio_def s Let_def simp del: frame_ok_edits split: option.splits)
qed

lemma keeps_start_audio [keeps]:
  assumes "w_codec w = cdc"
  shows "keeps cdc (start_audio w env remote rtpmap fmtp port)"
proof (rule keepsI)
  fix f f' :: "'a frame"
  assume f: "frame_ok cdc f" "start_audio w env remote rtpmap fmtp port f = Inr f'"
  note d = frame_ok_destroy [OF f(1)]
  show "frame_ok cdc f'"
    using f(2) d assms by (auto simp: start_audio_def Let_def split: option.splits
        intro!: frame_ok_run_audio dest: rtp_create_reachable)
qed

lemma keeps_audio_stream [keeps]:
  assumes "w_codec w = cdc"
  shows "keeps cdc (audio_stream w env item)"
proof (rule keepsI)
  fix f f' :: "'a frame"
  assume f: "frame_ok cdc f" "audio_stream w env item f = Inr f'"
  then obtain remote rtpmap fmtp port where
    "in_turn [start_audio w env remote rtpmap fmtp port, open_event_channel w env remote] f = Inr f'"
    by (auto simp: audio_stream_def Let_def split: if_splits prod.splits)
  moreover have "keeps cdc (in_turn [start_audio w env remote rtpmap fmtp port, open_event_channel w env remote])"
    by (intro keeps_Cons keeps_Nil keeps_start_audio keeps_event_channel assms)
  ultimately show "frame_ok cdc f'" using f(1) keepsD by blast
qed

lemma setup_stream_ok:
  assumes "world_ok w" "w_codec w = cdc" "frame_ok cdc f" "setup_stream w ver env item (n, f) = Inr (n', f')"
  shows "frame_ok cdc f'"
proof -
  have "keeps cdc (in_turn [stream_keys w ver t p, (if t = 96 then audio_stream w env item
                   else if t = 110 then (\<lambda>f. open_event_channel w env (remote_text (f_conn f)) f) else Inr)])" for t p
    by (intro keeps_Cons keeps_Nil keeps_stream_keys assms(1)) (auto intro: keeps assms(2))
  then show ?thesis using assms(3,4) keepsD by (auto simp: setup_stream_def Let_def) blast
qed

lemma setup_streams_ok:
  assumes "world_ok w" "w_codec w = cdc"
  shows "frame_ok cdc f \<Longrightarrow> setup_streams w ver k items (n, f) = Inr (n', f') \<Longrightarrow> frame_ok cdc f'"
proof (induction items arbitrary: k n f)
  case (Cons item items)
  obtain n1 f1 where "setup_stream w ver (w_rtp w k) item (n, f) = Inr (n1, f1)" "setup_streams w ver (k + 1) items (n1, f1) = Inr (n', f')"
    using Cons.prems(2) by auto
  then show ?case using setup_stream_ok [OF assms Cons.prems(1)] Cons.IH by blast
qed simp

lemma keeps_setup_reply [keeps]: "keeps cdc (setup_reply w ver with_key n)"
proof (rule keepsI)
  fix f f' :: "'a frame"
  have k: "keeps cdc (in_turn [add_header a b, (if p then set_body x else if q then set_body y else if r then set_body z else add_header c d)])"
    for a b c d p q r x y z by (intro keeps_list) (auto intro: keeps)
  show "frame_ok cdc f \<Longrightarrow> setup_reply w ver with_key n f = Inr f' \<Longrightarrow> frame_ok cdc f'"
    unfolding setup_reply_def by (rule keepsD [OF k])
qed

lemma keeps_setup_plist:
  assumes "world_ok w" "w_codec w = cdc"
  shows "keeps cdc (setup_plist w rq)"
proof (rule keepsI)
  fix f f' :: "'a frame"
  assume f: "frame_ok cdc f" "setup_plist w rq f = Inr f'"
  show "frame_ok cdc f'"
  proof (cases "\<exists>p. w_from_bin w (http_request_get_data rq) = Some p \<and> plist_dict_get_size p \<noteq> 0")
    case False
    then show ?thesis using f by (auto simp: setup_plist_def split: option.splits)
  next
    case True
    then obtain p where p: "w_from_bin w (http_request_get_data rq) = Some p" "plist_dict_get_size p \<noteq> 0" by blast
    with f(2) obtain f1 ver items n f2 wk where s: "take_keys w p f = Inr f1"
      "setup_streams w ver 0 items (0, f1) = Inr (n, f2)" "setup_reply w ver wk n f2 = Inr f'"
      by (auto simp: setup_plist_def Let_def)
    have "frame_ok cdc f1" by (rule keepsD [OF keeps_take_keys [OF assms(1)] f(1) s(1)])
    then have "frame_ok cdc f2" by (rule setup_streams_ok [OF assms _ s(2)])
    then show ?thesis by (rule keepsD [OF keeps_setup_reply _ s(3)])
  qed
qed

lemma keeps_setup_transport: "keeps cdc (setup_transport w rq)"
proof (rule keepsI)
  fix f f' :: "'a frame"
  assume f: "frame_ok cdc f" "setup_transport w rq f = Inr f'"
  have h: "keeps cdc (in_turn [add_header a b, add_header c d, add_header e g])" for a b c d e g by (intro keeps_list)
  show "frame_ok cdc f'"
  proof (cases "c_raop_rtp (f_conn f)")
    case None
    then obtain v where "in_turn [add_header ''Transport'' v, add_header ''Session'' ''1'', add_header ''Audio-Jack-Status'' ''Connected'']
        (set_disconnect f) = Inr f'"
      using f(2) by (auto simp: setup_transport_def Let_def split: option.splits)
    then show ?thesis using f(1) keepsD [OF h, of "set_disconnect f"] by simp
  next
    case (Some rr)
    then obtain rr' udp cp tp ports evs v where s: "rtp_start (w_rtp w 0) rr udp cp tp = (rr', ports, evs)"
      "in_turn [add_header ''Transport'' v, add_header ''Session'' ''1'', add_header ''Audio-Jack-Status'' ''Connected'']
        (emit (map Audio evs) (set_rtp rr' f)) = Inr f'"
      using f(2) by (auto simp: setup_transport_def Let_def split: option.splits prod.splits)
    have "rtp_reachable cdc rr'" by (rule rtp_start_reachable [OF frame_ok_reachable [OF f(1) Some] s(1)])
    then show ?thesis using f(1) s(2) keepsD [OF h] by (metis frame_ok_edits(3) frame_ok_set_rtp)
  qed
qed

lemma keeps_setup [keeps]:
  assumes "world_ok w" "w_codec w = cdc"
  shows "keeps cdc (request_handle_setup w rq)"
  using keepsD [OF keeps_setup_plist [OF assms]] keepsD [OF keeps_setup_transport]
  by (intro keepsI) (simp add: request_handle_setup_def split: if_splits)

section \<open>The dispatcher\<close>

lemma keeps_plain [keeps]:
  "keeps cdc request_handle_feedback" "keeps cdc request_handle_getparameter" "keeps cdc request_handle_record"
  "keeps cdc request_handle_options" "keeps cdc (request_handle_authsetup rq)" "keeps cdc request_handle_streamxml"
  "keeps cdc (request_handle_info w)"
proof -
  have k: "keeps cdc (in_turn [add_header a b, set_body x])" "keeps cdc (in_turn [add_header a b, add_header c d])" for a b c d x
    by (intro keeps_list)+
  show "keeps cdc request_handle_feedback"
  proof (rule keepsI)
    fix f f' :: "'a frame"
    assume f: "frame_ok cdc f" "request_handle_feedback f = Inr f'"
    show "frame_ok cdc f'"
      by (rule keepsD [OF keeps_add_header, of _ "emit [MirroringLive] f"]) (use f in \<open>simp_all add: request_handle_feedback_def\<close>)
  qed
  show "keeps cdc request_handle_getparameter"
    by (rule keepsI, unfold request_handle_getparameter_def) (rule keepsD [OF k(1)])
  show "keeps cdc request_handle_streamxml"
    by (rule keepsI, unfold request_handle_streamxml_def) (rule keepsD [OF k(1)])
  show "keeps cdc request_handle_record"
    by (rule keepsI, unfold request_handle_record_def) (rule keepsD [OF k(2)])
  show "keeps cdc request_handle_options"
    by (rule keepsI, unfold request_handle_options_def) (rule keepsD [OF keeps_add_header])
  show "keeps cdc (request_handle_authsetup rq)"
    by (rule keepsI, unfold request_handle_authsetup_def) (rule keepsD [OF keeps_set_body])
  show "keeps cdc (request_handle_info w)"
    by (rule keepsI, unfold request_handle_info_def Let_def) (rule keepsD [OF keeps_set_body])
qed

lemma keeps_with_uri [keeps]: "(\<And>u. keeps cdc (g u)) \<Longrightarrow> keeps cdc (with_uri uri g)"
  by (intro keepsI) (auto simp: with_uri_def dest: keepsD split: option.splits)

lemma keeps_handle_request [keeps]:
  assumes "world_ok w" "w_codec w = cdc"
  shows "keeps cdc (handle_request w rq method uri index)"
  unfolding handle_request_def
  by (intro keeps_if keeps_with_uri keeps_pairsetup keeps_pairverify keeps_fpsetup keeps_plain keeps_Inr keeps_announce keeps_setup
      keeps_setparameter keeps_flush keeps_teardown assms)

lemma keeps_apple_response [keeps]: "keeps cdc (apple_response challenge)"
  by (intro keepsI) (auto simp: apple_response_def Let_def split: option.splits dest: keepsD [OF keeps_add_header])

lemma keeps_answer_challenge: "keeps cdc (answer_challenge q ch)"
  by (intro keepsI) (auto simp: answer_challenge_def dest: keepsD [OF keeps_apple_response] split: option.splits if_splits)

lemma authorization_ok: "frame_ok cdc f \<Longrightarrow> request_handle_authorization w rq m f = Inr (b, f') \<Longrightarrow> frame_ok cdc f'"
proof -
  assume f: "frame_ok cdc f" "request_handle_authorization w rq m f = Inr (b, f')"
  have "f' = f \<or> in_turn [start_response 401 ''Unauthorized'', add_header ''WWW-Authenticate'' (www_authenticate (c_nonce (f_conn f)))] f = Inr f'"
    using f(2) by (auto simp: request_handle_authorization_def split: if_splits)
  moreover have "keeps cdc (in_turn [start_response a b, add_header c d])" for a b c d by (intro keeps_list)
  ultimately show "frame_ok cdc f'" using f(1) keepsD by blast
qed

lemma check_password_ok: "frame_ok cdc f \<Longrightarrow> check_password w rq m f = Inr (b, f') \<Longrightarrow> frame_ok cdc f'"
  by (auto simp: check_password_def split: if_splits dest: authorization_ok)

lemma conn_request_steps:
  assumes "conn_request w rq index r c = Inr (Some f)"
  obtains m uri f1 b f2 where "http_request_get_method rq = Some m" "http_request_get_url rq index = Some uri"
    "start_response 200 ''OK'' (new_frame r c) = Inr f1" "check_password w rq m f1 = Inr (b, f2)"
    "in_turn [answer_challenge b (http_request_get_header rq ''Apple-Challenge'' index), handle_request w rq m uri index,
       closing_headers w (http_request_get_header rq ''CSeq'' index)] f2 = Inr f"
  using assms by (auto simp: conn_request_def split: option.splits)

lemma conn_request_ok:
  assumes "world_ok w" "raop_ok r" "session_ok (w_codec w) c" "conn_request w rq index r c = Inr (Some f)"
  shows "raop_ok (f_raop f)" "session_ok (w_codec w) (f_conn f)"
proof -
  let ?ok = "frame_ok (w_codec w)"
  obtain m uri f1 b f2 where s: "start_response 200 ''OK'' (new_frame r c) = Inr f1" "check_password w rq m f1 = Inr (b, f2)"
    "in_turn [answer_challenge b (http_request_get_header rq ''Apple-Challenge'' index), handle_request w rq m uri index,
       closing_headers w (http_request_get_header rq ''CSeq'' index)] f2 = Inr f"
    using conn_request_steps [OF assms(4)] by metis
  have "?ok (new_frame r c)" using assms(2,3) by (simp add: frame_ok_def new_frame_def)
  from keepsD [OF keeps_start_response this s(1)] have "?ok f1" .
  then have "?ok f2" using s(2) check_password_ok by blast
  moreover have "keeps (w_codec w) (in_turn [answer_challenge q ch, handle_request w rq m uri index, closing_headers w cseq])" for q ch cseq
    by (intro keeps_Cons keeps_Nil keeps_answer_challenge keeps_handle_request keeps_closing assms(1) refl)
  ultimately have "?ok f" using s(3) keepsD by blast
  then show "raop_ok (f_raop f)" "session_ok (w_codec w) (f_conn f)" by (simp_all add: frame_ok_def)
qed

section \<open>What the response does not touch\<close>

lemma add_header_frame:
  assumes "add_header n v f = Inr f'"
  shows "f_raop f' = f_raop f" "f_conn f' = f_conn f" "f_events f' = f_events f" "f_body f' = f_body f"
  using assms by (auto simp: add_header_def split: sum.splits)

lemma finish_frame:
  assumes "finish_response f = Inr f'"
  shows "f_raop f' = f_raop f" "f_conn f' = f_conn f" "f_events f' = f_events f" "f_body f' = f_body f"
  using assms by (auto simp: finish_response_def split: sum.splits)

lemma start_frame:
  assumes "start_response code message f = Inr f'"
  shows "f_raop f' = f_raop f" "f_conn f' = f_conn f" "f_events f' = f_events f" "f_body f' = f_body f"
  using assms by (auto simp: start_response_def split: sum.splits)

lemmas frame_simps = add_header_frame finish_frame start_frame

lemma closing_frame:
  assumes "closing_headers w cseq f = Inr f'"
  shows "f_raop f' = f_raop f" "f_conn f' = f_conn f" "f_events f' = f_events f" "f_body f' = f_body f"
  using assms by (auto simp: closing_headers_def in_turn.simps frame_simps split: option.splits)

section \<open>Interleavings\<close>

text \<open>
  The server with its connections: new connections, requests on any of them, turns of their audio threads
  and closed connections, in any order.
\<close>

inductive raop_reachable :: "'d codec \<Rightarrow> raop \<Rightarrow> (nat \<rightharpoonup> 'd raop_conn) \<Rightarrow> bool" for cdc where
  start: "raop_init n net ai cbs calloc httpd key = Inr (Some r0) \<Longrightarrow> raop_start hwaddr password wd ht fps r0 = (True, r)
    \<Longrightarrow> raop_reachable cdc r Map.empty"
| accept: "raop_reachable cdc r conns \<Longrightarrow> conns i = None \<Longrightarrow> conn_init calloc mem time loc rem = Some c
    \<Longrightarrow> length mem = 64 \<Longrightarrow> raop_reachable cdc r (conns(i \<mapsto> c))"
| request: "raop_reachable cdc r conns \<Longrightarrow> conns i = Some c \<Longrightarrow> world_ok w \<Longrightarrow> w_codec w = cdc
    \<Longrightarrow> conn_request w rq index r c = Inr (Some f) \<Longrightarrow> raop_reachable cdc (f_raop f) (conns(i \<mapsto> f_conn f))"
| thread: "raop_reachable cdc r conns \<Longrightarrow> conns i = Some c \<Longrightarrow> c_raop_rtp c = Some rr
    \<Longrightarrow> raop_rtp_thread cdc input rr = Some (oc, rr', evs) \<Longrightarrow> raop_reachable cdc r (conns(i \<mapsto> c\<lparr>c_raop_rtp := Some rr'\<rparr>))"
| close: "raop_reachable cdc r conns \<Longrightarrow> raop_reachable cdc r (conns(i := None))"

lemma raop_init_ok:
  assumes "raop_init n net ai cbs calloc httpd key = Inr (Some r0)" "raop_start hwaddr password wd ht fps r0 = (True, r)"
  shows "raop_ok r"
proof -
  have "raop_ok r0"
    using assms(1) by (auto simp: raop_init_def raop_ok_def pair_ok_def zero_pair_def ctr_ok_def split: if_splits)
  then show ?thesis using assms(2) by (auto simp: raop_start_def raop_ok_def Let_def split: if_splits option.splits)
qed

lemma conn_init_ok: "conn_init calloc mem time loc rem = Some c \<Longrightarrow> length mem = 64 \<Longrightarrow> session_ok cdc c"
proof -
  assume c: "conn_init calloc mem time loc rem = Some c" "length mem = 64"
  have "length (c_str s 0) \<le> 32" if "digest_generate_nonce mem time 33 = Some s" for s
  proof -
    have "\<exists>h. s = take 32 h @ [NUL]" using that by (simp add: digest_generate_nonce_def Let_def) blast
    then obtain h where s: "s = take 32 h @ [NUL]" ..
    have "length (takeWhile (\<lambda>x. x \<noteq> NUL) (take 32 h @ [NUL])) \<le> length (take 32 h)"
proof (cases "NUL \<in> set (take 32 h)")
      case True
      then show ?thesis by (auto simp: takeWhile_append1 simp del: length_take intro: length_takeWhile_le)
    next
      case False
      then have "takeWhile (\<lambda>x. x \<noteq> NUL) (take 32 h) = take 32 h" by (auto simp: takeWhile_eq_all_conv)
      then show ?thesis using False by (subst takeWhile_append2) auto
    qed
    then show ?thesis by (simp add: s c_str_def)
  qed
  then show "session_ok cdc c" using c(1) by (auto simp: conn_init_def session_ok_def split: if_splits)
qed

lemma reachable_ok:
  "raop_reachable cdc r conns \<Longrightarrow> raop_ok r \<and> (\<forall>i c. conns i = Some c \<longrightarrow> session_ok cdc c)"
proof (induction rule: raop_reachable.induct)
  case (start n net ai cbs calloc httpd key r0 hwaddr password wd ht fps r)
  then show ?case using raop_init_ok by auto
next
  case (accept r conns i calloc mem time loc rem c)
  then show ?case using conn_init_ok [of calloc mem time loc rem c cdc] by auto
next
  case (request r conns i c w rq index f)
  then show ?case using conn_request_ok [of w r c rq index f] by auto
next
  case (thread r conns i c rr input oc rr' evs)
  then have "session_ok cdc c" "rtp_reachable cdc rr" by (auto simp: session_ok_def)
  then have "session_ok cdc (c\<lparr>c_raop_rtp := Some rr'\<rparr>)"
    using rtp_reachable.thread thread.hyps(4) by (intro session_ok_rtp) auto
  then show ?case using thread.IH by auto
qed auto

section \<open>A concrete server\<close>

definition demo_callbacks :: callbacks where
  "demo_callbacks = \<lparr>cb_set_volume = True, cb_flush = True, cb_set_metadata = True, cb_set_coverart = True,
     cb_remote_control_id = True, cb_set_progress = True, cb_process = True, cb_destroy = True\<rparr>"

definition demo_raop :: raop where
  "demo_raop = \<lparr>r_callbacks = demo_callbacks, r_rsakey = demo_key, r_hwaddr = [1, 2, 3, 4, 5, 6], r_hwaddrlen = 6,
     r_height = 720, r_width = 1280, r_maxfps = 60, r_password = ''secret'', r_pair_data = zero_pair,
     r_message3 = replicate 164 0, r_aes_key_ctx = None\<rparr>"

lemma demo_raop_started:
  "\<exists>r0. raop_init 10 True True demo_callbacks True True (Some demo_key) = Inr (Some r0) \<and>
     raop_start [1, 2, 3, 4, 5, 6] (Some ''secret'') 1280 720 60 r0 = (True, demo_raop)"
  by (simp add: raop_init_def raop_start_def demo_raop_def demo_callbacks_def write_at_def)

definition demo_env :: rtp_env where
  "demo_env = \<lparr>e_calloc = True, e_buffer_calloc = True, e_malloc = (\<lambda>n. Some (replicate (nat n) 0)), e_control = (5, 6001),
     e_timing = (6, 6002), e_data = (7, 6003), e_listen = True, e_stack = replicate 32768 0, e_airdata_calloc = True,
     e_event_socket = (\<lambda>v6. (8, 6004)), e_event_listen = True\<rparr>"

definition demo_world :: "nat world" where
  "demo_world = \<lparr>w_codec = copy_codec, w_parse_address = (\<lambda>family addr. (16, \<lparr>ss_family = family, sa_data = []\<rparr>)),
     w_rtp = (\<lambda>n. demo_env), w_md5 = (\<lambda>n. replicate 64 7), w_sha1 = (\<lambda>n. replicate 64 7), w_time = ''Thu Jan  1 00:00:00 1970'',
     w_from_bin = (\<lambda>s. None), w_xml_to_bin = id, w_scan_double = (\<lambda>s. None), w_crypto = demo_crypto, w_aligned = True,
     w_seed = replicate 32 5, w_keys = (replicate 32 1, replicate 64 2),
     w_playfair = \<lparr>pf_session_key = id, pf_cycle = (\<lambda>k b. replicate 16 0), pf_z_xor = (\<lambda>b. replicate 16 0), pf_x_xor = (\<lambda>b. replicate 16 0)\<rparr>,
     w_behind = (replicate 12 0, replicate 8 0),
     w_query = \<lparr>q_connect = 0, q_send = -1, q_recv = None\<rparr>, w_aeskey = replicate 16 9, w_aesiv = replicate 16 9\<rparr>"

definition demo_conn :: "nat raop_conn" where
  "demo_conn = \<lparr>c_raop_rtp = None, c_airdata_1 = None, c_airdata_2 = None, c_local = [10, 0, 0, 1],
     c_remote_addr = [10, 0, 0, 2], c_et = 1, c_cn = 1, c_nonce = ''0123456789abcdef'', c_controlPort = 0, c_timingPort = 0,
     c_dataPort = 53291, c_eventPort = 55556, c_rsa_key = replicate 16 1, c_rsa_iv = replicate 16 2,
     c_rsa_cbc_key = replicate 16 0, c_rsa_cbc_iv = replicate 16 0, c_cv_sha = replicate 32 0\<rparr>"

definition demo_request :: "string \<Rightarrow> string \<Rightarrow> (string \<times> string) list \<Rightarrow> string \<Rightarrow> http_request" where
  "demo_request m url hs body = \<lparr>rq_method = Some m, rq_url = Some url,
     rq_headers = concat (map (\<lambda>(n, v). [Some n, Some v]) hs), rq_headers_index = 0, rq_data = body, rq_complete = True\<rparr>"

end
