(* ===== verification/Raop_Response.thy ===== *)
theory Raop_Response
  imports Raop_State
begin

text \<open>
  The text of a response of the remote audio protocol: each handler adds at most three short header lines, so
  the buffer of the response never runs over and every answered request gets a status line, its headers, the
  echoed sequence number, the date and its body.
\<close>

section \<open>Header lines\<close>

definition short_header :: "string \<times> string \<Rightarrow> bool" where
  "short_header h \<longleftrightarrow> fst h \<noteq> [] \<and> length (fst h) + length (snd h) \<le> 150"

definition adds :: "nat \<Rightarrow> http_response \<Rightarrow> http_response \<Rightarrow> bool" where
  \<comment> \<open>at most \<open>k\<close> header lines, written as they are as long as they fit the first 1024 bytes\<close>
  "adds k r r' \<longleftrightarrow> (\<exists>hs. length hs \<le> k \<and> (\<forall>h \<in> set hs. short_header h) \<and>
     (rs_data_size r = 1024 \<and> length (rs_data r @ header_text hs) \<le> 1024 \<longrightarrow>
        rs_data_size r' = 1024 \<and> rs_data r' = rs_data r @ header_text hs))"

definition adding :: "nat \<Rightarrow> 'd handler \<Rightarrow> bool" where
  "adding k h \<longleftrightarrow> (\<forall>f f'. h f = Inr f' \<longrightarrow> adds k (f_response f) (f_response f'))"

lemma header_text_append [simp]: "header_text (xs @ ys) = header_text xs @ header_text ys"
  by (simp add: header_text_def)

lemma header_text_Nil [simp]: "header_text [] = []"
  by (simp add: header_text_def)

lemma length_header_text: "\<forall>h \<in> set hs. short_header h \<Longrightarrow> length (header_text hs) \<le> 154 * length hs"
  by (induction hs) (auto simp: header_text_def short_header_def)

lemma adds_refl [simp]: "adds k r r"
  unfolding adds_def by (rule exI [of _ "[]"]) simp

lemma adds_same: "rs_data r' = rs_data r \<Longrightarrow> rs_data_size r' = rs_data_size r \<Longrightarrow> adds k r r'"
  unfolding adds_def by (rule exI [of _ "[]"]) simp

lemma adds_mono: "adds k r r' \<Longrightarrow> k \<le> l \<Longrightarrow> adds l r r'"
  unfolding adds_def by (meson order_trans)

lemma adds_trans:
  assumes "adds k r r'" "adds l r' r''"
  shows "adds (k + l) r r''"
proof -
  obtain xs where xs: "length xs \<le> k" "\<forall>h \<in> set xs. short_header h" "rs_data_size r = 1024 \<and> length (rs_data r @ header_text xs) \<le> 1024 \<longrightarrow>
        rs_data_size r' = 1024 \<and> rs_data r' = rs_data r @ header_text xs" using assms(1) unfolding adds_def by blast
  obtain ys where ys: "length ys \<le> l" "\<forall>h \<in> set ys. short_header h" "rs_data_size r' = 1024 \<and> length (rs_data r' @ header_text ys) \<le> 1024 \<longrightarrow>
        rs_data_size r'' = 1024 \<and> rs_data r'' = rs_data r' @ header_text ys" using assms(2) unfolding adds_def by blast
  show ?thesis unfolding adds_def
    by (rule exI [of _ "xs @ ys"]) (use xs ys in auto)
qed

lemma header_pieces_fit:
  assumes "rs_data_size r = 1024" "length (rs_data r @ header_text [(n, v)]) \<le> 1024" "n \<noteq> []" "v \<noteq> []"
  shows "\<exists>c. http_response_add_header r n v = Inr (r\<lparr>rs_allocated := c, rs_data := rs_data r @ header_text [(n, v)]\<rparr>)"
proof -
  have "\<exists>c. foldl then_add (Inr r) [n, '': '', v, CRLF] = Inr (r\<lparr>rs_allocated := c, rs_data := rs_data r @ concat [n, '': '', v, CRLF]\<rparr>)"
    by (rule add_pieces) (use assms in \<open>auto simp: header_text_def\<close>)
  then show ?thesis by (simp add: http_response_add_header_def header_text_def)
qed

lemma empty_value_aborts:
  assumes "http_response_add_header r n [] = Inr r'"
  shows False
  using assms by (simp add: http_response_add_header_def http_response_add_data_def then_add_def split: sum.splits)

section \<open>Handlers\<close>

named_theorems adding \<open>handlers by the number of header lines they add\<close>

lemma addingD: "adding k h \<Longrightarrow> h f = Inr f' \<Longrightarrow> adds k (f_response f) (f_response f')"
  by (simp add: adding_def)

lemma adding_mono: "adding k h \<Longrightarrow> k \<le> l \<Longrightarrow> adding l h"
  unfolding adding_def using adds_mono by blast

lemma adding_same: "(\<And>f f'. h f = Inr f' \<Longrightarrow> rs_data (f_response f') = rs_data (f_response f) \<and>
    rs_data_size (f_response f') = rs_data_size (f_response f)) \<Longrightarrow> adding k h"
  by (simp add: adding_def adds_same)

lemma adding_header [adding]: "n \<noteq> [] \<Longrightarrow> length n + length v \<le> 150 \<Longrightarrow> adding (Suc 0) (add_header n v)"
  unfolding adding_def
proof (intro allI impI)
  fix f f' :: "'a frame"
  assume n: "n \<noteq> []" "length n + length v \<le> 150" and f: "add_header n v f = Inr f'"
  have r: "http_response_add_header (f_response f) n v = Inr (f_response f')"
    using f by (auto simp: add_header_def split: sum.splits)
  then have "v \<noteq> []" using empty_value_aborts by blast
  then show "adds (Suc 0) (f_response f) (f_response f')"
    unfolding adds_def using n header_pieces_fit [of "f_response f" n v] r
    by (intro exI [of _ "[(n, v)]"]) (auto simp: short_header_def)
qed

lemma adding_Cons: "adding k h \<Longrightarrow> adding l (in_turn hs) \<Longrightarrow> adding (k + l) (in_turn (h # hs))"
  unfolding adding_def in_turn.simps ebind_eq_Inr using adds_trans by blast

lemma adding_Nil: "adding 0 (in_turn [])"
  by (simp add: adding_def in_turn.simps)

lemma adding_Inr: "adding k Inr"
  by (simp add: adding_def)

lemma adding_if: "adding k g \<Longrightarrow> adding k h \<Longrightarrow> adding k (if p then g else h)"
  by simp

lemma adding_set_body: "adding 0 (set_body s)"
  by (rule adding_same) (auto simp: set_body_def)

lemma same_edits [simp]:
  "f_response (emit evs f) = f_response f" "f_response (upd_conn g f) = f_response f" "f_response (upd_raop g' f) = f_response f"
  "f_response (set_rtp rr f) = f_response f" "f_response (rtp_destroy f) = f_response f"
  "rs_data (f_response (set_disconnect f)) = rs_data (f_response f)"
  "rs_data_size (f_response (set_disconnect f)) = rs_data_size (f_response f)"
  by (simp_all add: emit_def upd_conn_def upd_raop_def set_rtp_def rtp_destroy_def set_disconnect_def
      http_response_set_disconnect_def split: option.splits)

lemma same_run_audio [simp]: "f_response (run_audio env port rr f) = f_response f"
  by (cases "rtp_start env rr True port 0") (auto simp: run_audio_def Let_def split: option.splits)

lemma adding_one: "adding k h \<Longrightarrow> adding k (in_turn [h])"
  using adding_Cons [OF _ adding_Nil] by fastforce

lemma adding_setters:
  "adding 0 (request_handle_setparameter w rq index)" "adding 0 (request_handle_flush rq)"
  "adding 0 (request_handle_teardown w rq)" "adding 0 (request_handle_authsetup rq)" "adding 0 (request_handle_info w)"
  "adding 0 (request_handle_fpsetup rq)" "adding 0 (announce_session w a b c d e)" "adding 0 (take_keys w p)"
  "adding 0 (stream_keys w ver n q)" "adding 0 (open_event_channel w env remote)" "adding 0 (start_audio w env remote m p' port)"
proof -
  show "adding 0 (request_handle_flush rq)" "adding 0 (request_handle_teardown w rq)" "adding 0 (request_handle_authsetup rq)"
    "adding 0 (request_handle_info w)" "adding 0 (request_handle_fpsetup rq)"
    by (rule adding_same; auto simp: request_handle_flush_def request_handle_teardown_def request_handle_authsetup_def
        request_handle_info_def request_handle_fpsetup_def set_body_def Let_def split: if_splits)+
  show "adding 0 (request_handle_setparameter w rq index)"
    by (rule adding_same) (auto simp: request_handle_setparameter_def Let_def split: option.splits if_splits)
  show "adding 0 (take_keys w p)"
    by (rule adding_same) (auto simp: take_keys_def take_eiv_def take_ekey_def split: option.splits if_splits)
  show "adding 0 (announce_session w a b c d e)" "adding 0 (stream_keys w ver n q)"
    by (rule adding_same; auto simp: announce_session_def stream_keys_def sha512msg2_def Let_def
        split: option.splits if_splits)+
  show "adding 0 (open_event_channel w env remote)" "adding 0 (start_audio w env remote m p' port)"
    by (rule adding_same; auto simp: open_event_channel_def start_audio_def Let_def split: option.splits if_splits prod.splits)+
qed

lemma adding_two: "adding k h \<Longrightarrow> adding l h' \<Longrightarrow> k + l \<le> n \<Longrightarrow> adding n (in_turn [h, h'])"
  using adding_Cons [OF _ adding_one] adding_mono by blast

lemma adding_audio_stream: "adding 0 (audio_stream w env item)"
  unfolding adding_def
proof (intro allI impI)
  fix f f' :: "'a frame"
  assume "audio_stream w env item f = Inr f'"
  then obtain remote rtpmap fmtp port where
    s: "in_turn [start_audio w env remote rtpmap fmtp port, open_event_channel w env remote] f = Inr f'"
    by (auto simp: audio_stream_def Let_def split: if_splits prod.splits)
  have "adding 0 (in_turn [start_audio w env remote rtpmap fmtp port, open_event_channel w env remote])"
    by (rule adding_two [OF adding_setters(11) adding_setters(10)]) simp
  from addingD [OF this s] show "adds 0 (f_response f) (f_response f')" .
qed

lemma adds_setup_stream: "setup_stream w ver env item (n, f) = Inr (n', f') \<Longrightarrow> adds 0 (f_response f) (f_response f')"
proof -
  assume "setup_stream w ver env item (n, f) = Inr (n', f')"
  then obtain t p where s: "in_turn [stream_keys w ver t p, (if t = 96 then audio_stream w env item
                   else if t = 110 then (\<lambda>f. open_event_channel w env (remote_text (f_conn f)) f) else Inr)] f = Inr f'"
    by (auto simp: setup_stream_def Let_def)
  have "adding 0 (\<lambda>f. open_event_channel w env (remote_text (f_conn f)) f)"
    unfolding adding_def using adding_setters(10) [unfolded adding_def] by blast
  then have e: "adding 0 (if t = 96 then audio_stream w env item
                   else if t = 110 then (\<lambda>f. open_event_channel w env (remote_text (f_conn f)) f) else Inr)"
    by (intro adding_if adding_audio_stream adding_Inr)
  show ?thesis by (rule addingD [OF adding_two [OF adding_setters(9) e] s]) simp
qed

lemma adds_setup_streams: "setup_streams w ver k items (n, f) = Inr (n', f') \<Longrightarrow> adds 0 (f_response f) (f_response f')"
proof (induction items arbitrary: k n f)
  case (Cons item items)
  obtain n1 f1 where s: "setup_stream w ver (w_rtp w k) item (n, f) = Inr (n1, f1)" "setup_streams w ver (k + 1) items (n1, f1) = Inr (n', f')"
    using Cons.prems by auto
  then show ?case using adds_trans [OF adds_setup_stream [OF s(1)] Cons.IH [OF s(2)]] by simp
qed simp

lemma adding_setup_reply: "adding 2 (setup_reply w ver wk n)"
  unfolding adding_def setup_reply_def
proof (intro allI impI)
  fix f f' :: "'a frame"
  assume s: "in_turn [add_header ''Content-Type'' ''application/x-apple-binary-plist'',
       (if n = 110 then set_body (w_xml_to_bin w (text_lines (plist_prolog @ mirroring_reply wk (f_conn f) @ plist_epilog)))
        else if n = 96 then set_body (w_xml_to_bin w (text_lines (plist_prolog @ audio_reply ver (f_conn f) @ plist_epilog)))
        else if n \<noteq> 0 then set_body []
        else add_header ''Content-Length'' ''0'')] f = Inr f'"
  have b: "adding 1 (set_body x)" for x using adding_mono [OF adding_set_body] by simp
  have h: "adding 1 (add_header ''Content-Type'' ''application/x-apple-binary-plist'')" "adding 1 (add_header ''Content-Length'' ''0'')"
    by (simp_all add: adding_header)
  have "adding 1 (if n = 110 then set_body x else if n = 96 then set_body y else if n \<noteq> 0 then set_body []
      else add_header ''Content-Length'' ''0'' :: 'a handler)" for x y
    by (intro adding_if b h(2))
  from addingD [OF adding_two [OF h(1) this] s] show "adds 2 (f_response f) (f_response f')" by simp
qed

lemma dec_port_length: "length (dec_port p) \<le> 5"
proof -
  have "unat p < 65536" using unsigned_less [of p] by simp
  then have "unat p < 100000" by linarith
  then have "unat p < 10 ^ 5" by simp
  then show ?thesis unfolding dec_port_def using dec_digits_length [of "unat p" 5] by simp
qed

lemma adding_setup_transport: "adding 3 (setup_transport w rq)"
  unfolding adding_def
proof (intro allI impI)
  fix f f' :: "'a frame"
  assume f: "setup_transport w rq f = Inr f'"
  obtain udp ct tp dp f0 where s: "in_turn [add_header ''Transport'' (if udp
        then ''RTP/AVP/UDP;unicast;mode=record;timing_port='' @ dec_port tp @ '';events;control_port=''
               @ dec_port ct @ '';server_port='' @ dec_port dp
        else ''RTP/AVP/TCP;unicast;interleaved=0-1;mode=record;server_port='' @ dec_port dp),
      add_header ''Session'' ''1'', add_header ''Audio-Jack-Status'' ''Connected''] f0 = Inr f'"
    "rs_data (f_response f0) = rs_data (f_response f)" "rs_data_size (f_response f0) = rs_data_size (f_response f)"
  proof (cases "c_raop_rtp (f_conn f)")
    case None
    then show ?thesis using f that by (auto simp: setup_transport_def Let_def split: option.splits)
  next
    case (Some rr)
    then show ?thesis using f that by (auto simp: setup_transport_def Let_def split: option.splits prod.splits)
  qed
  have p: "length (dec_port tp) \<le> 5" "length (dec_port ct) \<le> 5" "length (dec_port dp) \<le> 5" by (rule dec_port_length)+
  have h: "adding 1 (add_header ''Session'' ''1'')" "adding 1 (add_header ''Audio-Jack-Status'' ''Connected'')"
    by (simp_all add: adding_header)
  have "adding 3 (in_turn [add_header ''Transport'' (if udp
        then ''RTP/AVP/UDP;unicast;mode=record;timing_port='' @ dec_port tp @ '';events;control_port=''
               @ dec_port ct @ '';server_port='' @ dec_port dp
        else ''RTP/AVP/TCP;unicast;interleaved=0-1;mode=record;server_port='' @ dec_port dp),
      add_header ''Session'' ''1'', add_header ''Audio-Jack-Status'' ''Connected''])"
    by (rule adding_mono [OF adding_Cons [OF adding_header adding_two [OF h]]]) (use p in \<open>auto split: if_splits\<close>)
  from addingD [OF this s(1)] have "adds 3 (f_response f0) (f_response f')" .
  then show "adds 3 (f_response f) (f_response f')"
    using adds_trans [OF adds_same [OF s(2,3), of 0]] by fastforce
qed

lemma adding_setup: "adding 3 (request_handle_setup w rq)"
  unfolding adding_def
proof (intro allI impI)
  fix f f' :: "'a frame"
  assume f: "request_handle_setup w rq f = Inr f'"
  show "adds 3 (f_response f) (f_response f')"
  proof (cases "binary_plist rq")
    case False
    then show ?thesis using f addingD [OF adding_setup_transport] by (simp add: request_handle_setup_def)
  next
    case True
    then have f: "setup_plist w rq f = Inr f'" using f by (simp add: request_handle_setup_def)
    show ?thesis
    proof (cases "\<exists>p. w_from_bin w (http_request_get_data rq) = Some p \<and> plist_dict_get_size p \<noteq> 0")
      case False
      then show ?thesis using f by (auto simp: setup_plist_def split: option.splits)
    next
      case True
      then obtain p where p: "w_from_bin w (http_request_get_data rq) = Some p" "plist_dict_get_size p \<noteq> 0" by blast
      with f obtain f1 ver items n f2 wk where s: "take_keys w p f = Inr f1"
        "setup_streams w ver 0 items (0, f1) = Inr (n, f2)" "setup_reply w ver wk n f2 = Inr f'"
        by (auto simp: setup_plist_def Let_def)
      have "adds (0 + 0 + 2) (f_response f) (f_response f')"
        by (rule adds_trans [OF adds_trans [OF addingD [OF adding_setters(8) s(1)] adds_setup_streams [OF s(2)]]
              addingD [OF adding_setup_reply s(3)]])
      then show ?thesis by (rule adds_mono) simp
    qed
  qed
qed

lemma adding_announce: "adding 0 (request_handle_announce w rq)"
  unfolding adding_def
proof (intro allI impI)
  fix f f' :: "'a frame"
  assume f: "request_handle_announce w rq f = Inr f'"
  have "f' = f \<or> (\<exists>g a b c d e. announce_session w a b c d e (upd_conn g f) = Inr f')"
    using f by (auto simp: request_handle_announce_def Let_def split: if_splits option.splits)
  then show "adds 0 (f_response f) (f_response f')"
    using addingD [OF adding_setters(7), of w _ _ _ _ _ "upd_conn g f" f' for g] by auto
qed

lemma adding_pairing: "adding 1 (request_handle_pairsetup w rq)" "adding 2 (request_handle_pairverify w rq)"
proof -
  have t: "adding 1 (add_header ''Content-Type'' ''application/octet-stream'')" "adding 1 (add_header ''Connection'' ''close'')"
    by (simp_all add: adding_header)
  have b: "adding 1 (in_turn [set_body x, add_header ''Content-Type'' ''application/octet-stream''])" for x
    by (rule adding_two [OF adding_set_body t(1)]) simp
  have c: "adding 2 (in_turn [add_header ''Connection'' ''close'', add_header ''Content-Type'' ''application/octet-stream''])"
    by (rule adding_two [OF t(2,1)]) simp
  show "adding 1 (request_handle_pairsetup w rq)"
    unfolding adding_def using addingD [OF b] by (fastforce simp: request_handle_pairsetup_def Let_def)
  show "adding 2 (request_handle_pairverify w rq)"
    unfolding adding_def
  proof (intro allI impI)
    fix f f' :: "'a frame"
    assume f: "request_handle_pairverify w rq f = Inr f'"
    obtain cx reply where v: "pair_verify (w_crypto w) (w_aligned w) (w_seed w) (bytes_of (http_request_get_data rq))
        (r_pair_data (f_raop f)) = (cx, reply)" by fastforce
    show "adds 2 (f_response f) (f_response f')"
    proof (cases reply)
      case (Challenge bs)
      then show ?thesis using f addingD [OF adding_mono [OF b, of 2]] by (fastforce simp: request_handle_pairverify_def v)
    next
      case Accepted
      then show ?thesis using f addingD [OF adding_mono [OF t(1), of 2]] by (fastforce simp: request_handle_pairverify_def v)
    next
      case Rejected
      then show ?thesis using f addingD [OF c] by (fastforce simp: request_handle_pairverify_def v)
    qed (use f in \<open>simp_all add: request_handle_pairverify_def v\<close>)
  qed
qed

lemma adding_plain: "adding 1 request_handle_feedback" "adding 1 request_handle_getparameter" "adding 2 request_handle_record"
  "adding 1 request_handle_options" "adding 1 request_handle_streamxml"
proof -
  have h: "adding 1 (add_header ''Content-Type'' ''application/octet-stream'')" "adding 1 (add_header ''Content-Type'' ''text/x-apple-plist+xml'')"
    "adding 1 (add_header ''Audio-Jack-Status'' ''connected; type=analog'')" "adding 1 (add_header ''Audio-Latency'' ''4410'')"
    by (simp_all add: adding_header)
  note b = adding_two [OF _ adding_set_body, of 1 _ 1, unfolded add_0_right, OF _ order_refl]
  show "adding 1 request_handle_feedback"
    unfolding adding_def using addingD [OF h(1)] by (fastforce simp: request_handle_feedback_def)
  show "adding 1 request_handle_getparameter"
    unfolding adding_def request_handle_getparameter_def using addingD [OF b [OF h(3)]] by blast
  show "adding 1 request_handle_streamxml"
    unfolding adding_def request_handle_streamxml_def using addingD [OF b [OF h(2)]] by blast
  show "adding 2 request_handle_record"
    unfolding adding_def request_handle_record_def using addingD [OF adding_two [OF h(3,4) order_refl, unfolded one_add_one]] by blast
  show "adding 1 request_handle_options"
    unfolding request_handle_options_def [abs_def] by (rule adding_mono [OF adding_header]) simp_all
qed

lemma adding_with_uri: "(\<And>u. adding k (g u)) \<Longrightarrow> adding k (with_uri uri g)"
  by (auto simp: adding_def with_uri_def split: option.splits)

lemma adding_handle_request: "adding 3 (handle_request w rq m uri index)"
proof -
  note less = adding_pairing adding_plain adding_setters(1-6) adding_announce
  show ?thesis
    unfolding handle_request_def
    by (intro adding_if adding_with_uri adding_setup adding_Inr; rule less [THEN adding_mono]; simp)
qed

section \<open>The response of a request\<close>

definition cseq_header :: "string option \<Rightarrow> (string \<times> string) list" where
  "cseq_header cseq = (case cseq of None \<Rightarrow> [] | Some s \<Rightarrow> [(''CSeq'', s)])"

lemma closing_text:
  assumes "closing_headers w cseq f = Inr f'" "rs_data_size (f_response f) = 1024" "w_time w \<noteq> []"
    "length (rs_data (f_response f) @ header_text ([(''Server'', ''AirTunes/373.8'')] @ cseq_header cseq @ [(''Date'', w_time w)])) \<le> 960"
    "length (f_body f) \<le> 1000000000"
  shows "rs_complete (f_response f') \<and> rs_data (f_response f') = rs_data (f_response f)
    @ header_text ([(''Server'', ''AirTunes/373.8'')] @ cseq_header cseq @ [(''Date'', w_time w)]) @ body_text (f_body f)"
proof -
  obtain f1 f2 f3 where s: "add_header ''Server'' ''AirTunes/373.8'' f = Inr f1"
    "(case cseq of None \<Rightarrow> Inr | Some s \<Rightarrow> add_header ''CSeq'' s) f1 = Inr f2" "add_header ''Date'' (w_time w) f2 = Inr f3"
    "finish_response f3 = Inr f'" using assms(1) by (auto simp: closing_headers_def in_turn.simps)
  have step: "rs_data_size (f_response g') = 1024 \<and> rs_data (f_response g') = rs_data (f_response g) @ header_text [(n, v)] \<and> f_body g' = f_body g"
    if "add_header n v g = Inr g'" "n \<noteq> []" "rs_data_size (f_response g) = 1024" "length (rs_data (f_response g) @ header_text [(n, v)]) \<le> 1024"
    for n v and g g' :: "'a frame"
  proof -
    have r: "http_response_add_header (f_response g) n v = Inr (f_response g')" "f_body g' = f_body g"
      using that(1) by (auto simp: add_header_def split: sum.splits)
    then have "v \<noteq> []" using empty_value_aborts by blast
    from header_pieces_fit [OF that(3,4,2) this] show ?thesis using r that(3) by auto
  qed
  have l: "length (rs_data (f_response f) @ header_text [(''Server'', ''AirTunes/373.8'')] @ header_text (cseq_header cseq) @ header_text [(''Date'', w_time w)]) \<le> 960"
    using assms(4) by (simp add: header_text_def)
  have 1: "rs_data_size (f_response f1) = 1024 \<and> rs_data (f_response f1) = rs_data (f_response f) @ header_text [(''Server'', ''AirTunes/373.8'')] \<and> f_body f1 = f_body f"
    by (rule step [OF s(1)]) (use assms(2) l in simp_all)
  have 2: "rs_data_size (f_response f2) = 1024 \<and> rs_data (f_response f2) = rs_data (f_response f1) @ header_text (cseq_header cseq) \<and> f_body f2 = f_body f1"
  proof (cases cseq)
    case None
    then show ?thesis using s(2) 1 by (simp add: cseq_header_def)
  next
    case (Some q)
    have "rs_data_size (f_response f2) = 1024 \<and> rs_data (f_response f2) = rs_data (f_response f1) @ header_text [(''CSeq'', q)] \<and> f_body f2 = f_body f1"
      by (rule step [of "''CSeq''" q f1 f2]) (use s(2) 1 l Some in \<open>simp_all add: cseq_header_def\<close>)
    then show ?thesis by (simp add: Some cseq_header_def)
  qed
  have 3: "rs_data_size (f_response f3) = 1024 \<and> rs_data (f_response f3) = rs_data (f_response f2) @ header_text [(''Date'', w_time w)] \<and> f_body f3 = f_body f2"
    by (rule step [OF s(3)]) (use 1 2 l in simp_all)
  have "length (rs_data (f_response f3)) \<le> 960" using l 1 2 3 by simp
  from finish_text [OF _ this, of "f_body f3"] s(4) 1 2 3 assms(5)
  show ?thesis by (auto simp: finish_response_def header_text_def split: sum.splits)
qed

definition begins :: "string \<Rightarrow> http_response \<Rightarrow> bool" where
  \<comment> \<open>\<open>p\<close> is the start of the text; what is added later leaves the first 1024 bytes\<close>
  "begins p r \<longleftrightarrow> length p \<le> 1024 \<and> rs_data_size r = 1024 \<and> (\<exists>rest. rs_data r = p @ rest)"

lemma begins_add_data:
  assumes "http_response_add_data r d = Inr r'" "begins p r"
  shows "begins p r'"
proof -
  obtain rest where r: "length p \<le> 1024" "rs_data_size r = 1024" "rs_data r = p @ rest" using assms(2) by (auto simp: begins_def)
  have "1024 \<le> grow (1024 + length d) 1024" using grow_ge [of 1024 "1024 + length d"] by simp
  then show ?thesis using assms(1) r by (auto simp: begins_def http_response_add_data_def Let_def split: if_splits)
qed

lemma begins_pieces: "foldl then_add (Inr r) ps = Inr r' \<Longrightarrow> begins p r \<Longrightarrow> begins p r'"
proof (induction ps arbitrary: r)
  case (Cons d ps)
  then show ?case by (cases "http_response_add_data r d") (auto dest: begins_add_data)
qed simp

lemma begins_closing:
  assumes "closing_headers w cseq f = Inr f'" "begins p (f_response f)"
  shows "begins p (f_response f') \<and> rs_complete (f_response f')"
proof -
  obtain f1 f2 f3 where s: "add_header ''Server'' ''AirTunes/373.8'' f = Inr f1"
    "(case cseq of None \<Rightarrow> Inr | Some s \<Rightarrow> add_header ''CSeq'' s) f1 = Inr f2" "add_header ''Date'' (w_time w) f2 = Inr f3"
    "finish_response f3 = Inr f'" using assms(1) by (auto simp: closing_headers_def in_turn.simps)
  have step: "begins p (f_response g')" if "add_header n v g = Inr g'" "begins p (f_response g)" for n v and g g' :: "'a frame"
  proof -
    have "http_response_add_header (f_response g) n v = Inr (f_response g')"
      using that(1) by (auto simp: add_header_def split: sum.splits)
    then show ?thesis unfolding http_response_add_header_def using that(2) by (rule begins_pieces)
  qed
  have "begins p (f_response f2)" using s(1,2) assms(2) step by (cases cseq) auto
  with s(3) have b: "begins p (f_response f3)" using step by blast
  obtain res where "http_response_finish (f_response f3) (f_body f3) = Inr res" "f_response f' = res"
    using s(4) by (auto simp: finish_response_def split: sum.splits)
  then obtain r where "(if length (f_body f3) > 0 then foldl then_add (Inr (f_response f3))
      [''Content-Length'', '': '', take 14 (dec_digits (length (f_body f3))), CRLF @ CRLF, f_body f3]
      else http_response_add_data (f_response f3) CRLF) = Inr r" "f_response f' = r\<lparr>rs_complete := True\<rparr>"
    by (auto simp: http_response_finish_def split: sum.splits)
  then have "begins p r" "f_response f' = r\<lparr>rs_complete := True\<rparr>"
    using begins_pieces [OF _ b] begins_add_data [OF _ b] by (metis, simp)
  then show ?thesis by (simp add: begins_def)
qed

definition room :: "nat \<Rightarrow> 'd frame \<Rightarrow> bool" where
  \<comment> \<open>\<open>k\<close> more bytes fit the first 1024\<close>
  "room k f \<longleftrightarrow> rs_data_size (f_response f) = 1024 \<and> length (rs_data (f_response f)) + k \<le> 1024"

lemma room_mono: "room k f \<Longrightarrow> l \<le> k \<Longrightarrow> room l f"
  by (simp add: room_def)

lemma room_edits [simp]: "room k (emit evs f) = room k f" "room k (upd_conn g f) = room k f" "room k (upd_raop g' f) = room k f"
  "room k (set_rtp rr f) = room k f" "room k (rtp_destroy f) = room k f" "room k (f\<lparr>f_body := s\<rparr>) = room k f"
  by (simp_all add: room_def)

lemma add_header_room:
  assumes "room (length n + length v + 4 + k) f" "n \<noteq> []" "v \<noteq> []"
  shows "\<exists>f'. add_header n v f = Inr f' \<and> room k f'"
proof -
  have "length (rs_data (f_response f) @ header_text [(n, v)]) \<le> 1024" using assms(1) by (simp add: room_def header_text_def)
  from header_pieces_fit [OF _ this assms(2,3)] assms(1) show ?thesis
    by (auto simp: add_header_def room_def header_text_def)
qed

lemma start_room:
  assumes "100 \<le> code" "code < 1000" "message \<noteq> []" "length (status_line ''RTSP/1.0'' code message) + k \<le> 1024"
  shows "\<exists>f'. start_response code message f = Inr f' \<and> room k f'"
proof -
  obtain c where "http_response_init ''RTSP/1.0'' code message
    = Inr (fresh_response\<lparr>rs_allocated := c, rs_data := status_line ''RTSP/1.0'' code message\<rparr>)"
    using init_text [of code "''RTSP/1.0''" message] assms by auto
  then show ?thesis using assms(4) by (simp add: start_response_def room_def fresh_response_def)
qed

lemma closing_room:
  assumes "room 200 f" "w_time w \<noteq> []" "length (w_time w) \<le> 40" "\<forall>s. cseq = Some s \<longrightarrow> s \<noteq> [] \<and> length s \<le> 40"
    "length (f_body f) \<le> 1000000000"
  shows "\<exists>f'. closing_headers w cseq f = Inr f'"
proof -
  obtain f1 where 1: "add_header ''Server'' ''AirTunes/373.8'' f = Inr f1" "room 176 f1"
    using add_header_room [of "''Server''" "''AirTunes/373.8''" 176 f] assms(1) by auto
  obtain f2 where 2: "(case cseq of None \<Rightarrow> Inr | Some s \<Rightarrow> add_header ''CSeq'' s) f1 = Inr f2" "room 128 f2" "f_body f2 = f_body f1"
  proof (cases cseq)
    case (Some s)
    then have "room (length ''CSeq'' + length s + 4 + 128) f1" using 1(2) assms(4) by (auto intro: room_mono)
    from add_header_room [OF this] show ?thesis using that Some assms(4) add_header_frame(4) by fastforce
  qed (use 1 room_mono [OF 1(2), of 128] that in simp)
  have "room (length ''Date'' + length (w_time w) + 4 + 80) f2" using 2(2) assms(3) by (auto intro: room_mono)
  from add_header_room [OF this] obtain f3 where 3: "add_header ''Date'' (w_time w) f2 = Inr f3" "room 80 f3"
    using assms(2) by auto
  have "f_body f3 = f_body f" using add_header_frame(4) 1(1) 2(3) 3(1) by metis
  then obtain c where "http_response_finish (f_response f3) (f_body f3) = Inr c"
    using finish_text [of "f_response f3" "f_body f3"] 3(2) assms(5) by (auto simp: room_def)
  then have "\<exists>f'. finish_response f3 = Inr f'" by (simp add: finish_response_def)
  then show ?thesis using 1 2 3 by (auto simp: closing_headers_def in_turn.simps)
qed

lemma refused_room:
  assumes "room 900 f" "length (c_nonce (f_conn f)) \<le> 32" "authorized w rq m f = Inr False"
  shows "\<exists>f'. request_handle_authorization w rq m f = Inr (True, f') \<and> room 800 f'"
proof -
  have d: "dec_digits 401 = ''401''" by code_simp
  obtain f1 where 1: "start_response 401 ''Unauthorized'' f = Inr f1" "room 950 f1"
    using start_room [of 401 "''Unauthorized''" 950 f] by (auto simp: status_line_def d)
  then have "room (length ''WWW-Authenticate'' + length (www_authenticate (c_nonce (f_conn f))) + 4 + 800) f1"
    using assms(2) by (auto simp: www_authenticate_def intro: room_mono)
  from add_header_room [OF this] obtain f2 where "add_header ''WWW-Authenticate'' (www_authenticate (c_nonce (f_conn f))) f1 = Inr f2" "room 800 f2"
    by (auto simp: www_authenticate_def)
  then show ?thesis using 1 assms(3) by (auto simp: request_handle_authorization_def in_turn.simps)
qed

lemma start_text:
  assumes "start_response code message f = Inr f'" "100 \<le> code" "code < 1000" "message \<noteq> []" "length (status_line ''RTSP/1.0'' code message) \<le> 1024"
  shows "rs_data_size (f_response f') = 1024 \<and> rs_data (f_response f') = status_line ''RTSP/1.0'' code message"
  using init_text [OF assms(2,3) _ assms(4,5)] assms(1) by (auto simp: start_response_def fresh_response_def split: sum.splits)

lemma refused_text:
  assumes "start_response 401 ''Unauthorized'' f = Inr f0" "add_header ''WWW-Authenticate'' (www_authenticate nonce) f0 = Inr f'" "length nonce \<le> 32"
  shows "rs_data_size (f_response f') = 1024 \<and> length (rs_data (f_response f')) \<le> 127 \<and> rs_data (f_response f') =
    status_line ''RTSP/1.0'' 401 ''Unauthorized'' @ header_text [(''WWW-Authenticate'', www_authenticate nonce)]"
proof -
  have d: "dec_digits 401 = ''401''" by code_simp
  have f0: "rs_data_size (f_response f0) = 1024" "rs_data (f_response f0) = status_line ''RTSP/1.0'' 401 ''Unauthorized''"
    using start_text [OF assms(1)] by (simp_all add: status_line_def d)
  have l: "length (rs_data (f_response f0) @ header_text [(''WWW-Authenticate'', www_authenticate nonce)]) \<le> 127"
    using assms(3) by (simp add: f0 status_line_def d header_text_def www_authenticate_def)
  obtain c where "http_response_add_header (f_response f0) ''WWW-Authenticate'' (www_authenticate nonce)
      = Inr ((f_response f0)\<lparr>rs_allocated := c, rs_data := rs_data (f_response f0) @ header_text [(''WWW-Authenticate'', www_authenticate nonce)]\<rparr>)"
    using header_pieces_fit [OF f0(1), of "''WWW-Authenticate''" "www_authenticate nonce"] l by (auto simp: www_authenticate_def)
  then show ?thesis using assms(2) f0 l by (auto simp: add_header_def)
qed

lemma begins_handled:
  assumes "rs_data_size (f_response f) = 1024" "length (rs_data (f_response f)) \<le> 127"
    "handle_request w rq m uri index f = Inr f2" "closing_headers w cseq f2 = Inr f3"
  shows "\<exists>rest. rs_data (f_response f3) = rs_data (f_response f) @ rest \<and> rs_complete (f_response f3)"
proof -
  obtain hs where hs: "length hs \<le> 3" "\<forall>h \<in> set hs. short_header h"
    "length (rs_data (f_response f) @ header_text hs) \<le> 1024 \<Longrightarrow>
       rs_data_size (f_response f2) = 1024 \<and> rs_data (f_response f2) = rs_data (f_response f) @ header_text hs"
    using addingD [OF adding_handle_request assms(3)] assms(1) by (auto simp: adds_def)
  have "length (header_text hs) \<le> 462" using length_header_text [OF hs(2)] hs(1) by linarith
  then have "begins (rs_data (f_response f)) (f_response f2)" using hs(3) assms(2) by (simp add: begins_def)
  from begins_closing [OF assms(4) this] show ?thesis by (auto simp: begins_def)
qed

text \<open>
  C14. Every answered request without a challenge gets a complete response: the status line, 401 when the
  password was asked for and not given and 200 otherwise, at most four short header lines, the server, the
  sequence number of the request when it has one, the date, and the body of its handler; nothing is cut off.
\<close>

theorem response_of_request:
  assumes "conn_request w rq index r c = Inr (Some f)" "http_request_get_header rq ''Apple-Challenge'' index = None"
    "http_request_get_header rq ''CSeq'' index = cseq" "\<forall>s. cseq = Some s \<longrightarrow> length s \<le> 40"
    "w_time w \<noteq> []" "length (w_time w) \<le> 40" "length (c_nonce c) \<le> 32" "length (f_body f) \<le> 1000000000"
  shows "\<exists>code message hs. (code, message) \<in> {(200, ''OK''), (401, ''Unauthorized'')} \<and> length hs \<le> 4 \<and> (\<forall>h \<in> set hs. short_header h) \<and>
    http_response_get_data (f_response f) = Inr (status_line ''RTSP/1.0'' code message
      @ header_text (hs @ [(''Server'', ''AirTunes/373.8'')] @ cseq_header cseq @ [(''Date'', w_time w)]) @ body_text (f_body f))"
proof -
  have d: "dec_digits 200 = ''200''" "dec_digits 401 = ''401''" by code_simp+
  obtain m uri f1 b f2 where s: "start_response 200 ''OK'' (new_frame r c) = Inr f1" "check_password w rq m f1 = Inr (b, f2)"
    "in_turn [answer_challenge b (http_request_get_header rq ''Apple-Challenge'' index), handle_request w rq m uri index,
       closing_headers w (http_request_get_header rq ''CSeq'' index)] f2 = Inr f"
    using conn_request_steps [OF assms(1)] by metis
  obtain f3 where h: "handle_request w rq m uri index f2 = Inr f3" "closing_headers w cseq f3 = Inr f"
    using s(3) assms(2,3) by (auto simp: in_turn.simps answer_challenge_def)
  have f1: "rs_data_size (f_response f1) = 1024" "rs_data (f_response f1) = status_line ''RTSP/1.0'' 200 ''OK''" "c_nonce (f_conn f1) = c_nonce c"
    using start_text [OF s(1)] s(1) by (auto simp: status_line_def d start_response_def new_frame_def split: sum.splits)
  define good where "good g \<longleftrightarrow> (\<exists>code message. (code, message) \<in> {(200, ''OK''), (401, ''Unauthorized'')} \<and>
      (\<exists>res. rs_data_size res = 1024 \<and> rs_data res = status_line ''RTSP/1.0'' code message \<and> adds 1 res (f_response g)))" for g :: "'a frame"
  have "good f2"
  proof (cases "f2 = f1")
    case True
    have "good f1" unfolding good_def by (rule exI [of _ 200], rule exI [of _ "''OK''"], intro conjI exI [of _ "f_response f1"]) (simp_all add: f1)
    then show ?thesis using True by simp
  next
    case False
    then obtain f0 where a: "start_response 401 ''Unauthorized'' f1 = Inr f0"
      "add_header ''WWW-Authenticate'' (www_authenticate (c_nonce c)) f0 = Inr f2"
      using s(2) f1(3) by (auto simp: check_password_def request_handle_authorization_def in_turn.simps split: if_splits)
    have "adds 1 (f_response f0) (f_response f2)"
      using addingD [OF adding_header a(2)] assms(7) by (simp add: www_authenticate_def)
    moreover have "rs_data_size (f_response f0) = 1024 \<and> rs_data (f_response f0) = status_line ''RTSP/1.0'' 401 ''Unauthorized''"
      by (rule start_text [OF a(1)]) (simp_all add: status_line_def d)
    ultimately show ?thesis unfolding good_def by blast
  qed
  then obtain code message res where g: "(code, message) \<in> {(200, ''OK''), (401, ''Unauthorized'')}"
    "rs_data_size res = 1024" "rs_data res = status_line ''RTSP/1.0'' code message"
    "adds 1 res (f_response f2)" unfolding good_def by blast
  have "adds (1 + 3) res (f_response f3)"
    by (rule adds_trans [OF g(4) addingD [OF adding_handle_request h(1)]])
  then obtain hs where hs: "length hs \<le> 4" "\<forall>h \<in> set hs. short_header h"
    "length (rs_data res @ header_text hs) \<le> 1024 \<Longrightarrow>
        rs_data_size (f_response f3) = 1024 \<and> rs_data (f_response f3) = rs_data res @ header_text hs"
    using g(2) by (auto simp: adds_def)
  have l: "length (status_line ''RTSP/1.0'' code message) \<le> 27" using g(1) by (auto simp: status_line_def d)
  have "length (header_text hs) \<le> 616" using length_header_text [OF hs(2)] hs(1) by linarith
  with l have t: "length (rs_data res @ header_text hs) \<le> 643" using g(3) by simp
  then have f3: "rs_data_size (f_response f3) = 1024" "rs_data (f_response f3) = rs_data res @ header_text hs"
    using hs(3) by simp_all
  have "f_body f = f_body f3"
    by (rule closing_frame(4) [OF h(2)])
  moreover have "length (header_text ([(''Server'', ''AirTunes/373.8'')] @ cseq_header cseq @ [(''Date'', w_time w)])) \<le> 120"
    using assms(4,6) by (auto simp: header_text_def cseq_header_def split: option.splits)
  ultimately have "rs_complete (f_response f) \<and> rs_data (f_response f) = rs_data (f_response f3)
      @ header_text ([(''Server'', ''AirTunes/373.8'')] @ cseq_header cseq @ [(''Date'', w_time w)]) @ body_text (f_body f3)"
    using t f3 assms(8) by (intro closing_text [OF h(2) f3(1) assms(5)]) simp_all
  then show ?thesis
    using g(1,3) hs(1,2) f3(2) \<open>f_body f = f_body f3\<close>
    by (intro exI [of _ code] exI [of _ message] exI [of _ hs]) (simp add: http_response_get_data_def)
qed

lemma demo_texts:
  "http_request_get_header (demo_request m ''*'' [(''CSeq'', ''4'')] body) ''CSeq'' 1 = Some ''4''"
  "http_request_get_header (demo_request m ''*'' [(''CSeq'', ''4'')] body) ''Apple-Challenge'' 1 = None"
  "http_request_get_header (demo_request m ''*'' [(''CSeq'', ''4'')] body) ''Authorization'' 1 = None"
  "http_request_get_url (demo_request m ''*'' [(''CSeq'', ''4'')] body) 1 = Some (Some ''*'')"
  "http_request_get_method (demo_request m ''*'' [(''CSeq'', ''4'')] body) = Some m"
  "\<not> binary_plist (demo_request m ''*'' [(''CSeq'', ''4'')] body)"
proof -
  have q: "streq False ''CSeq'' ''CSeq''" "\<not> streq False ''CSeq'' ''Apple-Challenge''" "\<not> streq False ''CSeq'' ''Authorization''"
    "\<not> streq False ''CSeq'' ''content-type''" "\<not> streq False ''CSeq'' ''Content-Type''" "split_lines [] ''*'' = [''*'']" by code_simp+
  show "http_request_get_header (demo_request m ''*'' [(''CSeq'', ''4'')] body) ''CSeq'' 1 = Some ''4''"
    "http_request_get_header (demo_request m ''*'' [(''CSeq'', ''4'')] body) ''Apple-Challenge'' 1 = None"
    "http_request_get_header (demo_request m ''*'' [(''CSeq'', ''4'')] body) ''Authorization'' 1 = None"
    "http_request_get_url (demo_request m ''*'' [(''CSeq'', ''4'')] body) 1 = Some (Some ''*'')"
    "http_request_get_method (demo_request m ''*'' [(''CSeq'', ''4'')] body) = Some m"
    "\<not> binary_plist (demo_request m ''*'' [(''CSeq'', ''4'')] body)"
    by (simp_all add: demo_request_def http_request_get_header_def http_request_get_url_def http_request_get_method_def
        binary_plist_def q)
qed

lemma demo_closing:
  "room 200 f \<Longrightarrow> length (f_body f) \<le> 1000000000 \<Longrightarrow> \<exists>f'. closing_headers demo_world (Some ''4'') f = Inr f'"
  by (rule closing_room) (simp_all add: demo_world_def)

lemma demo_options:
  "\<exists>f. conn_request demo_world (demo_request ''OPTIONS'' ''*'' [(''CSeq'', ''4'')] []) 1 demo_raop demo_conn = Inr (Some f) \<and> f_body f = []"
proof -
  have d: "dec_digits 200 = ''200''" by code_simp
  obtain f1 where 1: "start_response 200 ''OK'' (new_frame demo_raop demo_conn) = Inr f1" "room 950 f1"
    using start_room [of 200 "''OK''" 950] by (auto simp: status_line_def d)
  have "room (length ''Public'' + length (''ANNOUNCE, SETUP, PLAY, DESCRIBE, REDIRECT, RECORD, PAUSE, FLUSH, ''
     @ ''TEARDOWN, OPTIONS, GET_PARAMETER, SET_PARAMETER, POST, GET'') + 4 + 700) f1" by (rule room_mono [OF 1(2)]) simp
  from add_header_room [OF this] obtain f2 where 2: "request_handle_options f1 = Inr f2" "room 700 f2"
    by (auto simp: request_handle_options_def)
  have b: "f_body f2 = []"
    using start_frame(4) [OF 1(1)] add_header_frame(4) 2(1) by (fastforce simp: request_handle_options_def new_frame_def)
  obtain f3 where 3: "closing_headers demo_world (Some ''4'') f2 = Inr f3"
    using demo_closing [of f2] room_mono [OF 2(2), of 200] b by auto
  have "conn_request demo_world (demo_request ''OPTIONS'' ''*'' [(''CSeq'', ''4'')] []) 1 demo_raop demo_conn = Inr (Some f3)"
    by (simp add: conn_request_def demo_texts 1 check_password_def in_turn.simps answer_challenge_def handle_request_def 2 3)
  then show ?thesis using closing_frame(4) [OF 3] b by simp
qed

theorem response_of_request_witness:
  "\<exists>f code message hs. conn_request demo_world (demo_request ''OPTIONS'' ''*'' [(''CSeq'', ''4'')] []) 1 demo_raop demo_conn = Inr (Some f) \<and>
    (code, message) \<in> {(200, ''OK''), (401, ''Unauthorized'')} \<and> length hs \<le> 4 \<and>
    http_response_get_data (f_response f) = Inr (status_line ''RTSP/1.0'' code message
      @ header_text (hs @ [(''Server'', ''AirTunes/373.8'')] @ cseq_header (Some ''4'') @ [(''Date'', w_time demo_world)]) @ body_text [])"
proof -
  obtain f where f: "conn_request demo_world (demo_request ''OPTIONS'' ''*'' [(''CSeq'', ''4'')] []) 1 demo_raop demo_conn = Inr (Some f)"
    "f_body f = []" using demo_options by blast
  have "w_time demo_world \<noteq> []" "length (w_time demo_world) \<le> 40" "length (c_nonce demo_conn) \<le> 32"
    by (simp_all add: demo_world_def demo_conn_def)
  from response_of_request [OF f(1) demo_texts(2,1) _ this] f show ?thesis by auto
qed

end
