(* ===== verification/Raop_Properties.thy ===== *)
theory Raop_Properties
  imports Raop_Response
begin

text \<open>
  What the handlers of the remote audio protocol do: the state every interleaving keeps, requests without
  authorization, the FairPlay handshake, audio sessions, mirroring keys, pipelined parameters and the requests
  that abort the process.
\<close>

section \<open>Reachable states\<close>

text \<open>
  C15. Under every interleaving of connections, requests and turns of the audio threads, each key, vector and
  table of the server and of every connection keeps its size, the audio receiver of every connection keeps
  its invariant, and since the event port is never zero the event channel is never opened by SETUP.
\<close>

theorem raop_state_is_typed:
  assumes "raop_reachable cdc r conns"
  shows "raop_ok r \<and> (\<forall>i c. conns i = Some c \<longrightarrow> session_ok cdc c \<and>
     (\<forall>rr. c_raop_rtp c = Some rr \<longrightarrow> rtp_inv rr) \<and>
     (\<forall>w env remote f. f_conn f = c \<longrightarrow> open_event_channel w env remote f = Inr f))"
proof -
  have "rtp_inv rr" if "session_ok cdc c" "c_raop_rtp c = Some rr" for c rr
    by (rule rtp_reachable_inv [of cdc]) (use that in \<open>simp add: session_ok_def\<close>)
  moreover have "c_eventPort c \<noteq> 0" if "session_ok cdc c" for c using that by (simp add: session_ok_def)
  ultimately show ?thesis using reachable_ok [OF assms] open_event_channel_closed by blast
qed

theorem raop_state_is_typed_witness:
  "\<exists>c. conn_init True (replicate 64 7) 3 [10, 0, 0, 1] [10, 0, 0, 2] = Some c \<and> session_ok copy_codec c \<and> raop_ok demo_raop"
proof -
  obtain r0 where r: "raop_init 10 True True demo_callbacks True True (Some demo_key) = Inr (Some r0)"
    "raop_start [1, 2, 3, 4, 5, 6] (Some ''secret'') 1280 720 60 r0 = (True, demo_raop)" using demo_raop_started by blast
  have "conn_init True (replicate 64 7) 3 [10, 0, 0, 1] [10, 0, 0, 2] \<noteq> (None :: nat raop_conn option)"
    by (simp add: conn_init_def digest_generate_nonce_def Let_def)
  then obtain c :: "nat raop_conn" where c: "conn_init True (replicate 64 7) 3 [10, 0, 0, 1] [10, 0, 0, 2] = Some c" by auto
  have "raop_reachable copy_codec demo_raop (Map.empty(0 \<mapsto> c))"
    by (rule raop_reachable.accept [OF raop_reachable.start [OF r] _ c]) simp_all
  from raop_state_is_typed [OF this] show ?thesis using c by auto
qed

section \<open>Requests without authorization\<close>

text \<open>
  C13. A request whose authorization fails is nevertheless handled: whenever it is answered, its handler ran on
  the server and the connection as they were, and what it did to them and the events it raised are the
  request's effect. Only the response is another one: the handler starts from the status line
  \<open>RTSP/1.0 401 Unauthorized\<close> with the challenge for a password, and the text that is sent begins with them.
\<close>

theorem unauthorized_request_takes_effect:
  assumes "r_password r \<noteq> []" "http_request_get_method rq = Some m" "m \<noteq> ''OPTIONS''" "length (c_nonce c) \<le> 32"
    "authorized w rq m (new_frame r c) = Inr False" "conn_request w rq index r c = Inr (Some f)"
  shows "\<exists>f1 f2 uri rest. f_raop f1 = r \<and> f_conn f1 = c \<and> f_events f1 = [] \<and> f_body f1 = [] \<and>
    http_request_get_url rq index = Some uri \<and> handle_request w rq m uri index f1 = Inr f2 \<and>
    f_raop f = f_raop f2 \<and> f_conn f = f_conn f2 \<and> f_events f = f_events f2 \<and> f_body f = f_body f2 \<and>
    rs_data (f_response f1) = status_line ''RTSP/1.0'' 401 ''Unauthorized''
      @ header_text [(''WWW-Authenticate'', www_authenticate (c_nonce c))] \<and>
    http_response_get_data (f_response f) = Inr (rs_data (f_response f1) @ rest)"
proof -
  obtain uri f1 b f2 where s: "http_request_get_url rq index = Some uri" "start_response 200 ''OK'' (new_frame r c) = Inr f1"
    "check_password w rq m f1 = Inr (b, f2)"
    "in_turn [answer_challenge b (http_request_get_header rq ''Apple-Challenge'' index), handle_request w rq m uri index,
       closing_headers w (http_request_get_header rq ''CSeq'' index)] f2 = Inr f"
    using conn_request_steps [OF assms(6)] assms(2) by (metis option.inject)
  note f1 = start_frame [OF s(2)]
  have "authorized w rq m f1 = authorized w rq m (new_frame r c)" by (simp add: authorized_def f1 cong: option.case_cong)
  then have "authorized w rq m f1 = Inr False" using assms(5) by simp
  then obtain f0 where b: "b" "start_response 401 ''Unauthorized'' f1 = Inr f0"
    "add_header ''WWW-Authenticate'' (www_authenticate (c_nonce (f_conn f1))) f0 = Inr f2"
    using s(3) assms(1,3) f1 by (auto simp: check_password_def request_handle_authorization_def new_frame_def in_turn.simps)
  obtain f3 where h: "handle_request w rq m uri index f2 = Inr f3"
    "closing_headers w (http_request_get_header rq ''CSeq'' index) f3 = Inr f"
    using s(4) b(1) by (auto simp: in_turn.simps answer_challenge_def split: option.splits)
  have n: "f_raop f2 = r" "f_conn f2 = c" "f_events f2 = []" "f_body f2 = []" "f_conn f1 = c"
    using f1 start_frame [OF b(2)] add_header_frame [OF b(3)] by (simp_all add: new_frame_def)
  from refused_text [OF b(2) b(3) [unfolded n(5)] assms(4)] obtain rest where
    t: "rs_data (f_response f2) = status_line ''RTSP/1.0'' 401 ''Unauthorized''
        @ header_text [(''WWW-Authenticate'', www_authenticate (c_nonce c))]"
    "rs_data (f_response f) = rs_data (f_response f2) @ rest" "rs_complete (f_response f)"
    using begins_handled [OF _ _ h] by auto
  show ?thesis
    by (rule exI [of _ f2], rule exI [of _ f3], rule exI [of _ uri], rule exI [of _ rest])
       (use s(1) h(1) n(1-4) t closing_frame [OF h(2)] in \<open>simp add: http_response_get_data_def\<close>)
qed

theorem unauthorized_request_takes_effect_witness:
  "\<exists>f rest. conn_request demo_world (demo_request ''TEARDOWN'' ''*'' [(''CSeq'', ''4'')] []) 1 demo_raop demo_conn = Inr (Some f) \<and>
     f_events f = [PlaybackStop] \<and> http_response_get_data (f_response f) = Inr (''RTSP/1.0 401 Unauthorized'' @ rest)"
proof -
  let ?rq = "demo_request ''TEARDOWN'' ''*'' [(''CSeq'', ''4'')] []"
  have d: "dec_digits 200 = ''200''" and d401: "dec_digits 401 = ''401''" by code_simp+
  have a: "authorized demo_world ?rq ''TEARDOWN'' f = Inr False" for f
    by (simp add: authorized_def demo_texts digest_is_valid_def)
  have p: "r_password demo_raop = ''secret''" "length (c_nonce demo_conn) \<le> 32" by (simp_all add: demo_raop_def demo_conn_def)
  have t: "request_handle_teardown demo_world ?rq g = Inr (emit [PlaybackStop] g)" for g
    by (simp add: request_handle_teardown_def teardown_type_def demo_texts)
  obtain f1 where 1: "start_response 200 ''OK'' (new_frame demo_raop demo_conn) = Inr f1" "room 950 f1"
    using start_room [of 200 "''OK''" 950] by (auto simp: status_line_def d)
  have n: "f_raop f1 = demo_raop" "f_conn f1 = demo_conn" using start_frame [OF 1(1)] by (simp_all add: new_frame_def)
  obtain f2 where 2: "request_handle_authorization demo_world ?rq ''TEARDOWN'' f1 = Inr (True, f2)" "room 800 f2"
    using refused_room [OF room_mono [OF 1(2), of 900] _ a] p(2) n(2) by auto
  have b: "f_body f2 = []"
    using 2(1) start_frame(4) add_header_frame(4) start_frame(4) [OF 1(1)]
    by (fastforce simp: request_handle_authorization_def a in_turn.simps new_frame_def)
  have be: "f_body (emit [PlaybackStop] f2) = []" by (simp add: emit_def b)
  obtain f3 where 3: "closing_headers demo_world (Some ''4'') (emit [PlaybackStop] f2) = Inr f3"
    using demo_closing [of "emit [PlaybackStop] f2"] room_mono [OF 2(2), of 200] be by auto
  have f: "conn_request demo_world ?rq 1 demo_raop demo_conn = Inr (Some f3)"
    by (simp add: conn_request_def demo_texts 1 check_password_def in_turn.simps answer_challenge_def handle_request_def n p 2 t 3)
  from unauthorized_request_takes_effect [OF _ demo_texts(5) _ p(2) a f] p(1)
  obtain g1 g2 uri rest where e: "handle_request demo_world ?rq ''TEARDOWN'' uri 1 g1 = Inr g2" "f_events g1 = []" "f_events f3 = f_events g2"
    "rs_data (f_response g1) = status_line ''RTSP/1.0'' 401 ''Unauthorized'' @ header_text [(''WWW-Authenticate'', www_authenticate (c_nonce demo_conn))]"
    "http_response_get_data (f_response f3) = Inr (rs_data (f_response g1) @ rest)" by auto
  have "f_events f3 = [PlaybackStop]" using e(1-3) t by (auto simp: handle_request_def emit_def)
  moreover have "\<exists>rest. http_response_get_data (f_response f3) = Inr (''RTSP/1.0 401 Unauthorized'' @ rest)"
    using e(4,5) by (simp add: status_line_def d401)
  ultimately show ?thesis using f by blast
qed

section \<open>FairPlay\<close>

text \<open>
  C35. What \<open>/fp-setup\<close> answers, for every body: the reply table's entry for a first message of 16 bytes, the
  header with the last twenty bytes of a second message of 164, which is kept for the session key; every other
  body makes the handler follow a null pointer, read indeterminate memory or leave an array.
\<close>

theorem fpsetup_answers:
  "request_handle_fpsetup rq f =
    (let d = bytes_of (http_request_get_data rq); first = (15 \<le> length d \<and> d ! 6 = 1 \<and> unat (d ! 14) < 4)
     in if length d = 16 \<and> d ! 5 = 1 \<and> first then Inr (f\<lparr>f_body := chars_of (reply_message ! unat (d ! 14))\<rparr>)
     else if length d = 164 \<and> d ! 5 = 1 \<and> d ! 6 = 3
     then Inr (upd_raop (r_message3_update (\<lambda>_. d)) f\<lparr>f_body := chars_of (fp_header @ drop 144 d)\<rparr>)
     else if length d = 164 \<and> d ! 5 = 1 \<and> first
     then Inr (upd_raop (r_message3_update (\<lambda>_. d)) f\<lparr>f_body := chars_of (take 32 (reply_message ! unat (d ! 14)))\<rparr>)
     else Inl (if d = [] \<or> (7 \<le> length d \<and> d ! 5 \<noteq> 1) then NullPointer
               else if 7 \<le> length d \<and> d ! 6 \<noteq> 1 \<and> d ! 6 \<noteq> 3 then Uninitialised else OutOfBounds))"
proof -
  define d where "d = bytes_of (http_request_get_data rq)"
  have l: "\<not> unat (d ! 14) < 4 \<or> length (reply_message ! unat (d ! 14)) = 142" by simp
  consider "d = []" | "d \<noteq> []" "length d < 7" | "7 \<le> length d" "d ! 5 \<noteq> 1" | "7 \<le> length d" "d ! 5 = 1" "d ! 6 \<noteq> 1" "d ! 6 \<noteq> 3"
    | "7 \<le> length d" "d ! 5 = 1" "d ! 6 = 1" "length d < 15" | "15 \<le> length d" "d ! 5 = 1" "d ! 6 = 1" "4 \<le> unat (d ! 14)"
    | "15 \<le> length d" "d ! 5 = 1" "d ! 6 = 1" "unat (d ! 14) < 4" | "7 \<le> length d" "d ! 5 = 1" "d ! 6 = 3"
    by linarith
  then show ?thesis
    unfolding request_handle_fpsetup_def Let_def d_def [symmetric]
    by cases (use l in \<open>simp_all add: fairplay_setup_def fp_result_def logged_def set_body_def upd_raop_def Let_def\<close>)
qed

section \<open>Audio sessions\<close>

lemma parse_remote_empty: "raop_rtp_parse_remote pa rr [] = Some (-1, rr)"
proof -
  have "utils_strsep (Some []) '' '' = (Some [], None)" by code_simp
  then show ?thesis by (simp add: raop_rtp_parse_remote_def)
qed

lemma parse_remote_buffer: "raop_rtp_parse_remote pa rr remote = Some (ret, rr') \<Longrightarrow> rr_buffer rr' = rr_buffer rr \<and> rr_running rr' = rr_running rr"
  by (auto simp: raop_rtp_parse_remote_def Let_def split: prod.splits option.splits if_splits)

lemma buffer_keys:
  "raop_buffer_init cdc bco malloc fmtp key iv et cn = Some (Some buffer) \<Longrightarrow> rb_aeskey buffer = take 16 key \<and> rb_aesiv buffer = take 16 iv"
  by (auto simp: raop_buffer_init_def Let_def split: if_splits option.splits prod.splits)

lemma rtp_init_result:
  assumes "raop_rtp_init cdc co bco malloc pa cbs remote rtpmap fmtp key iv = Some (Some rr)"
  shows "remote \<noteq> [] \<and> rb_aeskey (rr_buffer rr) = take 16 key \<and> rb_aesiv (rr_buffer rr) = take 16 iv \<and> \<not> rr_running rr \<and> rr_joined rr"
proof -
  have "remote \<noteq> []"
    using assms by (auto simp: raop_rtp_init_def Let_def parse_remote_empty split: if_splits option.splits prod.splits)
  then show ?thesis
    using assms by (auto simp: raop_rtp_init_def Let_def split: if_splits option.splits prod.splits
        dest!: parse_remote_buffer buffer_keys)
qed

lemma rtp_start_result:
  assumes "rtp_start env rr udp cp tp = (rr', ports, evs)" "\<not> rr_running rr" "rr_joined rr"
  shows "rr_buffer rr' = rr_buffer rr \<and> rr_control_rport rr' = cp \<and>
    (case ports of None \<Rightarrow> \<not> rr_running rr'
     | Some p \<Rightarrow> rr_running rr' \<and> p = (rr_control_lport rr', rr_timing_lport rr', rr_data_lport rr'))"
  using assms by (auto simp: rtp_start_def raop_rtp_start_def raop_rtp_init_sockets_def Let_def split: if_splits prod.splits)

lemma upd_conn_simps [simp]:
  "f_conn (upd_conn g f) = g (f_conn f)" "f_conn (emit evs f) = f_conn f" "f_conn (set_disconnect f) = f_conn f"
  "f_conn (set_rtp rr f) = f_conn f\<lparr>c_raop_rtp := Some rr\<rparr>" "f_raop (upd_conn g f) = f_raop f"
  by (simp_all add: upd_conn_def emit_def set_disconnect_def set_rtp_def)

lemma destroy_conn: "f_conn (rtp_destroy f) = f_conn f\<lparr>c_raop_rtp := None\<rparr>"
  by (auto simp: rtp_destroy_def split: option.splits)

lemma run_audio_event: "c_eventPort (f_conn (run_audio env port rr f)) = c_eventPort (f_conn f)"
  by (cases "rtp_start env rr True port 0") (auto simp: run_audio_def Let_def split: option.splits)

definition session_started :: "'d frame \<Rightarrow> byte list \<Rightarrow> byte list \<Rightarrow> u16 \<Rightarrow> 'd frame \<Rightarrow> bool" where
  \<comment> \<open>the session has the keys and the client's control port; its ports are stored when it runs\<close>
  "session_started f key iv port f' \<longleftrightarrow>
     (case c_raop_rtp (f_conn f') of
        None \<Rightarrow> rs_disconnect (f_response f')
      | Some rr \<Rightarrow> length (c_local (f_conn f)) = 4 \<and> f_response f' = f_response f
          \<and> rb_aeskey (rr_buffer rr) = key \<and> rb_aesiv (rr_buffer rr) = iv \<and> rr_control_rport rr = port
          \<and> (c_controlPort (f_conn f'), c_timingPort (f_conn f'), c_dataPort (f_conn f')) =
             (if rr_running rr then (rr_control_lport rr, rr_timing_lport rr, rr_data_lport rr)
              else (c_controlPort (f_conn f), c_timingPort (f_conn f), c_dataPort (f_conn f))))"

lemma start_audio_session:
  assumes "start_audio w env (remote_text (f_conn f)) rtpmap fmtp port f = Inr f'"
  shows "session_started f (take 16 (c_rsa_cbc_key (f_conn f))) (take 16 (c_rsa_cbc_iv (f_conn f))) port f'"
proof -
  let ?g = "rtp_destroy f"
  obtain r where r: "rtp_create w env (f_raop ?g) (remote_text (f_conn f)) rtpmap fmtp (c_rsa_cbc_key (f_conn f)) (c_rsa_cbc_iv (f_conn f)) = Inr r"
    "f' = (case r of None \<Rightarrow> set_disconnect ?g | Some rr \<Rightarrow> run_audio env port rr ?g)"
    using assms by (auto simp: start_audio_def Let_def destroy_conn)
  show ?thesis
  proof (cases r)
    case None
    then show ?thesis using r(2)
      by (simp add: session_started_def destroy_conn) (simp add: set_disconnect_def http_response_set_disconnect_def)
  next
    case (Some rr)
    have i: "remote_text (f_conn f) \<noteq> []" "rb_aeskey (rr_buffer rr) = take 16 (c_rsa_cbc_key (f_conn f))"
      "rb_aesiv (rr_buffer rr) = take 16 (c_rsa_cbc_iv (f_conn f))" "\<not> rr_running rr" "rr_joined rr"
      using rtp_init_result r(1) unfolding Some by (fastforce simp: rtp_create_def split: option.splits)+
    have l: "length (c_local (f_conn f)) = 4" using i(1) by (simp add: remote_text_def split: if_splits)
    obtain rr' ports evs where s: "rtp_start env rr True port 0 = (rr', ports, evs)" by (rule prod_cases3)
    show ?thesis
    proof (cases ports)
      case None
      then show ?thesis using rtp_start_result [OF s i(4,5)] i l r(2)
        by (simp add: Some run_audio_def s Let_def session_started_def destroy_conn)
    next
      case (Some p)
      then show ?thesis using rtp_start_result [OF s i(4,5)] i l r(2)
        by (simp add: \<open>r = Some rr\<close> run_audio_def s Let_def session_started_def destroy_conn)
    qed
  qed
qed

text \<open>
  C16. An audio stream of SETUP that is accepted either marks the connection for closing, always over IPv6, or
  leaves a session under the FairPlay key, hashed with the pair-verify secret from version 280 on, and the
  initial vector, sending to the control port of the request. The ports of the connection are those of the
  sockets only when these could be opened; otherwise the old ports are answered and nothing is reported.
\<close>

theorem audio_setup_session:
  assumes "session_ok cdc (f_conn f)" "setup_stream w ver env item (n, f) = Inr (96, f')"
  shows "\<exists>port. plist_get_uint_val (plist_dict_get_item item ''controlPort'') = Some port \<and>
    session_started f (take 16 (if cfloat_ge ver 280 then sha512msg (pc_sha512 (w_crypto w)) (c_rsa_key (f_conn f)) (c_cv_sha (f_conn f))
                                else c_rsa_key (f_conn f))) (c_rsa_iv (f_conn f)) (ucast port) f'"
proof -
  have c: "length (c_rsa_iv (f_conn f)) = 16" "c_eventPort (f_conn f) \<noteq> 0" using assms(1) by (auto simp: session_ok_def)
  let ?key = "take 16 (if cfloat_ge ver 280 then sha512msg (pc_sha512 (w_crypto w)) (c_rsa_key (f_conn f)) (c_cv_sha (f_conn f))
                                else c_rsa_key (f_conn f))"
  let ?g = "upd_conn (\<lambda>c. c\<lparr>c_rsa_cbc_key := (if cfloat_ge ver 280 then take 16 (sha512msg (pc_sha512 (w_crypto w)) (c_rsa_key (f_conn f)) (c_cv_sha (f_conn f)))
                                else c_rsa_key c), c_rsa_cbc_iv := c_rsa_iv c\<rparr>) f"
  have "audio_stream w env item ?g = Inr f'"
    using assms(2) by (auto simp: setup_stream_def in_turn.simps stream_keys_def Let_def split: if_splits)
  then obtain port rtpmap fmtp f1 where s: "plist_get_uint_val (plist_dict_get_item item ''controlPort'') = Some port"
    "start_audio w env (remote_text (f_conn ?g)) rtpmap fmtp (ucast port) ?g = Inr f1"
    "open_event_channel w env (remote_text (f_conn ?g)) f1 = Inr f'"
    unfolding audio_stream_def Let_def uint_of_def
    by (auto simp: in_turn.simps simp del: upd_conn_simps split: if_splits prod.splits option.splits)
  note t = start_audio_session [OF s(2)]
  have "c_eventPort (f_conn f1) = c_eventPort (f_conn ?g)"
    using s(2) by (auto simp: start_audio_def run_audio_event Let_def destroy_conn split: option.splits)
  then have "f' = f1" using s(3) c(2) by (simp add: open_event_channel_def)
  then show ?thesis using s(1) t c(1) by (auto simp: session_started_def split: option.splits if_splits)
qed

definition demo_stream :: "plist option" where
  "demo_stream = Some (PDict [(''type'', PUint 96), (''controlPort'', PUint 6011), (''audioFormat'', PUint 0x40000), (''spf'', PUint 352)])"

lemma demo_session_ok: "session_ok copy_codec demo_conn"
  by (simp add: session_ok_def demo_conn_def)

lemma demo_audio_texts:
  "remote_text demo_conn = ''IN IP4 10.0.0.2''" "utils_strsep (Some ''IN IP4 10.0.0.2'') '' '' = (Some ''IN'', Some ''IP4 10.0.0.2'')"
  "utils_strsep (Some ''IP4 10.0.0.2'') '' '' = (Some ''IP4'', Some ''10.0.0.2'')" "c_strstr ''10.0.0.2'' '':'' = None"
  "c_strstr ''96 352 0 16 40 10 14 2 255 0 0 44100'' ''AAC-eld'' = None"
  "fst (get_fmtp_info zero_config ''96 352 0 16 40 10 14 2 255 0 0 44100'' 1) = 0"
  "audio_size (snd (get_fmtp_info zero_config ''96 352 0 16 40 10 14 2 255 0 0 44100'' 1)) = 1408"
  by code_simp+

lemma demo_create:
  assumes "f_raop f = demo_raop"
  shows "\<exists>rr. rtp_create demo_world demo_env (f_raop f) ''IN IP4 10.0.0.2'' rtpmap ''96 352 0 16 40 10 14 2 255 0 0 44100'' key iv = Inr (Some rr)"
proof -
  have "\<exists>b. raop_buffer_init copy_codec True (\<lambda>n. Some (replicate (nat n) 0)) ''96 352 0 16 40 10 14 2 255 0 0 44100'' key iv 1 1 = Some (Some b)"
    using demo_audio_texts(6,7) by (auto simp: raop_buffer_init_def copy_codec_def Let_def split: prod.splits)
  then show ?thesis
    by (auto simp: rtp_create_def raop_rtp_init_def raop_rtp_parse_remote_def demo_audio_texts demo_world_def demo_env_def)
qed

lemma demo_setup_stream:
  "\<exists>f'. setup_stream demo_world (Fin 220) demo_env demo_stream (0, new_frame demo_raop demo_conn) = Inr (96, f') \<and>
     c_raop_rtp (f_conn f') \<noteq> None"
proof -
  let ?g = "upd_conn (\<lambda>c. c\<lparr>c_rsa_cbc_key := c_rsa_key c, c_rsa_cbc_iv := c_rsa_iv c\<rparr>) (new_frame demo_raop demo_conn)"
  have n: "f_raop (new_frame r c) = r" "f_conn (new_frame r c) = c" for r and c :: "nat raop_conn" by (simp_all add: new_frame_def)
  have d: "c_raop_rtp (f_conn ?g) = None" "f_raop ?g = demo_raop" by (simp_all add: n demo_conn_def)
  have g: "rtp_destroy ?g = ?g" using d(1) by (simp add: rtp_destroy_def)
  have t: "remote_text (f_conn ?g) = ''IN IP4 10.0.0.2''" using demo_audio_texts(1) by (simp add: n remote_text_def demo_conn_def)
  obtain rr where rr: "rtp_create demo_world demo_env (f_raop ?g) ''IN IP4 10.0.0.2'' ''96 AppleLossless''
      ''96 352 0 16 40 10 14 2 255 0 0 44100'' (c_rsa_cbc_key (f_conn ?g)) (c_rsa_cbc_iv (f_conn ?g)) = Inr (Some rr)"
    using demo_create [of ?g] d(2) by blast
  let ?h = "run_audio demo_env 6011 rr ?g"
  have e: "c_eventPort (f_conn ?h) \<noteq> 0" by (simp add: run_audio_event n) (simp add: demo_conn_def)
  have a: "audio_stream demo_world demo_env demo_stream ?g = Inr ?h"
    using rr e by (simp add: audio_stream_def demo_stream_def plist_dict_get_item_def plist_get_uint_val_def uint_of_def audio_texts_def
        in_turn.simps start_audio_def g t open_event_channel_def Let_def del: upd_conn_simps)
  have k: "stream_keys demo_world (Fin 220) 96 p (new_frame demo_raop demo_conn) = Inr ?g" for p
    by (simp add: stream_keys_def cfloat_ge_def)
  have "setup_stream demo_world (Fin 220) demo_env demo_stream (0, new_frame demo_raop demo_conn) = Inr (96, ?h)"
    using a by (simp add: setup_stream_def in_turn.simps k Let_def)
       (simp add: demo_stream_def plist_dict_get_item_def uint_of_def plist_get_uint_val_def)
  moreover have "c_raop_rtp (f_conn ?h) \<noteq> None"
    by (cases "rtp_start demo_env rr True 6011 0") (auto simp: run_audio_def Let_def split: option.splits)
  ultimately show ?thesis by blast
qed

theorem audio_setup_session_witness:
  "\<exists>f' rr. setup_stream demo_world (Fin 220) demo_env demo_stream (0, new_frame demo_raop demo_conn) = Inr (96, f') \<and>
     c_raop_rtp (f_conn f') = Some rr \<and> rb_aeskey (rr_buffer rr) = replicate 16 1 \<and> rr_control_rport rr = 6011"
proof -
  obtain f' rr where s: "setup_stream demo_world (Fin 220) demo_env demo_stream (0, new_frame demo_raop demo_conn) = Inr (96, f')"
    "c_raop_rtp (f_conn f') = Some rr" using demo_setup_stream by auto
  have "session_ok copy_codec (f_conn (new_frame demo_raop demo_conn))" using demo_session_ok by (simp add: new_frame_def)
  from audio_setup_session [OF this s(1)] show ?thesis using s
    by (auto simp: session_started_def cfloat_ge_def demo_stream_def plist_dict_get_item_def plist_get_uint_val_def new_frame_def)
      (simp_all add: demo_conn_def)
qed

section \<open>Mirroring keys\<close>

definition client_stream_keys :: "pair_crypto \<Rightarrow> byte list \<Rightarrow> byte list \<Rightarrow> cfloat \<Rightarrow> u64 \<Rightarrow> byte list \<times> byte list" where
  \<comment> \<open>key and initial counter of the mirroring client, from the FairPlay key and the pair-verify secret\<close>
  "client_stream_keys pc key secret ver i =
     (let base = take 16 (if cfloat_ge ver 230 then pc_sha512 pc [key, secret] else key)
      in (take 16 (pc_sha512 pc [ascii (''AirPlayStreamKey'' @ dec_digits (unat i)), base]),
          take 16 (pc_sha512 pc [ascii (''AirPlayStreamIV'' @ dec_digits (unat i)), base])))"

lemma bytes_of_chars_of [simp]: "bytes_of (chars_of bs) = bs"
proof -
  have "of_char (char_of (unat b) :: char) = b" for b :: byte
  proof -
    have "of_nat (of_char (char_of (unat b) :: char)) = b" using unsigned_less [of b] by (simp only: of_char_of) simp
    then show ?thesis by (simp only: of_nat_of_char)
  qed
  then show ?thesis by (simp add: bytes_of_def chars_of_def o_def)
qed

lemma pairverify_hello:
  assumes "request_handle_pairverify w rq f = Inr f1" "bytes_of (http_request_get_data rq) = client_hello (w_crypto w) c"
    "\<forall>s b. length (pc_donna (w_crypto w) s b) = 32" "length (cl_ed_pub c) = 32"
  obtains cx answer where "pair_verify (w_crypto w) (w_aligned w) (w_seed w) (client_hello (w_crypto w) c) (r_pair_data (f_raop f))
      = (cx, Challenge answer)" "c_cv_sha (f_conn f1) = pr_cv_sha cx" "bytes_of (f_body f1) = answer"
proof -
  let ?b = "client_hello (w_crypto w) c"
  obtain cx reply where v: "pair_verify (w_crypto w) (w_aligned w) (w_seed w) ?b (r_pair_data (f_raop f)) = (cx, reply)" by fastforce
  have "length ?b = 68" "?b ! 0 = 1" "?b \<noteq> []" using assms(3,4) by (simp_all add: client_hello_def)
  then obtain answer where a: "reply = Challenge answer" using v by (auto simp: pair_verify_def split: prod.splits)
  obtain f0 where "f0 = upd_conn (c_cv_sha_update (\<lambda>_. pr_cv_sha cx)) (upd_raop (r_pair_data_update (\<lambda>_. cx)) f)"
    "add_header ''Content-Type'' ''application/octet-stream'' (f0\<lparr>f_body := chars_of answer\<rparr>) = Inr f1"
    using assms(1,2) v a by (auto simp: request_handle_pairverify_def in_turn.simps set_body_def)
  then show ?thesis using that [OF v [unfolded a]] add_header_frame [of _ _ "f0\<lparr>f_body := chars_of answer\<rparr>" f1] by simp
qed

lemma setup_reply_raop:
  assumes "setup_reply w ver wk n f = Inr f'"
  shows "f_raop f' = f_raop f" "f_conn f' = f_conn f"
  using assms by (auto simp: setup_reply_def in_turn.simps set_body_def frame_simps split: if_splits)

lemma event_channel_raop: "open_event_channel w env remote f = Inr f' \<Longrightarrow> f_raop f' = f_raop f"
  by (auto simp: open_event_channel_def emit_def upd_conn_def set_disconnect_def Let_def split: if_splits option.splits prod.splits)

lemma take_eiv_keeps: "take_eiv p f = Inr f' \<Longrightarrow> f_raop f' = f_raop f \<and> c_cv_sha (f_conn f') = c_cv_sha (f_conn f)"
  by (auto simp: take_eiv_def split: option.splits if_splits)

lemma take_keys_conn:
  assumes "take_keys w p f = Inr f'" "plist_get_data_val (plist_dict_get_item p ''ekey'') None = Some ekey" "length ekey = 72"
    "opened_ekey w (f_raop f) ekey = Inr (Some key)"
  shows "c_rsa_key (f_conn f') = take 16 key" "c_cv_sha (f_conn f') = c_cv_sha (f_conn f)"
proof -
  obtain g where g: "take_eiv p f = Inr g" "take_ekey w p g = Inr f'" using assms(1) by (auto simp: take_keys_def)
  then have "f' = upd_conn (c_rsa_key_update (\<lambda>_. take 16 key)) g"
    using take_eiv_keeps [OF g(1)] assms(2-4) by (auto simp: take_ekey_def)
  then show "c_rsa_key (f_conn f') = take 16 key" "c_cv_sha (f_conn f') = c_cv_sha (f_conn f)"
    using take_eiv_keeps [OF g(1)] by simp_all
qed

lemma take_keys_undefined:
  assumes "plist_get_data_val (plist_dict_get_item p ''ekey'') None = Some ekey" "length ekey = 72" "length (r_message3 (f_raop f)) = 164"
    "length (fst (w_behind w)) < 12 \<or> length (snd (w_behind w)) < 8"
  shows "take_keys w p f = Inl OutOfBounds"
proof -
  have "opened_ekey w (f_raop f) ekey = Inl OutOfBounds"
    using assms(2-4) by (auto simp: opened_ekey_def fairplay_decrypt_def fp_result_def)
  then have "take_ekey w p g = Inl OutOfBounds" if "take_eiv p f = Inr g" for g
    using take_eiv_keeps [OF that] assms(1,2) by (simp add: take_ekey_def)
  moreover have "take_eiv p f = Inl OutOfBounds \<or> (\<exists>g. take_eiv p f = Inr g)"
    by (auto simp: take_eiv_def split: option.splits)
  ultimately show ?thesis by (auto simp: take_keys_def)
qed

lemma setup_key_agreed:
  assumes "\<forall>k iv. length (pc_aes (w_crypto w) k iv) = 16" "\<forall>m p s. length (pc_sign (w_crypto w) m p s) = 64"
    "\<forall>s b. length (pc_donna (w_crypto w) s b) = 32" "length (cl_ed_pub c) = 32"
    "pc_donna (w_crypto w) (cl_pri c) (Some (pc_donna (w_crypto w) (w_seed w) None))
       = pc_donna (w_crypto w) (w_seed w) (Some (pc_donna (w_crypto w) (cl_pri c) None))"
    "bytes_of (http_request_get_data rq) = client_hello (w_crypto w) c" "request_handle_pairverify w rq f = Inr f1"
    "f_conn f2 = f_conn f1" "w_crypto w' = w_crypto w"
    "w_from_bin w' (http_request_get_data rq') = Some p" "plist_get_data_val (plist_dict_get_item p ''ekey'') None = Some ekey"
    "length ekey = 72"
    "opened_ekey w' (f_raop f2) ekey = Inr (Some key)" "length key = 16"
    "plist_dict_get_item p ''streams'' = Some (PArray [item])" "plist_dict_get_item (Some item) ''type'' = Some (PUint 110)"
    "plist_dict_get_item (Some item) ''streamConnectionID'' = Some (PUint i)" "setup_plist w' rq' f2 = Inr f3"
  shows "\<exists>k iv. (k, iv) = client_stream_keys (w_crypto w) key (pc_donna (w_crypto w) (cl_pri c) (Some (take 32 (bytes_of (f_body f1)))))
           (agent_version w' rq') i \<and>
    r_aes_key_ctx (f_raop f3) = Some \<lparr>g_ctr_key = k, g_ctr = \<lparr>ct_ivec = iv, ct_ecount = replicate 16 0, ct_num = 0\<rparr>\<rparr>"
proof -
  obtain cx answer where v: "pair_verify (w_crypto w) (w_aligned w) (w_seed w) (client_hello (w_crypto w) c) (r_pair_data (f_raop f))
      = (cx, Challenge answer)" "c_cv_sha (f_conn f1) = pr_cv_sha cx" "bytes_of (f_body f1) = answer"
    by (rule pairverify_hello [OF assms(7,6,3,4)])
  obtain sig msg where m: "client_answer (w_crypto w) c answer = (sig, msg)" by fastforce
  obtain cx2 r2 where "pair_verify (w_crypto w) True [] msg cx = (cx2, r2)" by fastforce
  note secret = pair_exchange(3) [OF assms(1-5) v(1) refl m this]
  have items: "array_items (Some (PArray [item])) = [Some item]" by (simp add: array_items_def plist_array_get_item_def plist_array_get_size_def)
  have size: "plist_dict_get_size p \<noteq> 0" using assms(15)
    by (auto simp: plist_dict_get_item_def plist_dict_get_size_def split: option.splits plist.splits)
  obtain g s where g: "take_keys w' p f2 = Inr g" "setup_streams w' (agent_version w' rq') 0 [Some item] (0, g) = Inr s"
    "setup_reply w' (agent_version w' rq') True (fst s) (snd s) = Inr f3"
    using assms(18) size by (auto simp: setup_plist_def assms(10,11,15) items plist_is_array_def Let_def)
  have k: "c_rsa_key (f_conn g) = key" "c_cv_sha (f_conn g) = pr_cv_sha cx"
    using take_keys_conn [OF g(1) assms(11-13)] assms(8,14) v(2) by simp_all
  obtain g1 g2 where e: "stream_keys w' (agent_version w' rq') 110 (Some (PUint i)) g = Inr g1"
    "open_event_channel w' (w_rtp w' 0) (remote_text (f_conn g1)) g1 = Inr g2" "s = (110, g2)"
    using g(2) by (auto simp: setup_stream_def assms(16,17) uint_of_def plist_get_uint_val_def in_turn.simps Let_def)
  have "r_aes_key_ctx (f_raop f3) = r_aes_key_ctx (f_raop g1)"
    using setup_reply_raop(1) [OF g(3)] event_channel_raop [OF e(2)] e(3) by simp
  then show ?thesis
    using e(1) unfolding v(3) secret [symmetric]
    by (auto simp: stream_keys_def uint_of_def plist_get_uint_val_def sha512msg2_def sha512msg_def g_aes_crt_setkey_def k
        client_stream_keys_def assms(9) upd_raop_def Let_def)
qed

text \<open>
  C8. Pairing, FairPlay and SETUP agree on the mirroring key: when a client verifies its pairing and then, on
  the same connection, sets up a screen stream with an encrypted key that FairPlay opens, the server's counter
  mode context holds the key and the initial counter the client derives from the FairPlay key, its own
  Diffie-Hellman secret with the public value it was answered, and the stream's connection number. The debug
  output of the decryption reads 12 bytes behind the global message and 8 behind the encrypted key; what lies
  there is an argument, and where it is not readable the request is undefined.
\<close>

theorem mirroring_key_agreed:
  assumes "\<forall>k iv. length (pc_aes (w_crypto w) k iv) = 16" "\<forall>m p s. length (pc_sign (w_crypto w) m p s) = 64"
    "\<forall>s b. length (pc_donna (w_crypto w) s b) = 32" "length (cl_ed_pub c) = 32"
    "pc_donna (w_crypto w) (cl_pri c) (Some (pc_donna (w_crypto w) (w_seed w) None))
       = pc_donna (w_crypto w) (w_seed w) (Some (pc_donna (w_crypto w) (cl_pri c) None))"
    "bytes_of (http_request_get_data rq) = client_hello (w_crypto w) c" "request_handle_pairverify w rq f = Inr f1"
    "f_conn f2 = f_conn f1" "w_crypto w' = w_crypto w"
    "w_from_bin w' (http_request_get_data rq') = Some p" "plist_get_data_val (plist_dict_get_item p ''ekey'') None = Some ekey"
    "length ekey = 72" "length (r_message3 (f_raop f2)) = 164"
    "plist_dict_get_item p ''streams'' = Some (PArray [item])" "plist_dict_get_item (Some item) ''type'' = Some (PUint 110)"
    "plist_dict_get_item (Some item) ''streamConnectionID'' = Some (PUint i)"
  shows "if 12 \<le> length (fst (w_behind w')) \<and> 8 \<le> length (snd (w_behind w'))
    then \<forall>key f3. opened_ekey w' (f_raop f2) ekey = Inr (Some key) \<and>
        length key = 16 \<and> setup_plist w' rq' f2 = Inr f3 \<longrightarrow>
      (\<exists>k iv. (k, iv) = client_stream_keys (w_crypto w) key (pc_donna (w_crypto w) (cl_pri c) (Some (take 32 (bytes_of (f_body f1)))))
           (agent_version w' rq') i \<and>
        r_aes_key_ctx (f_raop f3) = Some \<lparr>g_ctr_key = k, g_ctr = \<lparr>ct_ivec = iv, ct_ecount = replicate 16 0, ct_num = 0\<rparr>\<rparr>)
    else setup_plist w' rq' f2 = Inl OutOfBounds"
proof (cases "12 \<le> length (fst (w_behind w')) \<and> 8 \<le> length (snd (w_behind w'))")
  case True
  have "\<exists>k iv. (k, iv) = client_stream_keys (w_crypto w) key (pc_donna (w_crypto w) (cl_pri c) (Some (take 32 (bytes_of (f_body f1)))))
           (agent_version w' rq') i \<and>
      r_aes_key_ctx (f_raop f3) = Some \<lparr>g_ctr_key = k, g_ctr = \<lparr>ct_ivec = iv, ct_ecount = replicate 16 0, ct_num = 0\<rparr>\<rparr>"
    if "opened_ekey w' (f_raop f2) ekey = Inr (Some key)"
      "length key = 16" "setup_plist w' rq' f2 = Inr f3" for key f3
    by (rule setup_key_agreed [OF assms(1-12) that(1,2) assms(14-16) that(3)])
  with True show ?thesis by simp
next
  case False
  then have b: "length (fst (w_behind w')) < 12 \<or> length (snd (w_behind w')) < 8" by auto
  have "plist_dict_get_size p \<noteq> 0" using assms(14)
    by (auto simp: plist_dict_get_item_def plist_dict_get_size_def split: option.splits plist.splits)
  then have "setup_plist w' rq' f2 = Inl OutOfBounds"
    by (simp add: setup_plist_def assms(10) take_keys_undefined [OF assms(11-13) b])
  with False show ?thesis by simp
qed

definition demo_ekey :: "byte list" where
  "demo_ekey = replicate 5 0 @ [2] @ replicate 66 0"

definition demo_setup :: "plist option" where
  "demo_setup = Some (PDict [(''ekey'', PData demo_ekey),
     (''streams'', PArray [PDict [(''type'', PUint 110), (''streamConnectionID'', PUint 77)]])])"

definition demo_setup_world :: "nat world" where
  "demo_setup_world = demo_world\<lparr>w_from_bin := (\<lambda>s. Some demo_setup)\<rparr>"

definition demo_fp_raop :: raop where
  "demo_fp_raop = demo_raop\<lparr>r_message3 := replicate 5 0 @ [1, 3] @ replicate 157 0\<rparr>"

definition demo_hello :: http_request where
  "demo_hello = demo_request ''POST'' ''/pair-verify'' [] (chars_of (client_hello demo_crypto demo_client))"

lemma demo_frame_room: "room 1024 (new_frame r c)" "room k (new_frame r c\<lparr>f_body := b\<rparr>) = room k (new_frame r c)"
  by (simp_all add: room_def new_frame_def fresh_response_def)

lemma demo_pairverify: "\<exists>f1. request_handle_pairverify demo_world demo_hello (new_frame demo_raop demo_conn) = Inr f1"
proof -
  let ?b = "client_hello demo_crypto demo_client"
  obtain cx reply where v: "pair_verify demo_crypto True (replicate 32 5) ?b zero_pair = (cx, reply)" by fastforce
  have "length ?b = 68" "?b ! 0 = 1" "?b \<noteq> []" using demo_crypto_laws(3,5) by (simp_all add: client_hello_def)
  then obtain answer where a: "reply = Challenge answer" using v by (auto simp: pair_verify_def split: prod.splits)
  let ?f = "upd_conn (c_cv_sha_update (\<lambda>_. pr_cv_sha cx)) (upd_raop (r_pair_data_update (\<lambda>_. cx)) (new_frame demo_raop demo_conn))"
  have "room 1024 (?f\<lparr>f_body := chars_of answer\<rparr>)" using demo_frame_room(1) by simp
  then have "room (length ''Content-Type'' + length ''application/octet-stream'' + 4 + 8) (?f\<lparr>f_body := chars_of answer\<rparr>)" by (rule room_mono) simp
  from add_header_room [OF this] v a show ?thesis
    by (auto simp: request_handle_pairverify_def in_turn.simps set_body_def demo_world_def demo_hello_def demo_request_def
        http_request_get_data_def new_frame_def demo_raop_def)
qed

lemma demo_decrypt:
  "\<exists>key. opened_ekey demo_setup_world demo_fp_raop demo_ekey = Inr (Some key) \<and> length key = 16"
  by (simp add: opened_ekey_def fp_result_def fairplay_decrypt_def demo_setup_world_def demo_world_def demo_fp_raop_def demo_ekey_def nth_append Let_def)

lemma demo_setup_items:
  "plist_get_data_val (plist_dict_get_item demo_setup ''ekey'') None = Some demo_ekey"
  "plist_get_data_val (plist_dict_get_item demo_setup ''eiv'') None = None" "plist_dict_get_size demo_setup \<noteq> 0"
  "plist_dict_get_item demo_setup ''streams'' = Some (PArray [PDict [(''type'', PUint 110), (''streamConnectionID'', PUint 77)]])"
  "plist_dict_get_item (Some (PDict [(''type'', PUint 110), (''streamConnectionID'', PUint 77)])) ''type'' = Some (PUint 110)"
  "plist_dict_get_item (Some (PDict [(''type'', PUint 110), (''streamConnectionID'', PUint 77)])) ''streamConnectionID'' = Some (PUint 77)"
  by (simp_all add: demo_setup_def plist_dict_get_item_def plist_get_data_val_def plist_dict_get_size_def)

lemma demo_ekey_length: "length demo_ekey = 72"
  by (simp add: demo_ekey_def)

lemma demo_setup_plist:
  assumes "c_eventPort c \<noteq> 0"
  shows "\<exists>f3. setup_plist demo_setup_world rq (new_frame demo_fp_raop c) = Inr f3"
proof -
  let ?f = "new_frame demo_fp_raop c"
  obtain key where key: "opened_ekey demo_setup_world demo_fp_raop demo_ekey = Inr (Some key)"
    using demo_decrypt by blast
  let ?g = "upd_conn (c_rsa_key_update (\<lambda>_. take 16 key)) ?f"
  have n: "f_raop ?f = demo_fp_raop" "f_conn ?f = c" by (simp_all add: new_frame_def)
  have k: "take_keys demo_setup_world demo_setup ?f = Inr ?g" by (simp add: take_keys_def take_eiv_def take_ekey_def demo_setup_items n key demo_ekey_length)
  let ?ver = "agent_version demo_setup_world rq"
  obtain ctx where s: "stream_keys demo_setup_world ?ver 110 (Some (PUint 77)) ?g = Inr (upd_raop (r_aes_key_ctx_update (\<lambda>_. Some ctx)) ?g)"
    by (auto simp: stream_keys_def uint_of_def plist_get_uint_val_def sha512msg2_def Let_def)
  let ?h = "upd_raop (r_aes_key_ctx_update (\<lambda>_. Some ctx)) ?g"
  have h: "c_eventPort (f_conn ?h) \<noteq> 0" using assms by (simp add: upd_raop_def n)
  have w: "w_from_bin demo_setup_world s = Some demo_setup" for s by (simp add: demo_setup_world_def)
  have items: "array_items (Some (PArray [x])) = [Some x]" for x
    by (simp add: array_items_def plist_array_get_item_def plist_array_get_size_def)
  have e: "setup_streams demo_setup_world ?ver 0 [Some (PDict [(''type'', PUint 110), (''streamConnectionID'', PUint 77)])] (0, ?g) = Inr (110, ?h)"
    using h by (simp add: setup_stream_def demo_setup_items in_turn.simps s open_event_channel_def uint_of_def plist_get_uint_val_def Let_def
        del: upd_conn_simps)
  have "room 1024 ?h" using demo_frame_room(1) [of demo_fp_raop c] by simp
  then have "room (length ''Content-Type'' + length ''application/x-apple-binary-plist'' + 4 + 8) ?h" by (rule room_mono) simp
  from add_header_room [OF this] have "\<exists>f3. setup_reply demo_setup_world ?ver True 110 ?h = Inr f3"
    by (auto simp: setup_reply_def in_turn.simps set_body_def)
  then show ?thesis
    by (auto simp: setup_plist_def w demo_setup_items plist_is_array_def items k e simp del: setup_streams.simps upd_conn_simps)
qed

theorem mirroring_key_agreed_witness:
  "\<exists>f1 f3 key. request_handle_pairverify demo_world demo_hello (new_frame demo_raop demo_conn) = Inr f1 \<and>
    setup_plist demo_setup_world demo_hello (new_frame demo_fp_raop (f_conn f1)) = Inr f3 \<and>
    map_option g_ctr_key (r_aes_key_ctx (f_raop f3)) = Some (fst (client_stream_keys demo_crypto key
      (pc_donna demo_crypto (cl_pri demo_client) (Some (take 32 (bytes_of (f_body f1))))) (agent_version demo_setup_world demo_hello) 77))"
proof -
  obtain f1 where 1: "request_handle_pairverify demo_world demo_hello (new_frame demo_raop demo_conn) = Inr f1"
    using demo_pairverify by blast
  have w: "w_crypto demo_world = demo_crypto" "w_seed demo_world = replicate 32 5" "world_ok demo_world" "w_codec demo_world = copy_codec"
    "w_crypto demo_setup_world = demo_crypto" "w_from_bin demo_setup_world s = Some demo_setup" for s
    using demo_crypto_laws(1,3) by (simp_all add: demo_world_def demo_setup_world_def world_ok_def) (simp_all add: demo_crypto_def)
  have b: "bytes_of (http_request_get_data demo_hello) = client_hello (w_crypto demo_world) demo_client"
    by (simp add: demo_hello_def demo_request_def http_request_get_data_def w)
  have "c_eventPort (f_conn f1) = c_eventPort demo_conn"
    using 1 by (auto simp: request_handle_pairverify_def in_turn.simps set_body_def frame_simps new_frame_def upd_raop_def Let_def
        split: verify_reply.splits prod.splits)
  then obtain f3 where 3: "setup_plist demo_setup_world demo_hello (new_frame demo_fp_raop (f_conn f1)) = Inr f3"
    using demo_setup_plist [of "f_conn f1" demo_hello] by (auto simp: demo_conn_def)
  obtain key where key: "opened_ekey demo_setup_world demo_fp_raop demo_ekey = Inr (Some key)" "length key = 16"
    using demo_decrypt by blast
  have n: "f_raop (new_frame r c) = r" "f_conn (new_frame r c) = c" for r and c :: "nat raop_conn" by (simp_all add: new_frame_def)
  note laws = demo_crypto_laws [folded w(1,2)]
  have m: "length (r_message3 (f_raop (new_frame demo_fp_raop (f_conn f1)))) = 164" by (simp add: n demo_fp_raop_def)
  have r: "12 \<le> length (fst (w_behind demo_setup_world)) \<and> 8 \<le> length (snd (w_behind demo_setup_world))"
    by (simp add: demo_setup_world_def demo_world_def)
  from mirroring_key_agreed [OF laws(1-3,5,4) b 1, unfolded w(1), OF n(2) w(5) w(6) demo_setup_items(1) demo_ekey_length m
      demo_setup_items(4-6)] r key 1 3
  show ?thesis by (simp add: n prod_eq_iff) blast
qed

section \<open>Requests that end the process\<close>

lemma fpsetup_length: "request_handle_fpsetup rq f = Inr f' \<Longrightarrow> length (bytes_of (http_request_get_data rq)) \<in> {16, 164}"
  by (auto simp: request_handle_fpsetup_def logged_def upd_raop_def min_def Let_def split: if_splits option.splits)

lemma pairverify_length: "request_handle_pairverify w rq f = Inr f' \<Longrightarrow> 68 \<le> length (bytes_of (http_request_get_data rq))"
  by (auto simp: request_handle_pairverify_def pair_verify_def Let_def split: if_splits)

lemma setup_plist_given:
  "setup_plist w rq f = Inr f' \<Longrightarrow> \<exists>p. w_from_bin w (http_request_get_data rq) = Some p \<and>
     (plist_dict_get_size p = 0 \<or> (\<forall>iv. plist_get_data_val (plist_dict_get_item p ''eiv'') None = Some iv \<longrightarrow> length iv \<le> 16))"
  by (auto simp: setup_plist_def take_keys_def take_eiv_def Let_def split: option.splits if_splits)

lemma setup_transport_given: "setup_transport w rq f = Inr f' \<Longrightarrow> http_request_get_header rq ''Transport'' 1 \<noteq> None"
  by (cases "http_request_get_header rq ''Transport'' 1") (simp_all add: setup_transport_def)

text \<open>
  C36. What every answered request must have had, since a handler without it ends the process: SETUP a
  Transport header or a property list with a vector of at most 16 bytes, TEARDOWN a readable list,
  SET_PARAMETER its length and type, ANNOUNCE the format line, GET and POST a URL, the second one a pairing
  message of 68 bytes or a FairPlay message of 16 or 164.
\<close>

theorem answered_requests_are_complete:
  assumes "handle_request w rq m uri index f = Inr f'"
  shows "(m = ''SETUP'' \<longrightarrow> (if binary_plist rq
       then \<exists>p. w_from_bin w (http_request_get_data rq) = Some p \<and> (plist_dict_get_size p = 0 \<or>
              (\<forall>iv. plist_get_data_val (plist_dict_get_item p ''eiv'') None = Some iv \<longrightarrow> length iv \<le> 16))
       else http_request_get_header rq ''Transport'' 1 \<noteq> None)) \<and>
    (m = ''TEARDOWN'' \<and> binary_plist rq \<longrightarrow> w_from_bin w (http_request_get_data rq) \<noteq> None) \<and>
    (m = ''SET_PARAMETER'' \<longrightarrow> http_request_get_iheader rq ''Content-Length'' index \<noteq> None \<and>
       http_request_get_iheader rq ''Content-Type'' index \<noteq> None) \<and>
    (m = ''ANNOUNCE'' \<longrightarrow> http_request_get_data rq = [] \<or> sdp_get_fmtp (sdp_init (http_request_get_data rq)) \<noteq> None) \<and>
    (m \<in> {''POST'', ''GET''} \<longrightarrow> uri \<noteq> None) \<and>
    (m = ''POST'' \<and> uri = Some ''/pair-verify'' \<longrightarrow> 68 \<le> length (bytes_of (http_request_get_data rq))) \<and>
    (m = ''POST'' \<and> uri = Some ''/fp-setup'' \<longrightarrow> length (bytes_of (http_request_get_data rq)) \<in> {16, 164})"
proof (intro conjI impI)
  assume "m = ''SETUP''"
  then have s: "request_handle_setup w rq f = Inr f'" using assms by (simp add: handle_request_def)
  show "if binary_plist rq
       then \<exists>p. w_from_bin w (http_request_get_data rq) = Some p \<and> (plist_dict_get_size p = 0 \<or>
              (\<forall>iv. plist_get_data_val (plist_dict_get_item p ''eiv'') None = Some iv \<longrightarrow> length iv \<le> 16))
       else http_request_get_header rq ''Transport'' 1 \<noteq> None"
    using s setup_plist_given [of w rq f f'] setup_transport_given [of w rq f f'] by (auto simp: request_handle_setup_def)
next
  assume "m = ''TEARDOWN'' \<and> binary_plist rq"
  then show "w_from_bin w (http_request_get_data rq) \<noteq> None"
    using assms by (cases "w_from_bin w (http_request_get_data rq)")
      (simp_all add: handle_request_def request_handle_teardown_def teardown_type_def)
next
  assume "m = ''SET_PARAMETER''"
  then have s: "request_handle_setparameter w rq index f = Inr f'" using assms by (simp add: handle_request_def)
  then show "http_request_get_iheader rq ''Content-Length'' index \<noteq> None" "http_request_get_iheader rq ''Content-Type'' index \<noteq> None"
    by (auto simp: request_handle_setparameter_def content_length_def Let_def split: option.splits)
next
  assume "m = ''ANNOUNCE''"
  then have "request_handle_announce w rq f = Inr f'" using assms by (simp add: handle_request_def)
  then show "http_request_get_data rq = [] \<or> sdp_get_fmtp (sdp_init (http_request_get_data rq)) \<noteq> None"
    by (auto simp: request_handle_announce_def Let_def split: if_splits option.splits)
next
  assume "m \<in> {''POST'', ''GET''}"
  then show "uri \<noteq> None" using assms by (cases uri) (auto simp: handle_request_def with_uri_def)
next
  assume "m = ''POST'' \<and> uri = Some ''/pair-verify''"
  then show "68 \<le> length (bytes_of (http_request_get_data rq))"
    using assms by (auto simp: handle_request_def with_uri_def dest: pairverify_length)
next
  assume "m = ''POST'' \<and> uri = Some ''/fp-setup''"
  then have "request_handle_fpsetup rq f = Inr f'" using assms by (simp add: handle_request_def with_uri_def)
  then show "length (bytes_of (http_request_get_data rq)) \<in> {16, 164}" by (rule fpsetup_length)
qed

theorem answered_requests_are_complete_witness:
  "handle_request demo_world (demo_request ''POST'' ''/fp-setup'' [] ''FPLY'') ''POST'' (Some ''/fp-setup'') 1 (new_frame demo_raop demo_conn) = Inl OutOfBounds
   \<and> (\<forall>f'. handle_request demo_world (demo_request ''POST'' ''/pair-verify'' [] []) ''POST'' (Some ''/pair-verify'') 1 (new_frame demo_raop demo_conn) \<noteq> Inr f')"
proof
  show "handle_request demo_world (demo_request ''POST'' ''/fp-setup'' [] ''FPLY'') ''POST'' (Some ''/fp-setup'') 1 (new_frame demo_raop demo_conn) = Inl OutOfBounds"
    by (simp add: handle_request_def with_uri_def request_handle_fpsetup_def demo_request_def http_request_get_data_def bytes_of_def
        fairplay_setup_def fp_result_def)
  show "\<forall>f'. handle_request demo_world (demo_request ''POST'' ''/pair-verify'' [] []) ''POST'' (Some ''/pair-verify'') 1 (new_frame demo_raop demo_conn) \<noteq> Inr f'"
    using answered_requests_are_complete
      [of demo_world "demo_request ''POST'' ''/pair-verify'' [] []" "''POST''" "Some ''/pair-verify''" 1 "new_frame demo_raop demo_conn"]
    by (auto simp: demo_request_def http_request_get_data_def bytes_of_def)
qed

end
