(* ===== verification/Rc4.thy ===== *)
theory Rc4
  imports Airplay_Prelude
begin

text \<open>
  The stream cipher of \<open>libairplay/crypt/rc4.c\<close>: the key schedule and the in-place encryption, with the
  table \<open>m\<close> as a list of 256 bytes. An empty key makes the schedule read past it, the result \<open>None\<close>.
\<close>

unbundle bit_operations_syntax

record rc4_ctx =
  r_x :: byte
  r_y :: byte
  r_m :: "byte list"

section \<open>Operations\<close>

definition rc4_setup_step :: "byte list \<Rightarrow> nat \<Rightarrow> byte list \<times> byte \<times> nat \<Rightarrow> byte list \<times> byte \<times> nat" where
  \<comment> \<open>the body of the second loop on \<open>(m, j, k)\<close>\<close>
  "rc4_setup_step key i s =
     (case s of (m, j, k) \<Rightarrow>
        let a = m ! i; j = j + a + key ! k; m = m[i := m ! unat j]; m = m[unat j := a];
            k = (if k + 1 \<ge> length key then 0 else k + 1)
        in (m, j, k))"

definition RC4_setup :: "byte list \<Rightarrow> rc4_ctx option" where
  "RC4_setup key =
     (if key = [] then None
      else case fold (rc4_setup_step key) [0..<256] (map of_nat [0..<256], 0, 0) of
        (m, _, _) \<Rightarrow> Some \<lparr>r_x = 0, r_y = 0, r_m = m\<rparr>)"

definition rc4_next :: "rc4_ctx \<Rightarrow> rc4_ctx \<times> byte" where
  \<comment> \<open>the body of the loop of \<open>RC4_crypt\<close>, with the byte that is combined with the data\<close>
  "rc4_next ctx =
     (let x = r_x ctx + 1; a = r_m ctx ! unat x; y = r_y ctx + a; b = r_m ctx ! unat y;
          m = (r_m ctx)[unat x := b]; m = m[unat y := a]
      in (\<lparr>r_x = x, r_y = y, r_m = m\<rparr>, m ! unat (a + b)))"

fun RC4_crypt :: "rc4_ctx \<Rightarrow> byte list \<Rightarrow> byte list \<times> rc4_ctx" where
  "RC4_crypt ctx [] = ([], ctx)"
| "RC4_crypt ctx (c # cs) =
     (let (ctx, k) = rc4_next ctx; (out, ctx) = RC4_crypt ctx cs in ((c XOR k) # out, ctx))"

lemma RC4_setup_total: "key \<noteq> [] \<Longrightarrow> \<exists>ctx. RC4_setup key = Some ctx"
  by (simp only: RC4_setup_def if_False split: prod.split) simp

section \<open>The table stays a permutation\<close>

definition rc4_perm :: "byte list \<Rightarrow> bool" where
  "rc4_perm m \<longleftrightarrow> length m = 256 \<and> distinct m"

lemma rc4_perm_swap:
  assumes "rc4_perm m" "i < 256" "j < 256"
  shows "rc4_perm (m[i := m ! j, j := m ! i])"
  using assms by (simp add: rc4_perm_def distinct_swap)

lemma rc4_perm_bytes: "rc4_perm m \<Longrightarrow> set m = (UNIV :: byte set)"
proof (rule card_subset_eq)
  assume "rc4_perm m"
  then show "card (set m) = card (UNIV :: byte set)"
    by (simp add: rc4_perm_def distinct_card card_word)
qed simp_all

lemma rc4_setup_keeps:
  assumes "rc4_perm m" "\<forall>i\<in>set is. i < 256" "fold (rc4_setup_step key) is (m, j, k) = (m', j', k')"
  shows "rc4_perm m'"
  using assms
proof (induction "is" arbitrary: m j k)
  case (Cons i "is")
  let ?j = "j + m ! i + key ! k"
  have "rc4_setup_step key i (m, j, k) = (m[i := m ! unat ?j, unat ?j := m ! i], ?j, if k + 1 \<ge> length key then 0 else k + 1)"
    by (simp add: rc4_setup_step_def Let_def)
  moreover have "rc4_perm (m[i := m ! unat ?j, unat ?j := m ! i])"
    by (rule rc4_perm_swap) (use Cons.prems in simp_all)
  ultimately show ?case
    using Cons.IH [of _ ?j "if k + 1 \<ge> length key then 0 else k + 1"] Cons.prems(2,3) by simp
qed simp

lemma rc4_perm_setup:
  assumes "RC4_setup key = Some ctx"
  shows "rc4_perm (r_m ctx)"
proof -
  obtain m j k where f: "fold (rc4_setup_step key) [0..<256] (map of_nat [0..<256], 0, 0) = (m, j, k)"
    by (rule prod_cases3)
  have "inj_on (of_nat :: nat \<Rightarrow> byte) {0..<256}"
    by (auto simp: inj_on_def word_unat_eq_iff unsigned_of_nat take_bit_eq_mod)
  then have "rc4_perm (map of_nat [0..<256])"
    unfolding rc4_perm_def distinct_map length_map by (simp only: length_upt distinct_upt set_upt) simp
  moreover have "\<forall>i\<in>set [0..<256 :: nat]. i < 256" by (simp only: set_upt) simp
  ultimately have "rc4_perm m" using rc4_setup_keeps f by blast
  moreover have "ctx = \<lparr>r_x = 0, r_y = 0, r_m = m\<rparr>"
    using assms by (simp only: RC4_setup_def f prod.case split: if_splits)
      (simp_all only: option.distinct option.inject)
  ultimately show ?thesis by simp
qed

lemma rc4_perm_next: "rc4_perm (r_m ctx) \<Longrightarrow> rc4_perm (r_m (fst (rc4_next ctx)))"
  using rc4_perm_swap [of "r_m ctx"] by (simp add: rc4_next_def Let_def)

lemma rc4_perm_crypt: "rc4_perm (r_m ctx) \<Longrightarrow> rc4_perm (r_m (snd (RC4_crypt ctx msg)))"
  by (induction msg arbitrary: ctx) (simp_all add: Let_def case_prod_beta rc4_perm_next)

section \<open>Encryption\<close>

lemma RC4_crypt_append:
  "RC4_crypt ctx (a @ b) = (fst (RC4_crypt ctx a) @ fst (RC4_crypt (snd (RC4_crypt ctx a)) b),
     snd (RC4_crypt (snd (RC4_crypt ctx a)) b))"
  by (induction a arbitrary: ctx) (simp_all add: Let_def case_prod_beta)

lemma RC4_crypt_twice:
  "RC4_crypt ctx (fst (RC4_crypt ctx msg)) = (msg, snd (RC4_crypt ctx msg))"
  by (induction msg arbitrary: ctx) (simp_all add: Let_def case_prod_beta xor.assoc)

fun rc4_pieces :: "rc4_ctx \<Rightarrow> byte list list \<Rightarrow> byte list" where
  \<comment> \<open>successive calls on one context\<close>
  "rc4_pieces ctx [] = []"
| "rc4_pieces ctx (p # ps) = (let (out, ctx) = RC4_crypt ctx p in out @ rc4_pieces ctx ps)"

lemma rc4_pieces_concat: "rc4_pieces ctx ps = fst (RC4_crypt ctx (concat ps))"
  by (induction ps arbitrary: ctx) (simp_all add: Let_def case_prod_beta RC4_crypt_append)

section \<open>Properties\<close>

text \<open>
  After the key schedule of any non-empty key the table is a permutation of the 256 bytes and stays one
  under encryption, so every index stays inside it; a message encrypted in any pieces and decrypted in any
  other pieces by a second context with the same key comes back.
\<close>

theorem rc4_roundtrip:
  assumes "RC4_setup key = Some ctx" "concat sent = msg" "concat received = rc4_pieces ctx sent"
  shows "rc4_pieces ctx received = msg \<and> rc4_perm (r_m (snd (RC4_crypt ctx msg))) \<and>
    set (r_m (snd (RC4_crypt ctx msg))) = UNIV"
  using assms RC4_crypt_twice [of ctx msg] rc4_perm_crypt [OF rc4_perm_setup [OF assms(1)], of msg]
  by (simp add: rc4_pieces_concat rc4_perm_bytes)

theorem rc4_roundtrip_witness:
  "\<exists>ctx c. RC4_setup [1, 2] = Some ctx \<and> fst (RC4_crypt ctx [5, 6, 7]) = c \<and> rc4_pieces ctx [take 1 c, drop 1 c] = [5, 6, 7]"
proof -
  obtain ctx where ctx: "RC4_setup [1, 2] = Some ctx" using RC4_setup_total [of "[1, 2]"] by blast
  have "rc4_pieces ctx [[5, 6], [7]] = fst (RC4_crypt ctx [5, 6, 7])" by (simp add: rc4_pieces_concat)
  then show ?thesis
    using rc4_roundtrip [OF ctx, of "[[5, 6], [7]]" "[5, 6, 7]"
      "[take 1 (fst (RC4_crypt ctx [5, 6, 7])), drop 1 (fst (RC4_crypt ctx [5, 6, 7]))]"] ctx by simp
qed

end
