(* ===== verification/Aes.thy ===== *)
theory Aes
  imports Airplay_Prelude
begin

text \<open>
  The block cipher of \<open>libairplay/crypt/aes.c\<close>: the key schedule for 128 and 256 bits, its conversion for
  decryption by the four-bytes-at-once \<open>mul2\<close>, the encryption and decryption of a block of four words,
  and cipher block chaining. The values the code calls \<open>a0\<close> to \<open>a3\<close> and \<open>xt0\<close> to \<open>xt6\<close> are bytes in 32-bit
  variables and are bytes here. What is proved: decryption inverts encryption for every key and block, by
  the linearity of the column mixing, and with it whole chained messages come back.
\<close>

unbundle bit_operations_syntax

section \<open>Tables\<close>

definition aes_sbox :: "byte list" where
  "aes_sbox = [
    0x63, 0x7c, 0x77, 0x7b, 0xf2, 0x6b, 0x6f, 0xc5, 0x30, 0x01, 0x67, 0x2b, 0xfe, 0xd7, 0xab, 0x76,
    0xca, 0x82, 0xc9, 0x7d, 0xfa, 0x59, 0x47, 0xf0, 0xad, 0xd4, 0xa2, 0xaf, 0x9c, 0xa4, 0x72, 0xc0,
    0xb7, 0xfd, 0x93, 0x26, 0x36, 0x3f, 0xf7, 0xcc, 0x34, 0xa5, 0xe5, 0xf1, 0x71, 0xd8, 0x31, 0x15,
    0x04, 0xc7, 0x23, 0xc3, 0x18, 0x96, 0x05, 0x9a, 0x07, 0x12, 0x80, 0xe2, 0xeb, 0x27, 0xb2, 0x75,
    0x09, 0x83, 0x2c, 0x1a, 0x1b, 0x6e, 0x5a, 0xa0, 0x52, 0x3b, 0xd6, 0xb3, 0x29, 0xe3, 0x2f, 0x84,
    0x53, 0xd1, 0x00, 0xed, 0x20, 0xfc, 0xb1, 0x5b, 0x6a, 0xcb, 0xbe, 0x39, 0x4a, 0x4c, 0x58, 0xcf,
    0xd0, 0xef, 0xaa, 0xfb, 0x43, 0x4d, 0x33, 0x85, 0x45, 0xf9, 0x02, 0x7f, 0x50, 0x3c, 0x9f, 0xa8,
    0x51, 0xa3, 0x40, 0x8f, 0x92, 0x9d, 0x38, 0xf5, 0xbc, 0xb6, 0xda, 0x21, 0x10, 0xff, 0xf3, 0xd2,
    0xcd, 0x0c, 0x13, 0xec, 0x5f, 0x97, 0x44, 0x17, 0xc4, 0xa7, 0x7e, 0x3d, 0x64, 0x5d, 0x19, 0x73,
    0x60, 0x81, 0x4f, 0xdc, 0x22, 0x2a, 0x90, 0x88, 0x46, 0xee, 0xb8, 0x14, 0xde, 0x5e, 0x0b, 0xdb,
    0xe0, 0x32, 0x3a, 0x0a, 0x49, 0x06, 0x24, 0x5c, 0xc2, 0xd3, 0xac, 0x62, 0x91, 0x95, 0xe4, 0x79,
    0xe7, 0xc8, 0x37, 0x6d, 0x8d, 0xd5, 0x4e, 0xa9, 0x6c, 0x56, 0xf4, 0xea, 0x65, 0x7a, 0xae, 0x08,
    0xba, 0x78, 0x25, 0x2e, 0x1c, 0xa6, 0xb4, 0xc6, 0xe8, 0xdd, 0x74, 0x1f, 0x4b, 0xbd, 0x8b, 0x8a,
    0x70, 0x3e, 0xb5, 0x66, 0x48, 0x03, 0xf6, 0x0e, 0x61, 0x35, 0x57, 0xb9, 0x86, 0xc1, 0x1d, 0x9e,
    0xe1, 0xf8, 0x98, 0x11, 0x69, 0xd9, 0x8e, 0x94, 0x9b, 0x1e, 0x87, 0xe9, 0xce, 0x55, 0x28, 0xdf,
    0x8c, 0xa1, 0x89, 0x0d, 0xbf, 0xe6, 0x42, 0x68, 0x41, 0x99, 0x2d, 0x0f, 0xb0, 0x54, 0xbb, 0x16]"

definition aes_isbox :: "byte list" where
  "aes_isbox = [
    0x52, 0x09, 0x6a, 0xd5, 0x30, 0x36, 0xa5, 0x38, 0xbf, 0x40, 0xa3, 0x9e, 0x81, 0xf3, 0xd7, 0xfb,
    0x7c, 0xe3, 0x39, 0x82, 0x9b, 0x2f, 0xff, 0x87, 0x34, 0x8e, 0x43, 0x44, 0xc4, 0xde, 0xe9, 0xcb,
    0x54, 0x7b, 0x94, 0x32, 0xa6, 0xc2, 0x23, 0x3d, 0xee, 0x4c, 0x95, 0x0b, 0x42, 0xfa, 0xc3, 0x4e,
    0x08, 0x2e, 0xa1, 0x66, 0x28, 0xd9, 0x24, 0xb2, 0x76, 0x5b, 0xa2, 0x49, 0x6d, 0x8b, 0xd1, 0x25,
    0x72, 0xf8, 0xf6, 0x64, 0x86, 0x68, 0x98, 0x16, 0xd4, 0xa4, 0x5c, 0xcc, 0x5d, 0x65, 0xb6, 0x92,
    0x6c, 0x70, 0x48, 0x50, 0xfd, 0xed, 0xb9, 0xda, 0x5e, 0x15, 0x46, 0x57, 0xa7, 0x8d, 0x9d, 0x84,
    0x90, 0xd8, 0xab, 0x00, 0x8c, 0xbc, 0xd3, 0x0a, 0xf7, 0xe4, 0x58, 0x05, 0xb8, 0xb3, 0x45, 0x06,
    0xd0, 0x2c, 0x1e, 0x8f, 0xca, 0x3f, 0x0f, 0x02, 0xc1, 0xaf, 0xbd, 0x03, 0x01, 0x13, 0x8a, 0x6b,
    0x3a, 0x91, 0x11, 0x41, 0x4f, 0x67, 0xdc, 0xea, 0x97, 0xf2, 0xcf, 0xce, 0xf0, 0xb4, 0xe6, 0x73,
    0x96, 0xac, 0x74, 0x22, 0xe7, 0xad, 0x35, 0x85, 0xe2, 0xf9, 0x37, 0xe8, 0x1c, 0x75, 0xdf, 0x6e,
    0x47, 0xf1, 0x1a, 0x71, 0x1d, 0x29, 0xc5, 0x89, 0x6f, 0xb7, 0x62, 0x0e, 0xaa, 0x18, 0xbe, 0x1b,
    0xfc, 0x56, 0x3e, 0x4b, 0xc6, 0xd2, 0x79, 0x20, 0x9a, 0xdb, 0xc0, 0xfe, 0x78, 0xcd, 0x5a, 0xf4,
    0x1f, 0xdd, 0xa8, 0x33, 0x88, 0x07, 0xc7, 0x31, 0xb1, 0x12, 0x10, 0x59, 0x27, 0x80, 0xec, 0x5f,
    0x60, 0x51, 0x7f, 0xa9, 0x19, 0xb5, 0x4a, 0x0d, 0x2d, 0xe5, 0x7a, 0x9f, 0x93, 0xc9, 0x9c, 0xef,
    0xa0, 0xe0, 0x3b, 0x4d, 0xae, 0x2a, 0xf5, 0xb0, 0xc8, 0xeb, 0xbb, 0x3c, 0x83, 0x53, 0x99, 0x61,
    0x17, 0x2b, 0x04, 0x7e, 0xba, 0x77, 0xd6, 0x26, 0xe1, 0x69, 0x14, 0x63, 0x55, 0x21, 0x0c, 0x7d]"

definition Rcon :: "byte list" where
  "Rcon = [
    0x01, 0x02, 0x04, 0x08, 0x10, 0x20, 0x40, 0x80, 0x1b, 0x36, 0x6c, 0xd8, 0xab, 0x4d, 0x9a, 0x2f,
    0x5e, 0xbc, 0x63, 0xc6, 0x97, 0x35, 0x6a, 0xd4, 0xb3, 0x7d, 0xfa, 0xef, 0xc5, 0x91]"

section \<open>Key schedule\<close>

datatype aes_mode = AES_MODE_128 | AES_MODE_256

record aes_ctx =
  a_rounds :: nat
  a_ks :: "u32 list"
  a_iv :: "byte list"

definition byte_at :: "nat \<Rightarrow> u32 \<Rightarrow> byte" where
  \<comment> \<open>\<open>(w >> n) & 0xFF\<close>\<close>
  "byte_at n w = ucast (drop_bit n w)"

definition sbox :: "byte \<Rightarrow> byte" where "sbox b = aes_sbox ! unat b"

definition isbox :: "byte \<Rightarrow> byte" where "isbox b = aes_isbox ! unat b"

fun key_words :: "byte list \<Rightarrow> u32 list" where
  "key_words (p # q # r # s # rest) = be32 p q r s # key_words rest"
| "key_words _ = []"

definition schedule_step :: "nat \<Rightarrow> nat \<Rightarrow> u32 list \<Rightarrow> u32 list" where
  \<comment> \<open>the body of the loop; \<open>ip\<close> has advanced once per earlier multiple of \<open>words\<close>\<close>
  "schedule_step words i W =
     (let tmp = W ! (i - 1);
          tmp = (if i mod words = 0
                 then be32 (sbox (byte_at 16 tmp)) (sbox (byte_at 8 tmp)) (sbox (byte_at 0 tmp)) (sbox (byte_at 24 tmp))
                      XOR push_bit 24 (ucast (Rcon ! (i div words - 1)))
                 else tmp);
          tmp = (if words = 8 \<and> i mod words = 4
                 then be32 (sbox (byte_at 24 tmp)) (sbox (byte_at 16 tmp)) (sbox (byte_at 8 tmp)) (sbox (byte_at 0 tmp))
                 else tmp)
      in W @ [W ! (i - words) XOR tmp])"

definition AES_set_key :: "byte list \<Rightarrow> byte list \<Rightarrow> aes_mode \<Rightarrow> aes_ctx" where
  "AES_set_key key iv mode =
     (let (rounds, words) = (case mode of AES_MODE_128 \<Rightarrow> (10, 4) | AES_MODE_256 \<Rightarrow> (14, 8))
      in \<lparr>a_rounds = rounds,
          a_ks = fold (schedule_step words) [words..<4 * (rounds + 1)] (key_words (take (4 * words) key)),
          a_iv = take 16 iv\<rparr>)"

definition mul2 :: "u32 \<Rightarrow> u32" where
  "mul2 x = (let t = x AND 0x80808080 in ((x + x) AND 0xfefefefe) XOR ((t - drop_bit 7 t) AND 0x1b1b1b1b))"

definition rot1 :: "u32 \<Rightarrow> u32" where "rot1 x = push_bit 24 x OR drop_bit 8 x"
definition rot2 :: "u32 \<Rightarrow> u32" where "rot2 x = push_bit 16 x OR drop_bit 16 x"
definition rot3 :: "u32 \<Rightarrow> u32" where "rot3 x = push_bit 8 x OR drop_bit 24 x"

definition inv_mix_col :: "u32 \<Rightarrow> u32" where
  "inv_mix_col x =
     (let f2 = mul2 x; f4 = mul2 f2; f8 = mul2 f4; f9 = x XOR f8; f8 = f2 XOR f4 XOR f8;
          f2 = f2 XOR f9; f4 = f4 XOR f9; f8 = f8 XOR rot3 f2; f8 = f8 XOR rot2 f4
      in f8 XOR rot1 f9)"

definition AES_convert_key :: "aes_ctx \<Rightarrow> aes_ctx" where
  \<comment> \<open>the words of all rounds but the first and the last\<close>
  "AES_convert_key ctx =
     (let n = 4 * a_rounds ctx - 4; ks = a_ks ctx
      in ctx\<lparr>a_ks := take 4 ks @ map inv_mix_col (take n (drop 4 ks)) @ drop (4 + n) ks\<rparr>)"

section \<open>One block\<close>

definition AES_xtime :: "byte \<Rightarrow> byte" where
  "AES_xtime x = (if bit x 7 then push_bit 1 x XOR 0x1b else push_bit 1 x)"

definition mix_column :: "byte \<Rightarrow> byte \<Rightarrow> byte \<Rightarrow> byte \<Rightarrow> u32" where
  "mix_column a0 a1 a2 a3 =
     (let tmp1 = a0 XOR a1 XOR a2 XOR a3; old_a0 = a0;
          a0 = a0 XOR tmp1 XOR AES_xtime (a0 XOR a1);
          a1 = a1 XOR tmp1 XOR AES_xtime (a1 XOR a2);
          a2 = a2 XOR tmp1 XOR AES_xtime (a2 XOR a3);
          a3 = a3 XOR tmp1 XOR AES_xtime (a3 XOR old_a0)
      in be32 a0 a1 a2 a3)"

definition encrypt_row :: "bool \<Rightarrow> u32 list \<Rightarrow> nat \<Rightarrow> u32" where
  "encrypt_row mix data row =
     (let a0 = sbox (byte_at 24 (data ! (row mod 4)));
          a1 = sbox (byte_at 16 (data ! ((row + 1) mod 4)));
          a2 = sbox (byte_at 8 (data ! ((row + 2) mod 4)));
          a3 = sbox (byte_at 0 (data ! ((row + 3) mod 4)))
      in if mix then mix_column a0 a1 a2 a3 else be32 a0 a1 a2 a3)"

definition add_key :: "u32 list \<Rightarrow> u32 list \<Rightarrow> nat \<Rightarrow> u32 list" where
  \<comment> \<open>the four words of a block combined with the four words of round key \<open>r\<close>\<close>
  "add_key data ks r = map (\<lambda>row. data ! row XOR ks ! (4 * r + row)) [0..<4]"

definition encrypt_round :: "nat \<Rightarrow> u32 list \<Rightarrow> nat \<Rightarrow> u32 list \<Rightarrow> u32 list" where
  "encrypt_round rounds ks curr_rnd data =
     add_key (map (encrypt_row (curr_rnd < rounds - 1) data) [0..<4]) ks (curr_rnd + 1)"

definition AES_encrypt :: "aes_ctx \<Rightarrow> u32 list \<Rightarrow> u32 list" where
  "AES_encrypt ctx data =
     fold (encrypt_round (a_rounds ctx) (a_ks ctx)) [0..<a_rounds ctx] (add_key data (a_ks ctx) 0)"

definition unmix_column :: "byte \<Rightarrow> byte \<Rightarrow> byte \<Rightarrow> byte \<Rightarrow> u32" where
  "unmix_column a0 a1 a2 a3 =
     (let xt0 = AES_xtime (a0 XOR a1); xt1 = AES_xtime (a1 XOR a2); xt2 = AES_xtime (a2 XOR a3);
          xt3 = AES_xtime (a3 XOR a0); xt4 = AES_xtime (xt0 XOR xt1); xt5 = AES_xtime (xt1 XOR xt2);
          xt6 = AES_xtime (xt4 XOR xt5);
          xt0 = xt0 XOR a1 XOR a2 XOR a3 XOR xt4 XOR xt6;
          xt1 = xt1 XOR a0 XOR a2 XOR a3 XOR xt5 XOR xt6;
          xt2 = xt2 XOR a0 XOR a1 XOR a3 XOR xt4 XOR xt6;
          xt3 = xt3 XOR a0 XOR a1 XOR a2 XOR xt5 XOR xt6
      in be32 xt0 xt1 xt2 xt3)"

definition decrypt_row :: "bool \<Rightarrow> u32 list \<Rightarrow> nat \<Rightarrow> u32" where
  \<comment> \<open>\<open>row\<close> counts from 1, as in the source\<close>
  "decrypt_row mix data row =
     (let a0 = isbox (byte_at 24 (data ! ((row + 3) mod 4)));
          a1 = isbox (byte_at 16 (data ! ((row + 2) mod 4)));
          a2 = isbox (byte_at 8 (data ! ((row + 1) mod 4)));
          a3 = isbox (byte_at 0 (data ! (row mod 4)))
      in if mix then unmix_column a0 a1 a2 a3 else be32 a0 a1 a2 a3)"

definition decrypt_round :: "nat \<Rightarrow> u32 list \<Rightarrow> nat \<Rightarrow> u32 list \<Rightarrow> u32 list" where
  "decrypt_round rounds ks curr_rnd data =
     add_key (map (\<lambda>row. decrypt_row (curr_rnd < rounds - 1) data (row + 1)) [0..<4]) ks (rounds - 1 - curr_rnd)"

definition AES_decrypt :: "aes_ctx \<Rightarrow> u32 list \<Rightarrow> u32 list" where
  "AES_decrypt ctx data =
     fold (decrypt_round (a_rounds ctx) (a_ks ctx)) [0..<a_rounds ctx] (add_key data (a_ks ctx) (a_rounds ctx))"

section \<open>Cipher block chaining\<close>

definition word_bytes :: "u32 list \<Rightarrow> byte list" where
  \<comment> \<open>\<open>htonl\<close> of each word, copied out\<close>
  "word_bytes ws = concat (map (\<lambda>w. [byte_at 24 w, byte_at 16 w, byte_at 8 w, byte_at 0 w]) ws)"

definition xor_words :: "u32 list \<Rightarrow> u32 list \<Rightarrow> u32 list" where
  "xor_words v w = map2 (\<lambda>a b. a XOR b) v w"

function cbc_encrypt_loop :: "(u32 list \<Rightarrow> u32 list) \<Rightarrow> u32 list \<Rightarrow> byte list \<Rightarrow> byte list \<times> u32 list" where
  \<comment> \<open>the loop of \<open>AES_cbc_encrypt\<close>: the bytes written to \<open>out\<close> and the last \<open>tout\<close>\<close>
  "cbc_encrypt_loop f tout msg =
     (if length msg < 16 then ([], tout)
      else let tin = xor_words (key_words (take 16 msg)) tout; tout = f tin;
               (out, t) = cbc_encrypt_loop f tout (drop 16 msg)
           in (word_bytes tout @ out, t))"
  by pat_completeness auto
termination by (relation "measure (\<lambda>(f, t, msg). length msg)") auto

function cbc_decrypt_loop :: "(u32 list \<Rightarrow> u32 list) \<Rightarrow> u32 list \<Rightarrow> byte list \<Rightarrow> byte list \<times> u32 list" where
  "cbc_decrypt_loop f x msg =
     (if length msg < 16 then ([], x)
      else let tin = key_words (take 16 msg); tout = xor_words (f tin) x;
               (out, t) = cbc_decrypt_loop f tin (drop 16 msg)
           in (word_bytes tout @ out, t))"
  by pat_completeness auto
termination by (relation "measure (\<lambda>(f, x, msg). length msg)") auto

declare cbc_encrypt_loop.simps [simp del] cbc_decrypt_loop.simps [simp del]

definition AES_cbc_encrypt :: "aes_ctx \<Rightarrow> byte list \<Rightarrow> byte list \<times> aes_ctx" where
  "AES_cbc_encrypt ctx msg =
     (let (out, tout) = cbc_encrypt_loop (AES_encrypt ctx) (key_words (a_iv ctx)) msg
      in (out, ctx\<lparr>a_iv := word_bytes tout\<rparr>))"

definition AES_cbc_decrypt :: "aes_ctx \<Rightarrow> byte list \<Rightarrow> byte list \<times> aes_ctx" where
  "AES_cbc_decrypt ctx msg =
     (let (out, x) = cbc_decrypt_loop (AES_decrypt ctx) (key_words (a_iv ctx)) msg
      in (out, ctx\<lparr>a_iv := word_bytes x\<rparr>))"

section \<open>Words and bytes\<close>

lemma be32_byte_at [simp]:
  "byte_at 24 (be32 a b c d) = a" "byte_at 16 (be32 a b c d) = b"
  "byte_at 8 (be32 a b c d) = c" "byte_at 0 (be32 a b c d) = d"
  by (rule bit_word_eqI; auto simp: byte_at_def be32_def bit_simps)+

lemma bit_be32: "bit (be32 a b c d) n \<longleftrightarrow>
    (if n < 8 then bit d n else if n < 16 then bit c (n - 8) else if n < 24 then bit b (n - 16) else n < 32 \<and> bit a (n - 24))"
  by (auto simp: be32_def bit_simps)

lemma bit_byte_at: "bit (byte_at k w) n \<longleftrightarrow> n < 8 \<and> bit w (k + n)"
  by (simp add: byte_at_def bit_simps)

lemma be32_of_bytes [simp]: "be32 (byte_at 24 w) (byte_at 16 w) (byte_at 8 w) (byte_at 0 w) = w"
  by (rule u32_eqI) (simp add: bit_be32 bit_byte_at numeral_2_eq_2)

lemma be32_xor: "be32 a b c d XOR be32 e f g h = be32 (a XOR e) (b XOR f) (c XOR g) (d XOR h)"
  by (rule bit_word_eqI) (auto simp: be32_def bit_simps)

lemma rot_be32:
  "rot1 (be32 a b c d) = be32 d a b c" "rot2 (be32 a b c d) = be32 c d a b" "rot3 (be32 a b c d) = be32 b c d a"
  by (rule u32_eqI, simp add: rot1_def rot2_def rot3_def bit_be32 bit_simps numeral_2_eq_2)+

lemma word_cases:
  obtains a b c d where "w = be32 a b c d"
  using be32_of_bytes [of w] by metis

section \<open>Substitution\<close>

lemma isbox_table: "map (\<lambda>b. aes_isbox ! unat b) aes_sbox = map of_nat [0..<256]"
  by code_simp

lemma isbox_sbox [simp]: "isbox (sbox b) = b"
proof -
  have "length aes_sbox = 256" by code_simp
  then have "map (\<lambda>b. aes_isbox ! unat b) aes_sbox ! unat b = aes_isbox ! unat (aes_sbox ! unat b)"
    using unat_byte_lt [of b] by (simp only: nth_map)
  moreover have "map of_nat [0..<256] ! unat b = b"
    using unat_byte_lt [of b] by (simp only: nth_map_upt) simp
  ultimately show ?thesis unfolding isbox_def sbox_def isbox_table by simp
qed

section \<open>Mixing columns\<close>

lemma AES_xtime_xor: "AES_xtime (x XOR y) = AES_xtime x XOR AES_xtime y"
  by (rule byte_eqI) (auto simp: AES_xtime_def bit_simps)

definition unmix_word :: "u32 \<Rightarrow> u32" where
  "unmix_word w = unmix_column (byte_at 24 w) (byte_at 16 w) (byte_at 8 w) (byte_at 0 w)"

lemma xor_twice [simp]: "x XOR (x XOR y) = (y :: byte)"
  by (simp add: xor.assoc [symmetric])

lemmas byte_xor_ac = xor.assoc xor.commute [where 'a = byte] xor.left_commute [where 'a = byte]

lemma unmix_mix: "unmix_word (mix_column a b c d) = be32 a b c d"
  by (simp add: unmix_word_def mix_column_def unmix_column_def Let_def AES_xtime_xor byte_xor_ac)

lemma unmix_word_xor: "unmix_word (v XOR w) = unmix_word v XOR unmix_word w"
proof -
  obtain a b c d e f g h where "v = be32 a b c d" "w = be32 e f g h" by (metis word_cases)
  then show ?thesis
    by (simp add: unmix_word_def unmix_column_def Let_def be32_xor AES_xtime_xor byte_xor_ac)
qed

lemma bit_double: "bit (a * 2 :: byte) n \<longleftrightarrow> n < 8 \<and> 0 < n \<and> bit a (n - 1)"
  by (subst mult.commute) (auto simp: bit_double_iff)

lemma mul2_be32: "mul2 (be32 a b c d) = be32 (AES_xtime a) (AES_xtime b) (AES_xtime c) (AES_xtime d)"
proof -
  let ?x = "be32 a b c d"
  have t: "?x AND 0x80808080 = be32 (if bit a 7 then 0x80 else 0) (if bit b 7 then 0x80 else 0)
      (if bit c 7 then 0x80 else 0) (if bit d 7 then 0x80 else 0)"
    by (rule u32_eqI) (simp add: bit_be32 bit_simps numeral_2_eq_2)
  have m: "(let t = ?x AND 0x80808080 in (t - drop_bit 7 t) AND 0x1b1b1b1b)
      = be32 (if bit a 7 then 0x1b else 0) (if bit b 7 then 0x1b else 0) (if bit c 7 then 0x1b else 0)
          (if bit d 7 then 0x1b else 0)"
    unfolding t by (simp add: be32_def)
  have "?x + ?x = push_bit 1 ?x" by (simp add: push_bit_eq_mult)
  then have s: "(?x + ?x) AND 0xfefefefe = be32 (push_bit 1 a) (push_bit 1 b) (push_bit 1 c) (push_bit 1 d)"
    by (intro u32_eqI) (simp add: bit_be32 bit_simps bit_double numeral_2_eq_2)
  show ?thesis
    using m unfolding mul2_def Let_def s by (simp add: be32_xor AES_xtime_def if_distrib)
qed

lemma inv_mix_col_unmix: "inv_mix_col w = unmix_word w"
proof -
  obtain a b c d where "w = be32 a b c d" by (rule word_cases)
  then show ?thesis
    by (simp add: inv_mix_col_def unmix_word_def unmix_column_def Let_def mul2_be32 be32_xor rot_be32 AES_xtime_xor byte_xor_ac)
qed

section \<open>One block comes back\<close>

definition mix_word :: "u32 \<Rightarrow> u32" where
  "mix_word w = mix_column (byte_at 24 w) (byte_at 16 w) (byte_at 8 w) (byte_at 0 w)"

definition sub_shift :: "u32 list \<Rightarrow> u32 list" where
  "sub_shift data = map (encrypt_row False data) [0..<4]"

lemma unmix_mix_word [simp]: "unmix_word (mix_word w) = w"
  by (simp add: mix_word_def unmix_mix)

lemma encrypt_row_mix: "encrypt_row True data = (\<lambda>row. mix_word (encrypt_row False data row))"
  by (simp add: fun_eq_iff encrypt_row_def mix_word_def Let_def)

lemma decrypt_row_mix: "decrypt_row True data row = unmix_word (decrypt_row False data row)"
  by (simp add: decrypt_row_def unmix_word_def Let_def)

lemma four_words:
  assumes "length data = 4"
  obtains p q r s where "data = [p, q, r, s]"
  using assms by (auto simp: length_Suc_conv numeral_eq_Suc)

lemma upt_4: "[0..<4 :: nat] = [0, 1, 2, 3]"
  by code_simp

lemma decrypt_sub_shift:
  assumes "length data = 4"
  shows "map (\<lambda>row. decrypt_row False (sub_shift data) (row + 1)) [0..<4] = data"
proof -
  obtain p q r s where "data = [p, q, r, s]" using four_words [OF assms] by blast
  then show ?thesis
    by (simp add: upt_4 decrypt_row_def sub_shift_def encrypt_row_def)
qed

lemma length_sub_shift [simp]: "length (sub_shift data) = 4"
  by (simp add: sub_shift_def)

lemma length_add_key [simp]: "length (add_key data ks r) = 4"
  by (simp add: add_key_def)

lemma add_key_twice:
  assumes "length data = 4" "\<forall>row<4. ks' ! (4 * r + row) = ks ! (4 * r + row)"
  shows "add_key (add_key data ks r) ks' r = data"
  by (rule nth_equalityI) (use assms in \<open>auto simp: add_key_def xor.assoc\<close>)

definition round_keys :: "nat \<Rightarrow> u32 list \<Rightarrow> u32 list \<Rightarrow> bool" where
  \<comment> \<open>\<open>ks'\<close> is \<open>ks\<close> converted for decryption\<close>
  "round_keys R ks ks' \<longleftrightarrow> 0 < R \<and> (\<forall>r\<le>R. \<forall>row<4. ks' ! (4 * r + row)
      = (if 0 < r \<and> r < R then unmix_word (ks ! (4 * r + row)) else ks ! (4 * r + row)))"

lemma round_keysD:
  assumes "round_keys R ks ks'" "r \<le> R"
  shows "\<forall>row<4. ks' ! (4 * r + row) = (if 0 < r \<and> r < R then unmix_word (ks ! (4 * r + row)) else ks ! (4 * r + row))"
  using assms by (simp add: round_keys_def)

fun enc_state :: "nat \<Rightarrow> u32 list \<Rightarrow> u32 list \<Rightarrow> nat \<Rightarrow> u32 list" where
  "enc_state R ks data 0 = add_key data ks 0"
| "enc_state R ks data (Suc r) = encrypt_round R ks r (enc_state R ks data r)"

lemma length_enc_state [simp]: "length (enc_state R ks data r) = 4"
  by (cases r) (simp_all add: encrypt_round_def)

lemma enc_state_fold: "fold (encrypt_round R ks) [0..<n] (add_key data ks 0) = enc_state R ks data n"
  by (induction n) simp_all

lemma enc_state_Suc:
  "enc_state R ks data (Suc r) = add_key (if r < R - 1 then map mix_word (sub_shift (enc_state R ks data r))
      else sub_shift (enc_state R ks data r)) ks (Suc r)"
  by (cases "r < R - 1") (simp_all add: encrypt_round_def sub_shift_def encrypt_row_mix comp_def)

lemma unmix_add_key:
  assumes "length data = 4" "\<forall>row<4. ks' ! (4 * r + row) = unmix_word (ks ! (4 * r + row))"
  shows "add_key (map unmix_word (add_key (map mix_word data) ks r)) ks' r = data"
  by (rule nth_equalityI) (use assms in \<open>auto simp: add_key_def unmix_word_xor xor.assoc\<close>)

lemma decrypt_rounds:
  assumes "round_keys R ks ks'" "i < R"
  shows "fold (decrypt_round R ks') [0..<i] (add_key (enc_state R ks data R) ks' R)
    = sub_shift (enc_state R ks data (R - 1 - i))"
  using assms(2)
proof (induction i)
  case 0
  then obtain n where "R = Suc n" by (cases R) auto
  moreover have "\<forall>row<4. ks' ! (4 * R + row) = ks ! (4 * R + row)"
    using round_keysD [OF assms(1), of R] by simp
  ultimately show ?case
    using enc_state_Suc [of R ks data n] add_key_twice [of "sub_shift (enc_state R ks data n)" ks' R ks]
    by (simp del: enc_state.simps mult_Suc_right)
next
  case (Suc i)
  define r where "r = R - 2 - i"
  have r: "R - 1 - i = Suc r" "r < R - 1" "R - 1 - Suc i = r" using Suc.prems by (simp_all add: r_def)
  have keys: "\<forall>row<4. ks' ! (4 * Suc r + row) = unmix_word (ks ! (4 * Suc r + row))"
  proof -
    have "Suc r \<le> R" "Suc r < R" using r(2) by linarith+
    with round_keysD [OF assms(1), of "Suc r"] show ?thesis by simp
  qed
  let ?prev = "sub_shift (enc_state R ks data (Suc r))"
  have "fold (decrypt_round R ks') [0..<Suc i] (add_key (enc_state R ks data R) ks' R) = decrypt_round R ks' i ?prev"
    using Suc r(1) by (simp del: enc_state.simps)
  also have "\<dots> = add_key (map unmix_word (map (\<lambda>row. decrypt_row False ?prev (row + 1)) [0..<4])) ks' (Suc r)"
  proof -
    have "i < R - 1" using Suc.prems by linarith
    with r show ?thesis by (simp add: decrypt_round_def decrypt_row_mix comp_def)
  qed
  also have "\<dots> = add_key (map unmix_word (enc_state R ks data (Suc r))) ks' (Suc r)"
    by (subst decrypt_sub_shift) (simp_all del: enc_state.simps)
  also have "\<dots> = sub_shift (enc_state R ks data r)"
    unfolding enc_state_Suc using r(2) by (simp add: unmix_add_key [OF _ keys])
  finally show ?case by (simp only: r(3))
qed

lemma decrypt_encrypt_block:
  assumes "round_keys R ks ks'" "length data = 4"
  shows "fold (decrypt_round R ks') [0..<R] (add_key (fold (encrypt_round R ks) [0..<R] (add_key data ks 0)) ks' R) = data"
proof -
  obtain n where R: "R = Suc n" using assms(1) by (cases R) (auto simp: round_keys_def)
  let ?s0 = "sub_shift (enc_state R ks data 0)"
  have "fold (decrypt_round R ks') [0..<R] (add_key (enc_state R ks data R) ks' R) = decrypt_round R ks' n ?s0"
    using decrypt_rounds [OF assms(1), of n data] by (simp add: R)
  also have "\<dots> = add_key (map (\<lambda>row. decrypt_row False ?s0 (row + 1)) [0..<4]) ks' 0"
    by (simp add: decrypt_round_def R)
  also have "\<dots> = add_key (add_key data ks 0) ks' 0" by (subst decrypt_sub_shift) simp_all
  also have "\<dots> = data"
    by (rule add_key_twice) (use assms(2) round_keysD [OF assms(1), of 0] in simp_all)
  finally show ?thesis by (simp add: enc_state_fold)
qed

section \<open>Key schedules\<close>

lemma length_key_words: "length key = 4 * n \<Longrightarrow> length (key_words key) = n"
proof (induction n arbitrary: key)
  case (Suc n)
  then obtain p q r s rest where "key = p # q # r # s # rest" "length rest = 4 * n"
    by (auto simp: length_Suc_conv numeral_eq_Suc)
  then show ?case using Suc.IH by simp
qed simp

lemma length_schedule: "length (fold (schedule_step words) is W) = length W + length is"
  by (induction "is" arbitrary: W) (simp_all add: schedule_step_def Let_def)

definition key_bytes :: "aes_mode \<Rightarrow> nat" where
  "key_bytes mode = (case mode of AES_MODE_128 \<Rightarrow> 16 | AES_MODE_256 \<Rightarrow> 32)"

lemma set_key_shape:
  assumes "key_bytes mode \<le> length key"
  shows "0 < a_rounds (AES_set_key key iv mode)"
    "length (a_ks (AES_set_key key iv mode)) = 4 * (a_rounds (AES_set_key key iv mode) + 1)"
  using assms length_key_words [of "take 16 key" 4] length_key_words [of "take 32 key" 8]
  by (cases mode; simp add: AES_set_key_def key_bytes_def length_schedule del: upt_rec_numeral)+

lemma convert_round_keys:
  assumes "0 < a_rounds ctx" "length (a_ks ctx) = 4 * (a_rounds ctx + 1)"
  shows "round_keys (a_rounds ctx) (a_ks ctx) (a_ks (AES_convert_key ctx))"
proof -
  define R where "R = a_rounds ctx"
  define ks where "ks = a_ks ctx"
  have len: "length ks = 4 * (R + 1)" "0 < R" using assms by (simp_all add: R_def ks_def)
  have "(take 4 ks @ map inv_mix_col (take (4 * R - 4) (drop 4 ks)) @ drop (4 + (4 * R - 4)) ks) ! (4 * r + row)
      = (if 0 < r \<and> r < R then unmix_word (ks ! (4 * r + row)) else ks ! (4 * r + row))"
    if "r \<le> R" "row < 4" for r row
  proof -
    have "r = 0 \<or> (0 < r \<and> r < R) \<or> r = R" using that(1) by linarith
    then consider "r = 0" | "0 < r" "r < R" | "r = R" by blast
    then show ?thesis
    proof cases
      case 2
      then have "4 * r + row - 4 < 4 * R - 4" "4 \<le> 4 * r + row" using that(2) by linarith+
      with 2 len show ?thesis by (simp add: nth_append inv_mix_col_unmix)
    next
      case 3
      then have "\<not> 4 * r + row - 4 < 4 * R - 4" "4 \<le> 4 * r + row" using len(2) by linarith+
      with 3 len that(2) show ?thesis by (simp add: nth_append)
    qed (use len that in \<open>simp add: nth_append\<close>)
  qed
  then show ?thesis
    using assms(1) by (simp add: round_keys_def AES_convert_key_def Let_def R_def [symmetric] ks_def [symmetric])
qed

section \<open>Whole messages\<close>

text \<open>
  What a mode of operation relies on: blocks of four words stay blocks, and decryption inverts encryption for
  a good context.
\<close>

locale block_cipher =
  fixes enc :: "'k \<Rightarrow> u32 list \<Rightarrow> u32 list" and dec :: "'k \<Rightarrow> u32 list \<Rightarrow> u32 list" and good :: "'k \<Rightarrow> bool"
  assumes length_enc: "good k \<Longrightarrow> length b = 4 \<Longrightarrow> length (enc k b) = 4"
    and dec_enc: "good k \<Longrightarrow> length b = 4 \<Longrightarrow> dec k (enc k b) = b"

lemma word_bytes_words: "length bs = 4 * n \<Longrightarrow> word_bytes (key_words bs) = bs"
proof (induction n arbitrary: bs)
  case (Suc n)
  then obtain p q r s rest where "bs = p # q # r # s # rest" "length rest = 4 * n"
    by (auto simp: length_Suc_conv numeral_eq_Suc)
  then show ?case using Suc.IH by (simp add: word_bytes_def)
qed (simp add: word_bytes_def)

lemma words_word_bytes [simp]: "key_words (word_bytes ws) = ws"
  by (induction ws) (simp_all add: word_bytes_def)

lemma length_word_bytes [simp]: "length (word_bytes ws) = 4 * length ws"
  by (induction ws) (simp_all add: word_bytes_def)

lemma length_xor_words [simp]: "length (xor_words v w) = min (length v) (length w)"
  by (simp add: xor_words_def)

lemma xor_words_twice: "length v = length w \<Longrightarrow> xor_words (xor_words v w) w = v"
  by (induction v w rule: list_induct2) (simp_all add: xor_words_def xor.assoc)

context block_cipher
begin

lemma cbc_roundtrip:
  assumes "good k" "length iv = 4" "cbc_encrypt_loop (enc k) iv msg = (out, t)"
  shows "cbc_decrypt_loop (dec k) iv out = (take (16 * (length msg div 16)) msg, t) \<and> length t = 4
    \<and> length out = 16 * (length msg div 16)"
  using assms(2,3)
proof (induction "length msg" arbitrary: iv msg out t rule: less_induct)
  case less
  show ?case
  proof (cases "length msg < 16")
    case True
    then show ?thesis
      using less.prems cbc_encrypt_loop.simps [of "enc k" iv msg] cbc_decrypt_loop.simps [of "dec k" iv "[]"] by simp
  next
    case False
    let ?b = "key_words (take 16 msg)"
    define c where "c = enc k (xor_words ?b iv)"
    obtain rest t' where rest: "cbc_encrypt_loop (enc k) c (drop 16 msg) = (rest, t')" by (rule prod.exhaust)
    have b: "length ?b = 4" using False length_key_words [of "take 16 msg" 4] by simp
    have c: "length c = 4" unfolding c_def by (rule length_enc [OF assms(1)]) (use b less.prems(1) in simp)
    have out: "out = word_bytes c @ rest" "t = t'"
      using less.prems(2) False cbc_encrypt_loop.simps [of "enc k" iv msg] rest
      by (simp_all add: c_def [symmetric] Let_def)
    have IH: "cbc_decrypt_loop (dec k) c rest = (take (16 * (length (drop 16 msg) div 16)) (drop 16 msg), t')"
      "length t' = 4" "length rest = 16 * (length (drop 16 msg) div 16)"
      using less.hyps [of "drop 16 msg" c rest t'] False c rest by auto
    have "dec k c = xor_words ?b iv" unfolding c_def by (rule dec_enc [OF assms(1)]) (use b less.prems(1) in simp)
    then have "xor_words (dec k c) iv = ?b" using b less.prems(1) by (simp add: xor_words_twice)
    then have "cbc_decrypt_loop (dec k) iv out = (word_bytes ?b @ take (16 * (length (drop 16 msg) div 16)) (drop 16 msg), t')"
      using cbc_decrypt_loop.simps [of "dec k" iv out] IH(1) c by (simp add: out Let_def)
    moreover have "word_bytes ?b = take 16 msg" by (rule word_bytes_words [of _ 4]) (use False in simp)
    moreover have n: "length msg div 16 = Suc ((length msg - 16) div 16)" using False by (simp add: le_div_geq)
    moreover have "take 16 msg @ take (16 * ((length msg - 16) div 16)) (drop 16 msg) = take (16 * (length msg div 16)) msg"
      unfolding n by (simp add: take_add [symmetric])
    ultimately show ?thesis using IH(2,3) c out by simp
  qed
qed

end

definition aes_good :: "aes_ctx \<Rightarrow> bool" where
  "aes_good ctx \<longleftrightarrow> 0 < a_rounds ctx \<and> length (a_ks ctx) = 4 * (a_rounds ctx + 1)"

lemma AES_decrypt_encrypt:
  assumes "aes_good ctx" "length data = 4"
  shows "AES_decrypt (AES_convert_key ctx) (AES_encrypt ctx data) = data"
  using decrypt_encrypt_block [OF convert_round_keys assms(2)] assms(1)
  by (simp add: aes_good_def AES_decrypt_def AES_encrypt_def AES_convert_key_def Let_def)

lemma length_AES_encrypt: "length (AES_encrypt ctx data) = 4"
  by (simp add: AES_encrypt_def enc_state_fold)

interpretation aes: block_cipher AES_encrypt "\<lambda>ctx. AES_decrypt (AES_convert_key ctx)" aes_good
  by unfold_locales (simp_all add: AES_decrypt_encrypt length_AES_encrypt)

lemma aes_good_set_key: "key_bytes mode \<le> length key \<Longrightarrow> aes_good (AES_set_key key iv mode)"
  using set_key_shape by (simp add: aes_good_def)

section \<open>Properties\<close>

text \<open>
  C24. For every key of 16 or 32 bytes and every initialisation vector, decrypting with the converted key
  schedule what \<open>AES_cbc_encrypt\<close> produced gives back the whole blocks of the message, and both contexts
  are left with the same vector, so that a stream cut at block boundaries decrypts piece by piece.
\<close>

theorem aes_cbc_roundtrip:
  assumes "key_bytes mode \<le> length key" "length iv = 16" "ctx = AES_set_key key iv mode"
    "AES_cbc_encrypt ctx msg = (out, ctx')"
  shows "AES_cbc_decrypt (AES_convert_key ctx) out = (take (16 * (length msg div 16)) msg, AES_convert_key ctx') \<and>
    length out = 16 * (length msg div 16) \<and> length (a_iv ctx') = 16"
proof -
  obtain t where t: "cbc_encrypt_loop (AES_encrypt ctx) (key_words (a_iv ctx)) msg = (out, t)" "ctx' = ctx\<lparr>a_iv := word_bytes t\<rparr>"
    using assms(4) by (auto simp: AES_cbc_encrypt_def Let_def split: prod.splits)
  have iv: "length (key_words (a_iv ctx)) = 4"
    using assms(2,3) by (intro length_key_words) (simp add: AES_set_key_def split: aes_mode.splits)
  have "aes_good ctx" using aes_good_set_key [OF assms(1)] assms(3) by simp
  from aes.cbc_roundtrip [OF this iv t(1)] show ?thesis
    by (simp add: AES_cbc_decrypt_def AES_convert_key_def Let_def t(2))
qed

theorem aes_cbc_roundtrip_witness:
  "fst (AES_cbc_decrypt (AES_convert_key (AES_set_key (map of_nat [0..<16]) (replicate 16 9) AES_MODE_128))
      (fst (AES_cbc_encrypt (AES_set_key (map of_nat [0..<16]) (replicate 16 9) AES_MODE_128) (replicate 16 1 @ replicate 16 2 @ [3]))))
    = replicate 16 1 @ replicate 16 2"
proof -
  let ?ctx = "AES_set_key (map of_nat [0..<16]) (replicate 16 9) AES_MODE_128"
  obtain out ctx' where e: "AES_cbc_encrypt ?ctx (replicate 16 1 @ replicate 16 2 @ [3]) = (out, ctx')" by (rule prod.exhaust)
  have "key_bytes AES_MODE_128 \<le> length (map of_nat [0..<16] :: byte list)" by (simp add: key_bytes_def del: upt_rec_numeral)
  from aes_cbc_roundtrip [OF this _ refl e] show ?thesis unfolding e by simp
qed

end
