(* ===== verification/Encrypted_Audio.thy ===== *)
theory Encrypted_Audio
  imports Raop_Buffer Aes
begin

text \<open>
  The jitter buffer with the cipher it really calls: \<open>decrypt_block\<close> is the three calls of
  \<open>raop_buffer_queue\<close> on a fresh context, and a sender that chains its payload with the session key
  and vector gets every packet played as it was before encryption.
\<close>

definition decrypt_block :: "byte list \<Rightarrow> byte list \<Rightarrow> byte list \<Rightarrow> byte list" where
  \<comment> \<open>\<open>AES_set_key\<close>, \<open>AES_convert_key\<close> and \<open>AES_cbc_decrypt\<close> into \<open>packetbuf\<close>\<close>
  "decrypt_block aeskey aesiv body =
     (let aes_ctx = AES_set_key aeskey aesiv AES_MODE_128; aes_ctx = AES_convert_key aes_ctx
      in fst (AES_cbc_decrypt aes_ctx body))"

definition encrypt_payload :: "byte list \<Rightarrow> byte list \<Rightarrow> byte list \<Rightarrow> byte list" where
  \<comment> \<open>what the sender of RAOP does: whole blocks chained, the rest in the clear\<close>
  "encrypt_payload aeskey aesiv audio =
     fst (AES_cbc_encrypt (AES_set_key aeskey aesiv AES_MODE_128) audio) @ drop (16 * (length audio div 16)) audio"

lemma encrypt_payload_parts:
  assumes "length aeskey = 16" "length aesiv = 16"
  shows "length (encrypt_payload aeskey aesiv audio) = length audio"
    "take (16 * (length audio div 16)) (encrypt_payload aeskey aesiv audio)
       = fst (AES_cbc_encrypt (AES_set_key aeskey aesiv AES_MODE_128) audio)"
    "drop (16 * (length audio div 16)) (encrypt_payload aeskey aesiv audio) = drop (16 * (length audio div 16)) audio"
    "decrypt_block aeskey aesiv (fst (AES_cbc_encrypt (AES_set_key aeskey aesiv AES_MODE_128) audio))
       = take (16 * (length audio div 16)) audio"
proof -
  let ?ctx = "AES_set_key aeskey aesiv AES_MODE_128"
  obtain out t where l: "cbc_encrypt_loop (AES_encrypt ?ctx) (key_words (a_iv ?ctx)) audio = (out, t)" by (rule prod.exhaust)
  then have t: "cbc_encrypt_loop (AES_encrypt ?ctx) (key_words (a_iv ?ctx)) audio = (fst (AES_cbc_encrypt ?ctx audio), t)"
    by (simp add: AES_cbc_encrypt_def)
  have iv: "length (key_words (a_iv ?ctx)) = 4"
    using assms(2) by (intro length_key_words) (simp add: AES_set_key_def)
  have "aes_good ?ctx" using assms(1) by (intro aes_good_set_key) (simp add: key_bytes_def)
  note rt = aes.cbc_roundtrip [OF this iv t]
  then show "length (encrypt_payload aeskey aesiv audio) = length audio"
    "take (16 * (length audio div 16)) (encrypt_payload aeskey aesiv audio) = fst (AES_cbc_encrypt ?ctx audio)"
    "drop (16 * (length audio div 16)) (encrypt_payload aeskey aesiv audio) = drop (16 * (length audio div 16)) audio"
    by (simp_all add: encrypt_payload_def)
  show "decrypt_block aeskey aesiv (fst (AES_cbc_encrypt ?ctx audio)) = take (16 * (length audio div 16)) audio"
    using rt by (simp add: decrypt_block_def AES_cbc_decrypt_def AES_convert_key_def Let_def)
qed

lemma packet_decrypted:
  assumes "aes_cbc_decrypt cdc = decrypt_block" "length (rb_aeskey rb) = 16" "length (rb_aesiv rb) = 16"
    "length header = 12"
  shows "decrypt_packet cdc rb
      (header @ (if rb_et rb \<noteq> 0 then encrypt_payload (rb_aeskey rb) (rb_aesiv rb) audio else audio))
      (12 + length audio) = audio"
proof (cases "rb_et rb \<noteq> 0")
  case True
  have e: "length audio div 16 * 16 = 16 * (length audio div 16)" by simp
  note p = encrypt_payload_parts [OF assms(2,3), of audio]
  have "take (16 * (length audio div 16)) audio @ drop (16 * (length audio div 16)) audio = audio" by simp
  moreover have "take (length audio - 16 * (length audio div 16)) (drop (16 * (length audio div 16)) audio)
      = drop (16 * (length audio div 16)) audio" by simp
  moreover have "drop (12 + 16 * (length audio div 16)) header = []" using assms(4) by simp
  ultimately show ?thesis
    using True p assms(1,4)
    by (auto simp: decrypt_packet_def Let_def e)
next
  case False
  then show ?thesis using assms(4) by (simp add: decrypt_packet_def Let_def)
qed

section \<open>Properties\<close>

text \<open>
  C25. With AES as the cipher of the jitter buffer, the packet \<open>raop_buffer_queue\<close> hands to the audio
  decoder is exactly the payload the sender had before it encrypted the whole blocks with the session key
  and vector, for every payload, header and state of the buffer; without encryption it is the payload itself.
\<close>

theorem encrypted_packet_recovered:
  assumes "aes_cbc_decrypt cdc = decrypt_block" "length (rb_aeskey rb) = 16" "length (rb_aesiv rb) = 16"
    "length header = 12"
  shows "decrypt_packet cdc rb
      (header @ (if rb_et rb \<noteq> 0 then encrypt_payload (rb_aeskey rb) (rb_aesiv rb) audio else audio))
      (12 + length audio) = audio"
  using assms by (rule packet_decrypted)

theorem encrypted_packet_recovered_witness:
  "decrypt_packet (copy_codec\<lparr>aes_cbc_decrypt := decrypt_block\<rparr>)
      (demo_rb\<lparr>rb_aeskey := replicate 16 1, rb_aesiv := replicate 16 2\<rparr>)
      (replicate 12 0 @ encrypt_payload (replicate 16 1) (replicate 16 2) (replicate 16 5 @ [6, 7])) 30
    = replicate 16 5 @ [6, 7]"
  using encrypted_packet_recovered [of "copy_codec\<lparr>aes_cbc_decrypt := decrypt_block\<rparr>"
      "demo_rb\<lparr>rb_aeskey := replicate 16 1, rb_aesiv := replicate 16 2\<rparr>" "replicate 12 0" "replicate 16 5 @ [6, 7]"]
  by (simp add: demo_rb_def)

end
