(* ===== verification/Hls.thy ===== *)
theory Hls
  imports Utils_C
begin

text \<open>
  The playlist translator \<open>trans\<close> of \<open>libairplay/airplay/utils.c\<close>: a master playlist is reduced to one video
  and one audio group with local addresses, a media playlist in the condensed form is expanded into full
  addresses. Local arrays are strings of their size with their NULs; the file is the text written to it.
  \<open>None\<close> is undefined behaviour: a search or a copy that leaves its array, or a format that writes the array it reads.
\<close>

abbreviation MAX_LINE :: int where "MAX_LINE \<equiv> 2048"

definition get_value :: "string \<Rightarrow> string \<Rightarrow> string \<Rightarrow> (int \<times> string) option" where
  \<comment> \<open>\<open>getValue(str, param, value)\<close> on an array: what it returns and the array afterwards\<close>
  "get_value buf str param =
     (case getValue str param (c_str buf 0) of
        None \<Rightarrow> None
      | Some (r, val) \<Rightarrow>
          if length val > length buf then None
          else let buf = val @ drop (length val) buf
          in if r \<le> 0 then Some (r, buf)
          else if NUL \<notin> set buf then None
          else Some (int (length (c_str buf 0)), buf))"

section \<open>Master playlists\<close>

record hls_master =
  hm_line2 :: string           \<comment> \<open>not cleared\<close>
  hm_group :: string           \<comment> \<open>\<open>g_id\<close>\<close>
  hm_out :: string

definition local_url :: "string \<Rightarrow> string" where
  "local_url ident = ''localhost/itag/'' @ ident @ ''_mediadata.m3u8''"

definition remote_url :: "string \<Rightarrow> string" where
  "remote_url ident = ''mlhls://localhost/itag/'' @ ident @ ''/mediadata.m3u8''"

definition audio_group :: "string \<Rightarrow> (string \<times> string) option option" where
  \<comment> \<open>the text from the first preferred resolution on and the array \<open>audio\<close>; the inner \<open>None\<close>: no stream\<close>
  "audio_group text =
     (case filter (\<lambda>p. p \<noteq> None) (map (c_strstr text)
         [''RESOLUTION=1280x'', ''RESOLUTION=854x'', ''RESOLUTION=640x'', ''RESOLUTION=426x'', ''RESOLUTION='']) of
        Some p # _ \<Rightarrow> map_option (\<lambda>(_, audio). Some (p, audio)) (get_value (replicate 32 NUL) p ''AUDIO'')
      | _ \<Rightarrow> Some None)"

definition video_group :: "string \<Rightarrow> string option" where
  \<comment> \<open>\<open>g_id_select\<close>\<close>
  "video_group p =
     map_option (\<lambda>q. takeWhile (\<lambda>c. c \<noteq> CHR ''/'') (take 31 (drop 23 q))) (c_strstr p ''mlhls://localhost/itag/'')"

definition stream_line :: "string \<Rightarrow> string \<Rightarrow> string \<Rightarrow> hls_master \<Rightarrow> (string option \<times> hls_master) option" where
  \<comment> \<open>\<open>#EXT-X-STREAM-INF\<close> and the line after it; the inner \<open>None\<close> leaves the loop\<close>
  "stream_line sel line src st =
     (case get_line (hm_line2 st) MAX_LINE src of
        None \<Rightarrow> Some (None, st)
      | Some (line2, src) \<Rightarrow>
          if NUL \<notin> set line2 then None
          else let st = st\<lparr>hm_line2 := line2\<rparr>
          in if \<not> starts_with (c_str line2 0) (remote_url sel) then Some (Some src, st)
          else Some (Some src,
            st\<lparr>hm_out := hm_out st @ take 4095 (line @ [LF] @ ''http://'' @ local_url sel @ [LF])\<rparr>))"

definition media_line :: "string \<Rightarrow> string \<Rightarrow> hls_master \<Rightarrow> hls_master option" where
  \<comment> \<open>\<open>#EXT-X-MEDIA\<close>\<close>
  \<open>media_line audio line st =
     (case get_value (replicate 32 NUL) line ''TYPE'' of
        None \<Rightarrow> None
      | Some (r, type) \<Rightarrow>
          if r \<le> 0 then Some st
          else if \<not> starts_with (c_str type 0) ''AUDIO'' then Some (st\<lparr>hm_out := hm_out st @ take 4095 (line @ [LF])\<rparr>)
          else case get_value (hm_group st) line ''GROUP-ID'' of
              None \<Rightarrow> None
            | Some (r, gid) \<Rightarrow>
                (let st = st\<lparr>hm_group := gid\<rparr>
                 in if r \<le> 0 \<or> \<not> starts_with (c_str gid 0) audio then Some st
                 else case c_strstr line ''URI="mlhls://'' of
                     None \<Rightarrow> Some st
                   | Some p \<Rightarrow>
                       (let pre = take (length line - length p) line
                        in if length pre > 128 then None
                        else case c_strstr p ''m3u8"'' of
                            None \<Rightarrow> Some st
                          | Some q \<Rightarrow>
                              if length pre = 128 then None
                              else Some (st\<lparr>hm_out := hm_out st @ pre @ ''URI="http://'' @ local_url audio @ ''"''
                                              @ drop 5 q @ [LF]\<rparr>))))\<close>

definition master_line :: "string \<Rightarrow> string \<Rightarrow> string \<Rightarrow> string \<Rightarrow> hls_master \<Rightarrow> (string option \<times> hls_master) option" where
  "master_line sel audio line src st =
     (if starts_with line ''#EXT-X-STREAM-INF'' then stream_line sel line src st
      else if starts_with line ''#EXT-X-MEDIA'' then map_option (\<lambda>st. (Some src, st)) (media_line audio line st)
      else if starts_with line ''mlhls:'' then Some (Some src, st)
      else if starts_with line ''#'' then Some (Some src, st\<lparr>hm_out := hm_out st @ take 4095 (line @ [LF])\<rparr>)
      else Some (Some src, st))"

lemma get_line_shorter: "get_line buf sz src = Some (line, rest) \<Longrightarrow> length rest < length src"
proof -
  assume "get_line buf sz src = Some (line, rest)"
  then have n: "line_len sz src \<noteq> 0" and r: "rest = dropWhile (\<lambda>c. c = CR \<or> c = LF) (drop (line_len sz src) src)"
    by (auto simp: get_line_def Let_def split: if_splits)
  have "length rest \<le> length (drop (line_len sz src) src)" unfolding r by (rule length_dropWhile_le)
  then show ?thesis using n line_len_le [of sz src] by auto
qed

lemma master_line_shorter: "master_line sel audio line src st = Some (Some src', st') \<Longrightarrow> length src' \<le> length src"
  by (auto simp: master_line_def stream_line_def Let_def dest: get_line_shorter split: if_splits option.splits)

function master_lines :: "string \<Rightarrow> string \<Rightarrow> string \<Rightarrow> hls_master \<Rightarrow> hls_master option" where
  "master_lines sel audio src st =
     (case get_line [] MAX_LINE src of
        None \<Rightarrow> Some st
      | Some (line, src) \<Rightarrow>
          (case master_line sel audio line src st of
             None \<Rightarrow> None
           | Some (None, st) \<Rightarrow> Some st
           | Some (Some src, st) \<Rightarrow> master_lines sel audio src st))"
  by pat_completeness auto
termination
  by (relation "measure (\<lambda>(sel, audio, src, st). length src)")
     (auto dest!: get_line_shorter master_line_shorter)

declare master_lines.simps [simp del]

definition trans_master :: "string \<Rightarrow> string \<Rightarrow> string \<Rightarrow> nat \<Rightarrow> (string \<times> string) option" where
  \<comment> \<open>the file and the new \<open>g_id_list\<close>\<close>
  "trans_master line2 text g_id_list list_size =
     (case audio_group text of
        None \<Rightarrow> None
      | Some None \<Rightarrow> Some ([], g_id_list)
      | Some (Some (p, audio)) \<Rightarrow>
          (case video_group p of
             None \<Rightarrow> Some ([], g_id_list)
           | Some sel \<Rightarrow>
               (let audio = c_str audio 0
                in if audio = [] \<or> sel = [] then Some ([], g_id_list)
                else map_option (\<lambda>st. (hm_out st, take (list_size - 1) (sel @ ''#'' @ audio)))
                  (master_lines sel audio text \<lparr>hm_line2 = line2, hm_group = replicate 128 NUL, hm_out = []\<rparr>))))"

section \<open>Media playlists\<close>

record hls_media =
  hd_prefix :: string
  hd_params :: string
  hd_url :: string
  hd_names :: "string list"    \<comment> \<open>\<open>hlsParamList\<close>\<close>
  hd_flag :: bool
  hd_out :: string

lemma length_dropWhile_less [termination_simp]: "length (dropWhile P xs) < Suc (length xs)"
  by (simp add: length_dropWhile_le le_imp_less_Suc)

fun tokens_of :: "char \<Rightarrow> string \<Rightarrow> string list" where
  \<comment> \<open>what \<open>strtok\<close> yields with one delimiter\<close>
  "tokens_of d [] = []"
| "tokens_of d (c # cs) =
     (if c = d then tokens_of d cs
      else (c # takeWhile (\<lambda>x. x \<noteq> d) cs) # tokens_of d (dropWhile (\<lambda>x. x \<noteq> d) cs))"

fun token_ends :: "bool \<Rightarrow> char \<Rightarrow> string \<Rightarrow> string" where
  \<comment> \<open>the text afterwards: the delimiter after each token is a NUL\<close>
  "token_ends inside d [] = []"
| "token_ends inside d (c # cs) =
     (if c = d then (if inside then NUL else c) # token_ends False d cs else c # token_ends True d cs)"

definition sprintf_buf :: "bool \<Rightarrow> string \<Rightarrow> string option" where
  \<comment> \<open>\<open>sprintf(buf, ...)\<close> of this text: undefined when it does not fit or when \<open>buf\<close> is among the arguments\<close>
  "sprintf_buf overlaps text = (if overlaps \<or> length text > 4095 then None else Some text)"

fun expand :: "string list \<Rightarrow> string list \<Rightarrow> string \<Rightarrow> string option" where
  \<comment> \<open>\<open>sprintf(buf, "%s/%s/%s", buf, param, p)\<close> for each parameter while there are tokens\<close>
  "expand (n # ns) (v # vs) buf =
     (case sprintf_buf True (buf @ ''/'' @ n @ ''/'' @ v) of None \<Rightarrow> None | Some buf \<Rightarrow> expand ns vs buf)"
| "expand ns vs buf = Some buf"

definition condensed_line :: "string \<Rightarrow> hls_media \<Rightarrow> hls_media option" where
  "condensed_line line st =
     (case get_value (hd_url st) line ''BASE-URI'' of
        None \<Rightarrow> None
      | Some (r, url) \<Rightarrow>
          (let st = st\<lparr>hd_url := url\<rparr>
           in if r \<le> 0 then Some st
           else case get_value (hd_params st) line ''PARAMS'' of
               None \<Rightarrow> None
             | Some (r, params) \<Rightarrow>
                 (let st = st\<lparr>hd_params := params\<rparr>
                  in if r \<le> 0 then Some st
                  else let text = c_str params 0;
                           st = st\<lparr>hd_params := write_at 0 (token_ends False CHR '','' text) params,
                                   hd_names := hd_names st @ tokens_of CHR '','' text\<rparr>
                  in case get_value (hd_prefix st) line ''PREFIX'' of
                      None \<Rightarrow> None
                    | Some (r, prefix) \<Rightarrow>
                        (let st = st\<lparr>hd_prefix := prefix\<rparr>
                         in if r \<le> 0 then Some st else Some (st\<lparr>hd_flag := True\<rparr>)))))"

definition media_step :: "string \<Rightarrow> hls_media \<Rightarrow> hls_media option" where
  "media_step line st =
     (let prefix = c_str (hd_prefix st) 0
      in if starts_with line ''#YT-EXT-CONDENSED-URL'' then condensed_line line st
      else if prefix \<noteq> [] \<and> starts_with line prefix then
        (case expand (hd_names st) (drop 1 (tokens_of CHR ''/'' line)) (c_str (hd_url st) 0) of
           None \<Rightarrow> None
         | Some buf \<Rightarrow>
             (case sprintf_buf True (buf @ [LF]) of
                None \<Rightarrow> None
              | Some text \<Rightarrow> Some (st\<lparr>hd_out := hd_out st @ text\<rparr>)))
      else if starts_with line ''#'' then Some (st\<lparr>hd_out := hd_out st @ take 4095 (line @ [LF])\<rparr>)
      else Some st)"

function media_lines :: "string \<Rightarrow> hls_media \<Rightarrow> hls_media option" where
  "media_lines src st =
     (case get_line [] MAX_LINE src of
        None \<Rightarrow> Some st
      | Some (line, src) \<Rightarrow> (case media_step line st of None \<Rightarrow> None | Some st \<Rightarrow> media_lines src st))"
  by pat_completeness auto
termination by (relation "measure (\<lambda>(src, st). length src)") (auto dest: get_line_shorter)

declare media_lines.simps [simp del]

definition fresh_media :: hls_media where
  "fresh_media = \<lparr>hd_prefix = replicate 32 NUL, hd_params = replicate 128 NUL, hd_url = replicate 2048 NUL,
     hd_names = [], hd_flag = False, hd_out = []\<rparr>"

definition trans_media :: "string \<Rightarrow> (int \<times> string) option" where
  "trans_media text = map_option (\<lambda>st. (if hd_flag st then 0 else -1, hd_out st)) (media_lines text fresh_media)"

definition trans :: "bool \<Rightarrow> string \<Rightarrow> string \<Rightarrow> bool \<Rightarrow> string \<Rightarrow> nat \<Rightarrow> (int \<times> string option \<times> string) option" where
  \<comment> \<open>the result, the file if it could be opened, and \<open>g_id_list\<close>; \<open>line2\<close> is the content of that array\<close>
  "trans open_ok line2 text isMaster g_id_list list_size =
     (if \<not> open_ok then Some (0, None, g_id_list)
      else if isMaster then map_option (\<lambda>(file, ids). (0, Some file, ids)) (trans_master line2 text g_id_list list_size)
      else map_option (\<lambda>(ret, file). (ret, Some file, g_id_list)) (trans_media text))"

section \<open>Condensed playlists\<close>

text \<open>
  A condensed playlist is a head line with a base address, parameter names and a prefix, followed by tags and
  by segments that list one value for each name.
\<close>

datatype entry = Tag string | Segment "string list"

fun is_tag :: "entry \<Rightarrow> bool" where
  "is_tag (Tag t) \<longleftrightarrow> True"
| "is_tag (Segment vs) \<longleftrightarrow> False"

fun condensed :: "string \<Rightarrow> entry \<Rightarrow> string" where
  "condensed prefix (Tag t) = t"
| "condensed prefix (Segment vs) = prefix @ concat (map (\<lambda>v. CHR ''/'' # v) vs)"

definition as_text :: "string list \<Rightarrow> string" where
  "as_text ls = concat (map (\<lambda>l. l @ [LF]) ls)"

definition clean_line :: "string \<Rightarrow> bool" where
  "clean_line l \<longleftrightarrow> l \<noteq> [] \<and> CR \<notin> set l \<and> LF \<notin> set l \<and> NUL \<notin> set l \<and> length l < 2048"

fun entry_ok :: "string \<Rightarrow> entry \<Rightarrow> bool" where
  "entry_ok prefix (Tag t) \<longleftrightarrow> clean_line t \<and> starts_with t ''#'' \<and> \<not> starts_with t ''#YT-EXT-CONDENSED-URL''"
| "entry_ok prefix (Segment vs) \<longleftrightarrow> clean_line (condensed prefix (Segment vs))"

fun media_run :: "string list \<Rightarrow> hls_media \<Rightarrow> hls_media option" where
  "media_run [] st = Some st"
| "media_run (l # ls) st = (case media_step l st of None \<Rightarrow> None | Some st \<Rightarrow> media_run ls st)"

lemma line_len_clean_line: "CR \<notin> set l \<Longrightarrow> LF \<notin> set l \<Longrightarrow> int (length l) < sz \<Longrightarrow> line_len sz (l @ LF # rest) = length l"
  by (induction l arbitrary: sz) auto

lemma as_text_simps [simp]: "as_text [] = []" "as_text (l # ls) = l @ LF # as_text ls"
  by (simp_all add: as_text_def)

lemma get_line_text:
  assumes "clean_line l" "\<forall>l \<in> set ls. clean_line l"
  shows "get_line [] MAX_LINE (as_text (l # ls)) = Some (l, as_text ls)"
proof -
  have "dropWhile (\<lambda>c. c = CR \<or> c = LF) (as_text ls) = as_text ls"
    using assms(2) by (cases ls) (auto simp: clean_line_def neq_Nil_conv dropWhile_eq_self_iff)
  moreover have "line_len 2048 (l @ LF # as_text ls) = length l"
    using assms(1) by (intro line_len_clean_line) (auto simp: clean_line_def)
  ultimately show ?thesis using assms(1) by (simp add: get_line_def clean_line_def)
qed

lemma media_lines_text: "\<forall>l \<in> set ls. clean_line l \<Longrightarrow> media_lines (as_text ls) st = media_run ls st"
proof (induction ls arbitrary: st)
  case Nil
  then show ?case by (subst media_lines.simps) (simp add: get_line_def)
next
  case (Cons l ls)
  then have "get_line [] MAX_LINE (as_text (l # ls)) = Some (l, as_text ls)" by (intro get_line_text) auto
  then show ?case using Cons by (subst media_lines.simps) (auto split: option.split)
qed

lemma c_str_padded [simp]: "NUL \<notin> set v \<Longrightarrow> c_str (v @ replicate m NUL) 0 = v"
  by (induction v) (auto simp: c_str_def)

lemma get_value_fresh:
  assumes "getValue line param [] = Some (int (length v), v)" "v \<noteq> []" "NUL \<notin> set v" "length v < k"
  shows "get_value (replicate k NUL) line param = Some (int (length v), v @ replicate (k - length v) NUL)"
proof -
  have "c_str (replicate k NUL) 0 = []" using c_str_padded [of "[]" k] by simp
  then show ?thesis using assms by (simp add: get_value_def)
qed

lemma segment_undefined:
  assumes "c_str (hd_prefix st) 0 = prefix" "prefix \<noteq> []" "hd prefix \<noteq> CHR ''#''"
  shows "media_step (condensed prefix (Segment vs)) st = None"
proof -
  have "\<not> starts_with (condensed prefix (Segment vs)) ''#YT-EXT-CONDENSED-URL''"
    using assms(2,3) by (cases prefix) (auto simp: starts_with_def)
  moreover have "starts_with (condensed prefix (Segment vs)) prefix" by (simp add: starts_with_def)
  ultimately show ?thesis using assms by (simp add: media_step_def sprintf_buf_def split: option.split)
qed

lemma tag_kept:
  assumes "c_str (hd_prefix st) 0 = prefix" "prefix = [] \<or> hd prefix \<noteq> CHR ''#''" "entry_ok q (Tag t)"
  shows "media_step t st = Some (st\<lparr>hd_out := hd_out st @ t @ [LF]\<rparr>)"
proof -
  have "\<not> starts_with t prefix" if "prefix \<noteq> []"
    using assms(2,3) that by (cases t; cases prefix) (auto simp: starts_with_def)
  then show ?thesis using assms by (auto simp: media_step_def clean_line_def)
qed

lemma media_run_ready:
  assumes "c_str (hd_prefix st) 0 = prefix" "prefix \<noteq> []" "hd prefix \<noteq> CHR ''#''" "\<forall>e \<in> set es. entry_ok prefix e"
  shows "media_run (map (condensed prefix) es) st
    = (if list_all is_tag es then Some (st\<lparr>hd_out := hd_out st @ as_text (map (condensed prefix) es)\<rparr>) else None)"
  using assms
proof (induction es arbitrary: st)
  case (Cons e es)
  show ?case
  proof (cases e)
    case (Tag t)
    then show ?thesis using Cons.IH [of "st\<lparr>hd_out := hd_out st @ t @ [LF]\<rparr>"] Cons.prems tag_kept [of st prefix prefix t] by simp
  next
    case (Segment vs)
    then show ?thesis using segment_undefined [OF Cons.prems(1-3), of vs] by simp
  qed
qed simp

lemma media_run_plain:
  assumes "c_str (hd_prefix st) 0 = []" "prefix \<noteq> []" "hd prefix \<noteq> CHR ''#''" "\<forall>e \<in> set es. entry_ok prefix e"
  shows "media_run (map (condensed prefix) es) st
    = Some (st\<lparr>hd_out := hd_out st @ as_text (map (condensed prefix) (filter is_tag es))\<rparr>)"
  using assms
proof (induction es arbitrary: st)
  case (Cons e es)
  show ?case
  proof (cases e)
    case (Tag t)
    then show ?thesis using Cons.IH [of "st\<lparr>hd_out := hd_out st @ t @ [LF]\<rparr>"] Cons.prems tag_kept [of st "[]" prefix t] by simp
  next
    case (Segment vs)
    have "\<not> starts_with (condensed prefix e) (CHR ''#'' # x)" for x
      using Cons.prems(2,3) Segment by (cases prefix) (auto simp: starts_with_def)
    then have "media_step (condensed prefix e) st = Some st" using Cons.prems by (simp add: media_step_def)
    then show ?thesis using Cons.IH [of st] Cons.prems Segment by simp
  qed
qed simp

lemma condensed_clean: "entry_ok prefix e \<Longrightarrow> clean_line (condensed prefix e)"
  by (cases e) auto

text \<open>
  C18. The translation of a condensed media playlist is undefined as soon as it has a segment: after the head
  line from which base address, names and prefix are read, the format that builds the address of a segment
  has the array it writes among its arguments, and so has the one that ends the line. A playlist with the
  head line and tags only is copied with success. Without the head line the tags are kept, the segments are
  dropped and the playlist is reported as an advertisement.
\<close>

theorem condensed_segment_is_undefined:
  assumes head: "clean_line line" "starts_with line ''#YT-EXT-CONDENSED-URL''"
      "getValue line ''BASE-URI'' [] = Some (int (length base), base)"
      "getValue line ''PARAMS'' [] = Some (int (length params), params)"
      "getValue line ''PREFIX'' [] = Some (int (length prefix), prefix)"
    and texts: "base \<noteq> []" "NUL \<notin> set base" "length base < 2048" "params \<noteq> []" "NUL \<notin> set params" "length params < 128"
      "prefix \<noteq> []" "NUL \<notin> set prefix" "length prefix < 32" "hd prefix \<noteq> CHR ''#''"
    and entries: "\<forall>e \<in> set es. entry_ok prefix e"
  shows "trans True line2 (as_text (line # map (condensed prefix) es)) False ids n
      = (if list_all is_tag es then Some (0, Some (as_text (map (condensed prefix) es)), ids) else None) \<and>
    trans True line2 (as_text (map (condensed prefix) es)) False ids n
      = Some (-1, Some (as_text (map (condensed prefix) (filter is_tag es))), ids)"
proof
  have c: "\<forall>l \<in> set (map (condensed prefix) es). clean_line l" using entries condensed_clean by auto
  have v: "get_value (replicate 2048 NUL) line ''BASE-URI'' = Some (int (length base), base @ replicate (2048 - length base) NUL)"
    "get_value (replicate 128 NUL) line ''PARAMS'' = Some (int (length params), params @ replicate (128 - length params) NUL)"
    "get_value (replicate 32 NUL) line ''PREFIX'' = Some (int (length prefix), prefix @ replicate (32 - length prefix) NUL)"
    by (rule get_value_fresh; use head texts in simp)+
  obtain st where st: "condensed_line line fresh_media = Some st" "c_str (hd_prefix st) 0 = prefix" "hd_flag st" "hd_out st = []"
    using v texts by (auto simp: condensed_line_def fresh_media_def Let_def)
  have "media_lines (as_text (line # map (condensed prefix) es)) fresh_media = media_run (map (condensed prefix) es) st"
    using media_lines_text [of "line # map (condensed prefix) es" fresh_media] c head(1,2) st(1) by (simp add: media_step_def Let_def)
  also have "\<dots> = (if list_all is_tag es then Some (st\<lparr>hd_out := hd_out st @ as_text (map (condensed prefix) es)\<rparr>) else None)"
    by (rule media_run_ready [OF st(2) texts(7,10) entries])
  finally show "trans True line2 (as_text (line # map (condensed prefix) es)) False ids n
      = (if list_all is_tag es then Some (0, Some (as_text (map (condensed prefix) es)), ids) else None)"
    using st(3,4) by (simp add: trans_def trans_media_def)
next
  have c: "\<forall>l \<in> set (map (condensed prefix) es). clean_line l" using entries condensed_clean by auto
  have "c_str (hd_prefix fresh_media) 0 = []" using c_str_padded [of "[]"] by (simp add: fresh_media_def)
  from media_run_plain [OF this texts(7,10) entries]
  have "media_lines (as_text (map (condensed prefix) es)) fresh_media
      = Some (fresh_media\<lparr>hd_out := as_text (map (condensed prefix) (filter is_tag es))\<rparr>)"
    by (simp add: media_lines_text [OF c]) (simp add: fresh_media_def)
  then show "trans True line2 (as_text (map (condensed prefix) es)) False ids n
      = Some (-1, Some (as_text (map (condensed prefix) (filter is_tag es))), ids)"
    by (simp add: trans_def trans_media_def) (simp add: fresh_media_def)
qed

theorem condensed_segment_is_undefined_witness:
  \<open>trans True [] (as_text [''#YT-EXT-CONDENSED-URL:BASE-URI="h:a",PARAMS="k,s",PREFIX="p"'', ''#EXTINF:5,'', ''p/1/2'']) False [] 1024 = None \<and>
   trans True [] (as_text [''#YT-EXT-CONDENSED-URL:BASE-URI="h:a",PARAMS="k,s",PREFIX="p"'', ''#EXTM3U'']) False [] 1024
     = Some (0, Some (as_text [''#EXTM3U'']), [])\<close>
proof -
  let ?l = \<open>''#YT-EXT-CONDENSED-URL:BASE-URI="h:a",PARAMS="k,s",PREFIX="p"''\<close>
  have v: "getValue ?l ''BASE-URI'' [] = Some (int (length ''h:a''), ''h:a'')"
    "getValue ?l ''PARAMS'' [] = Some (int (length ''k,s''), ''k,s'')"
    "getValue ?l ''PREFIX'' [] = Some (int (length ''p''), ''p'')"
    by code_simp+
  have l: "clean_line ?l" "starts_with ?l ''#YT-EXT-CONDENSED-URL''" by (simp_all add: clean_line_def starts_with_def)
  have e: "\<forall>e \<in> set [Tag ''#EXTINF:5,'', Segment [''1'', ''2'']]. entry_ok ''p'' e" "\<forall>e \<in> set [Tag ''#EXTM3U'']. entry_ok ''p'' e"
    by (simp_all add: clean_line_def starts_with_def)
  from condensed_segment_is_undefined [OF l v _ _ _ _ _ _ _ _ _ _ e(1), of "[]" "[]" 1024]
    condensed_segment_is_undefined [OF l v _ _ _ _ _ _ _ _ _ _ e(2), of "[]" "[]" 1024]
  show ?thesis by simp
qed

end
