(* ===== verification/Airplay.thy ===== *)
theory Airplay
  imports Hls Raop
begin

text \<open>
  The video server of \<open>libairplay/airplay/airplay.c\<close>: its global variables, one function per request handler,
  and its dispatcher. A handler maps the frame of a request to the next frame or to the error that ends the
  process. System calls, the player, the property list parsers and cryptography are the record \<open>air_world\<close>.
\<close>

section \<open>State\<close>

record air_globals =
  ag_session :: string          \<comment> \<open>\<open>m_sessionId\<close>, an array of 128\<close>
  ag_rate :: int
  ag_wait :: bool
  ag_ids :: string              \<comment> \<open>\<open>g_id_list\<close>, an array of 1024\<close>
  ag_position :: cfloat
  ag_device :: string           \<comment> \<open>\<open>deviceId\<close>\<close>
  ag_port_seted :: bool
  ag_event_port :: u16

record airplay =
  ap_hwaddr :: "byte list"
  ap_hwaddrlen :: nat
  ap_password :: string
  ap_pair_data :: air_pair

datatype air_event =
    PlaybackOpen "string option" cfloat cfloat   \<comment> \<open>\<open>url\<close>, \<open>fPosition\<close>, \<open>dPosition\<close>\<close>
  | PlaybackPlay
  | PlaybackPause
  | PlaybackStopped
  | PlaybackSeek int
  | FileWritten string string
  | EventSent string

record air_frame =
  x_globals :: air_globals
  x_airplay :: airplay
  x_response :: http_response
  x_body :: string
  x_events :: "air_event list"

record air_world =
  aw_asserts :: bool                       \<comment> \<open>whether the assertions of the property list library are compiled\<close>
  aw_from_bin :: "string \<Rightarrow> plist option option"
  aw_xml_to_bin :: "string \<Rightarrow> string"
  aw_crypto :: pair_crypto
  aw_aligned :: bool
  aw_seed :: "byte list"
  aw_keys :: "byte list \<times> byte list"
  aw_time :: string
  aw_duration :: int                       \<comment> \<open>what the player answers\<close>
  aw_position :: int
  aw_open :: "string \<Rightarrow> bool"               \<comment> \<open>whether \<open>open\<close> succeeds\<close>
  aw_line2 :: string                       \<comment> \<open>the content of the local array \<open>line2\<close> of \<open>trans\<close>\<close>
  aw_behind :: string                      \<comment> \<open>the memory behind a block of the heap\<close>
  aw_send :: "int list"                    \<comment> \<open>what the calls of \<open>send\<close> return\<close>
  aw_atof :: "string \<Rightarrow> cfloat"

type_synonym air_handler = "air_frame \<Rightarrow> raop_error + air_frame"

definition x_emit :: "air_event list \<Rightarrow> air_frame \<Rightarrow> air_frame" where
  "x_emit evs f = f\<lparr>x_events := x_events f @ evs\<rparr>"

definition x_upd :: "(air_globals \<Rightarrow> air_globals) \<Rightarrow> air_frame \<Rightarrow> air_frame" where
  "x_upd g f = f\<lparr>x_globals := g (x_globals f)\<rparr>"

definition of_response :: "resp_error + 'a \<Rightarrow> raop_error + 'a" where
  "of_response r = map_sum ResponseError id r"

definition x_headers :: "(string \<times> string) list \<Rightarrow> air_handler" where
  "x_headers hs f = ebind (of_response (add_headers (x_response f) hs)) (\<lambda>res. Inr (f\<lparr>x_response := res\<rparr>))"

definition x_set_body :: "string \<Rightarrow> air_frame \<Rightarrow> air_frame" where
  "x_set_body s f = f\<lparr>x_body := s\<rparr>"

section \<open>Pairing and information\<close>

definition request_handle_pairverify_airplay :: "air_world \<Rightarrow> http_request \<Rightarrow> air_handler" where
  "request_handle_pairverify_airplay w rq f =
     (let cx = (ap_pair_data (x_airplay f))\<lparr>pr_ed_pub := fst (aw_keys w), pr_ed_pri := snd (aw_keys w)\<rparr>;
          (cx, reply) = pair_verify (aw_crypto w) (aw_aligned w) (aw_seed w) (bytes_of (http_request_get_data rq)) cx;
          f = f\<lparr>x_airplay := (x_airplay f)\<lparr>ap_pair_data := cx\<rparr>\<rparr>
      in case reply of
           VerifyNull \<Rightarrow> Inl NullPointer
         | VerifyOutOfBounds \<Rightarrow> Inl OutOfBounds
         | Challenge bs \<Rightarrow> x_headers [(''Content-Type'', ''application/octet-stream'')] (x_set_body (chars_of bs) f)
         | Accepted \<Rightarrow> x_headers [(''Content-Type'', ''application/octet-stream'')] f
         | Rejected \<Rightarrow> x_headers [(''Connection'', ''close''), (''Content-Type'', ''application/octet-stream'')] f)"

definition server_info :: "string \<Rightarrow> string list" where
  "server_info device = [
     ''<key>deviceid</key>'', ''<string>'' @ device @ ''</string>'', ''<key>macAddress</key>'', ''<string>'' @ device @ ''</string>'',
     ''<key>features</key>'', ''<integer>10879</integer>'', ''<key>model</key>'', ''<string>AppleTV3,1</string>'',
     ''<key>protovers</key>'', ''<string>1.0</string>'', ''<key>srcvers</key>'', ''<string>200.54</string>'',
     ''<key>osBuildVersion</key>'', ''<string>11D258</string>'', ''<key>vv</key>'', ''<integer>2</integer>'']"

definition request_handle_serverinfo :: "air_handler" where
  "request_handle_serverinfo f = Inr (x_set_body (text_lines (plist_prolog @ server_info (ag_device (x_globals f)) @ plist_epilog)) f)"

definition set_property :: "string list" where
  "set_property = [''<key>errorCode</key>'', ''<integer>0</integer>'']"

definition request_handle_setProperty :: "air_world \<Rightarrow> http_request \<Rightarrow> air_handler" where
  "request_handle_setProperty w rq f =
     (if \<not> binary_plist rq then Inr f
      else if aw_from_bin w (http_request_get_data rq) = None then Inl Uninitialised
      else Inr (x_set_body (aw_xml_to_bin w (text_lines (plist_prolog @ set_property @ plist_epilog))) f))"

section \<open>Requests to the client\<close>

definition event_back :: "string \<Rightarrow> string \<Rightarrow> string list" where
  "event_back session url = [
     ''<key>request</key>'', ''<dict>'', ''<key>FCUP_Response_ClientInfo</key>'', ''<integer>0</integer>'',
     ''<key>FCUP_Response_ClientRef</key>'', ''<integer>0</integer>'', ''<key>FCUP_Response_Headers</key>'', ''<dict>'',
     ''<key>X-Playback-Session-Id</key>'', ''<string>'' @ session @ ''</string>'', ''</dict>'',
     ''<key>FCUP_Response_RequestID</key>'', ''<integer>0</integer>'', ''<key>FCUP_Response_URL</key>'',
     ''<string>'' @ url @ ''</string>'', ''<key>sessionID</key>'', ''<integer>0</integer>'', ''</dict>'',
     ''<key>sessionID</key>'', ''<integer>0</integer>'', ''<key>type</key>'', ''<string>unhandledURLRequest</string>'']"

fun transmitted :: "int list \<Rightarrow> string \<Rightarrow> string" where
  \<comment> \<open>the loop over \<open>send\<close>; with no answer left it blocks\<close>
  "transmitted [] text = []"
| "transmitted (r # rs) text =
     (if text = [] \<or> r = -1 then [] else take (nat r) text @ transmitted rs (drop (nat r) text))"

definition event_request :: "air_world \<Rightarrow> string \<Rightarrow> string \<Rightarrow> raop_error + string" where
  "event_request w session text =
     ebind (of_response (http_response_init_ex ''POST'' ''/event'' ''HTTP/1.1'')) (\<lambda>res.
     ebind (of_response (add_headers res [(''Content-Type'', ''text/x-apple-plist+xml''), (''X-Apple-Session-ID'', session),
              (''Server'', ''AirTunes/220.68''), (''Date'', aw_time w)])) (\<lambda>res.
     ebind (of_response (http_response_finish res text)) (\<lambda>res.
     of_response (http_response_get_data res))))"

definition request_handle_send_back :: "air_world \<Rightarrow> string \<Rightarrow> air_handler" where
  \<comment> \<open>with a URL, as in every call\<close>
  "request_handle_send_back w url f =
     (let session = ag_session (x_globals f);
          buffer = text_lines (plist_prolog @ event_back session url @ plist_epilog)
      in if length buffer \<ge> 16384 then Inl OutOfBounds
      else ebind (event_request w session buffer) (\<lambda>data.
        Inr (x_emit [EventSent (transmitted (aw_send w) data)] f)))"

section \<open>Playback\<close>

definition opened :: "string option \<Rightarrow> cfloat \<Rightarrow> cfloat \<Rightarrow> air_frame \<Rightarrow> air_frame" where
  "opened url fPosition dPosition f =
     x_upd (\<lambda>g. g\<lparr>ag_rate := 1, ag_wait := True\<rparr>) (x_emit [PlaybackOpen url fPosition dPosition] f)"

definition string_val :: "air_world \<Rightarrow> plist option \<Rightarrow> raop_error + string option" where
  \<comment> \<open>\<open>plist_get_string_val(node, &s)\<close> with \<open>s == NULL\<close>\<close>
  "string_val w node =
     (case plist_get_string_val node of
        Some s \<Rightarrow> Inr (Some s)
      | None \<Rightarrow> if aw_asserts w then Inl NullPointer else Inr None)"

definition real_val :: "air_world \<Rightarrow> plist option \<Rightarrow> raop_error + cfloat" where
  "real_val w node =
     (case plist_get_real_val node of
        Some v \<Rightarrow> Inr v
      | None \<Rightarrow> if aw_asserts w then Inl AssertionFails else Inr (Fin 0))"

definition play_url :: "air_world \<Rightarrow> string \<Rightarrow> cfloat \<Rightarrow> air_handler" where
  "play_url w url pos f =
     (let open_it = (\<lambda>f. Inr (opened (Some url) (Fin 0) (cfloat_times pos 1000) f));
          tail3 = drop (length url - 3) url
      in if starts_with url ''http://127.0.0.1'' then open_it f
      else if length url < 3 then Inl OutOfBounds
      else if tail3 = ''m4v'' \<or> tail3 = ''mp4'' then open_it f
      else if starts_with url ''mlhls://'' \<or> starts_with url ''nfhls://'' then
        ebind (request_handle_send_back w url (x_upd (\<lambda>g. g\<lparr>ag_ids := []\<rparr>) f)) (\<lambda>f.
          open_it (x_upd (\<lambda>g. g\<lparr>ag_position := pos\<rparr>) f))
      else open_it f)"

definition play_purchased :: "string option \<Rightarrow> string option \<Rightarrow> string option \<Rightarrow> cfloat \<Rightarrow> air_frame \<Rightarrow> air_frame" where
  "play_purchased type host path pos f =
     (case (type, host, path) of
        (Some t, Some h, Some p) \<Rightarrow>
          if starts_with t ''purchased'' \<and> \<not> starts_with h ''127.0.0.1''
          then opened (Some (''http://'' @ h @ p)) (Fin 0) (cfloat_times pos 1000) f else f
      | _ \<Rightarrow> f)"

definition play_plist :: "air_world \<Rightarrow> http_request \<Rightarrow> air_handler" where
  "play_plist w rq f =
     (case aw_from_bin w (http_request_get_data rq) of
        None \<Rightarrow> Inl Uninitialised
      | Some p_dict \<Rightarrow>
          ebind (string_val w (plist_dict_get_item p_dict ''itemType'')) (\<lambda>type.
          ebind (string_val w (plist_dict_get_item p_dict ''host'')) (\<lambda>host.
          ebind (string_val w (plist_dict_get_item p_dict ''path'')) (\<lambda>path.
          ebind (string_val w (plist_dict_get_item p_dict ''Content-Location'')) (\<lambda>url.
          ebind (real_val w (plist_dict_get_item p_dict ''Start-Position-Seconds'')) (\<lambda>pos.
            case url of
              Some url \<Rightarrow> play_url w url pos f
            | None \<Rightarrow> Inr (play_purchased type host path pos f)))))))"

definition play_text :: "air_world \<Rightarrow> http_request \<Rightarrow> air_handler" where
  \<comment> \<open>the body is no terminated string: the searches go on behind it\<close>
  "play_text w rq f =
     (let data = http_request_get_data rq
      in if data = [] then Inl NullPointer
      else if length data < 18 then Inl OutOfBounds
      else let text = c_str (drop 18 data @ aw_behind w) 0
      in case c_strstr text ''Start-Position'' of
           None \<Rightarrow> Inl NullPointer
         | Some p \<Rightarrow>
             if length p < 16 then Inl OutOfBounds
             else let skipped = dropWhile (\<lambda>c. c \<in> {CHR '' '', CR, LF}) text;
                      url = takeWhile (\<lambda>c. c \<notin> {CHR '' '', CR, LF}) skipped
             in Inr (opened (if url = [] then None else Some url) (aw_atof w (drop 16 p)) (Fin 0) f))"

definition request_handle_play :: "air_world \<Rightarrow> http_request \<Rightarrow> air_handler" where
  "request_handle_play w rq f = (if binary_plist rq then play_plist w rq f else play_text w rq f)"

definition request_handle_stop :: "air_handler" where
  "request_handle_stop f = Inr (x_emit [PlaybackStopped] f)"

definition url_from :: "http_request \<Rightarrow> nat \<Rightarrow> raop_error + string" where
  \<comment> \<open>\<open>http_request_get_url(request, 1) + n\<close>\<close>
  "url_from rq n =
     (case http_request_get_url rq 1 of
        Some (Some uri) \<Rightarrow> if length uri < n then Inl OutOfBounds else Inr (drop n uri)
      | _ \<Rightarrow> Inl NullPointer)"

definition request_handle_post_scrub :: "http_request \<Rightarrow> air_handler" where
  \<comment> \<open>\<open>atol\<close> gives 64 bits\<close>
  "request_handle_post_scrub rq f =
     ebind (url_from rq 16) (\<lambda>s.
       (let v = max (- (2 ^ 63)) (min (2 ^ 63 - 1) (c_atoi s)) * 1000
        in if v < - (2 ^ 63) \<or> v \<ge> 2 ^ 63 then Inl SignedOverflow else Inr (x_emit [PlaybackSeek v] f)))"

definition in_seconds :: "int \<Rightarrow> int" where
  \<comment> \<open>division of a \<open>long\<close> by 1000\<close>
  "in_seconds ms = (if ms < 0 then - (- ms div 1000) else ms div 1000)"

definition shown_position :: "air_world \<Rightarrow> air_frame \<Rightarrow> int" where
  "shown_position w f = in_seconds (aw_position w) + (if ag_rate (x_globals f) \<noteq> 0 then 1 else 0)"

definition request_handle_get_scrub :: "air_world \<Rightarrow> air_handler" where
  "request_handle_get_scrub w f =
     Inr (x_set_body (''duration: '' @ dec_int (in_seconds (aw_duration w)) @ CRLF @ ''position: '' @ dec_int (shown_position w f) @ CRLF) f)"

definition request_handle_rate :: "http_request \<Rightarrow> air_handler" where
  "request_handle_rate rq f =
     (if ag_wait (x_globals f) then Inr (x_upd (\<lambda>g. g\<lparr>ag_wait := False\<rparr>) f)
      else ebind (url_from rq 12) (\<lambda>s.
        (let r = c_strtol s; f = x_upd (\<lambda>g. g\<lparr>ag_rate := r\<rparr>) f
         in Inr (x_emit [if r \<noteq> 0 then PlaybackPlay else PlaybackPause] f))))"

definition playback_info :: "int \<Rightarrow> int \<Rightarrow> int \<Rightarrow> string list" where
  "playback_info duration position rate = (let T = CHR 0x09; tab2 = [T, T]; tab3 = [T, T, T]; d = ''<real>'' @ dec_int duration @ ''</real>''
   in [''<key>duration</key>'', d, ''<key>loadedTimeRanges</key>'', ''<array>'', tab2 @ ''<dict>'',
     tab3 @ ''<key>duration</key>'', tab3 @ d, tab3 @ ''<key>start</key>'', tab3 @ ''<real>0.0</real>'', tab2 @ ''</dict>'', ''</array>'',
     ''<key>playbackBufferEmpty</key>'', ''<true/>'', ''<key>playbackBufferFull</key>'', ''<false/>'',
     ''<key>playbackLikelyToKeepUp</key>'', ''<true/>'', ''<key>position</key>'', ''<real>'' @ dec_int position @ ''</real>'',
     ''<key>rate</key>'', ''<real>'' @ dec_int rate @ ''</real>'', ''<key>readyToPlay</key>'', ''<true/>'',
     ''<key>seekableTimeRanges</key>'', ''<array>'', tab2 @ ''<dict>'',
     tab3 @ ''<key>duration</key>'', tab3 @ d, tab3 @ ''<key>start</key>'', tab3 @ ''<real>0.0</real>'', tab2 @ ''</dict>'', ''</array>''])"

definition request_handle_playback_info :: "air_world \<Rightarrow> air_handler" where
  "request_handle_playback_info w f =
     Inr (x_set_body (aw_xml_to_bin w (text_lines (plist_prolog
       @ playback_info (in_seconds (aw_duration w)) (shown_position w f) (ag_rate (x_globals f)) @ plist_epilog))) f)"

section \<open>Playlists of the client\<close>

definition run_trans :: "air_world \<Rightarrow> byte list option \<Rightarrow> string \<Rightarrow> bool \<Rightarrow> air_frame \<Rightarrow> raop_error + int \<times> air_frame" where
  \<comment> \<open>the list is a block of the heap without a terminator; what is undefined in \<open>trans\<close> is undefined here\<close>
  "run_trans w data path isMaster f =
     (case data of
        None \<Rightarrow> if aw_open w path then Inl NullPointer else Inr (0, f)
      | Some bs \<Rightarrow>
          (case trans (aw_open w path) (aw_line2 w) (c_str (chars_of bs @ aw_behind w) 0) isMaster (ag_ids (x_globals f)) 1024 of
             None \<Rightarrow> Inl OutOfBounds
           | Some (ret, file, ids) \<Rightarrow>
               Inr (ret, x_upd (\<lambda>g. g\<lparr>ag_ids := ids\<rparr>)
                 (x_emit (case file of None \<Rightarrow> [] | Some text \<Rightarrow> [FileWritten path text]) f))))"

definition request_first :: "air_world \<Rightarrow> air_handler" where
  \<comment> \<open>the media playlist of the first group of \<open>g_id_list\<close>\<close>
  "request_first w f =
     (let ids = ag_ids (x_globals f)
      in if ids = [] then Inr f
      else if length ids \<ge> 128 then Inl OutOfBounds
      else request_handle_send_back w (remote_url (takeWhile (\<lambda>c. c \<noteq> CHR ''#'') ids)) f)"

definition last_id :: "string \<Rightarrow> string" where
  \<comment> \<open>\<open>strrchr(g_id_list, '#') + 1\<close>\<close>
  "last_id ids = rev (takeWhile (\<lambda>c. c \<noteq> CHR ''#'') (rev ids))"

definition media_response :: "air_world \<Rightarrow> byte list option \<Rightarrow> string \<Rightarrow> air_handler" where
  "media_response w data url f =
     (if CHR ''#'' \<notin> set (ag_ids (x_globals f)) then Inr f
      else case c_strstr url ''mlhls://localhost/itag/'' of
           None \<Rightarrow> Inl NullPointer
         | Some p \<Rightarrow>
             (let p = drop 23 p; g_id = takeWhile (\<lambda>c. c \<noteq> CHR ''/'') p
              in if CHR ''/'' \<notin> set p \<or> g_id = [] then Inr f
              else if length g_id > 128 then Inl OutOfBounds
              else if length g_id = 128 then Inl OutOfBounds
              else ebind (run_trans w data (''/mnt/ram0/'' @ g_id @ ''_mediadata.m3u8'') False f) (\<lambda>(ret, f).
                if ret = 0 then
                  (let p_last = last_id (ag_ids (x_globals f))
                   in if starts_with g_id p_last
                   then Inr (opened (Some ''http://localhost/itag/master.m3u8'') (Fin 0) (ag_position (x_globals f)) f)
                   else if length (remote_url p_last) \<ge> 256 then Inl OutOfBounds
                   else request_handle_send_back w (remote_url p_last) f)
                else request_handle_send_back w ''mlhls://localhost/itag/master.m3u8'' f)))"

definition playlist_response :: "air_world \<Rightarrow> plist option \<Rightarrow> air_handler" where
  "playlist_response w p_dict f =
     (let params = plist_dict_get_item p_dict ''params'';
          data = plist_get_data_val (plist_dict_get_item params ''FCUP_Response_Data'') None
      in ebind (string_val w (plist_dict_get_item params ''FCUP_Response_URL'')) (\<lambda>url.
        case url of
          None \<Rightarrow> Inr f
        | Some url \<Rightarrow>
            if c_strstr url ''master.m3u8'' \<noteq> None then
              ebind (run_trans w data ''/mnt/ram0/master.m3u8'' True f) (\<lambda>(_, f). request_first w f)
            else if c_strstr url ''index.m3u8'' \<noteq> None then
              ebind (run_trans w data ''/mnt/ram0/index.m3u8'' True f) (\<lambda>(_, f). request_first w f)
            else if c_strstr url ''mediadata.m3u8'' \<noteq> None then media_response w data url f
            else Inr f))"

definition request_handle_action :: "air_world \<Rightarrow> http_request \<Rightarrow> air_handler" where
  \<comment> \<open>without a property list \<open>plist_free\<close> gets an uninitialised pointer\<close>
  "request_handle_action w rq f =
     (if \<not> binary_plist rq then Inl Uninitialised
      else case aw_from_bin w (http_request_get_data rq) of
          None \<Rightarrow> Inl Uninitialised
        | Some p_dict \<Rightarrow>
            ebind (string_val w (plist_dict_get_item p_dict ''type'')) (\<lambda>type.
              case type of
                None \<Rightarrow> Inl NullPointer
              | Some t \<Rightarrow>
                  if starts_with t ''playlistRemove'' then Inr f
                  else if starts_with t ''unhandledURLResponse'' then playlist_response w p_dict f
                  else Inr f))"

section \<open>The dispatcher\<close>

definition x_set_property :: "air_world \<Rightarrow> http_request \<Rightarrow> string \<Rightarrow> air_handler" where
  "x_set_property w rq uri f =
     (if uri = ''/setProperty?textMarkupArray'' then Inr f
      else ebind (request_handle_setProperty w rq f) (\<lambda>f.
           ebind (x_headers [(''Content-Type'', ''application/x-apple-binary-plist'')] f) (\<lambda>f.
             (let session = ag_session (x_globals f)
              in if uri \<noteq> ''/setProperty?selectedMediaArray'' \<and> session \<noteq> []
              then x_headers [(''X-Apple-Session-ID'', session)] f else Inr f))))"

definition x_reverse :: "air_handler" where
  "x_reverse f = ebind (x_headers [(''Upgrade'', ''PTTH/1.0''), (''Connection'', ''Upgrade'')] f) (\<lambda>f.
     Inr (f\<lparr>x_response := http_response_set_flag (x_response f) 3\<rparr>))"

definition air_handle :: "air_world \<Rightarrow> http_request \<Rightarrow> string \<Rightarrow> string \<Rightarrow> air_handler" where
  "air_handle w rq m uri =
     (if m = ''POST'' \<and> uri = ''/pair-verify'' then request_handle_pairverify_airplay w rq
      else if m = ''GET'' \<and> uri = ''/server-info'' then request_handle_serverinfo
      else if m = ''POST'' \<and> uri = ''/play'' then request_handle_play w rq
      else if m = ''POST'' \<and> uri = ''/stop'' then request_handle_stop
      else if m = ''POST'' \<and> starts_with uri ''/scrub'' then request_handle_post_scrub rq
      else if m = ''GET'' \<and> starts_with uri ''/scrub'' then request_handle_get_scrub w
      else if m = ''POST'' \<and> starts_with uri ''/rate'' then request_handle_rate rq
      else if m = ''GET'' \<and> uri = ''/playback-info'' then request_handle_playback_info w
      else if m = ''POST'' \<and> uri = ''/action'' then request_handle_action w rq
      else if m = ''PUT'' \<and> starts_with uri ''/setProperty'' then x_set_property w rq uri
      else if m = ''POST'' \<and> uri = ''/reverse'' then x_reverse
      else Inr)"

definition x_finish :: "air_handler" where
  "x_finish f = ebind (of_response (http_response_finish (x_response f) (x_body f))) (\<lambda>res. Inr (f\<lparr>x_response := res\<rparr>))"

definition air_new :: "string option \<Rightarrow> air_globals \<Rightarrow> airplay \<Rightarrow> air_frame" where
  \<comment> \<open>with the session identifier of the request stored\<close>
  "air_new sessionId g airplay =
     \<lparr>x_globals = (case sessionId of None \<Rightarrow> g | Some s \<Rightarrow> g\<lparr>ag_session := s\<rparr>), x_airplay = airplay,
      x_response = fresh_response, x_body = [], x_events = []\<rparr>"

definition air_respond :: "air_world \<Rightarrow> http_request \<Rightarrow> string \<Rightarrow> string \<Rightarrow> air_handler" where
  "air_respond w rq m uri f =
     ebind (of_response (if m = ''POST'' \<and> uri = ''/reverse'' then http_response_init ''HTTP/1.1'' 101 ''Switching Protocols''
                         else http_response_init ''HTTP/1.1'' 200 ''OK'')) (\<lambda>res.
     ebind (air_handle w rq m uri (f\<lparr>x_response := res\<rparr>)) (\<lambda>f.
     ebind (if uri = ''/reverse'' then Inr f
            else x_headers [(''Server'', ''AirTunes/220.68''), (''Date'', aw_time w)] f) x_finish))"

definition airplay_conn_request :: "air_world \<Rightarrow> http_request \<Rightarrow> int \<Rightarrow> air_globals \<Rightarrow> airplay \<Rightarrow> raop_error + air_globals \<times> air_frame option" where
  \<comment> \<open>the global variables; \<open>None\<close>: no response is stored\<close>
  "airplay_conn_request w rq index g airplay =
     (case http_request_get_url rq index of
        None \<Rightarrow> Inl NullPointer
      | Some uri \<Rightarrow>
          (let sessionId = http_request_get_header rq ''X-Apple-Session-ID'' 1
           in if (\<exists>s. sessionId = Some s \<and> length s \<ge> 128) then Inl OutOfBounds
           else let f = air_new sessionId g airplay
           in case (http_request_get_method rq, uri) of
                (None, _) \<Rightarrow> Inr (x_globals f, None)
              | (Some m, None) \<Rightarrow> Inl NullPointer
              | (Some m, Some uri) \<Rightarrow> ebind (air_respond w rq m uri f) (\<lambda>f. Inr (x_globals f, Some f))))"

section \<open>Start\<close>

definition airplay_conn_init :: "bool \<Rightarrow> byte list \<Rightarrow> u32 \<Rightarrow> string option" where
  \<comment> \<open>the nonce of the new connection\<close>
  "airplay_conn_init calloc_ok mem time =
     (if \<not> calloc_ok then None else map_option (\<lambda>s. c_str s 0) (digest_generate_nonce mem time 33))"

definition airplay_init :: "nat \<Rightarrow> bool \<Rightarrow> bool \<Rightarrow> callbacks \<Rightarrow> bool \<Rightarrow> bool list \<Rightarrow> bool \<Rightarrow> raop_error + airplay option" where
  \<comment> \<open>as \<open>raop_init\<close>, with the results of three \<open>httpd_init\<close>\<close>
  "airplay_init max_clients net_ok audio_init callbacks calloc_ok httpd_ok key_ok =
     (if \<not> (0 < max_clients \<and> max_clients < 100) then Inl AssertionFails
      else if \<not> net_ok \<or> \<not> (audio_init \<and> cb_process callbacks \<and> cb_destroy callbacks) \<or> \<not> calloc_ok
              \<or> \<not> list_all id httpd_ok \<or> \<not> key_ok then Inr None
      else Inr (Some \<lparr>ap_hwaddr = replicate 6 0, ap_hwaddrlen = 0, ap_password = [], ap_pair_data = zero_pair\<rparr>))"

fun start_servers :: "int list \<Rightarrow> int" where
  \<comment> \<open>\<open>httpd_start\<close> of the three servers with these answers\<close>
  "start_servers [] = 0"
| "start_servers [r] = r"
| "start_servers (r # rs) = (if r < 0 then r else start_servers rs)"

definition airplay_start ::
    "int list \<Rightarrow> byte list \<Rightarrow> nat \<Rightarrow> string option \<Rightarrow> air_globals \<Rightarrow> airplay \<Rightarrow> raop_error + int \<times> air_globals \<times> airplay" where
  \<comment> \<open>\<open>hwaddr\<close> is the memory it addresses, of which six bytes are always read\<close>
  "airplay_start httpd hwaddr hwaddrlen password g airplay =
     (if length hwaddr < 6 then Inl OutOfBounds
      else let device = hex2_upper (hwaddr ! 0) @ '':'' @ hex2_upper (hwaddr ! 1) @ '':'' @ hex2_upper (hwaddr ! 2) @ '':''
                 @ hex2_upper (hwaddr ! 3) @ '':'' @ hex2_upper (hwaddr ! 4) @ '':'' @ hex2_upper (hwaddr ! 5);
               g = g\<lparr>ag_device := device, ag_event_port := (if ag_port_seted g then 55557 else 55556),
                     ag_port_seted := \<not> ag_port_seted g\<rparr>
      in if hwaddrlen > 6 then Inr (-1, g, airplay)
      else let airplay = airplay\<lparr>ap_password := []\<rparr>
      in if (\<exists>pw. password = Some pw \<and> length pw > 64) then Inr (-1, g, airplay)
      else Inr (start_servers httpd, g,
             airplay\<lparr>ap_password := (case password of None \<Rightarrow> [] | Some pw \<Rightarrow> pw),
                     ap_hwaddr := write_at 0 (take hwaddrlen hwaddr) (ap_hwaddr airplay), ap_hwaddrlen := hwaddrlen\<rparr>))"

end
