(* ===== verification/Airplay_Properties.thy ===== *)
theory Airplay_Properties
  imports Airplay Raop_State
begin

text \<open>
  What the request handlers of the video server keep: the frame of each edit, which handlers open a video, and
  that every one that does leaves the rate at 1 and the next rate command ignored.
\<close>

section \<open>Edits\<close>

lemma x_headers_frame:
  assumes "x_headers hs f = Inr f'"
  shows "x_globals f' = x_globals f" "x_airplay f' = x_airplay f" "x_events f' = x_events f" "x_body f' = x_body f"
  using assms by (auto simp: x_headers_def)

lemma x_finish_frame:
  assumes "x_finish f = Inr f'"
  shows "x_globals f' = x_globals f" "x_airplay f' = x_airplay f" "x_events f' = x_events f" "x_body f' = x_body f"
  using assms by (auto simp: x_finish_def)

lemma x_edits [simp]:
  "x_globals (x_emit evs f) = x_globals f" "x_airplay (x_emit evs f) = x_airplay f" "x_events (x_emit evs f) = x_events f @ evs"
  "x_globals (x_upd g f) = g (x_globals f)" "x_airplay (x_upd g f) = x_airplay f" "x_events (x_upd g f) = x_events f"
  "x_globals (x_set_body s f) = x_globals f" "x_airplay (x_set_body s f) = x_airplay f" "x_events (x_set_body s f) = x_events f"
  "x_events (opened u p d f) = x_events f @ [PlaybackOpen u p d]" "x_airplay (opened u p d f) = x_airplay f"
  "x_globals (opened u p d f) = (x_globals f)\<lparr>ag_rate := 1, ag_wait := True\<rparr>"
  by (simp_all add: x_emit_def x_upd_def x_set_body_def opened_def)

lemma send_back_frame:
  assumes "request_handle_send_back w url f = Inr f'"
  shows "x_globals f' = x_globals f" "x_airplay f' = x_airplay f" "\<exists>s. x_events f' = x_events f @ [EventSent s]"
  using assms by (auto simp: request_handle_send_back_def Let_def split: if_splits)

definition opens :: "air_event list \<Rightarrow> bool" where
  "opens evs \<longleftrightarrow> (\<exists>u p d. PlaybackOpen u p d \<in> set evs)"

lemma opens_append [simp]: "opens (xs @ ys) \<longleftrightarrow> opens xs \<or> opens ys" "\<not> opens []" "opens [PlaybackOpen u p d]"
  "\<not> opens [EventSent s]" "\<not> opens [PlaybackSeek v]" "\<not> opens [PlaybackPlay]" "\<not> opens [PlaybackPause]" "\<not> opens [PlaybackStopped]"
  "\<not> opens [FileWritten path text]"
  by (auto simp: opens_def)

lemma run_trans_frame:
  assumes "run_trans w data path master f = Inr (ret, f')"
  shows "x_airplay f' = x_airplay f" "\<exists>ids. x_globals f' = (x_globals f)\<lparr>ag_ids := ids\<rparr>"
    "\<exists>evs. x_events f' = x_events f @ evs \<and> \<not> opens evs"
proof -
  have "f' = f \<or> (\<exists>ids evs. f' = x_upd (\<lambda>g. g\<lparr>ag_ids := ids\<rparr>) (x_emit evs f) \<and> \<not> opens evs)"
  proof (cases data)
    case None
    then show ?thesis using assms by (simp add: run_trans_def split: if_splits)
  next
    case (Some bs)
    then obtain out ids where "f' = x_upd (\<lambda>g. g\<lparr>ag_ids := ids\<rparr>) (x_emit (case out of None \<Rightarrow> [] | Some text \<Rightarrow> [FileWritten path text]) f)"
      using assms by (auto simp: run_trans_def split: option.splits)
    moreover have "\<not> opens (case out of None \<Rightarrow> [] | Some text \<Rightarrow> [FileWritten path text])" by (cases out) simp_all
    ultimately show ?thesis by blast
  qed
  then show "x_airplay f' = x_airplay f" "\<exists>ids. x_globals f' = (x_globals f)\<lparr>ag_ids := ids\<rparr>"
    "\<exists>evs. x_events f' = x_events f @ evs \<and> \<not> opens evs"
  proof (atomize (full), elim disjE exE conjE)
    assume e: "f' = f"
    have "x_globals f = (x_globals f)\<lparr>ag_ids := ag_ids (x_globals f)\<rparr>" by simp
    moreover have "x_events f = x_events f @ []" "\<not> opens []" by simp_all
    ultimately show "x_airplay f' = x_airplay f \<and> (\<exists>ids. x_globals f' = (x_globals f)\<lparr>ag_ids := ids\<rparr>) \<and>
        (\<exists>evs. x_events f' = x_events f @ evs \<and> \<not> opens evs)" unfolding e by blast
  next
    fix ids evs
    assume "f' = x_upd (\<lambda>g. g\<lparr>ag_ids := ids\<rparr>) (x_emit evs f)" "\<not> opens evs"
    then show "x_airplay f' = x_airplay f \<and> (\<exists>ids. x_globals f' = (x_globals f)\<lparr>ag_ids := ids\<rparr>) \<and>
        (\<exists>evs. x_events f' = x_events f @ evs \<and> \<not> opens evs)" by simp blast
  qed
qed

section \<open>The first command after opening\<close>

definition waits :: "air_handler \<Rightarrow> bool" where
  \<comment> \<open>a handler that opens a video leaves the rate at 1 and the next command ignored\<close>
  "waits h \<longleftrightarrow> (\<forall>f f'. h f = Inr f' \<longrightarrow> opens (x_events f') \<longrightarrow> \<not> opens (x_events f) \<longrightarrow>
     ag_wait (x_globals f') \<and> ag_rate (x_globals f') = 1)"

lemma send_back_opens: "request_handle_send_back w url f = Inr f' \<Longrightarrow> opens (x_events f') \<longleftrightarrow> opens (x_events f)"
  using send_back_frame(3) by fastforce

lemma run_trans_opens: "run_trans w data path master f = Inr (ret, f') \<Longrightarrow> opens (x_events f') \<longleftrightarrow> opens (x_events f)"
  using run_trans_frame(3) [of w data path master f ret f'] by auto

lemma waits_quiet: "(\<And>f f'. h f = Inr f' \<Longrightarrow> opens (x_events f') \<longleftrightarrow> opens (x_events f)) \<Longrightarrow> waits h"
  by (simp add: waits_def)

lemma waits_play: "waits (request_handle_play w rq)"
proof -
  have u: "opens (x_events f') \<longrightarrow> \<not> opens (x_events f) \<longrightarrow> ag_wait (x_globals f') \<and> ag_rate (x_globals f') = 1"
    if "play_url w url pos f = Inr f'" for url pos f f'
    using that by (auto simp: play_url_def Let_def split: if_splits)
  have p: "opens (x_events (play_purchased t h pa pos f)) \<longrightarrow> \<not> opens (x_events f) \<longrightarrow>
      ag_wait (x_globals (play_purchased t h pa pos f)) \<and> ag_rate (x_globals (play_purchased t h pa pos f)) = 1" for t h pa pos f
    by (auto simp: play_purchased_def split: option.splits)
  show ?thesis unfolding waits_def
  proof (intro allI impI)
    fix f f'
    assume h: "request_handle_play w rq f = Inr f'" "opens (x_events f')" "\<not> opens (x_events f)"
    show "ag_wait (x_globals f') \<and> ag_rate (x_globals f') = 1"
    proof (cases "binary_plist rq")
      case True
      then obtain t h' pa url pos where "f' = play_purchased t h' pa pos f \<or> play_url w url pos f = Inr f'"
        using h(1) by (fastforce simp: request_handle_play_def play_plist_def split: option.splits)
      then show ?thesis using u p h(2,3) by blast
    next
      case False
      then show ?thesis using h by (auto simp: request_handle_play_def play_text_def Let_def split: option.splits if_splits)
    qed
  qed
qed

lemma waits_media_response: "waits (media_response w data url)"
  unfolding waits_def
proof (intro allI impI)
  fix f f'
  assume h: "media_response w data url f = Inr f'" "opens (x_events f')" "\<not> opens (x_events f)"
  then have "f' \<noteq> f" by auto
  then obtain path ret f1 u where s: "run_trans w data path False f = Inr (ret, f1)"
    "f' = opened (Some ''http://localhost/itag/master.m3u8'') (Fin 0) (ag_position (x_globals f1)) f1 \<or> request_handle_send_back w u f1 = Inr f'"
    using h(1) by (auto simp: media_response_def Let_def split: if_splits option.splits)
  then show "ag_wait (x_globals f') \<and> ag_rate (x_globals f') = 1"
    using h(2,3) run_trans_opens [OF s(1)] send_back_opens [of w u f1 f'] by auto
qed

lemma request_first_opens: "request_first w f = Inr f' \<Longrightarrow> opens (x_events f') \<longleftrightarrow> opens (x_events f)"
  by (auto simp: request_first_def Let_def dest: send_back_opens split: if_splits)

lemma playlist_response_steps:
  assumes "playlist_response w p f = Inr f'"
  shows "f' = f \<or> (\<exists>data path ret f1. run_trans w data path True f = Inr (ret, f1) \<and> request_first w f1 = Inr f') \<or>
    (\<exists>data url. media_response w data url f = Inr f')"
proof -
  obtain url where "string_val w (plist_dict_get_item (plist_dict_get_item p ''params'') ''FCUP_Response_URL'') = Inr url"
    using assms by (auto simp: playlist_response_def Let_def)
  note e = assms [unfolded playlist_response_def Let_def this ebind.simps]
  show ?thesis
  proof (cases url)
    case None
    then show ?thesis using e by simp
  next
    case (Some u)
    then show ?thesis using e by (simp split: if_splits prod.splits) blast+
  qed
qed

lemma waits_action: "waits (request_handle_action w rq)"
  unfolding waits_def
proof (intro allI impI)
  fix f f'
  assume h: "request_handle_action w rq f = Inr f'" "opens (x_events f')" "\<not> opens (x_events f)"
  then have "f' \<noteq> f" by auto
  then obtain p where p: "playlist_response w p f = Inr f'"
    using h(1) by (auto simp: request_handle_action_def split: if_splits option.splits)
  show "ag_wait (x_globals f') \<and> ag_rate (x_globals f') = 1"
    using playlist_response_steps [OF p] \<open>f' \<noteq> f\<close>
  proof (elim disjE exE conjE)
    fix data path ret f1
    assume r: "run_trans w data path True f = Inr (ret, f1)" "request_first w f1 = Inr f'"
    then have "opens (x_events f')\<longleftrightarrow> opens (x_events f)" using run_trans_opens request_first_opens by blast
    then show ?thesis using h(2,3) by simp
  next
    fix data url
    assume "media_response w data url f = Inr f'"
    then show ?thesis using waits_media_response h(2,3) unfolding waits_def by blast
  qed simp
qed

lemma waits_handle: "waits (air_handle w rq m uri)"
proof -
  have q: "waits (request_handle_pairverify_airplay w rq)" "waits request_handle_serverinfo" "waits request_handle_stop"
    "waits (request_handle_post_scrub rq)" "waits (request_handle_get_scrub w)" "waits (request_handle_rate rq)"
    "waits (request_handle_playback_info w)" "waits (x_set_property w rq uri)" "waits x_reverse" "waits Inr"
    by (rule waits_quiet; auto simp: request_handle_pairverify_airplay_def request_handle_serverinfo_def request_handle_stop_def
        request_handle_post_scrub_def request_handle_get_scrub_def request_handle_rate_def request_handle_playback_info_def
        x_set_property_def x_reverse_def request_handle_setProperty_def x_headers_frame Let_def
        split: prod.splits verify_reply.splits if_splits)+
  show ?thesis unfolding air_handle_def using q waits_play [of w rq] waits_action [of w rq] by (simp split: if_split)
qed

definition steady :: "air_handler \<Rightarrow> bool" where
  \<comment> \<open>a handler that leaves flag and rate alone unless it opens a video\<close>
  "steady h \<longleftrightarrow> (\<forall>f f'. h f = Inr f' \<longrightarrow>
     ag_wait (x_globals f') = ag_wait (x_globals f) \<and> ag_rate (x_globals f') = ag_rate (x_globals f) \<or>
     ag_wait (x_globals f') \<and> ag_rate (x_globals f') = 1 \<and> opens (x_events f'))"

lemma steady_same: "(\<And>f f'. h f = Inr f' \<Longrightarrow> x_globals f' = x_globals f) \<Longrightarrow> steady h"
  by (simp add: steady_def)

lemma run_trans_steady:
  "run_trans w data path master f = Inr (ret, f') \<Longrightarrow> ag_wait (x_globals f') = ag_wait (x_globals f) \<and> ag_rate (x_globals f') = ag_rate (x_globals f)"
  using run_trans_frame(2) [of w data path master f ret f'] by auto

lemma steady_play: "steady (request_handle_play w rq)"
proof -
  have u: "ag_wait (x_globals f') \<and> ag_rate (x_globals f') = 1 \<and> opens (x_events f')" if "play_url w url pos f = Inr f'" for url pos f f'
    using that by (auto simp: play_url_def Let_def split: if_splits)
  have p: "play_purchased t h pa pos f = f \<or> (ag_wait (x_globals (play_purchased t h pa pos f)) \<and>
      ag_rate (x_globals (play_purchased t h pa pos f)) = 1 \<and> opens (x_events (play_purchased t h pa pos f)))" for t h pa pos f
    by (auto simp: play_purchased_def split: option.splits)
  show ?thesis unfolding steady_def
  proof (intro allI impI)
    fix f f'
    assume h: "request_handle_play w rq f = Inr f'"
    have "f' = f \<or> ag_wait (x_globals f') \<and> ag_rate (x_globals f') = 1 \<and> opens (x_events f')"
    proof (cases "binary_plist rq")
      case True
      then obtain t h' pa url pos where "f' = play_purchased t h' pa pos f \<or> play_url w url pos f = Inr f'"
        using h by (fastforce simp: request_handle_play_def play_plist_def split: option.splits)
      then show ?thesis using u p by blast
    next
      case False
      then show ?thesis using h by (auto simp: request_handle_play_def play_text_def Let_def split: option.splits if_splits)
    qed
    then show "ag_wait (x_globals f') = ag_wait (x_globals f) \<and> ag_rate (x_globals f') = ag_rate (x_globals f) \<or>
      ag_wait (x_globals f') \<and> ag_rate (x_globals f') = 1 \<and> opens (x_events f')" by blast
  qed
qed

lemma steady_media_response: "steady (media_response w data url)"
  unfolding steady_def
proof (intro allI impI)
  fix f f'
  assume h: "media_response w data url f = Inr f'"
  then obtain path ret f1 u where "f' = f \<or> run_trans w data path False f = Inr (ret, f1) \<and>
    (f' = opened (Some ''http://localhost/itag/master.m3u8'') (Fin 0) (ag_position (x_globals f1)) f1 \<or> request_handle_send_back w u f1 = Inr f')"
    by (auto simp: media_response_def Let_def split: if_splits option.splits)
  then show "ag_wait (x_globals f') = ag_wait (x_globals f) \<and> ag_rate (x_globals f') = ag_rate (x_globals f) \<or>
      ag_wait (x_globals f') \<and> ag_rate (x_globals f') = 1 \<and> opens (x_events f')"
    using run_trans_steady [of w data path False f ret f1] send_back_frame(1) [of w u f1 f'] by auto
qed

lemma steady_action: "steady (request_handle_action w rq)"
  unfolding steady_def
proof (intro allI impI)
  fix f f'
  assume h: "request_handle_action w rq f = Inr f'"
  then consider "f' = f" | p where "playlist_response w p f = Inr f'"
    by (auto simp: request_handle_action_def split: if_splits option.splits)
  then show "ag_wait (x_globals f') = ag_wait (x_globals f) \<and> ag_rate (x_globals f') = ag_rate (x_globals f) \<or>
      ag_wait (x_globals f') \<and> ag_rate (x_globals f') = 1 \<and> opens (x_events f')"
  proof cases
    case 2
    from playlist_response_steps [OF 2] show ?thesis
    proof (elim disjE exE conjE)
      fix data path ret f1
      assume r: "run_trans w data path True f = Inr (ret, f1)" "request_first w f1 = Inr f'"
      have "x_globals f' = x_globals f1" using r(2) by (auto simp: request_first_def Let_def dest: send_back_frame split: if_splits)
      then show ?thesis using run_trans_steady [OF r(1)] by simp
    next
      fix data url
      assume "media_response w data url f = Inr f'"
      then show ?thesis using steady_media_response unfolding steady_def by blast
    qed simp
  qed simp
qed

lemma steady_handle: "\<not> (m = ''POST'' \<and> starts_with uri ''/rate'') \<Longrightarrow> steady (air_handle w rq m uri)"
proof -
  assume n: "\<not> (m = ''POST'' \<and> starts_with uri ''/rate'')"
  have q: "steady (request_handle_pairverify_airplay w rq)" "steady request_handle_serverinfo" "steady request_handle_stop"
    "steady (request_handle_post_scrub rq)" "steady (request_handle_get_scrub w)"
    "steady (request_handle_playback_info w)" "steady (x_set_property w rq uri)" "steady x_reverse" "steady Inr"
    by (rule steady_same; auto simp: request_handle_pairverify_airplay_def request_handle_serverinfo_def request_handle_stop_def
        request_handle_post_scrub_def request_handle_get_scrub_def request_handle_playback_info_def
        x_set_property_def x_reverse_def request_handle_setProperty_def x_headers_frame Let_def
        split: prod.splits verify_reply.splits if_splits)+
  show ?thesis unfolding air_handle_def if_not_P [OF n] using q steady_play [of w rq] steady_action [of w rq] by (simp split: if_split)
qed

lemma air_respond_steps:
  assumes "air_respond w rq m uri f = Inr f'"
  obtains res f2 where "air_handle w rq m uri (f\<lparr>x_response := res\<rparr>) = Inr f2" "x_globals f' = x_globals f2"
    "x_airplay f' = x_airplay f2" "x_events f' = x_events f2" "x_body f' = x_body f2"
proof -
  obtain res f2 f3 where s: "air_handle w rq m uri (f\<lparr>x_response := res\<rparr>) = Inr f2"
    "(if uri = ''/reverse'' then Inr f2 else x_headers [(''Server'', ''AirTunes/220.68''), (''Date'', aw_time w)] f2) = Inr f3" "x_finish f3 = Inr f'"
    using assms by (auto simp: air_respond_def)
  then show ?thesis using that [OF s(1)] x_finish_frame [OF s(3)] by (auto simp: x_headers_frame split: if_splits)
qed

lemma air_request_steps:
  assumes "airplay_conn_request w rq index g a = Inr (g', Some f')"
  obtains m uri res f2 where "http_request_get_method rq = Some m" "http_request_get_url rq index = Some (Some uri)"
    "air_handle w rq m uri (air_new (http_request_get_header rq ''X-Apple-Session-ID'' 1) g a\<lparr>x_response := res\<rparr>) = Inr f2"
    "\<forall>s. http_request_get_header rq ''X-Apple-Session-ID'' 1 = Some s \<longrightarrow> length s < 128"
    "g' = x_globals f2" "x_globals f' = x_globals f2" "x_airplay f' = x_airplay f2" "x_events f' = x_events f2"
proof -
  let ?f = "air_new (http_request_get_header rq ''X-Apple-Session-ID'' 1) g a"
  obtain m uri where s: "http_request_get_method rq = Some m" "http_request_get_url rq index = Some (Some uri)"
    "air_respond w rq m uri ?f = Inr f'" "g' = x_globals f'"
    "\<forall>s. http_request_get_header rq ''X-Apple-Session-ID'' 1 = Some s \<longrightarrow> length s < 128"
    using assms by (auto simp: airplay_conn_request_def Let_def not_le split: option.splits if_splits)
  from air_respond_steps [OF s(3)] obtain res f2 where "air_handle w rq m uri (?f\<lparr>x_response := res\<rparr>) = Inr f2"
    "x_globals f' = x_globals f2" "x_airplay f' = x_airplay f2" "x_events f' = x_events f2" by metis
  then show ?thesis using that [OF s(1,2) _ s(5)] s(4) by metis
qed

lemma air_new_simps [simp]:
  "x_events (air_new s g a) = []" "x_airplay (air_new s g a) = a" "x_body (air_new s g a) = []"
  "ag_wait (x_globals (air_new s g a)) = ag_wait g" "ag_rate (x_globals (air_new s g a)) = ag_rate g"
  "ag_ids (x_globals (air_new s g a)) = ag_ids g" "ag_position (x_globals (air_new s g a)) = ag_position g"
  by (simp_all add: air_new_def split: option.splits)

lemma starts_withD: "starts_with s p \<Longrightarrow> \<exists>t. s = p @ t"
  by (metis append_take_drop_id starts_with_def)

definition rate_request :: "http_request \<Rightarrow> int \<Rightarrow> bool" where
  "rate_request rq index \<longleftrightarrow> http_request_get_method rq = Some ''POST'' \<and>
     (\<exists>uri. http_request_get_url rq index = Some (Some uri) \<and> starts_with uri ''/rate'')"

lemma request_steady:
  assumes "airplay_conn_request w rq index g a = Inr (g', fo)" "\<not> rate_request rq index"
  shows "ag_wait g' = ag_wait g \<and> ag_rate g' = ag_rate g \<or>
    ag_wait g' \<and> ag_rate g' = 1 \<and> (\<exists>f'. fo = Some f' \<and> opens (x_events f'))"
proof (cases fo)
  case None
  then have "g' = x_globals (air_new (http_request_get_header rq ''X-Apple-Session-ID'' 1) g a)"
    using assms(1) by (auto simp: airplay_conn_request_def Let_def split: option.splits if_splits)
  then show ?thesis by simp
next
  case (Some f')
  obtain m uri res f2 where s: "http_request_get_method rq = Some m" "http_request_get_url rq index = Some (Some uri)"
    "air_handle w rq m uri (air_new (http_request_get_header rq ''X-Apple-Session-ID'' 1) g a\<lparr>x_response := res\<rparr>) = Inr f2"
    "g' = x_globals f2" "x_events f' = x_events f2" using air_request_steps [OF assms(1) [unfolded Some]] by metis
  have "\<not> (m = ''POST'' \<and> starts_with uri ''/rate'')" using assms(2) s(1,2) by (auto simp: rate_request_def)
  from steady_handle [OF this, of w rq] s(3-5) Some show ?thesis unfolding steady_def by fastforce
qed

fun air_run :: "(air_world \<times> http_request \<times> int) list \<Rightarrow> air_globals \<Rightarrow> airplay \<Rightarrow> raop_error + air_globals \<times> airplay \<times> air_event list" where
  \<comment> \<open>requests one after the other, and all their events\<close>
  "air_run [] g a = Inr (g, a, [])"
| "air_run ((w, rq, i) # rs) g a =
     ebind (airplay_conn_request w rq i g a) (\<lambda>(g, fo).
     ebind (air_run rs g (case fo of None \<Rightarrow> a | Some f \<Rightarrow> x_airplay f)) (\<lambda>(g, a, evs).
       Inr (g, a, (case fo of None \<Rightarrow> [] | Some f \<Rightarrow> x_events f) @ evs)))"

lemma run_steady:
  assumes "air_run rs g a = Inr (g', a', evs)" "\<forall>(w, rq, i) \<in> set rs. \<not> rate_request rq i"
  shows "ag_wait g' = ag_wait g \<and> ag_rate g' = ag_rate g \<or> ag_wait g' \<and> ag_rate g' = 1 \<and> opens evs"
  using assms
proof (induction rs arbitrary: g a evs)
  case (Cons r rs)
  obtain w rq i where r: "r = (w, rq, i)" by (cases r)
  obtain g1 fo evs' where s: "airplay_conn_request w rq i g a = Inr (g1, fo)"
    "air_run rs g1 (case fo of None \<Rightarrow> a | Some f \<Rightarrow> x_airplay f) = Inr (g', a', evs')"
    "evs = (case fo of None \<Rightarrow> [] | Some f \<Rightarrow> x_events f) @ evs'"
    using Cons.prems(1) by (auto simp: r)
  have "\<not> rate_request rq i" using Cons.prems(2) r by auto
  note 1 = request_steady [OF s(1) this] and 2 = Cons.IH [OF s(2)]
  show ?case using 1 2 Cons.prems(2) s(3) by (auto split: option.splits)
qed simp

lemma rate_request_handled:
  assumes "airplay_conn_request w rq index g a = Inr (g', Some f')" "rate_request rq index"
  shows "ag_wait g \<longrightarrow> x_events f' = [] \<and> ag_rate g' = ag_rate g \<and> \<not> ag_wait g'"
    "\<not> ag_wait g \<longrightarrow> (\<exists>s. url_from rq 12 = Inr s \<and> ag_rate g' = c_strtol s \<and>
       x_events f' = [if c_strtol s \<noteq> 0 then PlaybackPlay else PlaybackPause])"
proof -
  obtain m uri res f2 where s: "http_request_get_method rq = Some m" "http_request_get_url rq index = Some (Some uri)"
    "air_handle w rq m uri (air_new (http_request_get_header rq ''X-Apple-Session-ID'' 1) g a\<lparr>x_response := res\<rparr>) = Inr f2"
    "g' = x_globals f2" "x_events f' = x_events f2" using air_request_steps [OF assms(1)] by metis
  have m: "m = ''POST''" "starts_with uri ''/rate''" using assms(2) s(1,2) by (auto simp: rate_request_def)
  then have "uri \<noteq> ''/pair-verify''" "uri \<noteq> ''/play''" "uri \<noteq> ''/stop''" "\<not> starts_with uri ''/scrub''"
  proof -
    obtain t where "uri = ''/rate'' @ t" using starts_withD [OF m(2)] by blast
    then show "uri \<noteq> ''/pair-verify''" "uri \<noteq> ''/play''" "uri \<noteq> ''/stop''" "\<not> starts_with uri ''/scrub''"
      by (simp_all add: starts_with_def)
  qed
  then have h: "request_handle_rate rq (air_new (http_request_get_header rq ''X-Apple-Session-ID'' 1) g a\<lparr>x_response := res\<rparr>) = Inr f2"
    using s(3) m by (simp add: air_handle_def)
  show "ag_wait g \<longrightarrow> x_events f' = [] \<and> ag_rate g' = ag_rate g \<and> \<not> ag_wait g'"
    using h s(4,5) by (auto simp: request_handle_rate_def)
  show "\<not> ag_wait g \<longrightarrow> (\<exists>s. url_from rq 12 = Inr s \<and> ag_rate g' = c_strtol s \<and>
       x_events f' = [if c_strtol s \<noteq> 0 then PlaybackPlay else PlaybackPause])"
  proof
    let ?f = "air_new (http_request_get_header rq ''X-Apple-Session-ID'' 1) g a\<lparr>x_response := res\<rparr>"
    assume "\<not> ag_wait g"
    then obtain v where "url_from rq 12 = Inr v"
      "f2 = x_emit [if c_strtol v \<noteq> 0 then PlaybackPlay else PlaybackPause] (x_upd (\<lambda>g. g\<lparr>ag_rate := c_strtol v\<rparr>) ?f)"
      using h unfolding request_handle_rate_def Let_def by auto
    then show "\<exists>s. url_from rq 12 = Inr s \<and> ag_rate g' = c_strtol s \<and>
       x_events f' = [if c_strtol s \<noteq> 0 then PlaybackPlay else PlaybackPause]"
      by (intro exI [of _ v]) (simp add: s(4,5))
  qed
qed

end
