(* ===== verification/Airplay_Messages.thy ===== *)
theory Airplay_Messages
  imports Airplay_Properties Raop_Response
begin

text \<open>
  The texts the video server writes: the answer of a request, the answer that turns a connection around, and
  the requests for playlists it sends back to the client.
\<close>

section \<open>Answers\<close>

lemma digits_200: "dec_digits 200 = ''200''" and digits_101: "dec_digits 101 = ''101''"
  by code_simp+

lemma x_headers_text:
  assumes "rs_data_size (x_response f) = 1024" "\<forall>(n, v) \<in> set hs. n \<noteq> [] \<and> v \<noteq> []"
    "length (rs_data (x_response f) @ header_text hs) \<le> 1024"
  shows "\<exists>c. x_headers hs f = Inr (f\<lparr>x_response := (x_response f)\<lparr>rs_allocated := c, rs_data := rs_data (x_response f) @ header_text hs\<rparr>\<rparr>)"
  using add_headers_text [OF assms] by (auto simp: x_headers_def of_response_def)

lemma x_finish_text:
  assumes "rs_data_size (x_response f) = 1024" "length (rs_data (x_response f)) \<le> 960" "length (x_body f) \<le> 1000000000"
  shows "\<exists>c. x_finish f = Inr (f\<lparr>x_response := (x_response f)\<lparr>rs_allocated := c,
    rs_data := rs_data (x_response f) @ body_text (x_body f), rs_complete := True\<rparr>\<rparr>)"
  using finish_text [OF assms] by (auto simp: x_finish_def of_response_def)

definition plain_response :: "http_response \<Rightarrow> bool" where
  "plain_response res \<longleftrightarrow> rs_data_size res = 1024 \<and> rs_data res = status_line ''HTTP/1.1'' 200 ''OK''"

definition answered :: "air_world \<Rightarrow> (string \<times> string) list \<Rightarrow> string \<Rightarrow> string" where
  "answered w hs body = status_line ''HTTP/1.1'' 200 ''OK''
     @ header_text (hs @ [(''Server'', ''AirTunes/220.68''), (''Date'', aw_time w)]) @ body_text body"

lemma air_respond_plain:
  assumes h: "\<And>res. plain_response res \<Longrightarrow> \<exists>f2. air_handle w rq m uri (f\<lparr>x_response := res\<rparr>) = Inr f2 \<and>
      rs_data_size (x_response f2) = 1024 \<and> rs_data (x_response f2) = rs_data res @ header_text hs \<and>
      length (x_body f2) \<le> 1000000000 \<and> Q (x_globals f2) (x_airplay f2) (x_events f2) (x_body f2)"
    and u: "uri \<noteq> ''/reverse''" and t: "aw_time w \<noteq> []" "length (aw_time w) + length (header_text hs) \<le> 800"
  shows "\<exists>f'. air_respond w rq m uri f = Inr f' \<and> Q (x_globals f') (x_airplay f') (x_events f') (x_body f') \<and>
    http_response_get_data (x_response f') = Inr (answered w hs (x_body f'))"
proof -
  let ?closing = "[(''Server'', ''AirTunes/220.68''), (''Date'', aw_time w)]"
  obtain c where "http_response_init ''HTTP/1.1'' 200 ''OK'' = Inr (fresh_response\<lparr>rs_allocated := c, rs_data := status_line ''HTTP/1.1'' 200 ''OK''\<rparr>)"
    (is "_ = Inr ?res") using init_text [of 200 "''HTTP/1.1''" "''OK''"] by (auto simp: status_line_def digits_200)
  then have i: "of_response (http_response_init ''HTTP/1.1'' 200 ''OK'') = Inr ?res" by (simp add: of_response_def)
  have p: "plain_response ?res" by (simp add: plain_response_def fresh_response_def)
  obtain f2 where f2: "air_handle w rq m uri (f\<lparr>x_response := ?res\<rparr>) = Inr f2" "rs_data_size (x_response f2) = 1024"
    "rs_data (x_response f2) = rs_data ?res @ header_text hs" "length (x_body f2) \<le> 1000000000"
    "Q (x_globals f2) (x_airplay f2) (x_events f2) (x_body f2)" using h [OF p] by blast
  have s: "length (rs_data ?res) = 17" by (simp add: status_line_def digits_200)
  have l: "length (rs_data (x_response f2) @ header_text ?closing) \<le> 960"
    using f2(3) s t(2) by (simp add: header_text_def)
  obtain f3 where f3: "x_headers ?closing f2 = Inr f3" "rs_data_size (x_response f3) = 1024"
    "rs_data (x_response f3) = rs_data (x_response f2) @ header_text ?closing" "x_body f3 = x_body f2"
    using x_headers_text [OF f2(2), of ?closing] t(1) l f2(2) by auto
  have "length (rs_data (x_response f3)) \<le> 960" "length (x_body f3) \<le> 1000000000" using f3 l f2(4) by simp_all
  from x_finish_text [OF f3(2) this] obtain f4 where f4: "x_finish f3 = Inr f4" "rs_complete (x_response f4)"
    "rs_data (x_response f4) = rs_data (x_response f3) @ body_text (x_body f3)" by auto
  have r: "air_respond w rq m uri f = Inr f4" using i u f2(1) f3(1) f4(1) by (simp add: air_respond_def)
  have "http_response_get_data (x_response f4) = Inr (answered w hs (x_body f4))"
    using f2(3) f3(3,4) f4(2,3) x_finish_frame(4) [OF f4(1)] by (simp add: http_response_get_data_def answered_def)
  then show ?thesis using r f2(5) x_headers_frame [OF f3(1)] x_finish_frame [OF f4(1)] by auto
qed

text \<open>
  C19. A client that asks to turn its connection around gets exactly the answer 101 with the two headers
  \<open>Upgrade\<close> and \<open>Connection\<close>, and the response carries the flag that makes the connection the one events are
  sent on; the request changes nothing but the stored session identifier. The example answer in the comment
  above the branch also has \<open>Server\<close>, \<open>Content-Length: 0\<close> and \<open>Date\<close>: the code returns the response before it
  adds them.
\<close>

theorem reverse_is_answered:
  assumes "http_request_get_method rq = Some ''POST''" "http_request_get_url rq index = Some (Some ''/reverse'')"
    "\<forall>s. http_request_get_header rq ''X-Apple-Session-ID'' 1 = Some s \<longrightarrow> length s < 128"
  shows "\<exists>f. airplay_conn_request w rq index g a = Inr (x_globals f, Some f) \<and>
    http_response_get_data (x_response f) = Inr (''HTTP/1.1 101 Switching Protocols'' @ CRLF @ ''Upgrade: PTTH/1.0'' @ CRLF
      @ ''Connection: Upgrade'' @ CRLF @ CRLF) \<and> http_response_get_flag (x_response f) = 3 \<and> x_events f = [] \<and> x_airplay f = a \<and>
    x_globals f = (case http_request_get_header rq ''X-Apple-Session-ID'' 1 of None \<Rightarrow> g | Some s \<Rightarrow> g\<lparr>ag_session := s\<rparr>)"
proof -
  let ?f = "air_new (http_request_get_header rq ''X-Apple-Session-ID'' 1) g a"
  let ?hs = "[(''Upgrade'', ''PTTH/1.0''), (''Connection'', ''Upgrade'')]"
  have st: "status_line ''HTTP/1.1'' 101 ''Switching Protocols'' = ''HTTP/1.1 101 Switching Protocols'' @ CRLF"
    by (simp add: status_line_def digits_101)
  obtain c where i: "of_response (http_response_init ''HTTP/1.1'' 101 ''Switching Protocols'')
      = Inr (fresh_response\<lparr>rs_allocated := c, rs_data := status_line ''HTTP/1.1'' 101 ''Switching Protocols''\<rparr>)" (is "_ = Inr ?res")
    using init_text [of 101 "''HTTP/1.1''" "''Switching Protocols''"] by (auto simp: st of_response_def)
  have s: "rs_data_size (x_response (?f\<lparr>x_response := ?res\<rparr>)) = 1024" by (simp add: fresh_response_def)
  have l: "length (rs_data (x_response (?f\<lparr>x_response := ?res\<rparr>)) @ header_text ?hs) \<le> 960"
    by (simp add: st header_text_def)
  obtain f2 where f2: "x_headers ?hs (?f\<lparr>x_response := ?res\<rparr>) = Inr f2" "rs_data_size (x_response f2) = 1024"
    "rs_data (x_response f2) = rs_data ?res @ header_text ?hs" using x_headers_text [OF s, of ?hs] l s by auto
  let ?f3 = "f2\<lparr>x_response := http_response_set_flag (x_response f2) 3\<rparr>"
  have h: "air_handle w rq ''POST'' ''/reverse'' (?f\<lparr>x_response := ?res\<rparr>) = Inr ?f3"
    using f2(1) by (simp add: air_handle_def x_reverse_def starts_with_def)
  have b: "x_body ?f3 = []" using x_headers_frame(4) [OF f2(1)] by simp
  have "rs_data_size (x_response ?f3) = 1024" "length (rs_data (x_response ?f3)) \<le> 960" "length (x_body ?f3) \<le> 1000000000"
    using f2(2,3) l b by (simp_all add: http_response_set_flag_def)
  from x_finish_text [OF this] obtain c2 where f4: "x_finish ?f3 = Inr (?f3\<lparr>x_response := (x_response ?f3)\<lparr>rs_allocated := c2,
    rs_data := rs_data (x_response ?f3) @ body_text (x_body ?f3), rs_complete := True\<rparr>\<rparr>)" (is "_ = Inr ?f4") by blast
  have r: "air_respond w rq ''POST'' ''/reverse'' ?f = Inr ?f4" unfolding air_respond_def using i h f4 by simp
  have t: "http_response_get_data (x_response ?f4) = Inr (''HTTP/1.1 101 Switching Protocols'' @ CRLF @ ''Upgrade: PTTH/1.0'' @ CRLF
      @ ''Connection: Upgrade'' @ CRLF @ CRLF)"
    unfolding http_response_get_data_def using f2(3) b by (simp add: http_response_set_flag_def st header_text_def body_text_def)
  show ?thesis
  proof (intro exI [of _ ?f4] conjI)
    have n: "\<not> (\<exists>s. http_request_get_header rq ''X-Apple-Session-ID'' 1 = Some s \<and> length s \<ge> 128)" using assms(3) by auto
    show "airplay_conn_request w rq index g a = Inr (x_globals ?f4, Some ?f4)"
      unfolding airplay_conn_request_def assms(1,2) Let_def using n r by simp
    show "http_response_get_data (x_response ?f4) = Inr (''HTTP/1.1 101 Switching Protocols'' @ CRLF @ ''Upgrade: PTTH/1.0'' @ CRLF
      @ ''Connection: Upgrade'' @ CRLF @ CRLF)" by (rule t)
  qed (use x_headers_frame [OF f2(1)] in \<open>simp_all add: http_response_get_flag_def http_response_set_flag_def air_new_def split: option.splits\<close>)
qed

section \<open>Opening a video\<close>

definition air_demo :: air_world where
  "air_demo = \<lparr>aw_asserts = True, aw_from_bin = (\<lambda>s. None), aw_xml_to_bin = id, aw_crypto = demo_crypto, aw_aligned = True, aw_seed = [],
     aw_keys = ([], []), aw_time = ''now'', aw_duration = 0, aw_position = 0, aw_open = (\<lambda>s. True), aw_line2 = replicate 2048 NUL,
     aw_behind = [NUL], aw_send = [1000000], aw_atof = (\<lambda>s. Fin 0)\<rparr>"

lemma air_demo_time [simp]: "aw_time air_demo = ''now''"
  by (simp add: air_demo_def)

definition air_demo_globals :: air_globals where
  "air_demo_globals = \<lparr>ag_session = ''s'', ag_rate = 0, ag_wait = False, ag_ids = [], ag_position = Fin 0, ag_device = [],
     ag_port_seted = False, ag_event_port = 0\<rparr>"

definition air_demo_server :: airplay where
  "air_demo_server = \<lparr>ap_hwaddr = replicate 6 0, ap_hwaddrlen = 6, ap_password = [], ap_pair_data = zero_pair\<rparr>"

definition posting :: "string \<Rightarrow> string \<Rightarrow> http_request" where
  "posting uri body = \<lparr>rq_method = Some ''POST'', rq_url = Some uri, rq_headers = [], rq_headers_index = 0, rq_data = body, rq_complete = True\<rparr>"

lemma posting_simps [simp]:
  "http_request_get_method (posting uri body) = Some ''POST''" "http_request_get_header (posting uri body) n i = None"
  "http_request_get_data (posting uri body) = body" "\<not> binary_plist (posting uri body)"
  by (simp_all add: posting_def http_request_get_method_def http_request_get_header_def http_request_get_data_def binary_plist_def)

lemma posting_url: "split_lines [] uri = [uri] \<Longrightarrow> http_request_get_url (posting uri body) 1 = Some (Some uri)"
  by (simp add: posting_def http_request_get_url_def)

lemma posting_reply:
  assumes "split_lines [] uri = [uri]" "uri \<noteq> ''/reverse''"
    "\<And>f. \<exists>f2. air_handle air_demo (posting uri body) ''POST'' uri f = Inr f2 \<and> x_response f2 = x_response f \<and>
      x_globals f2 = gl (x_globals f) \<and> x_events f2 = x_events f @ evs \<and> x_body f2 = x_body f"
  shows "\<exists>f'. airplay_conn_request air_demo (posting uri body) 1 g a = Inr (gl g, Some f') \<and> x_globals f' = gl g \<and> x_events f' = evs"
proof -
  have "\<exists>f'. air_respond air_demo (posting uri body) ''POST'' uri (air_new None g a) = Inr f' \<and>
      (x_globals f' = gl g \<and> x_events f' = evs) \<and> http_response_get_data (x_response f') = Inr (answered air_demo [] (x_body f'))"
  proof (rule air_respond_plain [where Q = "\<lambda>g' a' e' b'. g' = gl g \<and> e' = evs"])
    fix res
    assume "plain_response res"
    moreover obtain f2 where "air_handle air_demo (posting uri body) ''POST'' uri (air_new None g a\<lparr>x_response := res\<rparr>) = Inr f2"
      "x_response f2 = res" "x_globals f2 = gl (x_globals (air_new None g a))" "x_events f2 = evs" "x_body f2 = []"
      using assms(3) [of "air_new None g a\<lparr>x_response := res\<rparr>"] by auto
    ultimately show "\<exists>f2. air_handle air_demo (posting uri body) ''POST'' uri (air_new None g a\<lparr>x_response := res\<rparr>) = Inr f2 \<and>
        rs_data_size (x_response f2) = 1024 \<and> rs_data (x_response f2) = rs_data res @ header_text [] \<and>
        length (x_body f2) \<le> 1000000000 \<and> x_globals f2 = gl g \<and> x_events f2 = evs"
      by (auto simp: plain_response_def air_new_def)
  qed (use assms(2) in \<open>simp_all add: air_demo_def\<close>)
  then show ?thesis by (auto simp: airplay_conn_request_def posting_url [OF assms(1)])
qed

definition answerable :: "air_world \<Rightarrow> http_request \<Rightarrow> bool" where
  \<comment> \<open>the session identifier fits its array, and there is a date of at most 800 characters\<close>
  "answerable w rq \<longleftrightarrow> (\<forall>s. http_request_get_header rq ''X-Apple-Session-ID'' 1 = Some s \<longrightarrow> length s < 128) \<and>
     aw_time w \<noteq> [] \<and> length (aw_time w) \<le> 800"

lemma rate_answered:
  assumes "rate_request rq index" "answerable w rq" "\<not> ag_wait g \<Longrightarrow> \<exists>s. url_from rq 12 = Inr s"
  shows "\<exists>f'. airplay_conn_request w rq index g a = Inr (x_globals f', Some f') \<and>
    http_response_get_data (x_response f') = Inr (answered w [] [])"
proof -
  obtain uri where u: "http_request_get_method rq = Some ''POST''" "http_request_get_url rq index = Some (Some uri)" "starts_with uri ''/rate''"
    using assms(1) by (auto simp: rate_request_def)
  obtain t where t: "uri = ''/rate'' @ t" using starts_withD [OF u(3)] by blast
  then have n: "uri \<noteq> ''/pair-verify''" "uri \<noteq> ''/play''" "uri \<noteq> ''/stop''" "\<not> starts_with uri ''/scrub''" "uri \<noteq> ''/reverse''"
    by (simp_all add: starts_with_def)
  let ?f = "air_new (http_request_get_header rq ''X-Apple-Session-ID'' 1) g a"
  have h: "\<exists>f2. air_handle w rq ''POST'' uri (?f\<lparr>x_response := res\<rparr>) = Inr f2 \<and> x_response f2 = res \<and> x_body f2 = []" for res
  proof -
    have "air_handle w rq ''POST'' uri (?f\<lparr>x_response := res\<rparr>) = request_handle_rate rq (?f\<lparr>x_response := res\<rparr>)"
      using n u(3) by (simp add: air_handle_def)
    moreover have "\<exists>f2. request_handle_rate rq (?f\<lparr>x_response := res\<rparr>) = Inr f2 \<and> x_response f2 = res \<and> x_body f2 = []"
    proof (cases "ag_wait g")
      case True
      then show ?thesis by (simp add: request_handle_rate_def x_upd_def air_new_def split: option.split)
    next
      case False
      then obtain s where "url_from rq 12 = Inr s" using assms(3) by blast
      then have "request_handle_rate rq (?f\<lparr>x_response := res\<rparr>) = Inr (x_emit [if c_strtol s \<noteq> 0 then PlaybackPlay else PlaybackPause]
          (x_upd (\<lambda>g. g\<lparr>ag_rate := c_strtol s\<rparr>) (?f\<lparr>x_response := res\<rparr>)))"
        using False unfolding request_handle_rate_def Let_def by (simp split: option.split)
      then show ?thesis by (simp add: x_emit_def x_upd_def air_new_def)
    qed
    ultimately show ?thesis by simp
  qed
  have "\<exists>f'. air_respond w rq ''POST'' uri ?f = Inr f' \<and> x_body f' = [] \<and>
      http_response_get_data (x_response f') = Inr (answered w [] (x_body f'))"
    by (rule air_respond_plain [where Q = "\<lambda>g' a' e' b'. b' = []"])
       (use h n(5) assms(2) in \<open>fastforce simp: plain_response_def answerable_def header_text_def\<close>)+
  then show ?thesis using assms(2) u(1,2) by (auto simp: airplay_conn_request_def Let_def answerable_def not_le)
qed

text \<open>
  C17. After a video was opened, and whatever requests other than rate commands follow, the first rate command
  is answered with a plain 200 and has no effect: the rate stays 1 and the player is told nothing. This is
  how the first STOP is refused, as the comment in the code says; the code does not look at the value, so a
  first command to play is refused in the same way. The next rate command, again after any other requests that
  open no video, is obeyed: it sets the rate it carries and plays or pauses.
\<close>

theorem first_rate_after_open_is_ignored:
  assumes "airplay_conn_request w rq index g a = Inr (g0, Some f0)" "opens (x_events f0)"
    "air_run rs g0 (x_airplay f0) = Inr (g1, a1, evs1)" "\<forall>(w, rq, i) \<in> set rs. \<not> rate_request rq i"
    "rate_request rq1 i1" "answerable w1 rq1"
  shows "\<exists>f1. airplay_conn_request w1 rq1 i1 g1 a1 = Inr (x_globals f1, Some f1) \<and>
    x_events f1 = [] \<and> ag_rate (x_globals f1) = 1 \<and> http_response_get_data (x_response f1) = Inr (answered w1 [] []) \<and>
    (\<forall>rs2 g2 a2 evs2 w2 rq2 i2 s. air_run rs2 (x_globals f1) (x_airplay f1) = Inr (g2, a2, evs2) \<and>
       (\<forall>(w, rq, i) \<in> set rs2. \<not> rate_request rq i) \<and> \<not> opens evs2 \<and>
       rate_request rq2 i2 \<and> answerable w2 rq2 \<and> url_from rq2 12 = Inr s \<longrightarrow>
       (\<exists>f2. airplay_conn_request w2 rq2 i2 g2 a2 = Inr (x_globals f2, Some f2) \<and> ag_rate (x_globals f2) = c_strtol s \<and>
          x_events f2 = [if c_strtol s \<noteq> 0 then PlaybackPlay else PlaybackPause] \<and>
          http_response_get_data (x_response f2) = Inr (answered w2 [] [])))"
proof -
  obtain m uri res f where s: "air_handle w rq m uri (air_new (http_request_get_header rq ''X-Apple-Session-ID'' 1) g a\<lparr>x_response := res\<rparr>) = Inr f"
    "g0 = x_globals f" "x_events f0 = x_events f" using air_request_steps [OF assms(1)] by metis
  have "ag_wait g0 \<and> ag_rate g0 = 1"
    using waits_handle [of w rq m uri] s assms(2) unfolding waits_def by fastforce
  then have g1: "ag_wait g1" "ag_rate g1 = 1" using run_steady [OF assms(3,4)] by auto
  then obtain f1 where f1: "airplay_conn_request w1 rq1 i1 g1 a1 = Inr (x_globals f1, Some f1)"
    "http_response_get_data (x_response f1) = Inr (answered w1 [] [])"
    using rate_answered [OF assms(5,6), of g1 a1] by auto
  have h1: "x_events f1 = []" "ag_rate (x_globals f1) = 1" "\<not> ag_wait (x_globals f1)"
    using rate_request_handled(1) [OF f1(1) assms(5)] g1 by simp_all
  have "\<exists>f2. airplay_conn_request w2 rq2 i2 g2 a2 = Inr (x_globals f2, Some f2) \<and> ag_rate (x_globals f2) = c_strtol s \<and>
          x_events f2 = [if c_strtol s \<noteq> 0 then PlaybackPlay else PlaybackPause] \<and>
          http_response_get_data (x_response f2) = Inr (answered w2 [] [])"
    if "air_run rs2 (x_globals f1) (x_airplay f1) = Inr (g2, a2, evs2)" "\<forall>(w, rq, i) \<in> set rs2. \<not> rate_request rq i"
      "\<not> opens evs2" "rate_request rq2 i2" "answerable w2 rq2" "url_from rq2 12 = Inr s" for rs2 g2 a2 evs2 w2 rq2 i2 s
  proof -
    note h2 = that
    have w: "\<not> ag_wait g2" using run_steady [OF h2(1,2)] h1(3) h2(3) by auto
    obtain f2 where f2: "airplay_conn_request w2 rq2 i2 g2 a2 = Inr (x_globals f2, Some f2)"
      "http_response_get_data (x_response f2) = Inr (answered w2 [] [])"
      using rate_answered [OF h2(4,5), of g2 a2] h2(6) by auto
    then show ?thesis using rate_request_handled(2) [OF f2(1) h2(4)] w h2(6) by auto
  qed
  then show ?thesis using f1 h1(1,2) by blast
qed

theorem first_rate_after_open_is_ignored_witness:
  "\<exists>g0 f0 a1 f1 f2.
     airplay_conn_request air_demo (posting ''/play'' (''Content-Location: http://a/b'' @ [LF] @ ''Start-Position: 0'' @ [LF])) 1
       air_demo_globals air_demo_server = Inr (g0, Some f0) \<and> x_events f0 = [PlaybackOpen (Some ''http://a/b'') (Fin 0) (Fin 0)] \<and>
     air_run [(air_demo, posting ''/feedback'' [], 1)] g0 (x_airplay f0) = Inr (g0, a1, []) \<and>
     airplay_conn_request air_demo (posting ''/rate?value=0.0'' []) 1 g0 a1 = Inr (x_globals f1, Some f1) \<and>
     x_events f1 = [] \<and> ag_rate (x_globals f1) = 1 \<and>
     airplay_conn_request air_demo (posting ''/rate?value=0.0'' []) 1 (x_globals f1) (x_airplay f1) = Inr (x_globals f2, Some f2) \<and>
     x_events f2 = [PlaybackPause] \<and> ag_rate (x_globals f2) = 0"
proof -
  let ?body = "''Content-Location: http://a/b'' @ [LF] @ ''Start-Position: 0'' @ [LF]"
  let ?play = "posting ''/play'' ?body" and ?rate = "posting ''/rate?value=0.0'' []" and ?feedback = "posting ''/feedback'' []"
  let ?g = "air_demo_globals\<lparr>ag_rate := 1, ag_wait := True\<rparr>"
  have l: "split_lines [] ''/play'' = [''/play'']" "split_lines [] ''/rate?value=0.0'' = [''/rate?value=0.0'']"
    "split_lines [] ''/feedback'' = [''/feedback'']" by code_simp+
  have t: "c_strstr (c_str (drop 18 ?body @ aw_behind air_demo) 0) ''Start-Position'' = Some (''Start-Position: 0'' @ [LF])"
    by (simp add: air_demo_def c_str_def c_strstr.simps starts_with_def)
  have u: "takeWhile (\<lambda>c. c \<notin> {CHR '' '', CR, LF}) (dropWhile (\<lambda>c. c \<in> {CHR '' '', CR, LF}) (c_str (drop 18 ?body @ aw_behind air_demo) 0)) = ''http://a/b''"
    by (simp add: air_demo_def c_str_def)
  have "play_text air_demo ?play f = Inr (opened (Some ''http://a/b'') (Fin 0) (Fin 0) f)" for f
    unfolding play_text_def posting_simps Let_def t u by (simp add: air_demo_def)
  then have "air_handle air_demo ?play ''POST'' ''/play'' f = Inr (opened (Some ''http://a/b'') (Fin 0) (Fin 0) f)" for f
    by (simp add: air_handle_def request_handle_play_def)
  then have p: "\<exists>f2. air_handle air_demo ?play ''POST'' ''/play'' f = Inr f2 \<and> x_response f2 = x_response f \<and>
      x_globals f2 = (x_globals f)\<lparr>ag_rate := 1, ag_wait := True\<rparr> \<and>
      x_events f2 = x_events f @ [PlaybackOpen (Some ''http://a/b'') (Fin 0) (Fin 0)] \<and> x_body f2 = x_body f" for f
    by (simp add: opened_def x_emit_def x_upd_def)
  obtain f0 where 0: "airplay_conn_request air_demo ?play 1 air_demo_globals air_demo_server = Inr (?g, Some f0)"
    "x_events f0 = [PlaybackOpen (Some ''http://a/b'') (Fin 0) (Fin 0)]"
    using posting_reply [OF l(1) _ p, of air_demo_globals air_demo_server] by auto
  have "\<exists>f2. air_handle air_demo ?feedback ''POST'' ''/feedback'' f = Inr f2 \<and> x_response f2 = x_response f \<and>
      x_globals f2 = x_globals f \<and> x_events f2 = x_events f @ [] \<and> x_body f2 = x_body f" for f
    by (simp add: air_handle_def starts_with_def)
  from posting_reply [OF l(3) _ this, of ?g "x_airplay f0"] obtain f' where
    "airplay_conn_request air_demo ?feedback 1 ?g (x_airplay f0) = Inr (?g, Some f')" "x_events f' = []" by auto
  then have r: "air_run [(air_demo, ?feedback, 1)] ?g (x_airplay f0) = Inr (?g, x_airplay f', [])" by simp
  have n: "starts_with ''/rate?value=0.0'' ''/rate''" "\<not> starts_with ''/feedback'' ''/rate''" by (simp_all add: starts_with_def)
  have q: "\<forall>(w, rq, i) \<in> set [(air_demo, ?feedback, 1)]. \<not> rate_request rq i"
    by (simp add: rate_request_def posting_url [OF l(3)] n)
  have rr: "rate_request ?rate 1" "answerable air_demo ?rate"
    by (simp_all add: rate_request_def posting_url [OF l(2)] n answerable_def)
  have v: "url_from ?rate 12 = Inr ''0.0''" "c_strtol ''0.0'' = 0"
    by (simp add: url_from_def posting_url [OF l(2)]) code_simp
  have o: "opens (x_events f0)" by (simp add: 0(2))
  from first_rate_after_open_is_ignored [OF 0(1) o r q rr] show ?thesis
  proof (elim exE conjE, goal_cases)
    case (1 f1)
    have "air_run [] (x_globals f1) (x_airplay f1) = Inr (x_globals f1, x_airplay f1, []) \<and>
      (\<forall>(w, rq, i) \<in> set []. \<not> rate_request rq i) \<and> \<not> opens [] \<and> rate_request ?rate 1 \<and> answerable air_demo ?rate \<and>
      url_from ?rate 12 = Inr ''0.0''" by (simp add: rr v(1))
    from 1(5) [rule_format, OF this] obtain f2 where "airplay_conn_request air_demo ?rate 1 (x_globals f1) (x_airplay f1) = Inr (x_globals f2, Some f2)"
      "ag_rate (x_globals f2) = 0" "x_events f2 = [PlaybackPause]" by (auto simp: v(2))
    with 0 r 1(1-3) show ?case by blast
  qed
qed

theorem reverse_is_answered_witness:
  "\<exists>f. airplay_conn_request air_demo (posting ''/reverse'' []) 1 air_demo_globals air_demo_server = Inr (air_demo_globals, Some f) \<and>
    http_response_get_data (x_response f) = Inr (''HTTP/1.1 101 Switching Protocols'' @ CRLF @ ''Upgrade: PTTH/1.0'' @ CRLF
      @ ''Connection: Upgrade'' @ CRLF @ CRLF)"
proof -
  have l: "split_lines [] ''/reverse'' = [''/reverse'']" by code_simp
  have "\<forall>s. http_request_get_header (posting ''/reverse'' []) ''X-Apple-Session-ID'' 1 = Some s \<longrightarrow> length s < 128" by simp
  from reverse_is_answered [OF posting_simps(1) posting_url [OF l] this, of air_demo air_demo_globals air_demo_server]
  show ?thesis by auto
qed

section \<open>Requests to the client\<close>

definition event_message :: "string \<Rightarrow> string \<Rightarrow> string \<Rightarrow> string" where
  \<comment> \<open>a request for the address \<open>url\<close> in session \<open>session\<close>\<close>
  "event_message session time url = ''POST /event HTTP/1.1'' @ CRLF
     @ header_text [(''Content-Type'', ''text/x-apple-plist+xml''), (''X-Apple-Session-ID'', session), (''Server'', ''AirTunes/220.68''), (''Date'', time)]
     @ body_text (text_lines (plist_prolog @ event_back session url @ plist_epilog))"

lemma send_back_text:
  assumes s: "ag_session (x_globals f) \<noteq> []" "length (ag_session (x_globals f)) < 128" and t: "aw_time w \<noteq> []" "length (aw_time w) \<le> 40"
    and u: "length url < 1000"
  shows "request_handle_send_back w url f
    = Inr (x_emit [EventSent (transmitted (aw_send w) (event_message (ag_session (x_globals f)) (aw_time w) url))] f)"
proof -
  let ?session = "ag_session (x_globals f)"
  let ?body = "text_lines (plist_prolog @ event_back ?session url @ plist_epilog)"
  let ?hs = "[(''Content-Type'', ''text/x-apple-plist+xml''), (''X-Apple-Session-ID'', ?session), (''Server'', ''AirTunes/220.68''), (''Date'', aw_time w)]"
  have b: "length ?body < 16384" "?body \<noteq> []"
    using s(2) u by (simp_all add: plist_prolog_def plist_epilog_def event_back_def)
  have first: "concat [''POST'', '' '', ''/event'', '' '', ''HTTP/1.1'', CRLF] = ''POST /event HTTP/1.1'' @ CRLF" by simp
  have "\<exists>c. foldl then_add (Inr fresh_response) [''POST'', '' '', ''/event'', '' '', ''HTTP/1.1'', CRLF]
      = Inr (fresh_response\<lparr>rs_allocated := c, rs_data := rs_data fresh_response @ concat [''POST'', '' '', ''/event'', '' '', ''HTTP/1.1'', CRLF]\<rparr>)"
    by (rule add_pieces) (simp_all add: fresh_response_def)
  then obtain c where i: "http_response_init_ex ''POST'' ''/event'' ''HTTP/1.1''
      = Inr (fresh_response\<lparr>rs_allocated := c, rs_data := ''POST /event HTTP/1.1'' @ CRLF\<rparr>)" (is "_ = Inr ?r1")
    unfolding first http_response_init_ex_def by (auto simp: fresh_response_def)
  have r1: "rs_data_size ?r1 = 1024" "length (rs_data ?r1 @ header_text ?hs) \<le> 960"
    using s(2) t(2) by (simp_all add: fresh_response_def header_text_def)
  obtain r2 where h: "add_headers ?r1 ?hs = Inr r2" "rs_data_size r2 = 1024" "rs_data r2 = rs_data ?r1 @ header_text ?hs"
    using add_headers_text [OF r1(1), of ?hs] r1 s(1) t(1) by auto
  then obtain r3 where e: "http_response_finish r2 ?body = Inr r3" "rs_complete r3" "rs_data r3 = rs_data r2 @ body_text ?body"
    using finish_text [OF h(2), of ?body] r1(2) b(1) by auto
  have "event_request w ?session ?body = Inr (event_message ?session (aw_time w) url)"
    unfolding event_request_def using i h e by (simp add: of_response_def http_response_get_data_def event_message_def)
  then show ?thesis using b by (simp add: request_handle_send_back_def Let_def)
qed

lemma transmitted_all:
  assumes "\<forall>r \<in> set rs. 0 < r" "length s \<le> nat (sum_list rs)"
  shows "transmitted rs s = s"
  using assms
proof (induction rs arbitrary: s)
  case (Cons r rs)
  have "0 \<le> sum_list rs" using Cons.prems(1) by (intro sum_list_nonneg) auto
  then have "length (drop (nat r) s) \<le> nat (sum_list rs)" using Cons.prems by (simp add: nat_add_distrib)
  then show ?case using Cons by auto
qed simp

section \<open>The exchange of playlists\<close>

lemma filter_one_dot: "filter P (pre @ x # post) = [x] \<Longrightarrow> P x \<Longrightarrow> (\<forall>y \<in> set pre. \<not> P y) \<and> (\<forall>y \<in> set post. \<not> P y)"
  by (auto simp: filter_empty_conv dest!: arg_cong [where f = length])

lemma no_playlist_name:
  assumes "CHR ''.'' \<notin> set ident" "name \<noteq> []" "last name \<noteq> CHR ''a''" "CHR ''.'' \<notin> set name"
  shows "c_strstr (remote_url ident) (name @ ''.m3u8'') = None"
proof (rule ccontr)
  assume "c_strstr (remote_url ident) (name @ ''.m3u8'') \<noteq> None"
  then obtain pre t where p: "remote_url ident = pre @ t" "starts_with t (name @ ''.m3u8'')" using c_strstr_SomeD by blast
  then obtain rest where r: "remote_url ident = (pre @ name) @ CHR ''.'' # ''m3u8'' @ rest" using starts_withD by fastforce
  have u: "remote_url ident = (''mlhls://localhost/itag/'' @ ident @ ''/mediadata'') @ CHR ''.'' # ''m3u8''" by (simp add: remote_url_def)
  have "filter (\<lambda>c. c = CHR ''.'') (remote_url ident) = ''.''" using assms(1) unfolding u by (auto simp: filter_empty_conv)
  then have "CHR ''.'' \<notin> set (pre @ name)" using filter_one_dot [of _ "pre @ name"] unfolding r by blast
  then have "takeWhile (\<lambda>c. c \<noteq> CHR ''.'') (remote_url ident) = pre @ name" unfolding r by (auto simp: takeWhile_append)
  moreover have "takeWhile (\<lambda>c. c \<noteq> CHR ''.'') (remote_url ident) = ''mlhls://localhost/itag/'' @ ident @ ''/mediadata''"
    using assms(1) unfolding u by (auto simp: takeWhile_append)
  moreover have "last (''mlhls://localhost/itag/'' @ ident @ ''/mediadata'') = CHR ''a''" by simp
  ultimately have "last (pre @ name) = CHR ''a''" by metis
  then show False using assms(2,3) by simp
qed

lemma c_strstr_found: "c_strstr (pre @ name @ rest) name \<noteq> None"
proof (induction pre)
  case Nil
  then show ?case by (subst c_strstr.simps) (simp add: starts_with_def)
next
  case (Cons x pre)
  then show ?case by (simp add: c_strstr_Cons)
qed

lemma remote_url_parts:
  assumes "CHR ''/'' \<notin> set ident"
  shows "c_strstr (remote_url ident) ''mlhls://localhost/itag/'' = Some (remote_url ident)"
    "takeWhile (\<lambda>c. c \<noteq> CHR ''/'') (drop 23 (remote_url ident)) = ident" "CHR ''/'' \<in> set (drop 23 (remote_url ident))"
    "c_strstr (remote_url ident) ''mediadata.m3u8'' \<noteq> None"
proof -
  show "c_strstr (remote_url ident) ''mlhls://localhost/itag/'' = Some (remote_url ident)"
    by (subst c_strstr.simps) (simp add: starts_with_def remote_url_def)
  have d: "drop 23 (remote_url ident) = ident @ ''/mediadata.m3u8''" by (simp add: remote_url_def)
  then show "takeWhile (\<lambda>c. c \<noteq> CHR ''/'') (drop 23 (remote_url ident)) = ident" "CHR ''/'' \<in> set (drop 23 (remote_url ident))"
    using assms by (auto simp: takeWhile_append)
  show "c_strstr (remote_url ident) ''mediadata.m3u8'' \<noteq> None"
    using c_strstr_found [of "''mlhls://localhost/itag/'' @ ident @ ''/''" "''mediadata.m3u8''" "[]"] by (simp add: remote_url_def)
qed

definition carries :: "plist option \<Rightarrow> string \<Rightarrow> byte list \<Rightarrow> bool" where
  \<comment> \<open>a response of the client: the address it was asked for and the playlist found there\<close>
  "carries p url data \<longleftrightarrow> plist_get_string_val (plist_dict_get_item p ''type'') = Some ''unhandledURLResponse'' \<and>
     plist_get_string_val (plist_dict_get_item (plist_dict_get_item p ''params'') ''FCUP_Response_URL'') = Some url \<and>
     plist_dict_get_item (plist_dict_get_item p ''params'') ''FCUP_Response_Data'' = Some (PData data)"

lemma action_carries:
  assumes "binary_plist rq" "aw_from_bin w (http_request_get_data rq) = Some p" "carries p url data"
  shows "request_handle_action w rq f = (if c_strstr url ''master.m3u8'' \<noteq> None then
      ebind (run_trans w (Some data) ''/mnt/ram0/master.m3u8'' True f) (\<lambda>(_, f). request_first w f)
    else if c_strstr url ''index.m3u8'' \<noteq> None then
      ebind (run_trans w (Some data) ''/mnt/ram0/index.m3u8'' True f) (\<lambda>(_, f). request_first w f)
    else if c_strstr url ''mediadata.m3u8'' \<noteq> None then media_response w (Some data) url f else Inr f)"
  using assms by (simp add: request_handle_action_def carries_def string_val_def starts_with_def playlist_response_def plist_get_data_val_def Let_def)

lemma last_id_append: "CHR ''#'' \<notin> set b \<Longrightarrow> last_id (a @ CHR ''#'' # b) = b"
  by (auto simp: last_id_def takeWhile_append)

definition translates :: "air_world \<Rightarrow> byte list \<Rightarrow> bool \<Rightarrow> string \<Rightarrow> int \<Rightarrow> string \<Rightarrow> string \<Rightarrow> bool" where
  \<comment> \<open>the translator, on the playlist and the memory behind it\<close>
  "translates w data isMaster ids ret out ids' \<longleftrightarrow>
     trans True (aw_line2 w) (c_str (chars_of data @ aw_behind w) 0) isMaster ids 1024 = Some (ret, Some out, ids')"

lemma run_trans_translates:
  assumes "aw_open w path" "translates w data isMaster (ag_ids (x_globals f)) ret out ids'"
  shows "run_trans w (Some data) path isMaster f
    = Inr (ret, x_upd (\<lambda>g. g\<lparr>ag_ids := ids'\<rparr>) (x_emit [FileWritten path out] f))"
  using assms by (simp add: run_trans_def translates_def)

definition sends :: "air_world \<Rightarrow> string \<Rightarrow> string \<Rightarrow> air_event" where
  "sends w session url = EventSent (transmitted (aw_send w) (event_message session (aw_time w) url))"

definition media_path :: "string \<Rightarrow> string" where
  "media_path ident = ''/mnt/ram0/'' @ ident @ ''_mediadata.m3u8''"

definition plain_id :: "string \<Rightarrow> bool" where
  "plain_id ident \<longleftrightarrow> ident \<noteq> [] \<and> set ident \<inter> {CHR ''/'', CHR ''#'', CHR ''.''} = {}"

lemma master_exchange:
  assumes w: "ag_session (x_globals f) \<noteq> []" "length (ag_session (x_globals f)) < 128" "aw_time w \<noteq> []" "length (aw_time w) \<le> 40"
    and m: "aw_open w ''/mnt/ram0/master.m3u8''" "translates w data True (ag_ids (x_globals f)) ret out (ida @ CHR ''#'' # idb)"
    and i: "plain_id ida" "length (ida @ CHR ''#'' # idb) < 128"
    and r: "binary_plist rq" "aw_from_bin w (http_request_get_data rq) = Some p" "carries p url data" "c_strstr url ''master.m3u8'' \<noteq> None"
  shows "request_handle_action w rq f = Inr (x_emit [FileWritten ''/mnt/ram0/master.m3u8'' out, sends w (ag_session (x_globals f)) (remote_url ida)]
    (x_upd (\<lambda>g. g\<lparr>ag_ids := ida @ CHR ''#'' # idb\<rparr>) f))"
proof -
  let ?f1 = "x_upd (\<lambda>g. g\<lparr>ag_ids := ida @ CHR ''#'' # idb\<rparr>) (x_emit [FileWritten ''/mnt/ram0/master.m3u8'' out] f)"
  have t: "takeWhile (\<lambda>c. c \<noteq> CHR ''#'') (ida @ CHR ''#'' # idb) = ida" using i(1) by (auto simp: plain_id_def takeWhile_append)
  have "request_first w ?f1 = request_handle_send_back w (remote_url ida) ?f1"
    using i t by (simp add: request_first_def)
  also have "\<dots> = Inr (x_emit [sends w (ag_session (x_globals f)) (remote_url ida)] ?f1)"
    using send_back_text [of ?f1 w "remote_url ida"] w i(2) by (simp add: sends_def remote_url_def)
  finally show ?thesis
    using r(4) by (simp add: action_carries [OF r(1-3)] run_trans_translates [OF m]) (simp add: x_emit_def x_upd_def)
qed

lemma media_translated:
  assumes r: "binary_plist rq" "aw_from_bin w (http_request_get_data rq) = Some p" "carries p (remote_url ident) data"
    and i: "plain_id ident" "length ident < 128" and g: "CHR ''#'' \<in> set (ag_ids (x_globals f))"
  shows "request_handle_action w rq f = ebind (run_trans w (Some data) (media_path ident) False f) (\<lambda>(ret, f).
      if ret = 0 then let l = last_id (ag_ids (x_globals f)) in
        if starts_with ident l then Inr (opened (Some ''http://localhost/itag/master.m3u8'') (Fin 0) (ag_position (x_globals f)) f)
        else if length (remote_url l) \<ge> 256 then Inl OutOfBounds else request_handle_send_back w (remote_url l) f
      else request_handle_send_back w ''mlhls://localhost/itag/master.m3u8'' f)"
proof -
  have d: "CHR ''/'' \<notin> set ident" "CHR ''.'' \<notin> set ident" "ident \<noteq> []" using i(1) by (auto simp: plain_id_def)
  have n: "c_strstr (remote_url ident) ''master.m3u8'' = None" "c_strstr (remote_url ident) ''index.m3u8'' = None"
    using no_playlist_name [OF d(2), of "''master''"] no_playlist_name [OF d(2), of "''index''"] by simp_all
  have "request_handle_action w rq f = media_response w (Some data) (remote_url ident) f"
    by (simp add: action_carries [OF r] n remote_url_parts(4) [OF d(1)])
  then show ?thesis using d(3) i(2) g remote_url_parts [OF d(1)] by (simp add: media_response_def Let_def media_path_def cong: if_cong)
qed

lemma media_exchange:
  assumes w: "ag_session (x_globals f) \<noteq> []" "length (ag_session (x_globals f)) < 128" "aw_time w \<noteq> []" "length (aw_time w) \<le> 40"
    and g: "ag_ids (x_globals f) = ida @ CHR ''#'' # idb" "CHR ''#'' \<notin> set idb" "length idb < 128"
    and m: "aw_open w (media_path ident)" "translates w data False (ag_ids (x_globals f)) ret out (ag_ids (x_globals f))"
    and i: "plain_id ident" "length ident < 128"
    and r: "binary_plist rq" "aw_from_bin w (http_request_get_data rq) = Some p" "carries p (remote_url ident) data"
  shows "request_handle_action w rq f =
    (let f = x_emit [FileWritten (media_path ident) out] f
     in Inr (if ret = 0 then if starts_with ident idb
                then opened (Some ''http://localhost/itag/master.m3u8'') (Fin 0) (ag_position (x_globals f)) f
                else x_emit [sends w (ag_session (x_globals f)) (remote_url idb)] f
             else x_emit [sends w (ag_session (x_globals f)) ''mlhls://localhost/itag/master.m3u8''] f))"
proof -
  let ?f1 = "x_emit [FileWritten (media_path ident) out] f"
  have t: "run_trans w (Some data) (media_path ident) False f = Inr (ret, ?f1)"
    by (subst run_trans_translates [OF m]) (simp add: x_emit_def x_upd_def)
  have s: "request_handle_send_back w u ?f1 = Inr (x_emit [sends w (ag_session (x_globals f)) u] ?f1)" if "length u < 1000" for u
    using send_back_text [of ?f1 w u] w that by (simp add: sends_def)
  have l: "last_id (ag_ids (x_globals ?f1)) = idb" by (simp add: g(1) last_id_append [OF g(2)])
  have "request_handle_action w rq f = (if ret = 0 then if starts_with ident idb
        then Inr (opened (Some ''http://localhost/itag/master.m3u8'') (Fin 0) (ag_position (x_globals ?f1)) ?f1)
        else if length (remote_url idb) \<ge> 256 then Inl OutOfBounds else request_handle_send_back w (remote_url idb) ?f1
      else request_handle_send_back w ''mlhls://localhost/itag/master.m3u8'' ?f1)"
    using media_translated [OF r i, of f] g(1) unfolding t by (simp add: l Let_def del: x_edits)
  then show ?thesis
    using s [of "remote_url idb"] s [of "''mlhls://localhost/itag/master.m3u8''"] g(3) by (simp add: remote_url_def Let_def)
qed

lemma media_undefined:
  assumes "binary_plist rq" "aw_from_bin w (http_request_get_data rq) = Some p" "carries p (remote_url ident) data"
    "plain_id ident" "length ident < 128" "CHR ''#'' \<in> set (ag_ids (x_globals f))" "aw_open w (media_path ident)"
    "trans True (aw_line2 w) (c_str (chars_of data @ aw_behind w) 0) False (ag_ids (x_globals f)) 1024 = None"
  shows "request_handle_action w rq f = Inl OutOfBounds"
  using media_translated [OF assms(1-6)] assms(7,8) by (simp add: run_trans_def)

text \<open>
  C11. The exchange of playlists. After the master playlist with two groups the client is asked for the
  playlist of the first; after that one for the playlist of the second, unless the first name starts with
  the second; after the second the player opens the local master playlist at the position the play request
  stored. An advertisement, a media playlist without the condensed head, sends the server back to the master
  playlist. A media playlist on which the translator is undefined, as on every condensed one with a segment,
  makes the request undefined: the exchange completes for condensed playlists of tags only.
\<close>

theorem playlists_are_exchanged:
  assumes w: "aw_time w \<noteq> []" "length (aw_time w) \<le> 40" "\<forall>path. aw_open w path"
    and ids: "plain_id ida" "plain_id idb" "length (ida @ CHR ''#'' # idb) < 128"
    and one: "binary_plist rq1" "aw_from_bin w (http_request_get_data rq1) = Some p1" "carries p1 ''mlhls://localhost/itag/master.m3u8'' master"
      "translates w master True (ag_ids (x_globals f1)) ret out1 (ida @ CHR ''#'' # idb)"
    and two: "binary_plist rq2" "aw_from_bin w (http_request_get_data rq2) = Some p2" "carries p2 (remote_url ida) data2"
    and three: "binary_plist rq3" "aw_from_bin w (http_request_get_data rq3) = Some p3" "carries p3 (remote_url idb) data3"
    and s: "ag_session (x_globals f1) = session" "session \<noteq> []" "length session < 128"
      "x_globals f2 = (x_globals f1)\<lparr>ag_ids := ida @ CHR ''#'' # idb\<rparr>" "x_globals f3 = x_globals f2"
    and t: "t2 = trans True (aw_line2 w) (c_str (chars_of data2 @ aw_behind w) 0) False (ida @ CHR ''#'' # idb) 1024"
      "t3 = trans True (aw_line2 w) (c_str (chars_of data3 @ aw_behind w) 0) False (ida @ CHR ''#'' # idb) 1024"
  shows "request_handle_action w rq1 f1
      = Inr (x_emit [FileWritten ''/mnt/ram0/master.m3u8'' out1, sends w session (remote_url ida)] (f1\<lparr>x_globals := x_globals f2\<rparr>)) \<and>
    (\<forall>out2. \<not> starts_with ida idb \<and> t2 = Some (0, Some out2, ida @ CHR ''#'' # idb) \<longrightarrow> request_handle_action w rq2 f2
      = Inr (x_emit [FileWritten (media_path ida) out2, sends w session (remote_url idb)] f2)) \<and>
    (\<forall>out3. t3 = Some (0, Some out3, ida @ CHR ''#'' # idb) \<longrightarrow> request_handle_action w rq3 f3
      = Inr (opened (Some ''http://localhost/itag/master.m3u8'') (Fin 0) (ag_position (x_globals f1)) (x_emit [FileWritten (media_path idb) out3] f3))) \<and>
    (\<forall>r3 out3. r3 \<noteq> 0 \<and> t3 = Some (r3, Some out3, ida @ CHR ''#'' # idb) \<longrightarrow> request_handle_action w rq3 f3
      = Inr (x_emit [FileWritten (media_path idb) out3, sends w session ''mlhls://localhost/itag/master.m3u8''] f3)) \<and>
    (t2 = None \<longrightarrow> request_handle_action w rq2 f2 = Inl OutOfBounds) \<and>
    (t3 = None \<longrightarrow> request_handle_action w rq3 f3 = Inl OutOfBounds)"
proof (intro conjI allI impI)
  have m: "c_strstr ''mlhls://localhost/itag/master.m3u8'' ''master.m3u8'' \<noteq> None" by code_simp
  show "request_handle_action w rq1 f1
      = Inr (x_emit [FileWritten ''/mnt/ram0/master.m3u8'' out1, sends w session (remote_url ida)] (f1\<lparr>x_globals := x_globals f2\<rparr>))"
    using master_exchange [OF _ _ w(1,2) _ one(4) ids(1,3) one(1-3) m] w(3) s by (simp add: x_emit_def x_upd_def)
  have i: "CHR ''#'' \<notin> set idb" "length idb < 128" "length ida < 128" "starts_with idb idb"
    using ids by (auto simp: plain_id_def starts_with_def)
  have g: "ag_ids (x_globals f2) = ida @ CHR ''#'' # idb" "ag_ids (x_globals f3) = ida @ CHR ''#'' # idb"
    "ag_session (x_globals f2) = session" "ag_session (x_globals f3) = session" "ag_position (x_globals f3) = ag_position (x_globals f1)"
    using s by simp_all
  note 2 = media_exchange [OF _ _ w(1,2) g(1) i(1,2) _ _ ids(1) i(3) two]
  show "request_handle_action w rq2 f2 = Inr (x_emit [FileWritten (media_path ida) out2, sends w session (remote_url idb)] f2)"
    if "\<not> starts_with ida idb \<and> t2 = Some (0, Some out2, ida @ CHR ''#'' # idb)" for out2
    using 2 [of 0 out2] that w(3) s(2,3) t(1) by (simp add: g translates_def) (simp add: x_emit_def)
  note 3 = media_exchange [OF _ _ w(1,2) g(2) i(1,2) _ _ ids(2) i(2) three]
  show "request_handle_action w rq3 f3 = Inr (opened (Some ''http://localhost/itag/master.m3u8'') (Fin 0) (ag_position (x_globals f1))
      (x_emit [FileWritten (media_path idb) out3] f3))" if "t3 = Some (0, Some out3, ida @ CHR ''#'' # idb)" for out3
    using 3 [of 0 out3] that w(3) s(2,3) t(2) i(4) by (simp add: g translates_def)
  show "request_handle_action w rq3 f3 = Inr (x_emit [FileWritten (media_path idb) out3, sends w session ''mlhls://localhost/itag/master.m3u8''] f3)"
    if "r3 \<noteq> 0 \<and> t3 = Some (r3, Some out3, ida @ CHR ''#'' # idb)" for r3 out3
    using 3 [of r3 out3] that w(3) s(2,3) t(2) by (simp add: g translates_def) (simp add: x_emit_def)
  show "request_handle_action w rq2 f2 = Inl OutOfBounds" if "t2 = None"
    using media_undefined [OF two ids(1) i(3), of f2] w(3) t(1) that by (simp add: g)
  show "request_handle_action w rq3 f3 = Inl OutOfBounds" if "t3 = None"
    using media_undefined [OF three ids(2) i(2), of f3] w(3) t(2) that by (simp add: g)
qed

definition demo_master :: string where
  \<open>demo_master = ''#EXT-X-STREAM-INF:RESOLUTION=1280x720,AUDIO="b"'' @ [LF] @ ''mlhls://localhost/itag/a/mediadata.m3u8'' @ [LF]\<close>

definition demo_head :: string where
  \<open>demo_head = ''#YT-EXT-CONDENSED-URL:BASE-URI="h:a",PARAMS="k,s",PREFIX="p"'' @ [LF]\<close>

definition unhandled :: "string \<Rightarrow> string \<Rightarrow> plist option" where
  "unhandled url text = Some (PDict [(''type'', PString ''unhandledURLResponse''),
     (''params'', PDict [(''FCUP_Response_Data'', PData (bytes_of text)), (''FCUP_Response_URL'', PString url)])])"

definition air_play_demo :: air_world where
  \<comment> \<open>the body names the response\<close>
  "air_play_demo = air_demo\<lparr>aw_from_bin := (\<lambda>s. Some (if s = ''m'' then unhandled ''mlhls://localhost/itag/master.m3u8'' demo_master
     else unhandled (remote_url s) (if s = ''a'' then demo_head @ ''p/1/2'' @ [LF] else demo_head)))\<rparr>"

definition listing :: "string \<Rightarrow> http_request" where
  "listing body = \<lparr>rq_method = Some ''POST'', rq_url = Some ''/action'',
     rq_headers = [Some ''Content-Type'', Some ''application/x-apple-binary-plist''], rq_headers_index = 2, rq_data = body, rq_complete = True\<rparr>"

lemma listing_simps [simp]: "binary_plist (listing body)" "http_request_get_data (listing body) = body"
  by (simp_all add: listing_def binary_plist_def http_request_get_header_def http_request_get_data_def streq_def)

lemma carries_unhandled: "carries (unhandled url text) url (bytes_of text)"
  by (simp add: carries_def unhandled_def plist_dict_get_item_def plist_get_string_val_def)

theorem playlists_are_exchanged_witness:
  "\<exists>out f. request_handle_action air_play_demo (listing ''b'') (air_new None (air_demo_globals\<lparr>ag_ids := ''a#b''\<rparr>) air_demo_server) = Inr f \<and>
    x_events f = [FileWritten ''/mnt/ram0/b_mediadata.m3u8'' out, PlaybackOpen (Some ''http://localhost/itag/master.m3u8'') (Fin 0) (Fin 0)] \<and>
    request_handle_action air_play_demo (listing ''a'') (air_new None (air_demo_globals\<lparr>ag_ids := ''a#b''\<rparr>) air_demo_server) = Inl OutOfBounds"
proof -
  have t: "\<exists>out. trans True (replicate 2048 NUL) demo_master True [] 1024 = Some (0, Some out, ''a#b'')"
    "\<exists>out. trans True (replicate 2048 NUL) demo_head False ''a#b'' 1024 = Some (0, Some out, ''a#b'')"
    by (rule exI, code_simp)+
  have u: "trans True (replicate 2048 NUL) (demo_head @ ''p/1/2'' @ [LF]) False ''a#b'' 1024 = None" by code_simp
  have c: "c_str (chars_of (bytes_of demo_master) @ [NUL]) 0 = demo_master" "c_str (chars_of (bytes_of demo_head) @ [NUL]) 0 = demo_head"
    "c_str (chars_of (bytes_of (demo_head @ ''p/1/2'' @ [LF])) @ [NUL]) 0 = demo_head @ ''p/1/2'' @ [LF]"
    by code_simp+
  let ?ids = "''a'' @ CHR ''#'' # ''b''"
  let ?f1 = "air_new None air_demo_globals air_demo_server" and ?f = "air_new None (air_demo_globals\<lparr>ag_ids := ''a#b''\<rparr>) air_demo_server"
  have q: "aw_line2 air_play_demo = replicate 2048 NUL" "aw_behind air_play_demo = [NUL]" by (simp_all add: air_play_demo_def air_demo_def)
  obtain out1 where o: "translates air_play_demo (bytes_of demo_master) True (ag_ids (x_globals ?f1)) 0 out1 ?ids"
    using t c by (auto simp: translates_def q air_demo_globals_def)
  obtain out where t3: "trans True (aw_line2 air_play_demo) (c_str (chars_of (bytes_of demo_head) @ aw_behind air_play_demo) 0) False ?ids 1024
    = Some (0, Some out, ?ids)" using t(2) unfolding q c by auto
  have t2: "trans True (aw_line2 air_play_demo) (c_str (chars_of (bytes_of (demo_head @ ''p/1/2'' @ [LF])) @ aw_behind air_play_demo) 0) False ?ids 1024 = None"
    unfolding q c using u by simp
  have w: "aw_time air_play_demo \<noteq> []" "length (aw_time air_play_demo) \<le> 40" "\<forall>path. aw_open air_play_demo path"
    by (simp_all add: air_play_demo_def air_demo_def)
  have i: "plain_id ''a''" "plain_id ''b''" "length ?ids < 128" by (simp_all add: plain_id_def)
  have p: "aw_from_bin air_play_demo ''m'' = Some (unhandled ''mlhls://localhost/itag/master.m3u8'' demo_master)"
    "aw_from_bin air_play_demo ''a'' = Some (unhandled (remote_url ''a'') (demo_head @ ''p/1/2'' @ [LF]))"
    "aw_from_bin air_play_demo ''b'' = Some (unhandled (remote_url ''b'') demo_head)" by (simp_all add: air_play_demo_def)
  have s: "ag_session (x_globals ?f1) = ''s''" "''s'' \<noteq> []" "length ''s'' < 128" "x_globals ?f = (x_globals ?f1)\<lparr>ag_ids := ?ids\<rparr>"
    by (simp_all add: air_new_def air_demo_globals_def)
  note x = playlists_are_exchanged [OF w i listing_simps(1) _ carries_unhandled o listing_simps(1) _ carries_unhandled
      listing_simps(1) _ carries_unhandled s refl refl refl, of "''m''" "''a''" "demo_head @ ''p/1/2'' @ [LF]" "''b''" demo_head]
  show ?thesis using x t2 t3 p by (auto simp: media_path_def air_new_def air_demo_globals_def)
qed

end
