(* ===== verification/New_Aes.thy ===== *)
theory New_Aes
  imports Aes_Tables Aes_Ctr
begin

text \<open>
  The table driven block cipher of \<open>libairplay/crypt/new_aes.c\<close>: key schedules for 128, 192 and 256 bits,
  encryption and decryption of a block by look-ups in tables of words. The header \<open>aes_locl.h\<close> undefines
  \<open>FULL_UNROLL\<close>, so the loops are what is compiled. It is proved to be the cipher of \<open>Aes\<close>: a round of look-ups is a
  round of substitutions and mixed columns, and the reversed schedule makes decryption such rounds too.
\<close>

unbundle bit_operations_syntax

section \<open>Key schedules\<close>

record aes_key =
  ak_rd_key :: "u32 list"       \<comment> \<open>an array of 60\<close>
  ak_rounds :: nat

definition GETU32 :: "byte list \<Rightarrow> nat \<Rightarrow> u32" where
  "GETU32 pt n = push_bit 24 (ucast (pt ! n)) XOR push_bit 16 (ucast (pt ! (n + 1))) XOR push_bit 8 (ucast (pt ! (n + 2)))
     XOR ucast (pt ! (n + 3))"

definition PUTU32 :: "u32 \<Rightarrow> byte list" where
  "PUTU32 st = [byte_at 24 st, byte_at 16 st, byte_at 8 st, byte_at 0 st]"

definition last_word :: "u32 \<Rightarrow> u32 \<Rightarrow> u32 \<Rightarrow> u32 \<Rightarrow> u32" where
  "last_word t0 t1 t2 t3 = (entry Te2 24 t0 AND 0xff000000) XOR (entry Te3 16 t1 AND 0x00ff0000)
     XOR (entry Te0 8 t2 AND 0x0000ff00) XOR (entry Te1 0 t3 AND 0x000000ff)"

definition key_word :: "u32 \<Rightarrow> nat \<Rightarrow> u32" where
  "key_word temp i = (entry Te2 16 temp AND 0xff000000) XOR (entry Te3 8 temp AND 0x00ff0000)
     XOR (entry Te0 0 temp AND 0x0000ff00) XOR (entry Te1 24 temp AND 0x000000ff) XOR rcon ! i"

fun xor_chain :: "u32 \<Rightarrow> u32 list \<Rightarrow> u32 list" where
  \<comment> \<open>a new word and the ones after it, each the old word in its place and the one before it\<close>
  "xor_chain w [] = [w]"
| "xor_chain w (x # xs) = w # xor_chain (x XOR w) xs"

definition expand_128 :: "nat \<Rightarrow> u32 list \<Rightarrow> u32 list" where
  "expand_128 i rk = (let p = 4 * i
     in write_at (p + 4) (xor_chain (rk ! p XOR key_word (rk ! (p + 3)) i) [rk ! (p + 1), rk ! (p + 2), rk ! (p + 3)]) rk)"

definition expand_192 :: "nat \<Rightarrow> u32 list \<Rightarrow> u32 list" where
  "expand_192 i rk = (let p = 6 * i
     in write_at (p + 6) (xor_chain (rk ! p XOR key_word (rk ! (p + 5)) i)
          ([rk ! (p + 1), rk ! (p + 2), rk ! (p + 3)] @ (if i + 1 = 8 then [] else [rk ! (p + 4), rk ! (p + 5)]))) rk)"

definition expand_256 :: "nat \<Rightarrow> u32 list \<Rightarrow> u32 list" where
  "expand_256 i rk = (let p = 8 * i;
       rk = write_at (p + 8) (xor_chain (rk ! p XOR key_word (rk ! (p + 7)) i) [rk ! (p + 1), rk ! (p + 2), rk ! (p + 3)]) rk;
       temp = rk ! (p + 11)
     in if i + 1 = 7 then rk
     else write_at (p + 12) (xor_chain (rk ! (p + 4) XOR last_word temp temp temp temp) [rk ! (p + 5), rk ! (p + 6), rk ! (p + 7)]) rk)"

definition user_words :: "byte list \<Rightarrow> nat \<Rightarrow> u32 list" where
  "user_words userKey n = map (\<lambda>i. GETU32 userKey (4 * i)) [0..<n]"

definition private_AES_set_encrypt_key :: "byte list option \<Rightarrow> int \<Rightarrow> aes_key option \<Rightarrow> int \<times> aes_key option" where
  "private_AES_set_encrypt_key userKey bits key =
     (case (userKey, key) of
        (Some userKey, Some key) \<Rightarrow>
          if bits \<noteq> 128 \<and> bits \<noteq> 192 \<and> bits \<noteq> 256 then (-2, Some key)
          else (let key = key\<lparr>ak_rounds := (if bits = 128 then 10 else if bits = 192 then 12 else 14)\<rparr>;
                    rk = write_at 0 (user_words userKey (if bits = 128 then 4 else if bits = 192 then 6 else 8)) (ak_rd_key key);
                    rk = (if bits = 128 then fold expand_128 [0..<10] rk
                          else if bits = 192 then fold expand_192 [0..<8] rk else fold expand_256 [0..<7] rk)
                in (0, Some (key\<lparr>ak_rd_key := rk\<rparr>)))
      | _ \<Rightarrow> (-1, key))"

definition swap_groups :: "nat \<Rightarrow> nat \<Rightarrow> u32 list \<Rightarrow> u32 list" where
  \<comment> \<open>four words at \<open>i\<close> with four words at \<open>j\<close>\<close>
  "swap_groups i j rk = fold (\<lambda>k rk. rk[i + k := rk ! (j + k), j + k := rk ! (i + k)]) [0..<4] rk"

function invert_order :: "nat \<Rightarrow> nat \<Rightarrow> u32 list \<Rightarrow> u32 list" where
  "invert_order i j rk = (if i < j then invert_order (i + 4) (j - 4) (swap_groups i j rk) else rk)"
  by pat_completeness auto
termination by (relation "measure (\<lambda>(i, j, rk). j - i)") auto

declare invert_order.simps [simp del]

definition td_word :: "u32 \<Rightarrow> u32 \<Rightarrow> u32 \<Rightarrow> u32 \<Rightarrow> u32" where
  "td_word t0 t1 t2 t3 = entry Td0 24 t0 XOR entry Td1 16 t1 XOR entry Td2 8 t2 XOR entry Td3 0 t3"

definition inverse_mix :: "u32 \<Rightarrow> u32" where
  \<comment> \<open>\<open>Td0[Te1[w >> 24] & 0xff] ^ ...\<close>\<close>
  "inverse_mix w = Td0 ! unat (entry Te1 24 w AND 0xff) XOR Td1 ! unat (entry Te1 16 w AND 0xff)
     XOR Td2 ! unat (entry Te1 8 w AND 0xff) XOR Td3 ! unat (entry Te1 0 w AND 0xff)"

definition private_AES_set_decrypt_key :: "byte list option \<Rightarrow> int \<Rightarrow> aes_key option \<Rightarrow> int \<times> aes_key option" where
  "private_AES_set_decrypt_key userKey bits key =
     (let (status, key) = private_AES_set_encrypt_key userKey bits key
      in if status < 0 then (status, key)
      else (0, map_option (\<lambda>key. key\<lparr>ak_rd_key :=
             (let rk = invert_order 0 (4 * ak_rounds key) (ak_rd_key key); n = 4 * (ak_rounds key - 1)
              in write_at 4 (map inverse_mix (take n (drop 4 rk))) rk)\<rparr>) key))"

definition AES_set_encrypt_key :: "byte list option \<Rightarrow> int \<Rightarrow> aes_key option \<Rightarrow> int \<times> aes_key option" where
  "AES_set_encrypt_key userKey bits key = private_AES_set_encrypt_key userKey bits key"

definition AES_set_decrypt_key :: "byte list option \<Rightarrow> int \<Rightarrow> aes_key option \<Rightarrow> int \<times> aes_key option" where
  "AES_set_decrypt_key userKey bits key = private_AES_set_decrypt_key userKey bits key"

section \<open>One block\<close>

definition te_word :: "u32 \<Rightarrow> u32 \<Rightarrow> u32 \<Rightarrow> u32 \<Rightarrow> u32" where
  "te_word t0 t1 t2 t3 = entry Te0 24 t0 XOR entry Te1 16 t1 XOR entry Te2 8 t2 XOR entry Te3 0 t3"

definition te_round :: "u32 list \<Rightarrow> nat \<Rightarrow> u32 list \<Rightarrow> u32 list" where
  \<comment> \<open>with the round key at \<open>p\<close>\<close>
  "te_round rk p s =
     [te_word (s ! 0) (s ! 1) (s ! 2) (s ! 3) XOR rk ! p, te_word (s ! 1) (s ! 2) (s ! 3) (s ! 0) XOR rk ! (p + 1),
      te_word (s ! 2) (s ! 3) (s ! 0) (s ! 1) XOR rk ! (p + 2), te_word (s ! 3) (s ! 0) (s ! 1) (s ! 2) XOR rk ! (p + 3)]"

fun full_rounds :: "(u32 list \<Rightarrow> nat \<Rightarrow> u32 list \<Rightarrow> u32 list) \<Rightarrow> nat \<Rightarrow> u32 list \<Rightarrow> nat \<Rightarrow> u32 list \<Rightarrow> u32 list \<times> nat" where
  \<comment> \<open>the loop \<open>for (;;)\<close> with its counter: the state and the place of the last round key; a schedule has at least ten
    rounds, so the counter is never 0 at the start\<close>
  "full_rounds round (Suc r) rk p s =
     (let t = round rk (p + 4) s; p = p + 8 in if r = 0 then (t, p) else full_rounds round r rk p (round rk p t))"
| "full_rounds round 0 rk p s = (s, p)"

definition first_key :: "byte list \<Rightarrow> u32 list \<Rightarrow> u32 list" where
  "first_key inp rk = [GETU32 inp 0 XOR rk ! 0, GETU32 inp 4 XOR rk ! 1, GETU32 inp 8 XOR rk ! 2, GETU32 inp 12 XOR rk ! 3]"

definition new_AES_encrypt :: "aes_key \<Rightarrow> byte list \<Rightarrow> byte list" where
  "new_AES_encrypt key inp =
     (let rk = ak_rd_key key; (t, p) = full_rounds te_round (ak_rounds key div 2) rk 0 (first_key inp rk)
      in PUTU32 (last_word (t ! 0) (t ! 1) (t ! 2) (t ! 3) XOR rk ! p) @ PUTU32 (last_word (t ! 1) (t ! 2) (t ! 3) (t ! 0) XOR rk ! (p + 1))
       @ PUTU32 (last_word (t ! 2) (t ! 3) (t ! 0) (t ! 1) XOR rk ! (p + 2)) @ PUTU32 (last_word (t ! 3) (t ! 0) (t ! 1) (t ! 2) XOR rk ! (p + 3)))"

definition td_round :: "u32 list \<Rightarrow> nat \<Rightarrow> u32 list \<Rightarrow> u32 list" where
  "td_round rk p s =
     [td_word (s ! 0) (s ! 3) (s ! 2) (s ! 1) XOR rk ! p, td_word (s ! 1) (s ! 0) (s ! 3) (s ! 2) XOR rk ! (p + 1),
      td_word (s ! 2) (s ! 1) (s ! 0) (s ! 3) XOR rk ! (p + 2), td_word (s ! 3) (s ! 2) (s ! 1) (s ! 0) XOR rk ! (p + 3)]"

definition td_last :: "u32 \<Rightarrow> u32 \<Rightarrow> u32 \<Rightarrow> u32 \<Rightarrow> u32" where
  "td_last t0 t1 t2 t3 = push_bit 24 (ucast (Td4 ! unat (byte_at 24 t0))) XOR push_bit 16 (ucast (Td4 ! unat (byte_at 16 t1)))
     XOR push_bit 8 (ucast (Td4 ! unat (byte_at 8 t2))) XOR ucast (Td4 ! unat (byte_at 0 t3))"

definition new_AES_decrypt :: "aes_key \<Rightarrow> byte list \<Rightarrow> byte list" where
  "new_AES_decrypt key inp =
     (let rk = ak_rd_key key; (t, p) = full_rounds td_round (ak_rounds key div 2) rk 0 (first_key inp rk)
      in PUTU32 (td_last (t ! 0) (t ! 3) (t ! 2) (t ! 1) XOR rk ! p) @ PUTU32 (td_last (t ! 1) (t ! 0) (t ! 3) (t ! 2) XOR rk ! (p + 1))
       @ PUTU32 (td_last (t ! 2) (t ! 1) (t ! 0) (t ! 3) XOR rk ! (p + 2)) @ PUTU32 (td_last (t ! 3) (t ! 2) (t ! 1) (t ! 0) XOR rk ! (p + 3)))"

definition new_AES_ecb_encrypt :: "aes_key \<Rightarrow> bool \<Rightarrow> byte list \<Rightarrow> byte list" where
  "new_AES_ecb_encrypt key enc inp = (if enc then new_AES_encrypt key inp else new_AES_decrypt key inp)"

section \<open>Words of the tables\<close>

lemma last_word_sub: "last_word t0 t1 t2 t3 = be32 (sbox (byte_at 24 t0)) (sbox (byte_at 16 t1)) (sbox (byte_at 8 t2)) (sbox (byte_at 0 t3))"
  by (simp add: last_word_def entries mask_be32 be32_xor)

lemma key_word_sub: "i < 10 \<Longrightarrow> key_word w i = be32 (sbox (byte_at 16 w)) (sbox (byte_at 8 w)) (sbox (byte_at 0 w)) (sbox (byte_at 24 w))
    XOR be32 (Rcon ! i) 0 0 0"
  by (simp add: key_word_def entries mask_be32 be32_xor rcon_table)

lemma te_word_mix: "te_word t0 t1 t2 t3 = mix_column (sbox (byte_at 24 t0)) (sbox (byte_at 16 t1)) (sbox (byte_at 8 t2)) (sbox (byte_at 0 t3))"
  by (simp add: te_word_def entries be32_xor mix_column_def Let_def AES_xtime_xor byte_xor_ac)

lemma unmix_rotated:
  "unmix_column a b c d = unmix_column a 0 0 0 XOR rot1 (unmix_column b 0 0 0) XOR rot1 (rot1 (unmix_column c 0 0 0))
     XOR rot1 (rot1 (rot1 (unmix_column d 0 0 0)))"
  by (simp add: unmix_column_def Let_def rot_be32 be32_xor AES_xtime_xor byte_xor_ac)

lemma td_word_unmix: "td_word t0 t1 t2 t3 = unmix_column (isbox (byte_at 24 t0)) (isbox (byte_at 16 t1)) (isbox (byte_at 8 t2)) (isbox (byte_at 0 t3))"
  unfolding td_word_def inverse_entries by (rule unmix_rotated [symmetric])

lemma inverse_mix_unmix: "inverse_mix w = unmix_word w"
proof -
  have i: "Td ! unat (entry Te1 n w AND 0xff) = entry Td 0 (be32 0 0 0 (sbox (byte_at n w)))" for Td n
  proof -
    have "unat (be32 0 0 0 b) = unat b" for b by (simp add: be32_def unat_ucast_byte)
    moreover have "entry Te1 n w AND 0xff = be32 0 0 0 (sbox (byte_at n w))" by (simp only: entries mask_be32)
    ultimately show ?thesis by (simp only: entry_def be32_byte_at)
  qed
  show ?thesis unfolding inverse_mix_def i inverse_entries
    by (simp only: be32_byte_at isbox_sbox unmix_word_def) (rule unmix_rotated [symmetric])
qed

lemma GETU32_be32: "GETU32 pt n = be32 (pt ! n) (pt ! (n + 1)) (pt ! (n + 2)) (pt ! (n + 3))"
  by (rule u32_eqI) (simp add: GETU32_def be32_def bit_simps numeral_2_eq_2)

lemma td_last_sub: "td_last t0 t1 t2 t3 = be32 (isbox (byte_at 24 t0)) (isbox (byte_at 16 t1)) (isbox (byte_at 8 t2)) (isbox (byte_at 0 t3))"
  by (rule u32_eqI) (simp add: td_last_def Td4_table isbox_def [symmetric] be32_def bit_simps numeral_2_eq_2)

section \<open>Rounds\<close>

lemma te_round_encrypt:
  assumes "length s = 4" "r < R - 1"
  shows "te_round rk (4 * (r + 1)) s = encrypt_round R rk r s"
proof -
  obtain w x y z where "s = [w, x, y, z]" using four_words [OF assms(1)] by blast
  then show ?thesis using assms(2)
    by (simp add: te_round_def encrypt_round_def add_key_def upt_4 encrypt_row_def te_word_mix)
qed

lemma last_round_encrypt:
  assumes "length t = 4" "0 < R"
  shows "[last_word (t ! 0) (t ! 1) (t ! 2) (t ! 3) XOR rk ! (4 * R), last_word (t ! 1) (t ! 2) (t ! 3) (t ! 0) XOR rk ! (4 * R + 1),
    last_word (t ! 2) (t ! 3) (t ! 0) (t ! 1) XOR rk ! (4 * R + 2), last_word (t ! 3) (t ! 0) (t ! 1) (t ! 2) XOR rk ! (4 * R + 3)]
    = encrypt_round R rk (R - 1) t"
proof -
  obtain w x y z where t: "t = [w, x, y, z]" using four_words [OF assms(1)] by blast
  obtain n where "R = Suc n" using assms(2) by (cases R) auto
  then show ?thesis
    by (simp add: t encrypt_round_def add_key_def upt_4 encrypt_row_def last_word_sub del: mult_Suc_right)
qed

lemma full_rounds_fold:
  assumes "\<And>r s. length s = 4 \<Longrightarrow> r < 2 * h - 1 \<Longrightarrow> round rk (4 * (r + 1)) s = step r s \<and> length (step r s) = 4"
    "0 < m" "i + m = h" "length s = 4"
  shows "full_rounds round m rk (8 * i) s = (fold step [2 * i..<2 * h - 1] s, 8 * h)"
  using assms(2-4)
proof (induction m arbitrary: i s)
  case (Suc m)
  have one: "round rk (8 * i + 4) s = step (2 * i) s" "length (step (2 * i) s) = 4"
    using assms(1) [of s "2 * i"] Suc.prems by (auto simp: algebra_simps)
  show ?case
  proof (cases "m = 0")
    case True
    then have "[2 * i..<2 * h - 1] = [2 * i]" using Suc.prems by (auto simp: upt_rec)
    then show ?thesis using True one Suc.prems by (auto simp: Let_def)
  next
    case False
    have two: "round rk (8 * i + 8) (step (2 * i) s) = step (2 * i + 1) (step (2 * i) s)" "length (step (2 * i + 1) (step (2 * i) s)) = 4"
      using assms(1) [OF one(2), of "2 * i + 1"] False Suc.prems by (auto simp: algebra_simps)
    have "[2 * i..<2 * h - 1] = 2 * i # (2 * i + 1) # [2 * (i + 1)..<2 * h - 1]"
      using False Suc.prems by (simp add: upt_conv_Cons)
    then show ?thesis
      using Suc.IH [of "i + 1" "step (2 * i + 1) (step (2 * i) s)"] False Suc.prems one two
      by (simp add: Let_def algebra_simps)
  qed
qed simp

definition ctx_of :: "aes_key \<Rightarrow> aes_ctx" where
  \<comment> \<open>the context of \<open>Aes\<close> with the same schedule\<close>
  "ctx_of key = \<lparr>a_rounds = ak_rounds key, a_ks = take (4 * (ak_rounds key + 1)) (ak_rd_key key), a_iv = []\<rparr>"

definition key_ok :: "aes_key \<Rightarrow> bool" where
  "key_ok key \<longleftrightarrow> even (ak_rounds key) \<and> 0 < ak_rounds key \<and> 4 * (ak_rounds key + 1) \<le> length (ak_rd_key key)"

lemma key_words_16: "length inp = 16 \<Longrightarrow> key_words inp = [GETU32 inp 0, GETU32 inp 4, GETU32 inp 8, GETU32 inp 12]"
  by (auto simp: GETU32_be32 length_Suc_conv numeral_eq_Suc)

lemma PUTU32_word_bytes: "PUTU32 a @ PUTU32 b @ PUTU32 c @ PUTU32 d = word_bytes [a, b, c, d]"
  by (simp add: PUTU32_def word_bytes_def)

lemma encrypt_round_cong:
  assumes "\<forall>k < 4 * (R + 1). ks ! k = ks' ! k" "r < R"
  shows "encrypt_round R ks r s = encrypt_round R ks' r s"
  using assms by (simp add: encrypt_round_def add_key_def upt_4)

lemma new_encrypt_encrypts:
  assumes "key_ok key" "length inp = 16"
  shows "new_AES_encrypt key inp = word_bytes (AES_encrypt (ctx_of key) (key_words inp))"
proof -
  define R where "R = ak_rounds key"
  define rk where "rk = ak_rd_key key"
  obtain h where h: "R = 2 * h" "0 < h" using assms(1) by (auto simp: key_ok_def R_def elim: evenE)
  have len: "length (encrypt_round R rk r s) = 4" for r s by (simp add: encrypt_round_def)
  let ?s = "first_key inp rk"
  have s: "length ?s = 4" "?s = add_key (key_words inp) rk 0"
    by (simp_all add: first_key_def key_words_16 [OF assms(2)] add_key_def upt_4)
  have f: "full_rounds te_round h rk 0 ?s = (fold (encrypt_round R rk) [0..<R - 1] ?s, 8 * h)"
    using full_rounds_fold [of h te_round rk "encrypt_round R rk" h 0 ?s] te_round_encrypt [of _ _ R rk] len h s(1) by simp
  have t: "length (fold (encrypt_round R rk) [0..<n] ?s) = 4" for n
    using s(1) len by (induction n) auto
  have "fold (encrypt_round R rk) [0..<R] ?s = encrypt_round R rk (R - 1) (fold (encrypt_round R rk) [0..<R - 1] ?s)"
    using h upt_Suc_append [of 0 "R - 1"] by simp
  then have e: "new_AES_encrypt key inp = word_bytes (fold (encrypt_round R rk) [0..<R] ?s)"
    using f h last_round_encrypt [OF t [of "R - 1"], of R rk]
    by (simp add: new_AES_encrypt_def rk_def [symmetric] R_def [symmetric] PUTU32_word_bytes)
  have ks: "\<forall>k < 4 * (R + 1). take (4 * (R + 1)) rk ! k = rk ! k" by simp
  have "fold (encrypt_round R (take (4 * (R + 1)) rk)) [0..<R] ?s = fold (encrypt_round R rk) [0..<R] ?s"
    by (rule fold_cong) (use encrypt_round_cong [OF ks] in \<open>auto simp: fun_eq_iff\<close>)
  moreover have "add_key (key_words inp) (take (4 * (R + 1)) rk) 0 = ?s"
    using h by (simp add: s(2) add_key_def upt_4)
  ultimately show ?thesis
    unfolding e by (simp add: AES_encrypt_def ctx_of_def rk_def [symmetric] R_def [symmetric])
qed

section \<open>Decryption\<close>

definition reversed :: "nat \<Rightarrow> u32 list \<Rightarrow> u32 list \<Rightarrow> bool" where
  \<comment> \<open>the groups of four words of \<open>rk\<close> are those of \<open>ks\<close> in the opposite order\<close>
  "reversed R rk ks \<longleftrightarrow> (\<forall>r \<le> R. \<forall>row < 4. rk ! (4 * r + row) = ks ! (4 * (R - r) + row))"

lemma reversed_group:
  assumes "reversed R rk ks" "r \<le> R"
  shows "rk ! (4 * r) = ks ! (4 * (R - r))" "rk ! (4 * r + 1) = ks ! (4 * (R - r) + 1)"
    "rk ! (4 * r + 2) = ks ! (4 * (R - r) + 2)" "rk ! (4 * r + 3) = ks ! (4 * (R - r) + 3)"
proof -
  have "rk ! (4 * r + row) = ks ! (4 * (R - r) + row)" if "row < 4" for row using assms that unfolding reversed_def by blast
  from this [of 0] this [of 1] this [of 2] this [of 3]
  show "rk ! (4 * r) = ks ! (4 * (R - r))" "rk ! (4 * r + 1) = ks ! (4 * (R - r) + 1)"
    "rk ! (4 * r + 2) = ks ! (4 * (R - r) + 2)" "rk ! (4 * r + 3) = ks ! (4 * (R - r) + 3)" by simp_all
qed

lemma td_round_decrypt:
  assumes "length s = 4" "r < R - 1" "reversed R rk ks"
  shows "td_round rk (4 * (r + 1)) s = decrypt_round R ks r s"
proof -
  obtain w x y z where s: "s = [w, x, y, z]" using four_words [OF assms(1)] by blast
  have "r + 1 \<le> R" using assms(2) by linarith
  note k = reversed_group [OF assms(3) this]
  show ?thesis using assms(2) unfolding s td_round_def decrypt_round_def add_key_def upt_4 decrypt_row_def k
    by (simp add: td_word_unmix)
qed

lemma last_round_decrypt:
  assumes "length t = 4" "0 < R" "reversed R rk ks"
  shows "[td_last (t ! 0) (t ! 3) (t ! 2) (t ! 1) XOR rk ! (4 * R), td_last (t ! 1) (t ! 0) (t ! 3) (t ! 2) XOR rk ! (4 * R + 1),
    td_last (t ! 2) (t ! 1) (t ! 0) (t ! 3) XOR rk ! (4 * R + 2), td_last (t ! 3) (t ! 2) (t ! 1) (t ! 0) XOR rk ! (4 * R + 3)]
    = decrypt_round R ks (R - 1) t"
proof -
  obtain w x y z where t: "t = [w, x, y, z]" using four_words [OF assms(1)] by blast
  note k = reversed_group [OF assms(3) order_refl]
  show ?thesis unfolding t decrypt_round_def add_key_def upt_4 decrypt_row_def k using assms(2)
    by (simp add: td_last_sub numeral_2_eq_2)
qed

lemma new_decrypt_decrypts:
  assumes "key_ok key" "length inp = 16" "reversed (ak_rounds key) (ak_rd_key key) (a_ks ctx)" "a_rounds ctx = ak_rounds key"
  shows "new_AES_decrypt key inp = word_bytes (AES_decrypt ctx (key_words inp))"
proof -
  define R where "R = ak_rounds key"
  define rk where "rk = ak_rd_key key"
  define ks where "ks = a_ks ctx"
  note rev = assms(3) [folded R_def rk_def ks_def]
  obtain h where h: "R = 2 * h" "0 < h" using assms(1) by (auto simp: key_ok_def R_def elim: evenE)
  have len: "length (decrypt_round R ks r s) = 4" for r s by (simp add: decrypt_round_def)
  let ?s = "first_key inp rk"
  have s: "length ?s = 4" "?s = add_key (key_words inp) ks R"
    using reversed_group [OF rev, of 0] by (simp_all add: first_key_def key_words_16 [OF assms(2)] add_key_def upt_4 numeral_2_eq_2)
  have f: "full_rounds td_round h rk 0 ?s = (fold (decrypt_round R ks) [0..<R - 1] ?s, 8 * h)"
    using full_rounds_fold [of h td_round rk "decrypt_round R ks" h 0 ?s] td_round_decrypt [of _ _ R rk ks] len h s(1) rev by simp
  have t: "length (fold (decrypt_round R ks) [0..<n] ?s) = 4" for n
    using s(1) len by (induction n) auto
  have "fold (decrypt_round R ks) [0..<R] ?s = decrypt_round R ks (R - 1) (fold (decrypt_round R ks) [0..<R - 1] ?s)"
    using h upt_Suc_append [of 0 "R - 1"] by simp
  then show ?thesis
    using f h last_round_decrypt [OF t [of "R - 1"], of R rk] rev
    by (simp add: new_AES_decrypt_def AES_decrypt_def rk_def [symmetric] R_def [symmetric] ks_def [symmetric] PUTU32_word_bytes assms(4) s(2))
qed

lemma length_swap_groups [simp]: "length (swap_groups i j rk) = length rk"
  by (simp add: swap_groups_def upt_4)

lemma swap_groups_nth:
  assumes "x < y" "4 * y + 4 \<le> length rk" "4 * r + k < length rk" "k < 4"
  shows "swap_groups (4 * x) (4 * y) rk ! (4 * r + k)
    = (if r = x then rk ! (4 * y + k) else if r = y then rk ! (4 * x + k) else rk ! (4 * r + k))"
proof -
  have i: "4 * u + l = 4 * v + m \<longleftrightarrow> u = v \<and> l = m" if "l < 4" "m < 4" for u v l m :: nat
    using that by presburger
  have "k = 0 \<or> k = 1 \<or> k = 2 \<or> k = 3" using assms(4) by linarith
  then show ?thesis
    using assms(1-3) i [of 0] i [of 1] i [of 2] i [of 3] unfolding swap_groups_def upt_4
    by (elim disjE) (simp_all add: nth_list_update)
qed

lemma length_invert_order [simp]: "length (invert_order i j rk) = length rk"
  by (induction i j rk rule: invert_order.induct) (subst invert_order.simps, simp)

lemma invert_order_nth:
  assumes "x \<le> y + 1" "4 * y + 4 \<le> length rk" "4 * r + k < length rk" "k < 4"
  shows "invert_order (4 * x) (4 * y) rk ! (4 * r + k) = (if x \<le> r \<and> r \<le> y then rk ! (4 * (x + y - r) + k) else rk ! (4 * r + k))"
  using assms
proof (induction y arbitrary: x rk rule: less_induct)
  case (less y)
  show ?case
  proof (cases "x < y")
    case False
    have e: "invert_order (4 * x) (4 * y) rk = rk" using False by (subst invert_order.simps) simp
    show ?thesis
    proof (cases "x \<le> r \<and> r \<le> y")
      case True
      then have "r = x" "y = x" using False by linarith+
      then show ?thesis using e by simp
    qed (auto simp: e)
  next
    case True
    let ?rk = "swap_groups (4 * x) (4 * y) rk"
    have "invert_order (4 * x) (4 * y) rk ! (4 * r + k) = invert_order (4 * (x + 1)) (4 * (y - 1)) ?rk ! (4 * r + k)"
      using True by (subst invert_order.simps) (simp add: algebra_simps)
    also have "\<dots> = (if x + 1 \<le> r \<and> r \<le> y - 1 then ?rk ! (4 * (x + 1 + (y - 1) - r) + k) else ?rk ! (4 * r + k))"
      by (rule less.IH) (use True less.prems in auto)
    also have "\<dots> = (if x \<le> r \<and> r \<le> y then rk ! (4 * (x + y - r) + k) else rk ! (4 * r + k))"
    proof -
      have n: "?rk ! (4 * q + k) = (if q = x then rk ! (4 * y + k) else if q = y then rk ! (4 * x + k) else rk ! (4 * q + k))"
        if "q \<le> y \<or> q = r" for q
        by (rule swap_groups_nth) (use True less.prems that in auto)
      have m: "x + 1 + (y - 1) - r = x + y - r" using True by simp
      consider "r < x \<or> y < r" | "r = x" | "r = y" | "x < r" "r < y" by linarith
      then show ?thesis
      proof cases
        case 4
        then have "x + y - r \<noteq> x" "x + y - r \<noteq> y" "x + y - r \<le> y" by linarith+
        then show ?thesis using 4 n [of "x + y - r"] by (auto simp: m)
      qed (use True in \<open>auto simp: n m\<close>)
    qed
    finally show ?thesis .
  qed
qed

section \<open>The two schedules\<close>

lemma write_at_inside: "off + length xs \<le> length buf \<Longrightarrow> off \<le> i \<Longrightarrow> i < off + length xs \<Longrightarrow> write_at off xs buf ! i = xs ! (i - off)"
  using less_diff_conv2 [of off i "length xs"] by (simp add: write_at_def nth_append add.commute)

lemma write_at_outside: "off + length xs \<le> length buf \<Longrightarrow> i < length buf \<Longrightarrow> i < off \<or> off + length xs \<le> i \<Longrightarrow> write_at off xs buf ! i = buf ! i"
  by (auto simp: write_at_def nth_append)

lemma decrypt_schedule:
  assumes "key_ok key"
  shows "reversed (ak_rounds key)
    (let rk = invert_order 0 (4 * ak_rounds key) (ak_rd_key key); n = 4 * (ak_rounds key - 1)
     in write_at 4 (map inverse_mix (take n (drop 4 rk))) rk)
    (a_ks (AES_convert_key (ctx_of key)))"
proof -
  define R where "R = ak_rounds key"
  define rk where "rk = ak_rd_key key"
  have R: "0 < R" "4 * (R + 1) \<le> length rk" using assms by (simp_all add: key_ok_def R_def rk_def)
  let ?ks = "take (4 * (R + 1)) rk" and ?inv = "invert_order 0 (4 * R) rk"
  have "aes_good (ctx_of key)" using R by (simp add: aes_good_def ctx_of_def R_def rk_def)
  then have c: "round_keys R ?ks (a_ks (AES_convert_key (ctx_of key)))"
    using convert_round_keys [of "ctx_of key"] by (simp add: aes_good_def ctx_of_def R_def rk_def)
  have "write_at 4 (map inverse_mix (take (4 * (R - 1)) (drop 4 ?inv))) ?inv ! (4 * r + row)
      = a_ks (AES_convert_key (ctx_of key)) ! (4 * (R - r) + row)" if r: "r \<le> R" "row < 4" for r row
  proof -
    have i: "?inv ! (4 * r + row) = rk ! (4 * (R - r) + row)"
      using invert_order_nth [of 0 R rk r row] R(2) r by simp
    have k: "?ks ! (4 * (R - r) + row) = rk ! (4 * (R - r) + row)" using r R(2) by simp
    have m: "length (map inverse_mix (take (4 * (R - 1)) (drop 4 ?inv))) = 4 * (R - 1)" using R by simp
    have "write_at 4 (map inverse_mix (take (4 * (R - 1)) (drop 4 ?inv))) ?inv ! (4 * r + row)
        = (if 0 < r \<and> r < R then unmix_word (?inv ! (4 * r + row)) else ?inv ! (4 * r + row))"
    proof (cases "0 < r \<and> r < R")
      case True
      then have j: "4 \<le> 4 * r + row" "4 * r + row < 4 + 4 * (R - 1)" using r(2) by linarith+
      have "write_at 4 (map inverse_mix (take (4 * (R - 1)) (drop 4 ?inv))) ?inv ! (4 * r + row)
          = map inverse_mix (take (4 * (R - 1)) (drop 4 ?inv)) ! (4 * r + row - 4)"
        by (rule write_at_inside) (use m R j in auto)
      also have "\<dots> = inverse_mix (?inv ! (4 * r + row))" using j R by simp
      finally show ?thesis using True by (simp add: inverse_mix_unmix)
    next
      case False
      then have "r = 0 \<or> r = R" using r(1) by linarith
      then have "4 * r + row < 4 \<or> 4 + 4 * (R - 1) \<le> 4 * r + row" using r(2) R(1) by auto
      then have "write_at 4 (map inverse_mix (take (4 * (R - 1)) (drop 4 ?inv))) ?inv ! (4 * r + row) = ?inv ! (4 * r + row)"
        by (intro write_at_outside) (use m R r in auto)
      then show ?thesis by (simp only: if_not_P [OF False])
    qed
    also have "\<dots> = a_ks (AES_convert_key (ctx_of key)) ! (4 * (R - r) + row)"
      using round_keysD [OF c, of "R - r"] r i k R(1) by auto
    finally show ?thesis .
  qed
  then show ?thesis by (simp add: reversed_def R_def rk_def Let_def)
qed

lemma length_user_words [simp]: "length (user_words userKey n) = n"
  by (simp add: user_words_def)

lemma user_words_key_words: "4 * n \<le> length userKey \<Longrightarrow> user_words userKey n = key_words (take (4 * n) userKey)"
proof (induction n arbitrary: userKey)
  case (Suc n)
  then obtain p q r s rest where u: "userKey = p # q # r # s # rest" "4 * n \<le> length rest"
    by (auto simp: Suc_le_length_iff numeral_eq_Suc)
  have "user_words userKey (Suc n) = GETU32 userKey 0 # user_words rest n"
    by (simp add: user_words_def u(1) upt_conv_Cons map_Suc_upt [symmetric] GETU32_def add.commute del: upt_Suc)
  moreover have "take (4 * Suc n) userKey = p # q # r # s # take (4 * n) rest" by (simp add: u(1) eval_nat_numeral)
  ultimately show ?case using Suc.IH [OF u(2)] by (simp add: u(1) GETU32_be32)
qed (simp add: user_words_def)

lemma length_xor_chain [simp]: "length (xor_chain w xs) = Suc (length xs)"
  by (induction w xs rule: xor_chain.induct) simp_all

definition schedule :: "nat \<Rightarrow> byte list \<Rightarrow> nat \<Rightarrow> u32 list" where
  \<comment> \<open>the first \<open>n\<close> words of the schedule of \<open>Aes\<close>\<close>
  "schedule words key n = fold (schedule_step words) [words..<n] (key_words (take (4 * words) key))"

lemma length_schedule_words: "4 * words \<le> length key \<Longrightarrow> words \<le> n \<Longrightarrow> length (schedule words key n) = n"
  by (simp add: schedule_def length_schedule length_key_words)

lemma schedule_Suc: "words \<le> n \<Longrightarrow> schedule words key (Suc n) = schedule_step words n (schedule words key n)"
  by (simp add: schedule_def)

lemma schedule_start: "schedule words key words = key_words (take (4 * words) key)"
  by (simp add: schedule_def)

lemma take_write_at_more: "take n buf = L \<Longrightarrow> length L = n \<Longrightarrow> n + length xs \<le> length buf \<Longrightarrow> take (n + length xs) (write_at n xs buf) = L @ xs"
  by (simp add: write_at_def)

lemma four_steps:
  assumes "length L = n" "4 \<le> words" "words \<le> n" "n mod words = 0 \<or> (words = 8 \<and> n mod 8 = 4)"
    "w = last (schedule_step words n L)"
  shows "schedule_step words (n + 3) (schedule_step words (n + 2) (schedule_step words (n + 1) (schedule_step words n L)))
    = L @ xor_chain w [L ! (n - words + 1), L ! (n - words + 2), L ! (n - words + 3)]"
proof -
  have m: "(n + i) mod words \<noteq> 0 \<and> \<not> (words = 8 \<and> (n + i) mod words = 4)" if "i \<in> {1, 2, 3}" for i
  proof (cases "words = 8 \<and> n mod 8 = 4")
    case True
    then have "(n + i) mod 8 = 4 + i" using that by auto presburger+
    then show ?thesis using True that by auto
  next
    case False
    then obtain q where "n = words * q" using assms(4) by (auto simp: mod_eq_0_iff_dvd elim: dvdE)
    moreover from this have "(n + i) mod words = i mod words" by simp
    moreover have "i mod words = i" using that assms(2) by auto
    ultimately show ?thesis using that by auto
  qed
  have s: "schedule_step words n L = L @ [w]" using assms(5) by (simp add: schedule_step_def Let_def)
  have q: "schedule_step words (n + i) W = W @ [W ! (n + i - words) XOR W ! (n + i - 1)]" if "i \<in> {1, 2, 3}" for i W
    using m [OF that] by (auto simp: schedule_step_def Let_def)
  have p: "schedule_step words (n + 1) W = W @ [W ! (n + 1 - words) XOR W ! n]"
    "schedule_step words (n + 2) W = W @ [W ! (n + 2 - words) XOR W ! (n + 1)]"
    "schedule_step words (n + 3) W = W @ [W ! (n + 3 - words) XOR W ! (n + 2)]" for W
    using q [of 1 W] q [of 2 W] q [of 3 W] by simp_all
  have i: "n + 1 - words < n" "n + 2 - words < n" "n + 3 - words < n" using assms(2,3) by linarith+
  have j: "n + 1 - words = n - words + 1" "n + 2 - words = n - words + 2" "n + 3 - words = n - words + 3" using assms(3) by simp_all
  show ?thesis
    unfolding s p j using i [unfolded j] assms(1) by (simp add: nth_append)
qed

lemma schedule_four:
  assumes "4 * words \<le> length key" "4 \<le> words" "words \<le> n" "n mod words = 0 \<or> (words = 8 \<and> n mod 8 = 4)"
    "take n rk = schedule words key n" "n + 4 \<le> length rk" "w = last (schedule_step words n (schedule words key n))"
  shows "take (n + 4) (write_at n (xor_chain w [rk ! (n - words + 1), rk ! (n - words + 2), rk ! (n - words + 3)]) rk) = schedule words key (n + 4)"
proof -
  let ?L = "schedule words key n"
  let ?ws = "xor_chain w [rk ! (n - words + 1), rk ! (n - words + 2), rk ! (n - words + 3)]"
  have l: "length ?L = n" by (rule length_schedule_words) (use assms in auto)
  have r: "rk ! (n - words + j) = ?L ! (n - words + j)" if "j < 4" for j
  proof -
    have "n - words + j < n" using that assms(2,3) by linarith
    then have "take n rk ! (n - words + j) = rk ! (n - words + j)" by simp
    then show ?thesis by (simp add: assms(5))
  qed
  have "schedule words key (n + 4) = schedule_step words (n + 3) (schedule_step words (n + 2) (schedule_step words (n + 1) (schedule_step words n ?L)))"
    using assms(3) by (simp add: schedule_Suc [symmetric] eval_nat_numeral)
  also have "\<dots> = ?L @ xor_chain w [?L ! (n - words + 1), ?L ! (n - words + 2), ?L ! (n - words + 3)]"
    by (rule four_steps [OF l assms(2-4,7)])
  also have "\<dots> = ?L @ ?ws" using r [of 1] r [of 2] r [of 3] by simp
  finally have "schedule words key (n + 4) = ?L @ ?ws" .
  moreover have "length ?ws = 4" by simp
  ultimately show ?thesis using take_write_at_more [OF assms(5) l, of ?ws] assms(6) by metis
qed

lemma first_of_words:
  assumes "n = words * Suc i" "i < 10" "length L = n" "0 < words"
  shows "last (schedule_step words n L) = L ! (words * i) XOR key_word (L ! (n - 1)) i"
proof -
  have "push_bit 24 (ucast r) = be32 r 0 0 0" for r by (simp add: be32_def)
  moreover have "n div words - 1 = i" "n mod words = 0" "n - words = words * i" using assms(1,4) by simp_all
  ultimately show ?thesis using assms(2) by (simp add: schedule_step_def Let_def key_word_sub)
qed

lemma expand_128_step:
  assumes "16 \<le> length key" "i < 10" "60 \<le> length rk" "take (4 * Suc i) rk = schedule 4 key (4 * Suc i)"
  shows "take (4 * Suc (Suc i)) (expand_128 i rk) = schedule 4 key (4 * Suc (Suc i)) \<and> length (expand_128 i rk) = length rk"
proof -
  let ?n = "4 * Suc i"
  let ?L = "schedule 4 key ?n"
  have l: "length ?L = ?n" by (rule length_schedule_words) (use assms(1) in auto)
  have r: "rk ! k = ?L ! k" if "k < ?n" for k using assms(4) that by (metis nth_take)
  have w: "rk ! (4 * i) XOR key_word (rk ! (4 * i + 3)) i = last (schedule_step 4 ?n ?L)"
    using first_of_words [OF refl assms(2) l] r [of "4 * i"] r [of "4 * i + 3"] by (simp add: add.commute)
  have "take (?n + 4) (write_at ?n (xor_chain (rk ! (4 * i) XOR key_word (rk ! (4 * i + 3)) i) [rk ! (?n - 4 + 1), rk ! (?n - 4 + 2), rk ! (?n - 4 + 3)]) rk)
      = schedule 4 key (?n + 4)"
    by (rule schedule_four) (use assms w in auto)
  then show ?thesis using assms(2,3) by (simp add: expand_128_def Let_def add.commute)
qed

lemma fourth_of_words: "n mod 8 = 4 \<Longrightarrow> last (schedule_step 8 n L) = L ! (n - 8) XOR last_word (L ! (n - 1)) (L ! (n - 1)) (L ! (n - 1)) (L ! (n - 1))"
  by (simp add: schedule_step_def Let_def last_word_sub)

lemma expand_256_step:
  assumes "32 \<le> length key" "i < 7" "60 \<le> length rk" "take (8 * Suc i) rk = schedule 8 key (8 * Suc i)"
  shows "take (8 * Suc i + 4) (expand_256 i rk) = schedule 8 key (8 * Suc i + 4) \<and> length (expand_256 i rk) = length rk \<and>
    (i < 6 \<longrightarrow> take (8 * Suc (Suc i)) (expand_256 i rk) = schedule 8 key (8 * Suc (Suc i)))"
proof -
  let ?n = "8 * Suc i" and ?m = "8 * Suc i + 4"
  let ?L = "schedule 8 key ?n" and ?M = "schedule 8 key ?m"
  have l: "length ?L = ?n" "length ?M = ?m" by (rule length_schedule_words; use assms(1) in auto)+
  have r: "rk ! k = ?L ! k" if "k < ?n" for k using assms(4) that by (metis nth_take)
  have w: "rk ! (8 * i) XOR key_word (rk ! (8 * i + 7)) i = last (schedule_step 8 ?n ?L)"
    using first_of_words [of ?n 8 i ?L] assms(2) l(1) r [of "8 * i"] r [of "8 * i + 7"] by (simp add: add.commute)
  define W where "W = write_at ?n (xor_chain (rk ! (8 * i) XOR key_word (rk ! (8 * i + 7)) i) [rk ! (?n - 8 + 1), rk ! (?n - 8 + 2), rk ! (?n - 8 + 3)]) rk"
  have one: "take ?m W = ?M" unfolding W_def
    by (rule schedule_four) (use assms w in auto)
  have len: "length W = length rk" unfolding W_def using assms(2,3) by simp
  have rm: "W ! k = ?M ! k" if "k < ?m" for k using one that by (metis nth_take)
  let ?t = "W ! (8 * i + 11)"
  have "?m mod 8 = 4" "?m - 8 = 8 * i + 4" "?m - 1 = 8 * i + 11" by simp_all
  then have wm: "W ! (8 * i + 4) XOR last_word ?t ?t ?t ?t = last (schedule_step 8 ?m ?M)"
    using fourth_of_words [of ?m ?M] rm [of "8 * i + 4"] rm [of "8 * i + 11"] by (simp add: add.commute)
  let ?X = "write_at ?m (xor_chain (W ! (8 * i + 4) XOR last_word ?t ?t ?t ?t) [W ! (?m - 8 + 1), W ! (?m - 8 + 2), W ! (?m - 8 + 3)]) W"
  have e: "expand_256 i rk = (if i = 6 then W else ?X)"
    by (simp add: expand_256_def Let_def W_def add.commute)
  show ?thesis
  proof (cases "i = 6")
    case True
    then show ?thesis using one len e by simp
  next
    case False
    then have room: "?m + 4 \<le> length W" using assms(2,3) len by simp
    have "take (?m + 4) ?X = schedule 8 key (?m + 4)"
      by (rule schedule_four) (use assms(1) one wm room in auto)
    moreover have "take ?m ?X = ?M" using one l(2) room by (simp add: write_at_def)
    moreover have "length ?X = length rk" using room len by simp
    moreover have "?m + 4 = 8 * Suc (Suc i)" by simp
    ultimately show ?thesis using e False by simp
  qed
qed

lemma set_encrypt_key_matches:
  assumes "key_bytes mode \<le> length userKey" "bits = (case mode of AES_MODE_128 \<Rightarrow> 128 | AES_MODE_256 \<Rightarrow> 256)"
    "60 \<le> length (ak_rd_key key0)"
  shows "\<exists>key. AES_set_encrypt_key (Some userKey) bits (Some key0) = (0, Some key) \<and> key_ok key \<and>
    ak_rounds key = a_rounds (AES_set_key userKey iv mode) \<and> a_ks (ctx_of key) = a_ks (AES_set_key userKey iv mode)"
proof (cases mode)
  case AES_MODE_128
  then have len: "16 \<le> length userKey" using assms(1) by (simp add: key_bytes_def)
  let ?rk0 = "write_at 0 (user_words userKey 4) (ak_rd_key key0)"
  have start: "take (4 * Suc 0) ?rk0 = schedule 4 userKey (4 * Suc 0)" "length ?rk0 = length (ak_rd_key key0)"
    using user_words_key_words [of 4 userKey] length_user_words [of userKey 4] len assms(3)
    by (simp_all add: write_at_def schedule_start del: length_user_words)
  have "i \<le> 10 \<Longrightarrow> take (4 * Suc i) (fold expand_128 [0..<i] ?rk0) = schedule 4 userKey (4 * Suc i)
      \<and> length (fold expand_128 [0..<i] ?rk0) = length (ak_rd_key key0)" for i
  proof (induction i)
    case (Suc i)
    then show ?case using expand_128_step [OF len, of i "fold expand_128 [0..<i] ?rk0"] assms(3) by simp
  qed (use start in simp)
  from this [of 10] show ?thesis
    using AES_MODE_128 assms(2,3)
    by (simp add: AES_set_encrypt_key_def private_AES_set_encrypt_key_def key_ok_def ctx_of_def AES_set_key_def schedule_def Let_def del: upt_rec_numeral)
next
  case AES_MODE_256
  then have len: "32 \<le> length userKey" using assms(1) by (simp add: key_bytes_def)
  let ?rk0 = "write_at 0 (user_words userKey 8) (ak_rd_key key0)"
  have start: "take (8 * Suc 0) ?rk0 = schedule 8 userKey (8 * Suc 0)" "length ?rk0 = length (ak_rd_key key0)"
    using user_words_key_words [of 8 userKey] length_user_words [of userKey 8] len assms(3)
    by (simp_all add: write_at_def schedule_start del: length_user_words)
  have six: "i \<le> 6 \<Longrightarrow> take (8 * Suc i) (fold expand_256 [0..<i] ?rk0) = schedule 8 userKey (8 * Suc i)
      \<and> length (fold expand_256 [0..<i] ?rk0) = length (ak_rd_key key0)" for i
  proof (induction i)
    case (Suc i)
    then show ?case using expand_256_step [OF len, of i "fold expand_256 [0..<i] ?rk0"] assms(3) by simp
  qed (use start in simp)
  have "fold expand_256 [0..<7] ?rk0 = expand_256 6 (fold expand_256 [0..<6] ?rk0)"
    using upt_Suc_append [of 0 6] by simp
  then have "take 60 (fold expand_256 [0..<7] ?rk0) = schedule 8 userKey 60 \<and> length (fold expand_256 [0..<7] ?rk0) = length (ak_rd_key key0)"
    using expand_256_step [OF len, of 6 "fold expand_256 [0..<6] ?rk0"] six [of 6] assms(3) by simp
  then show ?thesis
    using AES_MODE_256 assms(2,3)
    by (simp add: AES_set_encrypt_key_def private_AES_set_encrypt_key_def key_ok_def ctx_of_def AES_set_key_def schedule_def Let_def del: upt_rec_numeral)
qed

lemma AES_encrypt_context:
  "a_rounds ctx = a_rounds ctx' \<Longrightarrow> a_ks ctx = a_ks ctx' \<Longrightarrow> AES_encrypt ctx = AES_encrypt ctx'"
  "a_rounds ctx = a_rounds ctx' \<Longrightarrow> a_ks ctx = a_ks ctx' \<Longrightarrow> AES_decrypt (AES_convert_key ctx) = AES_decrypt (AES_convert_key ctx')"
  by (simp_all add: fun_eq_iff AES_encrypt_def AES_decrypt_def AES_convert_key_def Let_def)

lemma set_decrypt_key_of:
  assumes "AES_set_encrypt_key userKey bits key0 = (0, Some key)" "key_ok key"
  shows "\<exists>dk. AES_set_decrypt_key userKey bits key0 = (0, Some dk) \<and>
    (\<forall>inp. length inp = 16 \<longrightarrow> new_AES_decrypt dk inp = word_bytes (AES_decrypt (AES_convert_key (ctx_of key)) (key_words inp)))"
proof -
  let ?rk = "let rk = invert_order 0 (4 * ak_rounds key) (ak_rd_key key); n = 4 * (ak_rounds key - 1)
     in write_at 4 (map inverse_mix (take n (drop 4 rk))) rk"
  let ?dk = "key\<lparr>ak_rd_key := ?rk\<rparr>"
  have d: "AES_set_decrypt_key userKey bits key0 = (0, Some ?dk)"
    using assms(1) by (simp add: AES_set_decrypt_key_def private_AES_set_decrypt_key_def AES_set_encrypt_key_def)
  have "length ?rk = length (ak_rd_key key)"
    using assms(2) unfolding Let_def key_ok_def by (subst length_write_at) auto
  then have ok: "key_ok ?dk" using assms(2) by (simp add: key_ok_def)
  have "new_AES_decrypt ?dk inp = word_bytes (AES_decrypt (AES_convert_key (ctx_of key)) (key_words inp))" if "length inp = 16" for inp
    by (rule new_decrypt_decrypts [OF ok that])
       (use decrypt_schedule [OF assms(2)] in \<open>simp_all add: AES_convert_key_def ctx_of_def Let_def\<close>)
  then show ?thesis using d by blast
qed

lemma length_new_encrypt [simp]: "length (new_AES_encrypt key inp) = 16"
  by (simp add: new_AES_encrypt_def PUTU32_def Let_def split: prod.split)

text \<open>
  C22. The table driven cipher is the cipher of \<open>aes.c\<close>: for every key of 16 or 32 bytes, whatever the key
  structure held before, both keys are set up, encryption of a block equals \<open>AES_encrypt\<close> under the schedule of
  \<open>AES_set_key\<close>, and decryption, with its reversed and mixed schedule, equals \<open>AES_decrypt\<close> under the converted one.
\<close>

theorem new_aes_is_aes:
  assumes "key_bytes mode \<le> length userKey" "bits = (case mode of AES_MODE_128 \<Rightarrow> 128 | AES_MODE_256 \<Rightarrow> 256)"
    "60 \<le> length (ak_rd_key key0)"
  shows "\<exists>ek dk. AES_set_encrypt_key (Some userKey) bits (Some key0) = (0, Some ek) \<and>
    AES_set_decrypt_key (Some userKey) bits (Some key0) = (0, Some dk) \<and>
    (\<forall>inp. length inp = 16 \<longrightarrow>
       new_AES_encrypt ek inp = word_bytes (AES_encrypt (AES_set_key userKey iv mode) (key_words inp)) \<and>
       new_AES_decrypt dk inp = word_bytes (AES_decrypt (AES_convert_key (AES_set_key userKey iv mode)) (key_words inp)) \<and>
       new_AES_decrypt dk (new_AES_encrypt ek inp) = inp)"
proof -
  let ?ctx = "AES_set_key userKey iv mode"
  obtain ek where ek: "AES_set_encrypt_key (Some userKey) bits (Some key0) = (0, Some ek)" "key_ok ek"
    "ak_rounds ek = a_rounds ?ctx" "a_ks (ctx_of ek) = a_ks ?ctx" using set_encrypt_key_matches [OF assms] by blast
  have r: "a_rounds (ctx_of ek) = a_rounds ?ctx" using ek(3) by (simp add: ctx_of_def)
  obtain dk where dk: "AES_set_decrypt_key (Some userKey) bits (Some key0) = (0, Some dk)"
    "\<forall>inp. length inp = 16 \<longrightarrow> new_AES_decrypt dk inp = word_bytes (AES_decrypt (AES_convert_key (ctx_of ek)) (key_words inp))"
    using set_decrypt_key_of [OF ek(1,2)] by blast
  have e: "new_AES_encrypt ek inp = word_bytes (AES_encrypt ?ctx (key_words inp))" if "length inp = 16" for inp
    using new_encrypt_encrypts [OF ek(2) that] AES_encrypt_context(1) [OF r ek(4)] by simp
  have d: "new_AES_decrypt dk inp = word_bytes (AES_decrypt (AES_convert_key ?ctx) (key_words inp))" if "length inp = 16" for inp
    using dk(2) that AES_encrypt_context(2) [OF r ek(4)] by simp
  have "new_AES_decrypt dk (new_AES_encrypt ek inp) = inp" if "length inp = 16" for inp
    using d [OF length_new_encrypt, of ek inp, unfolded e [OF that]] e [OF that] AES_decrypt_encrypt [OF aes_good_set_key [OF assms(1)], of "key_words inp"]
      word_bytes_words [of inp 4] length_key_words [of inp 4] that by simp
  then show ?thesis using ek(1) dk(1) e d by blast
qed

section \<open>The stream of a screen\<close>

lemma ctr_bytes_cong:
  assumes "\<And>b. length b = 16 \<Longrightarrow> f b = g b" "length (ct_ivec st) = 16"
  shows "ctr_bytes f st xs = ctr_bytes g st xs"
  using assms(2)
proof (induction xs arbitrary: st)
  case (Cons x xs)
  let ?st = "if ct_num st = 0 then next_block f st else st"
  have n: "next_block f st = next_block g st" using assms(1) Cons.prems by (simp add: next_block_def)
  have "length (ct_ivec ?st) = 16" using ctr128_inc_value(2) [OF Cons.prems] Cons.prems by (simp add: next_block_def)
  then show ?case using Cons.IH [of "?st\<lparr>ct_num := (ct_num ?st + 1) mod 16\<rparr>"] by (simp add: n Let_def)
qed simp

text \<open>
  C23. A screen stream that the client encrypts in counter mode with the cipher of \<open>aes.c\<close> is decrypted by the
  server, which uses the table driven cipher, whatever pieces either side cuts the stream into and however
  they are aligned.
\<close>

theorem mirror_stream_decrypts:
  assumes "16 \<le> length userKey" "60 \<le> length (ak_rd_key key0)" "length (ct_ivec st) = 16"
    "AES_set_encrypt_key (Some userKey) 128 (Some key0) = (0, Some ek)"
    "concat (map snd received) = ctr_calls (\<lambda>b. word_bytes (AES_encrypt (AES_set_key userKey iv AES_MODE_128) (key_words b))) st sent"
  shows "ctr_calls (new_AES_encrypt ek) st received = concat (map snd sent)"
proof -
  let ?aes = "\<lambda>b. word_bytes (AES_encrypt (AES_set_key userKey iv AES_MODE_128) (key_words b))"
  have k: "key_bytes AES_MODE_128 \<le> length userKey" using assms(1) by (simp add: key_bytes_def)
  obtain ek' where ek: "AES_set_encrypt_key (Some userKey) 128 (Some key0) = (0, Some ek')" "key_ok ek'"
    "ak_rounds ek' = a_rounds (AES_set_key userKey iv AES_MODE_128)" "a_ks (ctx_of ek') = a_ks (AES_set_key userKey iv AES_MODE_128)"
    using set_encrypt_key_matches [OF k _ assms(2), of 128 iv] by auto
  then have "ek = ek'" using assms(4) by simp
  moreover have "a_rounds (ctx_of ek') = a_rounds (AES_set_key userKey iv AES_MODE_128)" using ek(3) by (simp add: ctx_of_def)
  ultimately have e: "new_AES_encrypt ek b = ?aes b" if "length b = 16" for b
    using new_encrypt_encrypts [OF ek(2) that] AES_encrypt_context(1) ek(4) by metis
  have len: "length (?aes b) = 16" for b by (simp add: length_AES_encrypt)
  have "concat (map snd received) = fst (ctr_bytes ?aes st (concat (map snd sent)))"
    using assms(5) ctr_calls_bytes [of ?aes st sent, OF len] by simp
  then have "fst (ctr_bytes ?aes st (concat (map snd received))) = concat (map snd sent)"
    by (simp add: ctr_bytes_twice)
  then show ?thesis
    using ctr_calls_bytes [of "new_AES_encrypt ek" st received, OF length_new_encrypt] ctr_bytes_cong [OF e assms(3)] by simp
qed

theorem new_aes_is_aes_witness:
  "\<exists>ek dk. AES_set_encrypt_key (Some (map of_nat [0..<16])) 128 (Some \<lparr>ak_rd_key = replicate 60 0, ak_rounds = 0\<rparr>) = (0, Some ek) \<and>
    AES_set_decrypt_key (Some (map of_nat [0..<16])) 128 (Some \<lparr>ak_rd_key = replicate 60 0, ak_rounds = 0\<rparr>) = (0, Some dk) \<and>
    new_AES_decrypt dk (new_AES_encrypt ek (replicate 16 7)) = replicate 16 7"
proof -
  have k: "key_bytes AES_MODE_128 \<le> length (map of_nat [0..<16] :: byte list)" by (simp add: key_bytes_def del: upt_rec_numeral)
  have b: "(128 :: int) = (case AES_MODE_128 of AES_MODE_128 \<Rightarrow> 128 | AES_MODE_256 \<Rightarrow> 256)" by simp
  have r: "60 \<le> length (ak_rd_key \<lparr>ak_rd_key = replicate 60 0, ak_rounds = 0\<rparr>)" by simp
  have "length (replicate 16 7 :: byte list) = 16" by simp
  with new_aes_is_aes [OF k b r, of "[]"] show ?thesis by blast
qed

theorem mirror_stream_decrypts_witness:
  "\<exists>ek c. AES_set_encrypt_key (Some (map of_nat [0..<16])) 128 (Some \<lparr>ak_rd_key = replicate 60 0, ak_rounds = 0\<rparr>) = (0, Some ek) \<and>
    c = ctr_calls (\<lambda>b. word_bytes (AES_encrypt (AES_set_key (map of_nat [0..<16]) [] AES_MODE_128) (key_words b))) demo_ctr
          [(True, [1, 2]), (False, replicate 17 3)] \<and>
    ctr_calls (new_AES_encrypt ek) demo_ctr [(False, take 5 c), (True, drop 5 c)] = [1, 2] @ replicate 17 3"
proof -
  let ?old = "\<lparr>ak_rd_key = replicate 60 0, ak_rounds = 0\<rparr>" and ?key = "map of_nat [0..<16] :: byte list"
  let ?c = "ctr_calls (\<lambda>b. word_bytes (AES_encrypt (AES_set_key ?key [] AES_MODE_128) (key_words b))) demo_ctr [(True, [1, 2]), (False, replicate 17 3)]"
  have k: "16 \<le> length ?key" by (simp del: upt_rec_numeral)
  have r: "60 \<le> length (ak_rd_key ?old)" by simp
  have v: "length (ct_ivec demo_ctr) = 16" by (simp add: demo_ctr_def)
  have "key_bytes AES_MODE_128 \<le> length ?key" using k by (simp add: key_bytes_def)
  from set_encrypt_key_matches [OF this _ r, of 128] obtain ek where ek: "AES_set_encrypt_key (Some ?key) 128 (Some ?old) = (0, Some ek)" by auto
  have "concat (map snd [(False, take 5 ?c), (True, drop 5 ?c)]) = ?c" by simp
  from mirror_stream_decrypts [OF k r v ek this] ek show ?thesis by auto
qed

end
