(* ===== verification/Alac.thy ===== *)
theory Alac
  imports Airplay_Prelude "HOL-Library.Signed_Division"
begin

text \<open>
  \<open>airplay/alac/alac.c\<close>, the decoder of lossless audio frames that the jitter buffer calls. A decoder is the
  record \<open>alac_file\<close>; the memory its \<open>input_buffer\<close> points into is the list \<open>inbuf\<close>, the pointer the index
  \<open>inptr\<close>. An \<open>int\<close> or \<open>int32_t\<close> is an \<open>int\<close> of its range: every operation that can leave the range is
  followed by \<open>i32\<close>, which wraps as the targets compute it; unsigned values are words. \<open>None\<close> is undefined
  behaviour: a read or write outside a buffer, a shift by a negative amount or by 32 and more, and
  \<open>__builtin_clz(0)\<close>. A buffer that is not allocated is empty.
\<close>

section \<open>Integers, arrays and loops of C\<close>

definition i32 :: "int \<Rightarrow> int" where "i32 x = signed_take_bit 31 x"
definition i16 :: "int \<Rightarrow> int" where "i16 x = signed_take_bit 15 x"

definition shl :: "int \<Rightarrow> int \<Rightarrow> int option" where
  \<comment> \<open>\<open>x << n\<close> on \<open>int\<close>\<close>
  "shl x n = (if 0 \<le> n \<and> n < 32 then Some (i32 (x * 2 ^ nat n)) else None)"

definition shr :: "int \<Rightarrow> int \<Rightarrow> int option" where
  \<comment> \<open>\<open>x >> n\<close> on \<open>int\<close>, an arithmetic shift\<close>
  "shr x n = (if 0 \<le> n \<and> n < 32 then Some (x div 2 ^ nat n) else None)"

definition cell :: "'a list \<Rightarrow> int \<Rightarrow> 'a option" where
  "cell xs i = (if 0 \<le> i \<and> i < int (length xs) then Some (xs ! nat i) else None)"

definition set_cell :: "'a list \<Rightarrow> int \<Rightarrow> 'a \<Rightarrow> 'a list option" where
  "set_cell xs i v = (if 0 \<le> i \<and> i < int (length xs) then Some (xs[nat i := v]) else None)"

primrec for_loop :: "nat \<Rightarrow> (int \<Rightarrow> 's \<Rightarrow> 's option) \<Rightarrow> int \<Rightarrow> 's \<Rightarrow> 's option" where
  "for_loop 0 f i s = Some s"
| "for_loop (Suc n) f i s = do { s \<leftarrow> f i s; for_loop n f (i + 1) s }"

definition for_range :: "int \<Rightarrow> int \<Rightarrow> (int \<Rightarrow> 's \<Rightarrow> 's option) \<Rightarrow> 's \<Rightarrow> 's option" where
  \<comment> \<open>\<open>for (i = a; i < b; i++)\<close>\<close>
  "for_range a b f s = for_loop (nat (b - a)) f a s"

section \<open>The decoder\<close>

record alac_file =
  inbuf :: "byte list"
  inptr :: int
  bitaccumulator :: int
  samplesize :: int
  numchannels :: int
  bytespersample :: int
  predicterror_a :: "int list"
  predicterror_b :: "int list"
  outputsamples_a :: "int list"
  outputsamples_b :: "int list"
  uncompressed_a :: "int list"
  uncompressed_b :: "int list"
  max_samples_per_frame :: u32
  setinfo_7a :: byte
  setinfo_sample_size :: byte
  rice_historymult :: byte
  rice_initialhistory :: byte
  rice_kmodifier :: byte
  setinfo_7f :: byte
  setinfo_80 :: u16
  setinfo_82 :: u32
  setinfo_86 :: u32
  setinfo_8a_rate :: u32

definition alac_create_file :: "int \<Rightarrow> int \<Rightarrow> alac_file" where
  \<comment> \<open>\<open>alac_create\<close>\<close>
  "alac_create_file depth channels =
     \<lparr>inbuf = [], inptr = 0, bitaccumulator = 0,
      samplesize = depth, numchannels = channels, bytespersample = i32 ((depth sdiv 8) * channels),
      predicterror_a = [], predicterror_b = [], outputsamples_a = [], outputsamples_b = [],
      uncompressed_a = [], uncompressed_b = [],
      max_samples_per_frame = 0, setinfo_7a = 0, setinfo_sample_size = 0, rice_historymult = 0,
      rice_initialhistory = 0, rice_kmodifier = 0, setinfo_7f = 0, setinfo_80 = 0, setinfo_82 = 0,
      setinfo_86 = 0, setinfo_8a_rate = 0\<rparr>"

definition alac_allocate_buffers :: "(nat \<Rightarrow> nat \<Rightarrow> int) \<Rightarrow> alac_file \<Rightarrow> alac_file" where
  \<comment> \<open>\<open>junk j\<close> is what the \<open>j\<close>-th block of \<open>malloc\<close> holds\<close>
  "alac_allocate_buffers junk al =
     (let n = unat (max_samples_per_frame al * 4) div 4;
          malloc = (\<lambda>j. map (junk j) [0..<n])
      in al\<lparr>predicterror_a := malloc 0, predicterror_b := malloc 1,
            outputsamples_a := malloc 2, outputsamples_b := malloc 3,
            uncompressed_a := malloc 4, uncompressed_b := malloc 5\<rparr>)"

definition Swap32 :: "u32 \<Rightarrow> u32" where
  "Swap32 v = push_bit 24 (v AND 0x000000FF) OR push_bit 8 (v AND 0x0000FF00)
     OR drop_bit 8 (v AND 0x00FF0000) OR drop_bit 24 (v AND 0xFF000000)"

definition Swap16 :: "u16 \<Rightarrow> u16" where
  "Swap16 v = push_bit 8 (v AND 0x00FF) OR drop_bit 8 (v AND 0xFF00)"

definition load32 :: "byte list \<Rightarrow> nat \<Rightarrow> u32" where
  \<comment> \<open>\<open>*(uint32_t*)ptr\<close> on a little-endian host\<close>
  "load32 bs p = be32 (bs ! (p + 3)) (bs ! (p + 2)) (bs ! (p + 1)) (bs ! p)"

definition load16 :: "byte list \<Rightarrow> nat \<Rightarrow> u16" where
  "load16 bs p = be16 (bs ! (p + 1)) (bs ! p)"

definition alac_set_info :: "(nat \<Rightarrow> nat \<Rightarrow> int) \<Rightarrow> alac_file \<Rightarrow> byte list \<Rightarrow> alac_file option" where
  "alac_set_info junk al inputbuffer =
     (if length inputbuffer < 48 then None
      else Some (alac_allocate_buffers junk
        (al\<lparr>max_samples_per_frame := Swap32 (load32 inputbuffer 24),
            setinfo_7a := inputbuffer ! 28,
            setinfo_sample_size := inputbuffer ! 29,
            rice_historymult := inputbuffer ! 30,
            rice_initialhistory := inputbuffer ! 31,
            rice_kmodifier := inputbuffer ! 32,
            setinfo_7f := inputbuffer ! 33,
            setinfo_80 := Swap16 (load16 inputbuffer 34),
            setinfo_82 := Swap32 (load32 inputbuffer 36),
            setinfo_86 := Swap32 (load32 inputbuffer 40),
            setinfo_8a_rate := Swap32 (load32 inputbuffer 44)\<rparr>)))"

section \<open>Reading bits\<close>

definition readbits_16 :: "alac_file \<Rightarrow> int \<Rightarrow> (u32 \<times> alac_file) option" where
  "readbits_16 al bits = do {
     b0 \<leftarrow> cell (inbuf al) (inptr al);
     b1 \<leftarrow> cell (inbuf al) (inptr al + 1);
     b2 \<leftarrow> cell (inbuf al) (inptr al + 2);
     let result = push_bit 16 (ucast b0) OR push_bit 8 (ucast b1) OR ucast b2;
     let result = push_bit (nat (bitaccumulator al)) result;
     let result = result AND 0x00ffffff;
     if 24 - bits < 0 \<or> 24 - bits > 31 then None
     else do {
       let result = drop_bit (nat (24 - bits)) result;
       let new_accumulator = bitaccumulator al + bits;
       Some (result, al\<lparr>inptr := inptr al + new_accumulator div 8,
                       bitaccumulator := new_accumulator mod 8\<rparr>)
     }
   }"

definition readbits :: "alac_file \<Rightarrow> int \<Rightarrow> (u32 \<times> alac_file) option" where
  "readbits al bits =
     (if bits > 16 then do {
        (hi, al) \<leftarrow> readbits_16 al 16;
        let bits = bits - 16;
        if bits > 31 then None
        else do {
          (lo, al) \<leftarrow> readbits_16 al bits;
          Some (push_bit (nat bits) hi OR lo, al)
        }
      } else readbits_16 al bits)"

definition readbit :: "alac_file \<Rightarrow> (int \<times> alac_file) option" where
  "readbit al = do {
     b \<leftarrow> cell (inbuf al) (inptr al);
     let result = push_bit (nat (bitaccumulator al)) (uint b);
     let result = drop_bit 7 result AND 1;
     let new_accumulator = bitaccumulator al + 1;
     Some (result, al\<lparr>inptr := inptr al + new_accumulator div 8,
                     bitaccumulator := new_accumulator mod 8\<rparr>)
   }"

definition unreadbits :: "alac_file \<Rightarrow> int \<Rightarrow> alac_file" where
  "unreadbits al bits =
     (let new_accumulator = bitaccumulator al - bits
      in al\<lparr>inptr := inptr al + new_accumulator div 8, bitaccumulator := new_accumulator mod 8\<rparr>)"

primrec leading_zeros :: "nat \<Rightarrow> int \<Rightarrow> int" where
  "leading_zeros 0 x = 0"
| "leading_zeros (Suc n) x = (if bit x n then 0 else 1 + leading_zeros n x)"

definition count_leading_zeros :: "int \<Rightarrow> int option" where
  \<comment> \<open>\<open>__builtin_clz\<close>, undefined at 0\<close>
  "count_leading_zeros x = (if x = 0 then None else Some (leading_zeros 32 x))"

section \<open>Entropy decoding\<close>

definition RICE_THRESHOLD :: int where "RICE_THRESHOLD = 8"

function rice_prefix :: "alac_file \<Rightarrow> int \<Rightarrow> (int \<times> alac_file) option" where
  \<comment> \<open>\<open>while (x <= RICE_THRESHOLD && readbit(alac)) x++\<close>\<close>
  "rice_prefix al x =
     (if x \<le> RICE_THRESHOLD then do {
        (b, al) \<leftarrow> readbit al;
        if b \<noteq> 0 then rice_prefix al (x + 1) else Some (x, al)
      } else Some (x, al))"
  by pat_completeness auto
termination by (relation "measure (\<lambda>(al, x). nat (RICE_THRESHOLD + 1 - x))") auto

declare rice_prefix.simps [simp del]

definition entropy_decode_value :: "alac_file \<Rightarrow> int \<Rightarrow> int \<Rightarrow> int \<Rightarrow> (int \<times> alac_file) option" where
  "entropy_decode_value al readSampleSize k rice_kmodifier_mask = do {
     (x, al) \<leftarrow> rice_prefix al 0;
     if x > RICE_THRESHOLD then do {
       (v, al) \<leftarrow> readbits al readSampleSize;
       if 32 - readSampleSize < 0 \<or> 32 - readSampleSize > 31 then None
       else Some (sint (v AND drop_bit (nat (32 - readSampleSize)) 0xffffffff), al)
     }
     else if k \<noteq> 1 then do {
       (e, al) \<leftarrow> readbits al k;
       p \<leftarrow> shl 1 k;
       let x = i32 (x * (i32 (p - 1) AND rice_kmodifier_mask));
       if sint e > 1 then Some (i32 (x + (sint e - 1)), al)
       else Some (x, unreadbits al 1)
     }
     else Some (x, al)
   }"

definition rice_k :: "int \<Rightarrow> int \<Rightarrow> int option" where
  \<comment> \<open>the width \<open>k\<close> of the next sample\<close>
  "rice_k kmod history = do {
     clz \<leftarrow> count_leading_zeros (i32 (history div 512 + 3));
     let k = 31 - kmod - clz;
     Some (if k < 0 then k + kmod else kmod)
   }"

definition rice_final :: "int \<Rightarrow> int" where
  \<comment> \<open>the sign is stored in the low bit\<close>
  "rice_final decodedValue =
     (let finalValue = i32 (decodedValue + 1) sdiv 2
      in if decodedValue AND 1 \<noteq> 0 then i32 (finalValue * -1) else finalValue)"

definition rice_history :: "int \<Rightarrow> int \<Rightarrow> int \<Rightarrow> int" where
  "rice_history mult history decodedValue =
     (let history = i32 (history + i32 (i32 (decodedValue * mult)
                                        - i32 (history * mult) div 512))
      in if decodedValue > 0xFFFF then 0xFFFF else history)"

definition zero_k :: "int \<Rightarrow> int option" where
  \<comment> \<open>the width \<open>k\<close> of the length of a block of zeros\<close>
  "zero_k history = do {
     clz \<leftarrow> count_leading_zeros history;
     Some (clz + (history + 16) sdiv 64 - 24)
   }"

definition clear_cells :: "int list \<Rightarrow> int \<Rightarrow> int \<Rightarrow> int list option" where
  \<comment> \<open>\<open>memset(&buf[i], 0, n * sizeof(*buf))\<close> for \<open>n > 0\<close>\<close>
  "clear_cells buf i n =
     (if 0 \<le> i \<and> i + n \<le> int (length buf) then Some (write_at (nat i) (replicate (nat n) 0) buf) else None)"

type_synonym rice_state = "alac_file \<times> int list \<times> int \<times> int \<times> int"

definition rice_step ::
  "int \<Rightarrow> int \<Rightarrow> int \<Rightarrow> int \<Rightarrow> int \<Rightarrow> rice_state \<Rightarrow> rice_state option" where
  \<comment> \<open>one round of the loop of \<open>entropy_rice_decode\<close>: input, buffer, count, history, sign modifier\<close>
  "rice_step outputSize readSampleSize kmod mult rice_kmodifier_mask =
     (\<lambda>(al, outputBuffer, outputCount, history, signModifier). do {
     k \<leftarrow> rice_k kmod history;
     (decodedValue, al) \<leftarrow> entropy_decode_value al readSampleSize k (-1);
     let decodedValue = i32 (decodedValue + signModifier);
     outputBuffer \<leftarrow> set_cell outputBuffer outputCount (rice_final decodedValue);
     let history = rice_history mult history decodedValue;
     if history < 128 \<and> outputCount + 1 < outputSize then do {
       k \<leftarrow> zero_k history;
       (blockSize, al) \<leftarrow> entropy_decode_value al 16 k rice_kmodifier_mask;
       outputBuffer \<leftarrow> (if blockSize > 0 then clear_cells outputBuffer (outputCount + 1) blockSize
                       else Some outputBuffer);
       Some (al, outputBuffer, outputCount + max 0 blockSize + 1, 0, if blockSize > 0xFFFF then 0 else 1)
     } else Some (al, outputBuffer, outputCount + 1, history, 0)
   })"

lemma rice_step_advances:
  "rice_step n0 ss kmod mult mk (al, buf, n, h, sm) = Some (al', buf', n', h', sm') \<Longrightarrow> n < n'"
  by (auto simp: rice_step_def Let_def split: Option.bind_splits if_splits)

function rice_loop :: "int \<Rightarrow> int \<Rightarrow> int \<Rightarrow> int \<Rightarrow> int \<Rightarrow> rice_state \<Rightarrow> (int list \<times> alac_file) option" where
  "rice_loop outputSize ss kmod mult mk (al, buf, n, h, sm) =
     (if n < outputSize then do {
        st \<leftarrow> rice_step outputSize ss kmod mult mk (al, buf, n, h, sm);
        rice_loop outputSize ss kmod mult mk st
      } else Some (buf, al))"
  by pat_completeness auto
termination
  by (relation "measure (\<lambda>(n0, ss, kmod, mult, mk, al, buf, n, h, sm). nat (n0 - n))")
     (auto dest: rice_step_advances)

declare rice_loop.simps [simp del]

definition entropy_rice_decode ::
  "alac_file \<Rightarrow> int list \<Rightarrow> int \<Rightarrow> int \<Rightarrow> int \<Rightarrow> int \<Rightarrow> int \<Rightarrow> int \<Rightarrow> (int list \<times> alac_file) option" where
  "entropy_rice_decode al outputBuffer outputSize readSampleSize initialhistory kmod mult mk =
     rice_loop outputSize readSampleSize kmod mult mk (al, outputBuffer, 0, initialhistory, 0)"

section \<open>Prediction\<close>

definition sign_extended32 :: "int \<Rightarrow> int \<Rightarrow> int option" where
  "sign_extended32 val bits = do { v \<leftarrow> shl val (32 - bits); shr v (32 - bits) }"

definition SIGN_ONLY :: "int \<Rightarrow> int" where
  "SIGN_ONLY v = (if v < 0 then -1 else if v > 0 then 1 else 0)"

definition fir_previous :: "int list \<Rightarrow> int \<Rightarrow> int \<Rightarrow> int list \<Rightarrow> int list option" where
  \<comment> \<open>a sample from the previous one: the body of the loop for \<open>0x1f\<close> and of the warm-up loop\<close>
  "fir_previous error_buffer readsamplesize i buffer_out = do {
     prev_value \<leftarrow> cell buffer_out i;
     error_value \<leftarrow> cell error_buffer (i + 1);
     val \<leftarrow> sign_extended32 (i32 (prev_value + error_value)) readsamplesize;
     set_cell buffer_out (i + 1) val
   }"

definition fir_sum :: "int list \<Rightarrow> nat \<Rightarrow> int list \<Rightarrow> int" where
  \<comment> \<open>\<open>w\<close> holds \<open>buffer_out[0 .. predictor_coef_num]\<close>\<close>
  "fir_sum w num coefs =
     foldl (\<lambda>sum j. i32 (sum + i32 (i32 (w ! (num - j) - w ! 0) * coefs ! j))) 0 [0..<num]"

primrec fir_adapt :: "bool \<Rightarrow> int \<Rightarrow> int list \<Rightarrow> nat \<Rightarrow> nat \<Rightarrow> int \<Rightarrow> int list \<Rightarrow> int list" where
  \<comment> \<open>the \<open>while\<close> loops after a positive and after a negative error, \<open>predictor_num\<close> running down from \<open>c - 1\<close>\<close>
  "fir_adapt positive quant w num 0 error_val coefs = coefs"
| "fir_adapt positive quant w num (Suc predictor_num) error_val coefs =
     (if (if positive then error_val > 0 else error_val < 0) then
        (let val = i32 (w ! 0 - w ! (num - predictor_num));
             sign = (if positive then SIGN_ONLY val else - SIGN_ONLY val);
             coefs = coefs[predictor_num := i16 (coefs ! predictor_num - sign)];
             val = i32 (val * sign);
             error_val = i32 (error_val - i32 (val div 2 ^ nat quant * (int num - int predictor_num)))
         in fir_adapt positive quant w num predictor_num error_val coefs)
      else coefs)"

definition fir_predict :: "int list \<Rightarrow> nat \<Rightarrow> int list \<Rightarrow> int \<Rightarrow> int option" where
  \<comment> \<open>\<open>outval\<close> before the error is added\<close>
  "fir_predict w num coefs quant = do {
     half \<leftarrow> shl 1 (quant - 1);
     outval \<leftarrow> shr (i32 (half + fir_sum w num coefs)) quant;
     Some (i32 (outval + w ! 0))
   }"

definition fir_general :: "int list \<Rightarrow> int \<Rightarrow> nat \<Rightarrow> int \<Rightarrow> int \<Rightarrow> int list \<times> int list
    \<Rightarrow> (int list \<times> int list) option" where
  \<comment> \<open>one round of the general case for the sample \<open>i\<close>, \<open>buffer_out\<close> being at \<open>i - num - 1\<close>\<close>
  "fir_general error_buffer readsamplesize num quant i = (\<lambda>(buffer_out, coefs). do {
     error_val \<leftarrow> cell error_buffer i;
     _ \<leftarrow> cell buffer_out i;
     let w = take (num + 1) (drop (nat i - num - 1) buffer_out);
     prediction \<leftarrow> fir_predict w num coefs quant;
     outval \<leftarrow> sign_extended32 (i32 (prediction + error_val)) readsamplesize;
     buffer_out \<leftarrow> set_cell buffer_out i outval;
     Some (buffer_out,
       if error_val > 0 then fir_adapt True quant w num num error_val coefs
       else if error_val < 0 then fir_adapt False quant w num num error_val coefs
       else coefs)
   })"

definition predictor_decompress_fir_adapt ::
  "int list \<Rightarrow> int list \<Rightarrow> int \<Rightarrow> int \<Rightarrow> int list \<Rightarrow> int \<Rightarrow> int list option" where
  \<comment> \<open>\<open>predictor_coef_num\<close> is the length of the table\<close>
  "predictor_decompress_fir_adapt error_buffer buffer_out output_size readsamplesize coefs quant = do {
     e0 \<leftarrow> cell error_buffer 0;
     buffer_out \<leftarrow> set_cell buffer_out 0 e0;
     if coefs = [] then
       (if output_size \<le> 1 then Some buffer_out
        else for_range 1 output_size
               (\<lambda>i out. do { e \<leftarrow> cell error_buffer i; set_cell out i e }) buffer_out)
     else if length coefs = 0x1f then
       (if output_size \<le> 1 then Some buffer_out
        else for_range 0 (output_size - 1) (fir_previous error_buffer readsamplesize) buffer_out)
     else do {
       buffer_out \<leftarrow> for_range 0 (int (length coefs)) (fir_previous error_buffer readsamplesize) buffer_out;
       (buffer_out, _) \<leftarrow> for_range (int (length coefs) + 1) output_size
           (fir_general error_buffer readsamplesize (length coefs) quant) (buffer_out, coefs);
       Some buffer_out
     }
   }"

section \<open>Output\<close>

definition put16 :: "byte list \<Rightarrow> int \<Rightarrow> int \<Rightarrow> byte list option" where
  \<comment> \<open>\<open>buffer_out[i] = v\<close> for an array of \<open>int16_t\<close>\<close>
  "put16 out i v = do {
     out \<leftarrow> set_cell out (2 * i) (word_of_int v);
     set_cell out (2 * i + 1) (word_of_int (v div 256))
   }"

definition put24 :: "byte list \<Rightarrow> int \<Rightarrow> int \<Rightarrow> byte list option" where
  "put24 out p v = do {
     out \<leftarrow> set_cell out p (word_of_int v);
     out \<leftarrow> set_cell out (p + 1) (word_of_int (v div 256));
     set_cell out (p + 2) (word_of_int (v div 65536))
   }"

definition weighted :: "byte \<Rightarrow> byte \<Rightarrow> int \<Rightarrow> int \<Rightarrow> int option" where
  \<comment> \<open>\<open>midright - ((difference * interlacing_leftweight) >> interlacing_shift)\<close>\<close>
  "weighted shift weight midright difference = do {
     d \<leftarrow> shr (i32 (difference * uint weight)) (uint shift);
     Some (i32 (midright - d))
   }"

definition deinterlace_16 ::
  "int list \<Rightarrow> int list \<Rightarrow> byte list \<Rightarrow> int \<Rightarrow> int \<Rightarrow> byte \<Rightarrow> byte \<Rightarrow> byte list option" where
  "deinterlace_16 buffer_a buffer_b out channels numsamples shift weight =
     (if numsamples \<le> 0 then Some out
      else for_range 0 numsamples (\<lambda>i out. do {
        a \<leftarrow> cell buffer_a i;
        b \<leftarrow> cell buffer_b i;
        (left, right) \<leftarrow> (if weight \<noteq> 0 then do {
            r \<leftarrow> weighted shift weight a b;
            Some (i16 (i32 (i16 r + b)), i16 r)
          } else Some (i16 a, i16 b));
        out \<leftarrow> put16 out (i * channels) left;
        put16 out (i * channels + 1) right
      }) out)"

definition add_uncompressed :: "int \<Rightarrow> int list \<Rightarrow> int \<Rightarrow> int \<Rightarrow> int option" where
  \<comment> \<open>the bytes a sample was sent without compression, below the decoded ones\<close>
  "add_uncompressed uncompressed_bytes buffer i sample =
     (if uncompressed_bytes \<noteq> 0 then do {
        s \<leftarrow> shl sample (uncompressed_bytes * 8);
        u \<leftarrow> cell buffer i;
        let m = (NOT (push_bit (nat (uncompressed_bytes * 8)) 0xFFFFFFFF) :: u32);
        Some (i32 (s OR (u AND uint m)))
      } else Some sample)"

definition deinterlace_24 ::
  "int list \<Rightarrow> int list \<Rightarrow> int \<Rightarrow> int list \<Rightarrow> int list \<Rightarrow> byte list \<Rightarrow> int \<Rightarrow> int \<Rightarrow> byte \<Rightarrow> byte
    \<Rightarrow> byte list option" where
  "deinterlace_24 buffer_a buffer_b ub ub_a ub_b out channels numsamples shift weight =
     (if numsamples \<le> 0 then Some out
      else for_range 0 numsamples (\<lambda>i out. do {
        a \<leftarrow> cell buffer_a i;
        b \<leftarrow> cell buffer_b i;
        (left, right) \<leftarrow> (if weight \<noteq> 0 then do {
            r \<leftarrow> weighted shift weight a b;
            Some (i32 (r + b), r)
          } else Some (a, b));
        left \<leftarrow> add_uncompressed ub ub_a i left;
        right \<leftarrow> add_uncompressed ub ub_b i right;
        out \<leftarrow> put24 out (i * channels * 3) left;
        put24 out (i * channels * 3 + 3) right
      }) out)"

section \<open>Frames\<close>

primrec read_list :: "nat \<Rightarrow> (alac_file \<Rightarrow> ('a \<times> alac_file) option) \<Rightarrow> alac_file \<Rightarrow> ('a list \<times> alac_file) option" where
  "read_list 0 f al = Some ([], al)"
| "read_list (Suc n) f al = do {
     (x, al) \<leftarrow> f al;
     (xs, al) \<leftarrow> read_list n f al;
     Some (x # xs, al)
   }"

definition frame_header :: "int \<Rightarrow> alac_file \<Rightarrow> ((int \<times> bool \<times> int) \<times> alac_file) option" where
  \<comment> \<open>\<open>uncompressed_bytes\<close>, \<open>isnotcompressed\<close> and \<open>outputsamples\<close>, which keeps its value if the frame has no size\<close>
  "frame_header outputsamples al = do {
     (_, al) \<leftarrow> readbits al 4;
     (_, al) \<leftarrow> readbits al 12;
     (hassize, al) \<leftarrow> readbits al 1;
     (uncompressed_bytes, al) \<leftarrow> readbits al 2;
     (isnotcompressed, al) \<leftarrow> readbits al 1;
     if hassize \<noteq> 0 then do {
       (n, al) \<leftarrow> readbits al 32;
       Some ((sint uncompressed_bytes, isnotcompressed \<noteq> 0, sint n), al)
     } else Some ((sint uncompressed_bytes, isnotcompressed \<noteq> 0, outputsamples), al)
   }"

record alac_channel =
  prediction_type :: int
  prediction_quantitization :: int
  ricemodifier :: int
  predictor_coef_table :: "int list"

definition read_coef :: "alac_file \<Rightarrow> (int \<times> alac_file) option" where
  "read_coef al = do { (w, al) \<leftarrow> readbits al 16; Some (sint (ucast w :: u16), al) }"

definition channel_header :: "alac_file \<Rightarrow> (alac_channel \<times> alac_file) option" where
  "channel_header al = do {
     (t, al) \<leftarrow> readbits al 4;
     (q, al) \<leftarrow> readbits al 4;
     (r, al) \<leftarrow> readbits al 3;
     (predictor_coef_num, al) \<leftarrow> readbits al 5;
     (coefs, al) \<leftarrow> read_list (unat predictor_coef_num) read_coef al;
     Some (\<lparr>prediction_type = sint t, prediction_quantitization = sint q, ricemodifier = sint r,
            predictor_coef_table = coefs\<rparr>, al)
   }"

definition decode_channel ::
  "alac_channel \<Rightarrow> int \<Rightarrow> int \<Rightarrow> int list \<Rightarrow> int list \<Rightarrow> alac_file
    \<Rightarrow> ((int list \<times> int list) \<times> alac_file) option" where
  \<comment> \<open>\<open>entropy_rice_decode\<close>, then \<open>predictor_decompress_fir_adapt\<close>: the error buffer and the output buffer\<close>
  "decode_channel ch outputsamples readsamplesize errors out al = do {
     p \<leftarrow> shl 1 (uint (rice_kmodifier al));
     (errors, al) \<leftarrow> entropy_rice_decode al errors outputsamples readsamplesize
        (uint (rice_initialhistory al)) (uint (rice_kmodifier al))
        ((ricemodifier ch * uint (rice_historymult al)) sdiv 4) (i32 (p - 1));
     out \<leftarrow> (if prediction_type ch = 0
             then predictor_decompress_fir_adapt errors out outputsamples readsamplesize
                    (predictor_coef_table ch) (prediction_quantitization ch)
             else Some out);
     Some ((errors, out), al)
   }"

definition raw_sample :: "alac_file \<Rightarrow> (int \<times> alac_file) option" where
  \<comment> \<open>one sample of a frame that is not compressed\<close>
  "raw_sample al =
     (let size = uint (setinfo_sample_size al)
      in if size \<le> 16 then do {
           (w, al) \<leftarrow> readbits al size;
           v \<leftarrow> sign_extended32 (sint w) size;
           Some (v, al)
         } else do {
           (w, al) \<leftarrow> readbits al 16;
           hi \<leftarrow> shl (sint w) (size - 16);
           (lo, al) \<leftarrow> readbits al (size - 16);
           Some (signed_take_bit 23 (i32 (hi OR sint lo)), al)
         })"

definition decode_mono :: "alac_file \<Rightarrow> byte list \<Rightarrow> int \<Rightarrow> (alac_file \<times> byte list \<times> int) option" where
  "decode_mono al out outputsamples = do {
     ((ub, raw, outputsamples), al) \<leftarrow> frame_header outputsamples al;
     let outputsize = i32 (outputsamples * bytespersample al);
     let readsamplesize = uint (setinfo_sample_size al) - ub * 8;
     (ub, al) \<leftarrow> (if \<not> raw then do {
         (_, al) \<leftarrow> readbits al 8;
         (_, al) \<leftarrow> readbits al 8;
         (ch, al) \<leftarrow> channel_header al;
         al \<leftarrow> (if ub \<noteq> 0 then for_range 0 outputsamples (\<lambda>i al. do {
                   (w, al) \<leftarrow> readbits al (ub * 8);
                   xs \<leftarrow> set_cell (uncompressed_a al) i (sint w);
                   Some (al\<lparr>uncompressed_a := xs\<rparr>)
                 }) al
               else Some al);
         ((es, xs), al) \<leftarrow> decode_channel ch outputsamples readsamplesize
            (predicterror_a al) (outputsamples_a al) al;
         Some (ub, al\<lparr>predicterror_a := es, outputsamples_a := xs\<rparr>)
       } else do {
         al \<leftarrow> for_range 0 outputsamples (\<lambda>i al. do {
            (v, al) \<leftarrow> raw_sample al;
            xs \<leftarrow> set_cell (outputsamples_a al) i v;
            Some (al\<lparr>outputsamples_a := xs\<rparr>)
          }) al;
         Some (0, al)
       });
     out \<leftarrow> (if setinfo_sample_size al = 16 then for_range 0 outputsamples (\<lambda>i out. do {
               s \<leftarrow> cell (outputsamples_a al) i;
               put16 out (i * numchannels al) (i16 s)
             }) out
             else if setinfo_sample_size al = 24 then for_range 0 outputsamples (\<lambda>i out. do {
               s \<leftarrow> cell (outputsamples_a al) i;
               s \<leftarrow> add_uncompressed ub (uncompressed_a al) i s;
               put24 out (i * numchannels al * 3) s
             }) out
             else Some out);
     Some (al, out, outputsize)
   }"

definition decode_stereo :: "alac_file \<Rightarrow> byte list \<Rightarrow> int \<Rightarrow> (alac_file \<times> byte list \<times> int) option" where
  "decode_stereo al out outputsamples = do {
     ((ub, raw, outputsamples), al) \<leftarrow> frame_header outputsamples al;
     let outputsize = i32 (outputsamples * bytespersample al);
     let readsamplesize = uint (setinfo_sample_size al) - ub * 8 + 1;
     (ub, shift, weight, al) \<leftarrow> (if \<not> raw then do {
         (shift, al) \<leftarrow> readbits al 8;
         (weight, al) \<leftarrow> readbits al 8;
         (ch_a, al) \<leftarrow> channel_header al;
         (ch_b, al) \<leftarrow> channel_header al;
         al \<leftarrow> (if ub \<noteq> 0 then for_range 0 outputsamples (\<lambda>i al. do {
                   (w, al) \<leftarrow> readbits al (ub * 8);
                   xs \<leftarrow> set_cell (uncompressed_a al) i (sint w);
                   (w, al) \<leftarrow> readbits al (ub * 8);
                   ys \<leftarrow> set_cell (uncompressed_b al) i (sint w);
                   Some (al\<lparr>uncompressed_a := xs, uncompressed_b := ys\<rparr>)
                 }) al
               else Some al);
         ((es, xs), al) \<leftarrow> decode_channel ch_a outputsamples readsamplesize
            (predicterror_a al) (outputsamples_a al) al;
         let al = al\<lparr>predicterror_a := es, outputsamples_a := xs\<rparr>;
         ((es, xs), al) \<leftarrow> decode_channel ch_b outputsamples readsamplesize
            (predicterror_b al) (outputsamples_b al) al;
         Some (ub, ucast shift, ucast weight, al\<lparr>predicterror_b := es, outputsamples_b := xs\<rparr>)
       } else do {
         al \<leftarrow> for_range 0 outputsamples (\<lambda>i al. do {
            (v, al) \<leftarrow> raw_sample al;
            (w, al) \<leftarrow> raw_sample al;
            xs \<leftarrow> set_cell (outputsamples_a al) i v;
            ys \<leftarrow> set_cell (outputsamples_b al) i w;
            Some (al\<lparr>outputsamples_a := xs, outputsamples_b := ys\<rparr>)
          }) al;
         Some (0, 0, 0, al)
       });
     out \<leftarrow> (if setinfo_sample_size al = 16 then
               deinterlace_16 (outputsamples_a al) (outputsamples_b al) out (numchannels al)
                 outputsamples shift weight
             else if setinfo_sample_size al = 24 then
               deinterlace_24 (outputsamples_a al) (outputsamples_b al) ub
                 (uncompressed_a al) (uncompressed_b al) out (numchannels al) outputsamples shift weight
             else Some out);
     Some (al, out, outputsize)
   }"

definition alac_decode_frame :: "alac_file \<Rightarrow> byte list \<Rightarrow> byte list \<Rightarrow> (alac_file \<times> byte list \<times> int) option" where
  \<comment> \<open>the decoder, \<open>outbuffer\<close> and \<open>*outputsize\<close> after the call\<close>
  "alac_decode_frame al inbuffer outbuffer = do {
     let outputsamples = sint (max_samples_per_frame al);
     let al = al\<lparr>inbuf := inbuffer, inptr := 0, bitaccumulator := 0\<rparr>;
     (channels, al) \<leftarrow> readbits al 3;
     if channels = 0 then decode_mono al outbuffer outputsamples
     else if channels = 1 then decode_stereo al outbuffer outputsamples
     else Some (al, outbuffer, i32 (outputsamples * bytespersample al))
   }"

end
