(* ===== verification/Alac_Bits.thy ===== *)
theory Alac_Bits
  imports Alac
begin

text \<open>
  The bit reader of \<open>alac.c\<close> against the stream it reads: the bits of the input, most significant first.
  \<open>parses f bs v\<close> says that the reader \<open>f\<close> takes exactly the bits \<open>bs\<close> and yields \<open>v\<close>, whatever follows; it
  composes along \<open>do\<close> blocks, so a reader is verified by naming the bits of its parts. As \<open>readbits_16\<close> always
  looks at three bytes, 24 more bits of memory have to follow.
\<close>

section \<open>Streams of bits\<close>

definition byte_bits :: "byte \<Rightarrow> bool list" where
  "byte_bits b = map (\<lambda>i. bit b (7 - i)) [0..<8]"

definition stream_bits :: "byte list \<Rightarrow> bool list" where
  "stream_bits bs = concat (map byte_bits bs)"

primrec nbits :: "nat \<Rightarrow> nat \<Rightarrow> bool list" where
  "nbits 0 v = []"
| "nbits (Suc n) v = bit v n # nbits n v"

lemma length_nbits [simp]: "length (nbits n v) = n"
  by (induction n) simp_all

lemma nth_nbits: "i < n \<Longrightarrow> nbits n v ! i = bit v (n - 1 - i)"
  by (induction n arbitrary: i) (auto simp: nth_Cons split: nat.splits)

lemma nbits_split: "nbits (m + n) v = nbits m (drop_bit n v) @ nbits n v"
  by (induction m) (simp_all add: bit_drop_bit_eq add.commute)

lemma length_byte_bits [simp]: "length (byte_bits b) = 8"
  by (simp add: byte_bits_def)

lemma length_stream_bits [simp]: "length (stream_bits bs) = 8 * length bs"
  by (induction bs) (simp_all add: stream_bits_def)

lemma nth_stream_bits:
  "j < 8 * length bs \<Longrightarrow> stream_bits bs ! j = bit (bs ! (j div 8)) (7 - j mod 8)"
proof (induction bs arbitrary: j)
  case (Cons b bs)
  have eq: "stream_bits (b # bs) = byte_bits b @ stream_bits bs" by (simp add: stream_bits_def)
  show ?case
  proof (cases "j < 8")
    case True
    then show ?thesis by (simp add: eq nth_append byte_bits_def)
  next
    case False
    then have "stream_bits bs ! (j - 8) = bit (bs ! ((j - 8) div 8)) (7 - (j - 8) mod 8)"
      using Cons by simp
    moreover have "j div 8 = Suc ((j - 8) div 8)" "j mod 8 = (j - 8) mod 8"
      using False by (simp_all add: le_div_geq le_mod_geq)
    ultimately show ?thesis using False by (simp add: eq nth_append)
  qed
qed simp

definition position :: "alac_file \<Rightarrow> int" where
  "position al = 8 * inptr al + bitaccumulator al"

definition at_bit :: "alac_file \<Rightarrow> bool" where
  "at_bit al \<longleftrightarrow> 0 \<le> inptr al \<and> 0 \<le> bitaccumulator al \<and> bitaccumulator al < 8"

definition unread :: "alac_file \<Rightarrow> bool list" where
  "unread al = drop (nat (position al)) (stream_bits (inbuf al))"

definition seek :: "alac_file \<Rightarrow> nat \<Rightarrow> alac_file" where
  "seek al n = al\<lparr>inptr := (position al + int n) div 8, bitaccumulator := (position al + int n) mod 8\<rparr>"

definition near :: "nat \<Rightarrow> alac_file \<Rightarrow> bool list \<Rightarrow> bool" where
  \<comment> \<open>the next bits are \<open>bs\<close>, and at least \<open>d\<close> more follow\<close>
  "near d al bs \<longleftrightarrow> at_bit al \<and> (\<exists>rest. unread al = bs @ rest \<and> d \<le> length rest)"

definition ahead :: "alac_file \<Rightarrow> bool list \<Rightarrow> bool" where
  "ahead al bs \<longleftrightarrow> at_bit al \<and> (\<exists>rest. unread al = bs @ rest \<and> 24 \<le> length rest)"

lemma ahead_near: "ahead al bs \<Longrightarrow> near 23 al bs"
  by (auto simp: ahead_def near_def)

lemma ahead_next:
  assumes "ahead al bs"
  obtains b where "near 23 al (bs @ [b])"
proof -
  obtain rest where rest: "at_bit al" "unread al = bs @ rest" "24 \<le> length rest"
    using assms by (auto simp: ahead_def)
  then obtain b rest' where "rest = b # rest'" by (cases rest) auto
  then have "near 23 al (bs @ [b])" using rest by (auto simp: near_def)
  then show ?thesis by (rule that)
qed

lemma seek_other [simp]:
  "inbuf (seek al n) = inbuf al" "samplesize (seek al n) = samplesize al"
  "numchannels (seek al n) = numchannels al" "bytespersample (seek al n) = bytespersample al"
  "predicterror_a (seek al n) = predicterror_a al" "predicterror_b (seek al n) = predicterror_b al"
  "outputsamples_a (seek al n) = outputsamples_a al" "outputsamples_b (seek al n) = outputsamples_b al"
  "uncompressed_a (seek al n) = uncompressed_a al" "uncompressed_b (seek al n) = uncompressed_b al"
  "setinfo_sample_size (seek al n) = setinfo_sample_size al"
  "rice_historymult (seek al n) = rice_historymult al"
  "rice_initialhistory (seek al n) = rice_initialhistory al"
  "rice_kmodifier (seek al n) = rice_kmodifier al"
  "max_samples_per_frame (seek al n) = max_samples_per_frame al"
  by (simp_all add: seek_def)

lemma position_seek [simp]: "position (seek al n) = position al + int n"
  by (simp add: position_def seek_def)

lemma seek_seek [simp]: "seek (seek al m) n = seek al (m + n)"
  unfolding seek_def [of "seek al m" n] position_seek by (simp add: seek_def add.assoc)

lemma seek_0 [simp]: "at_bit al \<Longrightarrow> seek al 0 = al"
  by (simp add: seek_def position_def at_bit_def)

lemma at_bit_seek [simp]: "at_bit al \<Longrightarrow> at_bit (seek al n)"
  by (simp add: at_bit_def seek_def position_def pos_imp_zdiv_nonneg_iff)

lemma position_nonneg: "at_bit al \<Longrightarrow> 0 \<le> position al"
  by (simp add: at_bit_def position_def)

lemma unread_seek: "at_bit al \<Longrightarrow> unread (seek al n) = drop n (unread al)"
  by (simp add: unread_def nat_add_distrib position_nonneg add.commute)

lemma ahead_seek: "ahead al (bs @ cs) \<Longrightarrow> n = length bs \<Longrightarrow> ahead (seek al n) cs"
  by (auto simp: ahead_def unread_seek)

lemma ahead_prefix: "ahead al (bs @ cs) \<Longrightarrow> ahead al bs"
  by (auto simp: ahead_def)

section \<open>Readers of known bits\<close>

definition parses :: "(alac_file \<Rightarrow> ('a \<times> alac_file) option) \<Rightarrow> bool list \<Rightarrow> 'a \<Rightarrow> bool" where
  "parses f bs v \<longleftrightarrow> (\<forall>al. ahead al bs \<longrightarrow> f al = Some (v, seek al (length bs)))"

lemma parsesD: "parses f bs v \<Longrightarrow> ahead al bs \<Longrightarrow> f al = Some (v, seek al (length bs))"
  by (simp add: parses_def)

lemma parses_bind:
  assumes "parses f bs v" "parses (g v) cs w"
  shows "parses (\<lambda>al. f al \<bind> (\<lambda>(x, al). g x al)) (bs @ cs) w"
  unfolding parses_def
proof (intro allI impI)
  fix al
  assume al: "ahead al (bs @ cs)"
  then have "f al = Some (v, seek al (length bs))" using assms(1) ahead_prefix by (auto simp: parses_def)
  moreover have "g v (seek al (length bs)) = Some (w, seek (seek al (length bs)) (length cs))"
    using assms(2) ahead_seek [OF al] by (simp add: parses_def)
  ultimately show "f al \<bind> (\<lambda>(x, al). g x al) = Some (w, seek al (length (bs @ cs)))" by simp
qed

lemma parses_return: "v = w \<Longrightarrow> parses (\<lambda>al. Some (v, al)) [] w"
  by (simp add: parses_def ahead_def)

lemma parses_map:
  "parses f bs v \<Longrightarrow> w = h v \<Longrightarrow> parses (\<lambda>al. f al \<bind> (\<lambda>(x, al). Some (h x, al))) bs w"
  by (simp add: parses_def)

lemma parses_list:
  "list_all2 (parses f) bss vs \<Longrightarrow> parses (read_list (length vs) f) (concat bss) vs"
proof (induction rule: list_all2_induct)
  case Nil
  then show ?case by (simp add: parses_def ahead_def)
next
  case (Cons bs bss v vs)
  have "parses (\<lambda>al. read_list (length vs) f al \<bind> (\<lambda>(xs, al). Some (v # xs, al))) (concat bss) (v # vs)"
    using Cons by (intro parses_map [where h = "(#) v"]) auto
  then show ?case using Cons(1) parses_bind [of f bs v] by (simp add: parses_def)
qed

section \<open>The reader\<close>

lemma unread_nth:
  assumes "at_bit al" "i < length (unread al)"
  shows "unread al ! i = bit (inbuf al ! ((nat (position al) + i) div 8)) (7 - (nat (position al) + i) mod 8)"
  using assms by (simp add: unread_def nth_stream_bits)

lemma length_unread: "length (unread al) = 8 * length (inbuf al) - nat (position al)"
  by (simp add: unread_def)

lemma three_bytes:
  fixes b0 b1 b2 :: byte
  assumes "q < 24"
  shows "bit (push_bit 16 (ucast b0) OR push_bit 8 (ucast b1) OR ucast b2 :: u32) q
       = bit ([b0, b1, b2] ! ((23 - q) div 8)) (7 - (23 - q) mod 8)"
proof -
  consider "q < 8" | "8 \<le> q" "q < 16" | "16 \<le> q" by linarith
  then show ?thesis
  proof cases
    case 1
    then have "23 - q = 7 - q + 8 * 2" by simp
    then have "(23 - q) div 8 = 2" "(23 - q) mod 8 = 7 - q" by (simp_all only: div_mult_self2 mod_mult_self2) simp_all
    then show ?thesis using 1 by (simp add: bit_simps)
  next
    case 2
    then have "23 - q = 15 - q + 8 * 1" by simp
    then have "(23 - q) div 8 = 1" "(23 - q) mod 8 = 15 - q"
      using 2 by (simp_all only: div_mult_self2 mod_mult_self2) simp_all
    moreover have "q - 8 < 32" using 2 by linarith
    ultimately show ?thesis using 2 by (simp add: bit_simps)
  next
    case 3
    then have "(23 - q) div 8 = 0" "(23 - q) mod 8 = 23 - q" using assms by simp_all
    moreover have "q - 16 < 32" using assms by linarith
    ultimately show ?thesis using 3 assms by (simp add: bit_simps)
  qed
qed


lemma near_bytes:
  assumes "near 23 al bs" "nat (inptr al) + k < length (inbuf al) \<Longrightarrow> P"
    "8 * k + 7 < length bs + 23 + nat (bitaccumulator al)"
  shows P
proof -
  have "at_bit al" "length bs + 23 \<le> length (unread al)" using assms(1) by (auto simp: near_def)
  then have "nat (inptr al) + k < length (inbuf al)"
    using assms(3) by (simp add: length_unread position_def at_bit_def nat_add_distrib nat_mult_distrib)
  then show P by (rule assms(2))
qed

lemma near_cell:
  assumes "near 23 al bs" "bs \<noteq> []" "k \<le> 2"
  shows "cell (inbuf al) (inptr al + int k) = Some (inbuf al ! (nat (inptr al) + k))"
proof (rule near_bytes [OF assms(1)])
  show "8 * k + 7 < length bs + 23 + nat (bitaccumulator al)"
    using assms(2,3) by (cases bs) simp_all
  show "nat (inptr al) + k < length (inbuf al) \<Longrightarrow> ?thesis"
    using assms(1) by (auto simp: cell_def near_def at_bit_def nat_add_distrib)
qed

lemma near_nbits:
  assumes "near 23 al (nbits n v)" "m < n"
  shows "bit v m = bit (inbuf al ! ((nat (position al) + (n - 1 - m)) div 8))
                       (7 - (nat (position al) + (n - 1 - m)) mod 8)"
proof -
  obtain rest where "unread al = nbits n v @ rest" using assms(1) by (auto simp: near_def)
  then have "unread al ! (n - 1 - m) = bit v m" "n - 1 - m < length (unread al)"
    using assms(2) by (simp_all add: nth_append nth_nbits)
  then show ?thesis using unread_nth assms(1) by (metis near_def)
qed

lemma bit_window:
  assumes "at_bit al" "q < 24" "b0 = inbuf al ! nat (inptr al)" "b1 = inbuf al ! (nat (inptr al) + 1)"
    "b2 = inbuf al ! (nat (inptr al) + 2)" "j = 8 * nat (inptr al) + (23 - q)"
  shows "bit (push_bit 16 (ucast b0) OR push_bit 8 (ucast b1) OR ucast b2 :: u32) q
       = bit (inbuf al ! (j div 8)) (7 - j mod 8)"
proof -
  have "(23 - q) div 8 < 3" using assms(2) by simp
  then consider "(23 - q) div 8 = 0" | "(23 - q) div 8 = 1" | "(23 - q) div 8 = 2" by linarith
  then have "[b0, b1, b2] ! ((23 - q) div 8) = inbuf al ! (nat (inptr al) + (23 - q) div 8)"
    by cases (simp_all add: assms numeral_2_eq_2)
  moreover have "j div 8 = nat (inptr al) + (23 - q) div 8" "j mod 8 = (23 - q) mod 8"
    by (simp_all add: assms(6))
  ultimately show ?thesis using three_bytes [OF assms(2), of b0 b1 b2] by simp
qed

lemma readbits_16_bits:
  assumes "near 23 al (nbits n v)" "n \<le> 16" "v < 2 ^ n" "0 < n"
  shows "readbits_16 al (int n) = Some (of_nat v, seek al n)"
proof -
  define p a where "p = nat (inptr al)" and "a = nat (bitaccumulator al)"
  have al: "at_bit al" using assms(1) by (simp add: near_def)
  have "0 \<le> bitaccumulator al" "bitaccumulator al < 8" using al by (simp_all add: at_bit_def)
  then have a: "a < 8" "nat (position al) = 8 * p + a"
    using al by (simp_all add: nat_less_iff a_def p_def at_bit_def position_def nat_add_distrib nat_mult_distrib)
  define R :: u32 where "R = push_bit 16 (ucast (inbuf al ! p)) OR push_bit 8 (ucast (inbuf al ! (p + 1)))
      OR ucast (inbuf al ! (p + 2))"
  have bitR: "bit R q = bit (inbuf al ! ((8 * p + (23 - q)) div 8)) (7 - (8 * p + (23 - q)) mod 8)"
    if "q < 24" for q
    unfolding R_def using bit_window [OF al that] by (simp add: p_def)
  have mask: "0x00ffffff = (Bit_Operations.mask 24 :: u32)" by (simp add: mask_eq_exp_minus_1)
  have core: "drop_bit (24 - n) (push_bit a R AND 0x00ffffff) = (of_nat v :: u32)"
  proof (rule bit_word_eqI)
    fix m
    assume m: "m < LENGTH(32)"
    show "bit (drop_bit (24 - n) (push_bit a R AND 0x00ffffff)) m = bit (of_nat v :: u32) m"
    proof (cases "m < n")
      case True
      have eq: "8 * p + (23 - (24 - n + m - a)) = nat (position al) + (n - 1 - m)"
        using True a assms(2) by simp
      have range: "a \<le> 24 + m - n" "24 + m - n < 24" "24 + m - n < 32" "n \<le> 24"
        using True a(1) assms(2) by linarith+
      have "bit (drop_bit (24 - n) (push_bit a R AND 0x00ffffff)) m = bit R (24 - n + m - a)"
        using True range by (simp add: mask bit_simps)
      also have "\<dots> = bit v m"
        using bitR [of "24 - n + m - a"] near_nbits [OF assms(1) True] True assms(2)
        by (simp only: eq)
      finally show ?thesis using m by (simp add: bit_simps)
    next
      case False
      then have "v < 2 ^ m" using assms(3) by (meson leI less_le_trans one_le_numeral power_increasing)
      then have "\<not> bit v m" by (simp add: bit_iff_odd)
      moreover have "\<not> 24 + m - n < 24" using False by linarith
      ultimately show ?thesis using False assms(2) by (simp add: mask bit_simps)
    qed
  qed
  have "24 - int n = int (24 - n)" using assms(2) by simp
  moreover have "inptr al + (bitaccumulator al + int n) div 8 = (position al + int n) div 8"
    "(bitaccumulator al + int n) mod 8 = (position al + int n) mod 8"
    by (simp_all add: position_def add.assoc)
  moreover have bits: "nbits n v \<noteq> []" using assms(4) by (cases n) simp_all
  ultimately have "readbits_16 al (int n) = Some (drop_bit (24 - n) (push_bit a R AND 0x00ffffff), seek al n)"
    using near_cell [OF assms(1) bits, of 0] near_cell [OF assms(1) bits, of 1] near_cell [OF assms(1) bits, of 2]
    by (simp add: readbits_16_def R_def p_def a_def seek_def Let_def del: of_nat_diff)
  then show ?thesis by (simp only: core)
qed

lemma parses_readbits_16:
  "0 < n \<Longrightarrow> n \<le> 16 \<Longrightarrow> v < 2 ^ n \<Longrightarrow> parses (\<lambda>al. readbits_16 al (int n)) (nbits n v) (of_nat v)"
  using readbits_16_bits ahead_near by (simp add: parses_def)

lemma parses_readbits:
  assumes "n \<le> 32" "v < 2 ^ n" "0 < n"
  shows "parses (\<lambda>al. readbits al (int n)) (nbits n v) (of_nat v)"
proof (cases "n \<le> 16")
  case True
  then show ?thesis using parses_readbits_16 assms(2,3) by (simp add: readbits_def)
next
  case False
  define m where "m = n - 16"
  have n: "n = 16 + m" "0 < m" "m \<le> 16" using False assms(1) by (simp_all add: m_def)
  have hi: "drop_bit m v < 2 ^ 16"
    using assms(2) n(1) by (simp add: drop_bit_eq_div less_mult_imp_div_less power_add)
  have lo: "take_bit m v < 2 ^ m" by simp
  have bits: "nbits n v = nbits 16 (drop_bit m v) @ nbits m (take_bit m v)"
  proof -
    have "nbits m (take_bit m v) = nbits m v"
      by (rule nth_equalityI) (simp_all add: nth_nbits bit_take_bit_iff)
    then show ?thesis by (simp add: n(1) nbits_split)
  qed
  have word: "push_bit m (of_nat (drop_bit m v)) OR of_nat (take_bit m v) = (of_nat v :: u32)"
    by (rule bit_word_eqI) (auto simp: bit_simps)
  have "parses (\<lambda>al. readbits_16 al (int m) \<bind> (\<lambda>(lo, al). Some (push_bit m (of_nat (drop_bit m v)) OR lo, al)))
      (nbits m (take_bit m v)) (of_nat v :: u32)"
    by (rule parses_map [OF parses_readbits_16 [OF n(2,3) lo]]) (simp add: word)
  then have "parses (\<lambda>al. readbits_16 al 16 \<bind> (\<lambda>(hi, al).
       readbits_16 al (int m) \<bind> (\<lambda>(lo, al). Some (push_bit m hi OR lo, al)))) (nbits n v) (of_nat v)"
    unfolding bits using parses_readbits_16 [OF _ _ hi] by (intro parses_bind) simp_all
  then show ?thesis using n by (simp add: readbits_def)
qed

lemma parses_readbits_numeral:
  "v < 2 ^ numeral n \<Longrightarrow> numeral n \<le> (32::nat) \<Longrightarrow>
    parses (\<lambda>al. readbits al (numeral n)) (nbits (numeral n) v) (of_nat v)"
  using parses_readbits [of "numeral n" v] by simp

lemma parses_readbits_one:
  "v < 2 \<Longrightarrow> parses (\<lambda>al. readbits al 1) (nbits 1 v) (of_nat v)"
  using parses_readbits [of 1 v] by simp

lemma parses_readbit: "parses readbit [b] (of_bool b)"
  unfolding parses_def
proof (intro allI impI)
  fix al
  assume al: "ahead al [b]"
  then have ok: "at_bit al" by (simp add: ahead_def)
  define p a where "p = nat (inptr al)" and "a = nat (bitaccumulator al)"
  have "0 \<le> bitaccumulator al" "bitaccumulator al < 8" using ok by (simp_all add: at_bit_def)
  then have a: "a < 8" "nat (position al) = 8 * p + a"
    using ok by (simp_all add: nat_less_iff a_def p_def at_bit_def position_def nat_add_distrib nat_mult_distrib)
  obtain rest where "unread al = b # rest" using al by (auto simp: ahead_def)
  then have "b = bit (inbuf al ! p) (7 - a)"
    using unread_nth [OF ok, of 0] a by simp
  then have "drop_bit 7 (push_bit a (uint (inbuf al ! p))) AND 1 = (of_bool b :: int)"
    using a(1) less_imp_diff_less [of 7 8 a] by (simp add: and_one_eq mod_2_eq_odd flip: bit_iff_odd_drop_bit)
      (simp add: bit_push_bit_iff bit_uint_iff)
  then show "readbit al = Some (of_bool b, seek al (length [b]))"
    using near_cell [OF ahead_near [OF al], of 0]
    by (simp add: readbit_def p_def a_def seek_def Let_def position_def add.assoc)
qed

lemma unreadbits_seek:
  assumes "0 < n"
  shows "unreadbits (seek al n) 1 = seek al (n - 1)"
proof -
  define x where "x = position al + int n"
  have x: "x - 1 = (x mod 8 - 1) + 8 * (x div 8)" by simp
  then have "(x - 1) div 8 = x div 8 + (x mod 8 - 1) div 8" "(x - 1) mod 8 = (x mod 8 - 1) mod 8"
    by (simp_all only: div_mult_self2 mod_mult_self2)
  moreover have "position al + int (n - 1) = x - 1" using assms by (simp add: x_def of_nat_diff)
  ultimately show ?thesis by (simp add: unreadbits_def seek_def Let_def flip: x_def)
qed

end
