(* ===== verification/Alac_Entropy.thy ===== *)
theory Alac_Entropy
  imports Alac_Bits
begin

text \<open>
  The entropy code of \<open>alac.c\<close>, stated as an encoder: \<open>value_bits\<close> is the code of a number (a unary quotient
  and a remainder of \<open>k\<close> bits, or nine ones and the number itself), \<open>rice_bits\<close> that of a list of residuals
  with its adaptive history and its runs of zeros. \<open>entropy_decode_value\<close> and \<open>entropy_rice_decode\<close> are shown
  to invert them; on the way the history is shown to stay positive and below \<open>2 ^ 25\<close>, so that neither
  \<open>__builtin_clz(0)\<close> nor an overflow of \<open>history * rice_historymult\<close> can happen on an encoded stream.
\<close>

section \<open>The code\<close>

definition modulus :: "int \<Rightarrow> int \<Rightarrow> int" where
  "modulus k mk = (if k = 1 then 1 else (2 ^ nat k - 1) AND mk)"

definition value_bits :: "nat \<Rightarrow> int \<Rightarrow> int \<Rightarrow> int \<Rightarrow> bool list" where
  "value_bits ss k mk v =
     (let q = v div modulus k mk; r = v mod modulus k mk
      in if q > 8 then replicate 9 True @ nbits ss (nat v)
         else replicate (nat q) True @ [False] @
           (if k = 1 then [] else if r = 0 then replicate (nat k - 1) False else nbits (nat k) (nat (r + 1))))"

definition zigzag :: "int \<Rightarrow> int" where
  "zigzag x = (if x \<ge> 0 then 2 * x else - 2 * x - 1)"

definition width :: "int \<Rightarrow> int" where
  \<comment> \<open>the number of significant bits\<close>
  "width x = 32 - leading_zeros 32 x"

definition sample_k :: "int \<Rightarrow> int \<Rightarrow> int" where
  "sample_k kmod h = min kmod (width (h div 512 + 3) - 1)"

definition run_k :: "int \<Rightarrow> int" where
  "run_k h = 8 - width h + (h + 16) div 64"

definition next_history :: "int \<Rightarrow> int \<Rightarrow> int \<Rightarrow> int" where
  "next_history mult h d = (if d > 65535 then 65535 else h + d * mult - h * mult div 512)"

function rice_bits :: "nat \<Rightarrow> int \<Rightarrow> int \<Rightarrow> int \<Rightarrow> int \<Rightarrow> int \<Rightarrow> int list \<Rightarrow> bool list" where
  \<comment> \<open>\<open>h\<close> is the history, \<open>sm\<close> is 1 after a run of zeros: then the next residual is not 0 and one less is sent\<close>
  "rice_bits ss kmod mult mk h sm [] = []"
| "rice_bits ss kmod mult mk h sm (x # xs) =
     (let d = zigzag x;
          h' = next_history mult h d;
          code = value_bits ss (sample_k kmod h) (-1) (d - sm)
      in if h' < 128 \<and> xs \<noteq> [] then
           code @ value_bits 16 (run_k h') mk (int (length (takeWhile (\<lambda>x. x = 0) xs)))
             @ rice_bits ss kmod mult mk 0 1 (dropWhile (\<lambda>x. x = 0) xs)
         else code @ rice_bits ss kmod mult mk h' 0 xs)"
  by pat_completeness auto
termination
  by (relation "measure (\<lambda>(ss, kmod, mult, mk, h, sm, xs). length xs)")
     (auto simp: less_Suc_eq_le length_dropWhile_le)

section \<open>Words of the decoder\<close>

lemma i32_id [simp]: "- 2147483648 \<le> x \<Longrightarrow> x < 2147483648 \<Longrightarrow> i32 x = x"
  unfolding i32_def by (rule signed_take_bit_int_eq_self) simp_all

lemma shl_one [simp]: "0 \<le> k \<Longrightarrow> k < 31 \<Longrightarrow> shl 1 k = Some (2 ^ nat k)"
proof -
  assume k: "0 \<le> k" "k < 31"
  then have "(2::int) ^ nat k < 2 ^ 31" by (intro power_strict_increasing) auto
  moreover have "(0::int) < 2 ^ nat k" by simp
  ultimately have "- 2147483648 \<le> (2::int) ^ nat k \<and> (2::int) ^ nat k < 2147483648" by (simp del: zero_less_power)
  then have "i32 (2 ^ nat k) = 2 ^ nat k" by (intro i32_id) (simp_all only: simp_thms)
  then show ?thesis using k by (simp add: shl_def)
qed

lemma sint_small:
  assumes "v < 2 ^ 31"
  shows "sint (of_nat v :: u32) = int v"
proof -
  have "sint (of_nat v :: u32) = signed_take_bit 31 (int v)" by (simp add: signed_of_nat)
  also have "\<dots> = int v" using assms by (intro signed_take_bit_int_eq_self) simp_all
  finally show ?thesis .
qed

lemma leading_zeros_below: "0 \<le> x \<Longrightarrow> x < 2 ^ m \<Longrightarrow> leading_zeros (m + n) x = leading_zeros m x + int n"
proof (induction n)
  case (Suc n)
  have "x < 2 ^ (m + n)"
    using Suc.prems by (meson le_add1 less_le_trans one_le_numeral power_increasing)
  then have "\<not> bit x (m + n)" using Suc.prems(1) by (simp add: bit_iff_odd)
  then show ?case using Suc by simp
qed simp

lemma width_eq:
  assumes "2 ^ m \<le> x" "x < 2 ^ Suc m" "m < 31"
  shows "width x = int m + 1"
proof -
  have "x div 2 ^ m = 1"
    using assms(1,2) by (intro int_div_pos_eq [of _ _ _ "x - 2 ^ m"]) simp_all
  then have "bit x m" by (simp add: bit_iff_odd)
  moreover have "0 \<le> x" using assms(1) by (meson order_trans zero_le_numeral zero_le_power)
  then have "leading_zeros (Suc m + (31 - m)) x = leading_zeros (Suc m) x + int (31 - m)"
    using assms(2) by (rule leading_zeros_below)
  ultimately show ?thesis using assms(3) by (simp add: width_def)
qed

lemma count_leading_zeros_width: "0 < x \<Longrightarrow> count_leading_zeros x = Some (32 - width x)"
  by (simp add: count_leading_zeros_def width_def)

lemma power_bounds:
  assumes "0 < (x::int)"
  obtains m where "2 ^ m \<le> x" "x < 2 ^ Suc m"
proof -
  have "\<exists>m. 2 ^ m \<le> nat x \<and> nat x < 2 ^ (m + 1)" using assms by (intro ex_power_ivl1) auto
  then obtain m where m: "2 ^ m \<le> nat x" "nat x < 2 ^ (m + 1)" by blast
  have "int (2 ^ m) \<le> int (nat x)" using m(1) by (simp only: of_nat_le_iff)
  moreover have "int (nat x) < int (2 ^ (m + 1))" using m(2) by (simp only: of_nat_less_iff)
  ultimately have "2 ^ m \<le> x" "x < 2 ^ Suc m" using assms by simp_all
  then show ?thesis by (rule that)
qed

lemma width_bounds:
  assumes "2 ^ a \<le> x" "x < 2 ^ b" "b \<le> 31"
  shows "int a + 1 \<le> width x \<and> width x \<le> int b"
proof -
  have "0 < x" using assms(1) by (meson less_le_trans zero_less_numeral zero_less_power)
  then obtain m where m: "2 ^ m \<le> x" "x < 2 ^ Suc m" by (rule power_bounds)
  have "(2::int) ^ m < 2 ^ b" "(2::int) ^ a < 2 ^ Suc m" using m assms by linarith+
  then have "m < b" "a < Suc m" by (simp_all only: power_strict_increasing_iff one_less_numeral_iff semiring_norm)
  then show ?thesis using width_eq [OF m] assms(3) by simp
qed

lemma rice_k_eq:
  assumes "0 \<le> h" "h \<le> 33553920" "0 < kmod"
  shows "rice_k kmod h = Some (sample_k kmod h)" "1 \<le> sample_k kmod h" "sample_k kmod h \<le> 16"
proof -
  have x: "2 ^ 1 \<le> h div 512 + 3" "h div 512 + 3 < 2 ^ 17" using assms by simp_all
  have w: "2 \<le> width (h div 512 + 3)" "width (h div 512 + 3) \<le> 17" using width_bounds [OF x] by simp_all
  then show "1 \<le> sample_k kmod h" "sample_k kmod h \<le> 16" using assms(3) by (auto simp: sample_k_def)
  have "count_leading_zeros (i32 (h div 512 + 3)) = Some (32 - width (h div 512 + 3))"
    using x by (simp add: count_leading_zeros_width)
  then show "rice_k kmod h = Some (sample_k kmod h)"
    by (auto simp: rice_k_def sample_k_def)
qed

lemma run_k_bounds:
  assumes "0 < h" "h < 128"
  shows "1 \<le> run_k h \<and> run_k h \<le> 7"
proof -
  have "list_all (\<lambda>h. 1 \<le> run_k h \<and> run_k h \<le> 7) [1..127]" by code_simp
  moreover have "h \<in> set [1..127]" using assms by simp
  ultimately show ?thesis unfolding list_all_iff by blast
qed

lemma zero_k_eq: "0 < h \<Longrightarrow> h < 128 \<Longrightarrow> zero_k h = Some (run_k h)"
  by (simp add: zero_k_def run_k_def count_leading_zeros_width signed_divide_int_def)

lemma rice_final_zigzag: "- 1073741824 < x \<Longrightarrow> x < 1073741824 \<Longrightarrow> rice_final (zigzag x) = x"
  by (cases "0 \<le> x")
     (simp_all add: rice_final_def zigzag_def signed_divide_int_def and_one_eq Let_def, presburger)

lemma zigzag_bounds: "- (2 ^ s) \<le> x \<Longrightarrow> x < 2 ^ s \<Longrightarrow> 0 \<le> zigzag x \<and> zigzag x < 2 ^ Suc s"
  by (auto simp: zigzag_def)

lemma zigzag_0 [simp]: "zigzag x = 0 \<longleftrightarrow> x = 0"
  by (auto simp: zigzag_def)


lemma modulus_minus_one [simp]: "1 \<le> k \<Longrightarrow> modulus k (- 1) = 2 ^ nat k - 1"
  by (auto simp: modulus_def)

lemma modulus_mask:
  "1 \<le> k \<Longrightarrow> 1 \<le> j \<Longrightarrow> modulus k (2 ^ j - 1) = (if k = 1 then 1 else 2 ^ min (nat k) j - 1)"
  unfolding modulus_def by (simp add: take_bit_of_mask min.commute flip: mask_eq_exp_minus_1 take_bit_eq_mask)

definition mask_ok :: "int \<Rightarrow> bool" where
  "mask_ok mk \<longleftrightarrow> mk = - 1 \<or> (\<exists>j\<ge>1. mk = 2 ^ j - 1)"

lemma modulus_bounds:
  assumes "1 \<le> k" "mask_ok mk"
  shows "1 \<le> modulus k mk \<and> modulus k mk \<le> 2 ^ nat k - 1"
proof -
  have two: "2 \<le> (2::int) ^ n" if "1 \<le> n" for n using power_increasing [of 1 n "2::int"] that by simp
  show ?thesis
  proof (cases "mk = - 1")
    case True
    then show ?thesis using two [of "nat k"] assms(1) by simp
  next
    case False
    then obtain j where j: "1 \<le> j" "mk = 2 ^ j - 1" using assms(2) by (auto simp: mask_ok_def)
    define A B :: int where "A = 2 ^ min (nat k) j" and "B = 2 ^ nat k"
    have "A \<le> B" unfolding A_def B_def by (intro power_increasing) simp_all
    moreover have "2 \<le> A" "2 \<le> B" unfolding A_def B_def using j(1) assms(1) by (intro two; simp)+
    moreover have "modulus k mk = (if k = 1 then 1 else A - 1)"
      using modulus_mask [OF assms(1) j(1)] by (simp add: j(2) A_def)
    ultimately show ?thesis by (simp flip: B_def)
  qed
qed

section \<open>Decoding a number\<close>

lemma prefix_step:
  assumes "x \<le> 8" "parses (\<lambda>al. rice_prefix al (x + 1)) bs v"
  shows "parses (\<lambda>al. rice_prefix al x) (True # bs) v"
proof -
  have "parses (\<lambda>al. readbit al \<bind> (\<lambda>(b, al). if b \<noteq> 0 then rice_prefix al (x + 1) else Some (x, al)))
      ([True] @ bs) v"
    by (rule parses_bind [OF parses_readbit]) (use assms(2) in simp)
  then show ?thesis using assms(1) by (simp add: rice_prefix.simps [of _ x] RICE_THRESHOLD_def)
qed

lemma prefix_stops:
  "x + int q \<le> 8 \<Longrightarrow> parses (\<lambda>al. rice_prefix al x) (replicate q True @ [False]) (x + int q)"
proof (induction q arbitrary: x)
  case 0
  have "parses (\<lambda>al. readbit al \<bind> (\<lambda>(b, al). if b \<noteq> 0 then rice_prefix al (x + 1) else Some (x, al)))
      ([False] @ []) x"
    by (rule parses_bind [OF parses_readbit]) (simp add: parses_return)
  then show ?case using 0 by (simp add: rice_prefix.simps [of _ x] RICE_THRESHOLD_def)
next
  case (Suc q)
  then have "parses (\<lambda>al. rice_prefix al (x + 1)) (replicate q True @ [False]) (x + 1 + int q)" by simp
  then show ?case using Suc.prems prefix_step [of x] by (simp add: ac_simps)
qed

lemma prefix_escapes:
  "n \<le> 9 \<Longrightarrow> parses (\<lambda>al. rice_prefix al (9 - int n)) (replicate n True) 9"
proof (induction n)
  case 0
  have "rice_prefix al 9 = Some (9, al)" for al by (simp add: rice_prefix.simps RICE_THRESHOLD_def)
  then show ?case by (simp add: parses_return)
next
  case (Suc n)
  then have "parses (\<lambda>al. rice_prefix al (9 - int n)) (replicate n True) 9" by simp
  then show ?case using prefix_step [of "9 - int (Suc n)"] by simp
qed

definition value_rest :: "int \<Rightarrow> int \<Rightarrow> int \<Rightarrow> int \<Rightarrow> alac_file \<Rightarrow> (int \<times> alac_file) option" where
  \<comment> \<open>\<open>entropy_decode_value\<close> after the prefix\<close>
  "value_rest ss k mk x al =
     (if x > RICE_THRESHOLD then do {
        (v, al) \<leftarrow> readbits al ss;
        if 32 - ss < 0 \<or> 32 - ss > 31 then None
        else Some (sint (v AND drop_bit (nat (32 - ss)) 0xffffffff), al)
      }
      else if k \<noteq> 1 then do {
        (e, al) \<leftarrow> readbits al k;
        p \<leftarrow> shl 1 k;
        let x = i32 (x * (i32 (p - 1) AND mk));
        if sint e > 1 then Some (i32 (x + (sint e - 1)), al)
        else Some (x, unreadbits al 1)
      }
      else Some (x, al))"

lemma entropy_decode_value_rest:
  "entropy_decode_value al ss k mk = rice_prefix al 0 \<bind> (\<lambda>(x, al). value_rest ss k mk x al)"
  by (simp add: entropy_decode_value_def value_rest_def)

lemma rest_escaped:
  assumes "0 < ss" "ss \<le> 31" "0 \<le> v" "v < 2 ^ ss"
  shows "parses (value_rest (int ss) k mk 9) (nbits ss (nat v)) v"
proof -
  have v: "nat v < 2 ^ ss" using assms(3,4) by (simp add: nat_less_iff)
  have "(2::nat) ^ ss \<le> 2 ^ 31" using assms(2) by (intro power_increasing) simp_all
  then have v31: "nat v < 2 ^ 31" using v by linarith
  have "(0xffffffff :: u32) = - 1" by simp
  then have "drop_bit (32 - ss) (0xffffffff :: u32) = Bit_Operations.mask ss"
    using assms(2) by (simp only:) (intro bit_word_eqI; auto simp: bit_simps)
  moreover have "of_nat (nat v) AND Bit_Operations.mask ss = (of_nat (nat v) :: u32)"
    using v by (simp add: take_bit_of_nat take_bit_nat_eq_self flip: take_bit_eq_mask)
  ultimately have "sint (of_nat (nat v) AND drop_bit (32 - ss) (0xffffffff :: u32)) = v"
    using sint_small [OF v31] assms(3) by simp
  note word = this [symmetric]
  have "parses (\<lambda>al. readbits al (int ss) \<bind> (\<lambda>(w, al).
      Some (sint (w AND drop_bit (32 - ss) 0xffffffff), al))) (nbits ss (nat v)) v"
    using assms(2) by (intro parses_map [where v = "of_nat (nat v)"] parses_readbits v assms(1) word) simp
  then show ?thesis
    using assms(1,2) by (simp add: value_rest_def RICE_THRESHOLD_def parses_def nat_diff_distrib)
qed


lemma nbits_of_bool: "nbits (Suc n) (of_bool b) = replicate n False @ [b]"
  by (induction n) (simp_all add: bit_0)

lemma i32_power:
  assumes "k \<le> 16"
  shows "i32 (2 ^ nat k - 1) = 2 ^ nat k - 1" "(2::int) ^ nat k \<le> 65536"
proof -
  define P :: int where "P = 2 ^ nat k"
  have "P \<le> 2 ^ 16" unfolding P_def using assms by (intro power_increasing) simp_all
  moreover have "0 < P" by (simp add: P_def)
  ultimately have "i32 (P - 1) = P - 1" "P \<le> 65536" by simp_all
  then show "i32 (2 ^ nat k - 1) = 2 ^ nat k - 1" "(2::int) ^ nat k \<le> 65536" by (simp_all add: P_def)
qed

lemma rest_zero:
  assumes "2 \<le> k" "k \<le> 16" "x \<le> 8" "0 \<le> x * modulus k mk" "x * modulus k mk < 2147483648"
  shows "parses (value_rest ss k mk x) (replicate (nat k - 1) False) (x * modulus k mk)"
  unfolding parses_def
proof (intro allI impI)
  fix al
  assume al: "ahead al (replicate (nat k - 1) False)"
  obtain b where "near 23 al (replicate (nat k - 1) False @ [b])" using al by (rule ahead_next)
  moreover have k: "nat k = Suc (nat k - 1)" using assms(1) by simp
  ultimately have "near 23 al (nbits (nat k) (of_bool b))" using nbits_of_bool by metis
  moreover have "(of_bool b :: nat) < 2 ^ nat k"
  proof (rule le_less_trans [of _ 1])
    show "(1::nat) < 2 ^ nat k" using assms(1) by (intro one_less_power) simp_all
  qed simp
  ultimately have read: "readbits al k = Some (of_nat (of_bool b), seek al (nat k))"
    using readbits_16_bits [of al "nat k" "of_bool b"] assms(1,2) by (simp add: readbits_def)
  have "i32 (x * (i32 (2 ^ nat k - 1) AND mk)) = x * modulus k mk"
    using assms(1,4,5) by (simp add: modulus_def i32_power [OF assms(2)])
  then show "value_rest ss k mk x al = Some (x * modulus k mk, seek al (length (replicate (nat k - 1) False)))"
    using read assms(1-3) by (cases b) (simp_all add: value_rest_def RICE_THRESHOLD_def Let_def unreadbits_seek)
qed

lemma rest_remainder:
  assumes "2 \<le> k" "k \<le> 16" "x \<le> 8" "0 < r" "r < modulus k mk" "0 \<le> x" "modulus k mk \<le> 2 ^ nat k - 1"
  shows "parses (value_rest ss k mk x) (nbits (nat k) (nat (r + 1))) (x * modulus k mk + r)"
proof -
  define M where "M = modulus k mk"
  have p: "(2::int) ^ nat k \<le> 65536" by (rule i32_power [OF assms(2)])
  have r: "nat (r + 1) < 2 ^ nat k" using assms(4,5,7) by (simp add: nat_less_iff)
  have small: "M \<le> 65535" "r < 65536" using p assms(4,5,7) by (simp_all add: M_def)
  have M: "i32 (2 ^ nat k - 1) AND mk = M"
    using assms(1) by (simp add: modulus_def M_def i32_power [OF assms(2)])
  have "x * M \<le> 8 * 65535" using small assms by (intro mult_mono) (simp_all add: M_def)
  moreover have "0 \<le> x * M" using assms by (simp add: M_def)
  ultimately have wraps: "i32 (x * M) = x * M" "i32 (x * M + r) = x * M + r"
    using small assms(4) by simp_all
  have "nat (r + 1) < 2 ^ 31" using small by simp
  then have e: "sint (of_nat (nat (r + 1)) :: u32) = r + 1" using assms(4) by (simp only: sint_small)
  have "parses (\<lambda>al. readbits al (int (nat k)) \<bind> (\<lambda>(e, al).
      if sint e > 1 then Some (i32 (x * M + (sint e - 1)), al) else Some (x * M, unreadbits al 1)))
      (nbits (nat k) (nat (r + 1)) @ []) (x * M + r)"
    using r assms(1,2,4) by (intro parses_bind [OF parses_readbits] parses_return)
      (simp_all add: e wraps parses_return del: of_nat_nat)
  then show ?thesis
    using assms(1-3) by (simp add: value_rest_def RICE_THRESHOLD_def parses_def M wraps Let_def flip: M_def cong: if_cong)
qed

lemma parses_value:
  assumes "0 < ss" "ss \<le> 31" "1 \<le> k" "k \<le> 16" "mask_ok mk" "0 \<le> v" "v < 2 ^ ss"
  shows "parses (\<lambda>al. entropy_decode_value al (int ss) k mk) (value_bits ss k mk v) v"
proof -
  define M q r where "M = modulus k mk" and "q = v div M" and "r = v mod M"
  have M: "1 \<le> M" "M \<le> 2 ^ nat k - 1" using modulus_bounds [OF assms(3,5)] by (simp_all add: M_def)
  have v: "v = q * M + r" "0 \<le> q" "0 \<le> r" "r < M" using M(1) assms(6)
    by (simp_all add: q_def r_def pos_imp_zdiv_nonneg_iff)
  show ?thesis
  proof (cases "q > 8")
    case True
    have "parses (\<lambda>al. rice_prefix al 0 \<bind> (\<lambda>(x, al). value_rest (int ss) k mk x al))
        (replicate 9 True @ nbits ss (nat v)) v"
      using prefix_escapes [of 9] rest_escaped [OF assms(1,2,6,7)] by (intro parses_bind) simp_all
    then show ?thesis using True by (simp add: entropy_decode_value_rest value_bits_def Let_def flip: M_def q_def)
  next
    case False
    define tail where "tail = (if k = 1 then [] else if r = 0 then replicate (nat k - 1) False
        else nbits (nat k) (nat (r + 1)))"
    have "parses (value_rest (int ss) k mk q) tail v"
    proof (cases "k = 1")
      case True
      then have "M = 1" by (simp add: M_def modulus_def)
      then have "v = q" using v by simp
      moreover have "value_rest (int ss) 1 mk q = (\<lambda>al. Some (q, al))"
        using False by (intro ext) (simp add: value_rest_def RICE_THRESHOLD_def)
      ultimately show ?thesis using True by (simp add: tail_def parses_return)
    next
      case k: False
      have "(2::int) ^ nat k \<le> 65536" by (rule i32_power [OF assms(4)])
      then have "q * M \<le> 8 * 65535" using M v False by (intro mult_mono) simp_all
      then have "q * M < 2147483648" "0 \<le> q * M" using M v by simp_all
      then show ?thesis
        using k False v M assms(3,4) rest_zero [of k q mk "int ss"] rest_remainder [of k q r mk "int ss"]
        by (cases "r = 0") (simp_all add: tail_def M_def)
    qed
    moreover have "parses (\<lambda>al. rice_prefix al 0) (replicate (nat q) True @ [False]) q"
      using prefix_stops [of 0 "nat q"] v(2) False by simp
    ultimately have "parses (\<lambda>al. rice_prefix al 0 \<bind> (\<lambda>(x, al). value_rest (int ss) k mk x al))
        ((replicate (nat q) True @ [False]) @ tail) v"
      by (intro parses_bind)
    then show ?thesis using False
      by (simp add: entropy_decode_value_rest value_bits_def Let_def tail_def flip: M_def q_def r_def)
  qed
qed


section \<open>Decoding a list of residuals\<close>

lemma history_decay:
  assumes "0 \<le> h" "h \<le> 33553920" "0 < mult" "mult < (64::int)"
  shows "h * mult div 512 \<le> h" "h - h * mult div 512 \<le> 33553920 - 65535 * mult"
    "0 < h \<Longrightarrow> h * mult div 512 < h" "0 \<le> h * mult div 512" "h * mult < 2147483648"
proof -
  have le: "h * mult \<le> h * 63" using assms by (intro mult_left_mono) simp_all
  then show "h * mult < 2147483648" using assms(2) by linarith
  have pos: "0 \<le> h * mult" using assms by simp
  then show "0 \<le> h * mult div 512" by (simp add: pos_imp_zdiv_nonneg_iff)
  have "h * mult div 512 \<le> h * 63 div 512" using le by (intro zdiv_mono1) simp_all
  then show "h * mult div 512 \<le> h" "0 < h \<Longrightarrow> h * mult div 512 < h" using assms(1) by linarith+
  define g where "g = 33553920 - h"
  have g: "0 \<le> g" "h = 33553920 - g" using assms(2) by (simp_all add: g_def)
  have "g * mult \<le> g * 63" using g(1) assms by (intro mult_left_mono) simp_all
  moreover have "h * mult = 33553920 * mult - g * mult" by (simp add: g(2) left_diff_distrib)
  ultimately have "33553920 * mult - 512 * g \<le> h * mult" using g(1) by linarith
  then have "65535 * mult - g \<le> h * mult div 512" by linarith
  then show "h - h * mult div 512 \<le> 33553920 - 65535 * mult" using g by linarith
qed

lemma next_history_bounds:
  assumes "0 \<le> h" "h \<le> 33553920" "0 < mult" "mult < 64" "0 \<le> d"
  shows "0 \<le> next_history mult h d" "next_history mult h d \<le> 33553920"
    "0 < h \<or> 0 < d \<Longrightarrow> 0 < next_history mult h d" "rice_history mult h d = next_history mult h d"
proof -
  note decay = history_decay [OF assms(1-4)]
  have dm: "0 \<le> d * mult" "0 < d \<Longrightarrow> 0 < d * mult" using assms by simp_all
  have up: "d \<le> 65535 \<Longrightarrow> d * mult \<le> 65535 * mult" using assms by (intro mult_right_mono) simp_all
  show "0 \<le> next_history mult h d" using decay dm by (simp add: next_history_def)
  show "next_history mult h d \<le> 33553920"
  proof (cases "d > 65535")
    case False
    then have "d * mult \<le> 65535 * mult" using up by simp
    then have "h + d * mult - h * mult div 512 \<le> 33553920" using decay(2) by linarith
    then show ?thesis using False by (simp add: next_history_def)
  qed (simp add: next_history_def)
  show "0 < h \<or> 0 < d \<Longrightarrow> 0 < next_history mult h d"
    using decay dm by (auto simp: next_history_def)
  show "rice_history mult h d = next_history mult h d"
  proof (cases "d > 65535")
    case True
    then show ?thesis by (simp add: rice_history_def next_history_def Let_def)
  next
    case False
    then have "d * mult \<le> 65535 * mult" using up by simp
    then have r: "0 \<le> d * mult" "d * mult < 4200000" using dm(1) assms(4) by linarith+
    have "i32 (d * mult) = d * mult" "i32 (h * mult) = h * mult"
      using r decay(5) assms(1,3) by (intro i32_id; simp add: order_trans [of "- 2147483648" 0])+
    moreover have "i32 (d * mult - h * mult div 512) = d * mult - h * mult div 512"
      using r decay(1,4) assms(2) by (intro i32_id) linarith+
    moreover have "i32 (h + (d * mult - h * mult div 512)) = h + d * mult - h * mult div 512"
      using r decay(1,4) assms(1,2) by (subst i32_id) linarith+
    ultimately show ?thesis using False by (simp add: rice_history_def next_history_def Let_def)
  qed
qed

lemma list_update_write_at: "n < length buf \<Longrightarrow> buf[n := x] = write_at n [x] buf"
  by (simp add: write_at_def upd_conv_take_nth_drop)

lemma write_at_append:
  assumes "off + length xs + length ys \<le> length buf" "off' = off + length xs"
  shows "write_at off' ys (write_at off xs buf) = write_at off (xs @ ys) buf"
proof -
  have "min (length buf) off = off" using assms(1) by simp
  then show ?thesis using assms by (simp add: write_at_def ac_simps)
qed

lemma write_at_Nil [simp]: "write_at n [] buf = buf"
  by (simp add: write_at_def)

lemma clear_zeros:
  assumes "0 \<le> i" "nat i + z \<le> length buf"
  shows "(if int z > 0 then clear_cells buf i (int z) else Some buf) = Some (write_at (nat i) (replicate z 0) buf)"
  using assms by (auto simp: clear_cells_def)

definition rice_params :: "nat \<Rightarrow> int \<Rightarrow> int \<Rightarrow> int \<Rightarrow> bool" where
  "rice_params ss kmod mult mk \<longleftrightarrow> 0 < ss \<and> ss \<le> 30 \<and> 0 < kmod \<and> 0 < mult \<and> mult < 64 \<and> mask_ok mk"

definition rice_state_ok :: "int \<Rightarrow> int \<Rightarrow> int list \<Rightarrow> bool" where
  "rice_state_ok h sm xs \<longleftrightarrow> 0 \<le> h \<and> h \<le> 33553920
     \<and> (sm = 0 \<and> 0 < h \<or> sm = 1 \<and> (xs = [] \<or> hd xs \<noteq> 0))"

definition residual_ok :: "nat \<Rightarrow> int \<Rightarrow> bool" where
  "residual_ok ss x \<longleftrightarrow> - (2 ^ (ss - 1)) \<le> x \<and> x < 2 ^ (ss - 1)"

lemma residual_zigzag:
  assumes "residual_ok ss x" "0 < ss" "ss \<le> 30"
  shows "0 \<le> zigzag x" "zigzag x < 2 ^ ss" "zigzag x < 1073741824" "rice_final (zigzag x) = x"
proof -
  have b: "0 \<le> zigzag x \<and> zigzag x < 2 ^ Suc (ss - 1)"
    using assms(1) by (intro zigzag_bounds) (simp_all add: residual_ok_def)
  then show "0 \<le> zigzag x" "zigzag x < 2 ^ ss" using assms(2) by simp_all
  define P :: int where "P = 2 ^ (ss - 1)"
  have "P \<le> 2 ^ 29" unfolding P_def using assms(3) by (intro power_increasing) simp_all
  moreover have "2 ^ Suc (ss - 1) = 2 * P" by (simp add: P_def)
  ultimately show "zigzag x < 1073741824" using b by simp
  have "- 1073741824 < x" "x < 1073741824"
    using \<open>P \<le> 2 ^ 29\<close> assms(1) unfolding residual_ok_def P_def [symmetric] by simp_all
  then show "rice_final (zigzag x) = x" by (rule rice_final_zigzag)
qed


lemma rice_step_sample:
  assumes "rice_params ss kmod mult mk" "rice_state_ok h sm (x # xs)" "residual_ok ss x"
    and "ahead al (value_bits ss (sample_k kmod h) (-1) (zigzag x - sm))"
    and "0 \<le> n" "nat n < length buf"
  shows "rice_step N (int ss) kmod mult mk (al, buf, n, h, sm) =
    (let al = seek al (length (value_bits ss (sample_k kmod h) (-1) (zigzag x - sm)));
         buf = write_at (nat n) [x] buf; h = next_history mult h (zigzag x)
     in if h < 128 \<and> n + 1 < N then do {
          k \<leftarrow> zero_k h;
          (z, al) \<leftarrow> entropy_decode_value al 16 k mk;
          buf \<leftarrow> (if z > 0 then clear_cells buf (n + 1) z else Some buf);
          Some (al, buf, n + max 0 z + 1, 0, if z > 0xFFFF then 0 else 1)
        } else Some (al, buf, n + 1, h, 0))"
proof -
  note p = assms(1)[unfolded rice_params_def] and st = assms(2)[unfolded rice_state_ok_def]
  have z: "0 \<le> zigzag x" "zigzag x < 2 ^ ss" "zigzag x < 1073741824" "rice_final (zigzag x) = x"
    using residual_zigzag [OF assms(3)] p by simp_all
  have k: "rice_k kmod h = Some (sample_k kmod h)" "1 \<le> sample_k kmod h" "sample_k kmod h \<le> 16"
    using rice_k_eq st p by simp_all
  have "sm = 0 \<or> sm = 1 \<and> zigzag x \<noteq> 0" using st by auto
  then have v: "0 \<le> zigzag x - sm" "zigzag x - sm < 2 ^ ss" using z(1,2) by linarith+
  have "parses (\<lambda>al. entropy_decode_value al (int ss) (sample_k kmod h) (-1))
      (value_bits ss (sample_k kmod h) (-1) (zigzag x - sm)) (zigzag x - sm)"
    using p k v by (intro parses_value) (simp_all add: mask_ok_def)
  then have e: "entropy_decode_value al (int ss) (sample_k kmod h) (-1) = Some (zigzag x - sm,
      seek al (length (value_bits ss (sample_k kmod h) (-1) (zigzag x - sm))))"
    using assms(4) by (rule parsesD)
  have i: "i32 (zigzag x) = zigzag x" using z by simp
  have hist: "rice_history mult h (zigzag x) = next_history mult h (zigzag x)"
    using next_history_bounds st p z by simp
  have cell: "set_cell buf n x = Some (write_at (nat n) [x] buf)"
    using assms(5,6) by (simp add: set_cell_def list_update_write_at nat_less_iff)
  show ?thesis
    by (simp add: rice_step_def k(1) e i z(4) hist cell Let_def)
qed

lemma run_of_zeros: "xs = replicate (length (takeWhile (\<lambda>x. x = 0) xs)) (0::int) @ dropWhile (\<lambda>x. x = 0) xs"
  by (induction xs) auto

lemma rice_step_run:
  assumes "rice_params ss kmod mult mk" "0 < h" "h < 128" "z < 65536"
    and "ahead al (value_bits 16 (run_k h) mk (int z))" "0 \<le> n" "nat n + z \<le> length buf"
  shows "do {
      k \<leftarrow> zero_k h;
      (z, al) \<leftarrow> entropy_decode_value al 16 k mk;
      buf \<leftarrow> (if z > 0 then clear_cells buf n z else Some buf);
      Some (al, buf, n + max 0 z, 0, if z > 0xFFFF then 0 else 1)
    } = Some (seek al (length (value_bits 16 (run_k h) mk (int z))), write_at (nat n) (replicate z 0) buf,
          n + int z, 0, 1)"
proof -
  have k: "1 \<le> run_k h" "run_k h \<le> 16" using run_k_bounds [OF assms(2,3)] by simp_all
  have "parses (\<lambda>al. entropy_decode_value al (int 16) (run_k h) mk) (value_bits 16 (run_k h) mk (int z)) (int z)"
    using k assms(1,4) by (intro parses_value) (simp_all add: rice_params_def)
  then have "entropy_decode_value al 16 (run_k h) mk = Some (int z, seek al (length (value_bits 16 (run_k h) mk (int z))))"
    using parsesD [OF _ assms(5)] by simp
  then show ?thesis
    using zero_k_eq [OF assms(2,3)] clear_zeros [OF assms(6,7)] assms(4) by simp
qed


declare rice_bits.simps [simp del]

lemma rice_bits_Nil [simp]: "rice_bits ss kmod mult mk h sm [] = []"
  by (simp add: rice_bits.simps)

lemma rice_loop_decodes:
  assumes "rice_params ss kmod mult mk"
  shows "rice_state_ok h sm xs \<Longrightarrow> list_all (residual_ok ss) xs \<Longrightarrow> length xs < 65536 \<Longrightarrow>
    0 \<le> n \<Longrightarrow> nat n + length xs \<le> length buf \<Longrightarrow> ahead al (rice_bits ss kmod mult mk h sm xs) \<Longrightarrow>
    rice_loop (n + int (length xs)) (int ss) kmod mult mk (al, buf, n, h, sm)
      = Some (write_at (nat n) xs buf, seek al (length (rice_bits ss kmod mult mk h sm xs)))"
proof (induction xs arbitrary: al buf n h sm rule: length_induct)
  case (1 xs)
  show ?case
  proof (cases xs)
    case Nil
    moreover have "at_bit al" using "1.prems" by (simp add: ahead_def)
    ultimately show ?thesis by (simp add: rice_loop.simps)
  next
    case (Cons x ys)
    define code where "code = value_bits ss (sample_k kmod h) (-1) (zigzag x - sm)"
    define h' where "h' = next_history mult h (zigzag x)"
    define N where "N = n + int (length xs)"
    have N: "n < N" by (simp add: N_def Cons)
    have x: "residual_ok ss x" and ys: "list_all (residual_ok ss) ys" using "1.prems"(2) Cons by simp_all
    have st: "rice_state_ok h sm (x # ys)" and al: "at_bit al"
      using "1.prems" Cons by (simp_all add: ahead_def)
    have n: "0 \<le> n" "nat n < length buf" "nat (n + 1) = nat n + 1" using "1.prems" Cons by simp_all
    have d: "0 \<le> zigzag x" using residual_zigzag [OF x] assms by (simp add: rice_params_def)
    have "0 < h \<or> 0 < zigzag x" using st d by (cases "zigzag x = 0") (auto simp: rice_state_ok_def)
    then have h': "0 < h'" "h' \<le> 33553920"
      using next_history_bounds [of h mult "zigzag x"] st assms d
      by (simp_all add: h'_def rice_state_ok_def rice_params_def)
    show ?thesis
    proof (cases "h' < 128 \<and> ys \<noteq> []")
      case True
      define z zs where "z = length (takeWhile (\<lambda>x. x = 0) ys)" and "zs = dropWhile (\<lambda>x. x = 0) ys"
      define run where "run = value_bits 16 (run_k h') mk (int z)"
      define rest where "rest = rice_bits ss kmod mult mk 0 1 zs"
      have bits: "rice_bits ss kmod mult mk h sm xs = code @ run @ rest"
        using True by (simp add: rice_bits.simps Cons Let_def code_def run_def rest_def z_def zs_def flip: h'_def)
      have split: "ys = replicate z 0 @ zs" unfolding z_def zs_def by (rule run_of_zeros)
      have len: "length ys = z + length zs" by (subst split) simp
      have a: "ahead al code" "ahead (seek al (length code)) run" "ahead (seek al (length code + length run)) rest"
        using "1.prems"(6) bits ahead_prefix ahead_seek [of "seek al (length code)" run rest] ahead_seek [of al code]
        by (metis seek_seek)+
      have step: "rice_step N (int ss) kmod mult mk (al, buf, n, h, sm) =
          Some (seek al (length code + length run), write_at (nat n) (x # replicate z 0) buf, n + 1 + int z, 0, 1)"
      proof -
        have "n + 1 < N" using True by (cases ys) (simp_all add: N_def Cons)
        moreover have "z < 65536" "nat (n + 1) + z \<le> length buf" using "1.prems" n len Cons by simp_all
        ultimately show ?thesis
          using rice_step_sample [OF assms st x a(1)[unfolded code_def] n(1,2), of N]
            rice_step_run [OF assms h'(1) _ _ a(2)[unfolded run_def], of "n + 1" "write_at (nat n) [x] buf"] True n
          by (simp add: write_at_append Let_def ac_simps flip: code_def h'_def run_def)
      qed
      have "rice_loop (n + 1 + int z + int (length zs)) (int ss) kmod mult mk
          (seek al (length code + length run), write_at (nat n) (x # replicate z 0) buf, n + 1 + int z, 0, 1)
        = Some (write_at (nat (n + 1 + int z)) zs (write_at (nat n) (x # replicate z 0) buf),
                seek (seek al (length code + length run)) (length rest))"
        unfolding rest_def
      proof (rule "1.IH"[rule_format])
        show "length zs < length xs" using Cons len by simp
        show "rice_state_ok 0 1 zs" using hd_dropWhile [of "\<lambda>x. x = 0" ys]
          by (auto simp: rice_state_ok_def zs_def)
        show "list_all (residual_ok ss) zs" using ys by (subst (asm) split) simp
        show "ahead (seek al (length code + length run)) (rice_bits ss kmod mult mk 0 1 zs)"
          using a(3) by (simp add: rest_def)
      qed (use "1.prems" n len Cons in simp_all)
      moreover have "n + 1 + int z + int (length zs) = N" by (simp add: N_def Cons len)
      moreover have "write_at (nat (n + 1 + int z)) zs (write_at (nat n) (x # replicate z 0) buf) = write_at (nat n) xs buf"
        using "1.prems" n len Cons split by (subst write_at_append) simp_all
      ultimately have "rice_loop N (int ss) kmod mult mk (al, buf, n, h, sm)
          = Some (write_at (nat n) xs buf, seek al (length (rice_bits ss kmod mult mk h sm xs)))"
        using step N by (simp add: rice_loop.simps [of N] bits ac_simps)
      then show ?thesis by (simp add: N_def)
    next
      case False
      define rest where "rest = rice_bits ss kmod mult mk h' 0 ys"
      have bits: "rice_bits ss kmod mult mk h sm xs = code @ rest"
        using False by (auto simp add: rice_bits.simps Cons Let_def code_def rest_def simp flip: h'_def)
      have a: "ahead al code" "ahead (seek al (length code)) rest"
        using "1.prems"(6) bits ahead_prefix ahead_seek [of al code] by metis+
      have last_one: "(h' < 128 \<and> n + 1 < N) = False" using False by (cases ys) (simp_all add: N_def Cons)
      have step: "rice_step N (int ss) kmod mult mk (al, buf, n, h, sm) =
          Some (seek al (length code), write_at (nat n) [x] buf, n + 1, h', 0)"
        using rice_step_sample [OF assms st x a(1)[unfolded code_def] n(1,2), of N]
        by (simp only: Let_def code_def [symmetric] h'_def [symmetric] last_one if_False)
      have "rice_loop (n + 1 + int (length ys)) (int ss) kmod mult mk
          (seek al (length code), write_at (nat n) [x] buf, n + 1, h', 0)
        = Some (write_at (nat (n + 1)) ys (write_at (nat n) [x] buf), seek (seek al (length code)) (length rest))"
        unfolding rest_def
      proof (rule "1.IH"[rule_format])
        show "ahead (seek al (length code)) (rice_bits ss kmod mult mk h' 0 ys)" using a(2) by (simp add: rest_def)
        show "rice_state_ok h' 0 ys" using h' by (simp add: rice_state_ok_def)
      qed (use "1.prems" n ys Cons in simp_all)
      moreover have "n + 1 + int (length ys) = N" by (simp add: N_def Cons)
      moreover have "write_at (nat (n + 1)) ys (write_at (nat n) [x] buf) = write_at (nat n) xs buf"
        using "1.prems" n Cons by (subst write_at_append) simp_all
      ultimately have "rice_loop N (int ss) kmod mult mk (al, buf, n, h, sm)
          = Some (write_at (nat n) xs buf, seek al (length (rice_bits ss kmod mult mk h sm xs)))"
        using step N by (simp add: rice_loop.simps [of N] bits)
      then show ?thesis by (simp add: N_def)
    qed
  qed
qed

lemma rice_loop_entropy:
  assumes "rice_params ss kmod mult mk" "0 < h" "h < 256" "list_all (residual_ok ss) xs"
    "length xs < 65536" "length xs \<le> length buf"
    and "ahead al (rice_bits ss kmod mult mk h 0 xs)"
  shows "entropy_rice_decode al buf (int (length xs)) (int ss) h kmod mult mk
    = Some (xs @ drop (length xs) buf, seek al (length (rice_bits ss kmod mult mk h 0 xs)))"
  using rice_loop_decodes [OF assms(1) _ assms(4,5), of h 0 0 buf al] assms
  by (simp add: entropy_rice_decode_def rice_state_ok_def write_at_def)

end
