(* ===== verification/Alac_Predictor.thy ===== *)
theory Alac_Predictor
  imports Alac_Entropy
begin

text \<open>
  The linear predictor of \<open>alac.c\<close> and its inverse: \<open>residuals\<close> is what an encoder sends for a list of samples,
  each the difference of the sample and the prediction the decoder will make, cut to the sample width. The
  decoder adapts its coefficients from the residuals it reads; the encoder makes the same adaptation, so both
  stay in step, which is what \<open>predictor_decompress_fir_adapt\<close> is shown to rely on.
\<close>

section \<open>Loops and sign extension\<close>

lemma for_loop_invariant:
  assumes "P i s" "\<And>j s. i \<le> j \<Longrightarrow> j < i + int n \<Longrightarrow> P j s \<Longrightarrow> \<exists>s'. f j s = Some s' \<and> P (j + 1) s'"
  shows "\<exists>s'. for_loop n f i s = Some s' \<and> P (i + int n) s'"
  using assms
proof (induction n arbitrary: i s)
  case (Suc n)
  obtain s' where s': "f i s = Some s'" "P (i + 1) s'" using Suc.prems(2) [of i s] Suc.prems(1) by auto
  have "\<exists>s''. for_loop n f (i + 1) s' = Some s'' \<and> P (i + 1 + int n) s''"
    using s'(2) Suc.prems(2) by (intro Suc.IH) auto
  then show ?case using s'(1) by (simp add: ac_simps)
qed simp

lemma for_range_invariant:
  assumes "P a s" "a \<le> b" "\<And>j s. a \<le> j \<Longrightarrow> j < b \<Longrightarrow> P j s \<Longrightarrow> \<exists>s'. f j s = Some s' \<and> P (j + 1) s'"
  shows "\<exists>s'. for_range a b f s = Some s' \<and> P b s'"
  using for_loop_invariant [of P a s "nat (b - a)" f] assms by (simp add: for_range_def)

lemma sign_extended32_eq:
  assumes "0 < n" "n \<le> 32"
  shows "sign_extended32 v (int n) = Some (signed_take_bit (n - 1) v)"
proof -
  define m where "m = 32 - n"
  have n: "n - 1 = 31 - m" "m < 32" using assms by (simp_all add: m_def)
  have "drop_bit m (signed_take_bit 31 (push_bit m v)) = signed_take_bit (31 - m) v"
    by (rule bit_eqI) (use n(2) in \<open>auto simp: bit_drop_bit_eq bit_signed_take_bit_iff bit_push_bit_iff min_def\<close>)
  then have "i32 (v * 2 ^ m) div 2 ^ m = signed_take_bit (n - 1) v"
    unfolding n(1) by (simp add: i32_def push_bit_eq_mult drop_bit_eq_div)
  moreover have "32 - int n = int m" using assms by (simp add: m_def)
  ultimately show ?thesis using n(2) by (simp add: sign_extended32_def shl_def shr_def)
qed

lemma signed_take_bit_i32: "n \<le> 31 \<Longrightarrow> signed_take_bit n (i32 x) = signed_take_bit n x"
  by (simp add: i32_def signed_take_bit_signed_take_bit min_def)

lemma residual_ok_signed: "residual_ok ss (signed_take_bit (ss - 1) x)"
  by (simp add: residual_ok_def signed_take_bit_int_greater_eq_minus_exp signed_take_bit_int_less_exp)

lemma signed_take_bit_ok: "residual_ok ss x \<Longrightarrow> signed_take_bit (ss - 1) x = x"
  by (simp add: residual_ok_def signed_take_bit_int_eq_self)

definition difference :: "nat \<Rightarrow> int \<Rightarrow> int \<Rightarrow> int" where
  "difference ss x p = signed_take_bit (ss - 1) (x - p)"

lemma sample_restored:
  assumes "residual_ok ss x" "0 < ss" "ss \<le> 32"
  shows "sign_extended32 (i32 (p + difference ss x p)) (int ss) = Some x"
proof -
  have "signed_take_bit (ss - 1) (p + signed_take_bit (ss - 1) (x - p)) = signed_take_bit (ss - 1) x"
    using signed_take_bit_add [of "ss - 1" "signed_take_bit (ss - 1) p" "signed_take_bit (ss - 1) (x - p)"]
      signed_take_bit_add [of "ss - 1" p "x - p"] signed_take_bit_add [of "ss - 1" p "signed_take_bit (ss - 1) (x - p)"]
    by (simp add: signed_take_bit_signed_take_bit)
  then show ?thesis
    using assms signed_take_bit_ok [OF assms(1)]
    by (simp add: sign_extended32_eq signed_take_bit_i32 difference_def)
qed

section \<open>The encoder\<close>

definition fir_prediction :: "int list \<Rightarrow> nat \<Rightarrow> int list \<Rightarrow> int \<Rightarrow> int" where
  "fir_prediction w num coefs quant =
     i32 (i32 (2 ^ nat (quant - 1) + fir_sum w num coefs) div 2 ^ nat quant + w ! 0)"

definition adapted :: "int list \<Rightarrow> nat \<Rightarrow> int \<Rightarrow> int \<Rightarrow> int list \<Rightarrow> int list" where
  "adapted w num quant e coefs =
     (if e > 0 then fir_adapt True quant w num num e coefs
      else if e < 0 then fir_adapt False quant w num num e coefs
      else coefs)"

lemma residual_ok_difference [simp]: "residual_ok ss (difference ss x p)"
  unfolding difference_def by (rule residual_ok_signed)

primrec fir_residuals :: "nat \<Rightarrow> nat \<Rightarrow> int \<Rightarrow> int list \<Rightarrow> int list \<Rightarrow> nat \<Rightarrow> nat \<Rightarrow> int list" where
  \<comment> \<open>the residuals of \<open>c\<close> samples from the \<open>i\<close>-th on\<close>
  "fir_residuals ss num quant samples coefs i 0 = []"
| "fir_residuals ss num quant samples coefs i (Suc c) =
     (let w = take (num + 1) (drop (i - num - 1) samples);
          e = difference ss (samples ! i) (fir_prediction w num coefs quant)
      in e # fir_residuals ss num quant samples (adapted w num quant e coefs) (Suc i) c)"

definition step_residuals :: "nat \<Rightarrow> int list \<Rightarrow> nat \<Rightarrow> int list" where
  \<comment> \<open>each sample against the one before it\<close>
  "step_residuals ss samples m = map (\<lambda>i. difference ss (samples ! Suc i) (samples ! i)) [0..<m]"

definition residuals :: "nat \<Rightarrow> int \<Rightarrow> int list \<Rightarrow> int list \<Rightarrow> int list" where
  "residuals ss quant coefs samples =
     (let n = length samples; num = length coefs
      in if samples = [] \<or> coefs = [] then samples
         else if num = 31 \<or> n \<le> num + 1 then samples ! 0 # step_residuals ss samples (n - 1)
         else samples ! 0 # step_residuals ss samples num
                @ fir_residuals ss num quant samples coefs (num + 1) (n - num - 1))"

lemma length_fir_residuals [simp]: "length (fir_residuals ss num quant samples coefs i c) = c"
  by (induction c arbitrary: coefs i) (simp_all add: Let_def)

lemma length_step_residuals [simp]: "length (step_residuals ss samples m) = m"
  by (simp add: step_residuals_def)

lemma length_residuals [simp]: "length (residuals ss quant coefs samples) = length samples"
  by (auto simp: residuals_def Let_def neq_Nil_conv)

lemma residual_ok_fir: "list_all (residual_ok ss) (fir_residuals ss num quant samples coefs i c)"
  by (induction c arbitrary: coefs i) (simp_all add: Let_def)

lemma residual_ok_step: "list_all (residual_ok ss) (step_residuals ss samples m)"
  by (simp add: step_residuals_def list_all_iff)

lemma residuals_ok: "list_all (residual_ok ss) samples \<Longrightarrow> list_all (residual_ok ss) (residuals ss quant coefs samples)"
  using residual_ok_fir residual_ok_step
  by (cases samples) (auto simp: residuals_def Let_def)

section \<open>The decoder inverts it\<close>

lemma cell_nth [simp]: "i < length xs \<Longrightarrow> cell xs (int i) = Some (xs ! i)"
  by (simp add: cell_def)

lemma set_cell_nth [simp]: "i < length xs \<Longrightarrow> set_cell xs (int i) v = Some (xs[i := v])"
  by (simp add: set_cell_def)

lemma cell_Suc [simp]: "Suc i < length xs \<Longrightarrow> cell xs (int i + 1) = Some (xs ! Suc i)"
  using cell_nth [of "Suc i" xs] by (simp add: ac_simps)

lemma set_cell_Suc [simp]: "Suc i < length xs \<Longrightarrow> set_cell xs (int i + 1) v = Some (xs[Suc i := v])"
  using set_cell_nth [of "Suc i" xs v] by (simp add: ac_simps)

lemma fir_predict_eq:
  assumes "1 \<le> quant" "quant \<le> 15"
  shows "fir_predict w num coefs quant = Some (fir_prediction w num coefs quant)"
  using assms by (simp add: fir_predict_def fir_prediction_def shr_def)

lemma take_Suc_update:
  "take i out = take i xs \<Longrightarrow> i < length xs \<Longrightarrow> i < length out \<Longrightarrow> take (Suc i) (out[i := xs ! i]) = take (Suc i) xs"
  by (simp add: take_Suc_conv_app_nth)

lemma nth_of_take: "take i xs = take i ys \<Longrightarrow> j < i \<Longrightarrow> xs ! j = ys ! j"
  by (metis nth_take)

lemma window_of_take:
  fixes out samples :: "int list"
  assumes "take i out = take i samples" "num < i"
  shows "take (num + 1) (drop (i - num - 1) out) = take (num + 1) (drop (i - num - 1) samples)"
proof -
  have *: "take (num + 1) (drop (i - num - 1) xs) = drop (i - num - 1) (take i xs)" for xs :: "int list"
    using assms(2) by (simp add: drop_take)
  show ?thesis unfolding * [of out] * [of samples] assms(1) by (rule refl)
qed

lemma fir_previous_restores:
  assumes "take (Suc i) out = take (Suc i) samples" "Suc i < length samples" "length samples \<le> length out"
    "list_all (residual_ok ss) samples" "0 < ss" "ss \<le> 32" "Suc i < length errors"
    "errors ! Suc i = difference ss (samples ! Suc i) (samples ! i)"
  shows "\<exists>out'. fir_previous errors (int ss) (int i) out = Some out' \<and> length out' = length out
    \<and> take (Suc (Suc i)) out' = take (Suc (Suc i)) samples"
proof -
  have x: "residual_ok ss (samples ! Suc i)" using assms(2,4) by (simp add: list_all_length)
  have i: "out ! i = samples ! i" using nth_of_take [OF assms(1)] by simp
  have "fir_previous errors (int ss) (int i) out = Some (out[Suc i := samples ! Suc i])"
    using assms(2,3,7) sample_restored [OF x assms(5,6), of "samples ! i"]
    by (simp add: fir_previous_def i assms(8))
  then show ?thesis using take_Suc_update [OF assms(1)] assms(2,3) by simp
qed

lemma fir_previous_defined:
  assumes "Suc i < length out" "Suc i < length errors" "0 < ss" "ss \<le> 32"
  shows "\<exists>x. fir_previous errors (int ss) (int i) out = Some (out[Suc i := x])"
  using assms by (auto simp: fir_previous_def sign_extended32_eq)

lemma step_loop:
  assumes "take 1 out = take 1 samples" "samples \<noteq> []" "length samples \<le> length out"
    "list_all (residual_ok ss) samples" "0 < ss" "ss \<le> 32"
    "m < length out" "m < length errors"
    "\<And>i. i < m \<Longrightarrow> Suc i < length samples \<Longrightarrow> errors ! Suc i = difference ss (samples ! Suc i) (samples ! i)"
  shows "\<exists>out'. for_range 0 (int m) (fir_previous errors (int ss)) out = Some out' \<and> length out' = length out
    \<and> take (min (Suc m) (length samples)) out' = take (min (Suc m) (length samples)) samples"
proof -
  define P where "P = (\<lambda>i out'. length out' = length out
      \<and> take (min (Suc (nat i)) (length samples)) out' = take (min (Suc (nat i)) (length samples)) samples)"
  have "\<exists>out'. for_range 0 (int m) (fir_previous errors (int ss)) out = Some out' \<and> P (int m) out'"
  proof (rule for_range_invariant)
    show "P 0 out" using assms(1,2) by (cases samples) (auto simp: P_def)
    fix j out'
    assume j: "0 \<le> j" "j < int m" and P: "P j out'"
    define i where "i = nat j"
    have i: "j = int i" "i < m" using j by (simp_all add: i_def)
    show "\<exists>out''. fir_previous errors (int ss) j out' = Some out'' \<and> P (j + 1) out''"
    proof (cases "Suc i < length samples")
      case True
      then show ?thesis
        using fir_previous_restores [of i out' samples ss errors] P assms i
        by (fastforce simp: P_def min_def nat_add_distrib)
    next
      case False
      then have len: "min (Suc i) (length samples) = length samples" "min (Suc (Suc i)) (length samples) = length samples"
        by simp_all
      obtain x where "fir_previous errors (int ss) j out' = Some (out'[Suc i := x])"
        using fir_previous_defined [of i out' errors ss] P assms i by (auto simp: P_def)
      then show ?thesis using P False len i by (simp add: P_def nat_add_distrib)
    qed
  qed simp
  then show ?thesis by (simp add: P_def)
qed

lemma fir_loop:
  assumes "list_all (residual_ok ss) samples" "0 < ss" "ss \<le> 32" "1 \<le> quant" "quant \<le> 15"
    "length samples \<le> length errors"
  shows "take i out = take i samples \<Longrightarrow> num < i \<Longrightarrow> i + c = length samples \<Longrightarrow> length samples \<le> length out \<Longrightarrow>
    take c (drop i errors) = fir_residuals ss num quant samples coefs i c \<Longrightarrow>
    \<exists>out' coefs'. for_loop c (fir_general errors (int ss) num quant) (int i) (out, coefs) = Some (out', coefs')
      \<and> length out' = length out \<and> take (length samples) out' = samples"
proof (induction c arbitrary: i out coefs)
  case 0
  then show ?case by simp
next
  case (Suc c)
  define w where "w = take (num + 1) (drop (i - num - 1) samples)"
  define p where "p = fir_prediction w num coefs quant"
  define e where "e = difference ss (samples ! i) p"
  have i: "i < length samples" "i < length out" "i < length errors" using Suc.prems assms(6) by simp_all
  have "take (Suc c) (drop i errors) = errors ! i # take c (drop (Suc i) errors)"
    using i(3) by (simp add: Cons_nth_drop_Suc [symmetric])
  then have err: "errors ! i = e" "take c (drop (Suc i) errors) = fir_residuals ss num quant samples (adapted w num quant e coefs) (Suc i) c"
    using Suc.prems(5)
    unfolding fir_residuals.simps Let_def w_def [symmetric] p_def [symmetric] e_def [symmetric]
    by (metis list.inject)+
  have x: "residual_ok ss (samples ! i)" using assms(1) i(1) by (simp add: list_all_length)
  have w': "take (num + 1) (drop (i - num - 1) out) = w"
    unfolding w_def using Suc.prems(1,2) by (rule window_of_take)
  have "fir_general errors (int ss) num quant (int i) (out, coefs)
      = Some (out[i := samples ! i], adapted w num quant e coefs)"
    using i w' sample_restored [OF x assms(2,3), of p] fir_predict_eq [OF assms(4,5)]
    by (simp add: fir_general_def err(1) Let_def adapted_def e_def flip: p_def)
  moreover have "\<exists>out' coefs'. for_loop c (fir_general errors (int ss) num quant) (int (Suc i))
      (out[i := samples ! i], adapted w num quant e coefs) = Some (out', coefs')
      \<and> length out' = length (out[i := samples ! i]) \<and> take (length samples) out' = samples"
    using Suc.prems take_Suc_update [OF Suc.prems(1)] i err(2) by (intro Suc.IH) simp_all
  ultimately show ?case by (simp add: ac_simps)
qed


lemma copy_loop:
  assumes "take 1 out = take 1 samples" "take (length samples) errors = samples" "length samples \<le> length out"
    "length samples \<le> length errors" "samples \<noteq> []"
  shows "\<exists>out'. for_range 1 (int (length samples))
      (\<lambda>i out. cell errors i \<bind> (\<lambda>e. set_cell out i e)) out = Some out'
      \<and> length out' = length out \<and> take (length samples) out' = samples"
proof -
  define P where "P = (\<lambda>i out'. length out' = length out \<and> take (nat i) out' = take (nat i) samples)"
  have "\<exists>out'. for_range 1 (int (length samples))
      (\<lambda>i out. cell errors i \<bind> (\<lambda>e. set_cell out i e)) out = Some out' \<and> P (int (length samples)) out'"
  proof (rule for_range_invariant)
    show "P 1 out" using assms(1) by (simp add: P_def)
    show "1 \<le> int (length samples)" using assms(5) by (cases samples) simp_all
    fix j out'
    assume j: "1 \<le> j" "j < int (length samples)" and P: "P j out'"
    define i where "i = nat j"
    have i: "j = int i" "i < length samples" using j by (simp_all add: i_def)
    have "errors ! i = samples ! i" using assms(2) i(2) by (metis nth_take)
    then show "\<exists>out''. cell errors j \<bind> (\<lambda>e. set_cell out' j e) = Some out'' \<and> P (j + 1) out''"
      using i P assms take_Suc_update [of i out' samples] by (simp add: P_def nat_add_distrib)
  qed
  then show ?thesis by (auto simp: P_def)
qed

lemma step_residuals_nth:
  assumes "take (length samples) errors = samples ! 0 # step_residuals ss samples m @ rest"
    "i < m" "m < length samples"
  shows "errors ! Suc i = difference ss (samples ! Suc i) (samples ! i)"
proof -
  have "errors ! Suc i = take (length samples) errors ! Suc i" using assms(2,3) by simp
  also have "\<dots> = difference ss (samples ! Suc i) (samples ! i)"
    using assms(2) by (simp add: assms(1) nth_append step_residuals_def)
  finally show ?thesis .
qed

lemma samples_restored:
  assumes "samples \<noteq> []" "list_all (residual_ok ss) samples" "0 < ss" "ss \<le> 32"
    "length coefs \<le> 31" "1 \<le> quant" "quant \<le> 15"
    "take (length samples) errors = residuals ss quant coefs samples" "length samples \<le> length out"
    "length samples \<le> length errors" "length coefs < length out" "length coefs < length errors"
  shows "\<exists>out'. predictor_decompress_fir_adapt errors out (int (length samples)) (int ss) coefs quant = Some out'
    \<and> length out' = length out \<and> take (length samples) out' = samples"
proof -
  define n num out0 where "n = length samples" and "num = length coefs" and "out0 = out[0 := errors ! 0]"
  have n: "0 < n" using assms(1) by (simp add: n_def)
  have "errors ! 0 = take n errors ! 0" using n by simp
  also have "\<dots> = samples ! 0" using assms(1,8) by (simp add: n_def residuals_def Let_def)
  finally have first: "errors ! 0 = samples ! 0" .
  have ne: "errors \<noteq> []" "out \<noteq> []" using assms(1,9,10) by auto
  have out0: "take 1 out0 = take 1 samples" "length out0 = length out"
    using ne assms(1) by (cases samples; cases out; simp add: out0_def first)+
  have one: "take n out0 = samples" if "n \<le> 1"
  proof -
    have "n = 1" using that n by simp
    then show ?thesis using out0(1) by (simp add: n_def)
  qed
  have start: "cell errors 0 = Some (errors ! 0)" "set_cell out 0 (errors ! 0) = Some out0"
    using ne by (simp_all add: cell_def set_cell_def out0_def)
  show ?thesis
  proof (cases "coefs = []")
    case True
    have "take n errors = samples" using True assms(8) by (simp add: n_def residuals_def)
    then show ?thesis
      using copy_loop [of out0 samples errors] start out0 assms n True one
      by (auto simp: predictor_decompress_fir_adapt_def n_def)
  next
    case False
    have resid: "take n errors = (if num = 31 \<or> n \<le> num + 1 then samples ! 0 # step_residuals ss samples (n - 1) @ []
        else samples ! 0 # step_residuals ss samples num @ fir_residuals ss num quant samples coefs (num + 1) (n - num - 1))"
      using assms(1,8) False by (simp add: residuals_def Let_def n_def num_def)
    have steps: "errors ! Suc i = difference ss (samples ! Suc i) (samples ! i)"
      if "num = 31 \<or> i < num" "Suc i < n" for i
      using resid that step_residuals_nth [of samples errors ss "n - 1" "[]" i] step_residuals_nth [of samples errors ss num _ i]
      by (auto simp: n_def split: if_splits)
    show ?thesis
    proof (cases "num = 31")
      case 31: True
      have "n - 1 < length out" "n - 1 < length errors" using n assms(9,10) unfolding n_def by linarith+
      moreover have "min (Suc (n - 1)) (length samples) = length samples" using n by (simp add: n_def)
      ultimately obtain out' where out': "for_range 0 (int (n - 1)) (fir_previous errors (int ss)) out0 = Some out'"
        "length out' = length out" "take (length samples) out' = samples"
        using step_loop [of out0 samples ss "n - 1" errors] assms out0 n steps 31
        by (auto simp: n_def)
      have "int (length samples) - 1 = int (n - 1)" using n unfolding n_def by linarith
      then have "for_range 0 (int (length samples) - 1) (fir_previous errors (int ss)) out0 = Some out'"
        using out'(1) by (simp only:)
      then have "predictor_decompress_fir_adapt errors out (int (length samples)) (int ss) coefs quant
          = (if length samples \<le> 1 then Some out0 else Some out')"
        using False 31 start by (simp add: predictor_decompress_fir_adapt_def num_def)
      then show ?thesis using out'(2,3) out0(2) one by (cases "length samples \<le> 1") (auto simp: n_def)
    next
      case general: False
      obtain out1 where out1: "for_range 0 (int num) (fir_previous errors (int ss)) out0 = Some out1"
        "length out1 = length out" "take (min (Suc num) n) out1 = take (min (Suc num) n) samples"
        using step_loop [of out0 samples ss num errors] out0 assms steps
        by (auto simp: n_def num_def)
      have "\<exists>out' coefs'. for_range (int num + 1) (int n) (fir_general errors (int ss) num quant) (out1, coefs)
          = Some (out', coefs') \<and> length out' = length out \<and> take n out' = samples"
      proof (cases "n \<le> num + 1")
        case True
        then show ?thesis using out1 by (simp add: for_range_def min_def n_def split: if_splits)
      next
        case False
        have "take (n - num - 1) (drop (num + 1) errors) = fir_residuals ss num quant samples coefs (num + 1) (n - num - 1)"
        proof -
          have "drop (num + 1) (take n errors) = fir_residuals ss num quant samples coefs (num + 1) (n - num - 1)"
            using resid False general by simp
          then show ?thesis by (simp add: drop_take)
        qed
        then have "\<exists>out' coefs'. for_loop (n - num - 1) (fir_general errors (int ss) num quant) (int (num + 1)) (out1, coefs)
            = Some (out', coefs') \<and> length out' = length out1 \<and> take (length samples) out' = samples"
          using assms out1 False by (intro fir_loop) (simp_all add: n_def)
        moreover have "nat (int n - (int num + 1)) = n - num - 1" by simp
        ultimately show ?thesis using out1(2) by (simp add: for_range_def n_def ac_simps)
      qed
      then show ?thesis
        using False general start out1(1)
        by (auto simp: predictor_decompress_fir_adapt_def num_def n_def)
    qed
  qed
qed

end
