(* ===== verification/Alac_Lossless.thy ===== *)
theory Alac_Lossless
  imports Alac_Predictor
begin

text \<open>
  A frame of two channels of 16-bit samples as an encoder writes it (\<open>stereo_frame\<close>): the channels mixed by the
  weight, each predicted and entropy coded; and the uncompressed frame (\<open>raw_frame\<close>). \<open>alac_decode_frame\<close>
  is shown to return the samples, and what it does with streams no encoder writes.
\<close>

section \<open>Mixing the channels\<close>

definition mixed :: "byte \<Rightarrow> byte \<Rightarrow> int \<times> int \<Rightarrow> int \<times> int" where
  "mixed shift weight = (\<lambda>(l, r). if weight = 0 then (l, r)
     else (r + ((l - r) * uint weight) div 2 ^ unat shift, l - r))"

definition weight_ok :: "byte \<Rightarrow> byte \<Rightarrow> bool" where
  "weight_ok shift weight \<longleftrightarrow> weight = 0 \<or> (unat shift < 32 \<and> uint weight \<le> 2 ^ unat shift)"

definition le16 :: "int \<Rightarrow> byte list" where
  "le16 v = [word_of_int v, word_of_int (v div 256)]"

definition pcm16 :: "(int \<times> int) list \<Rightarrow> byte list" where
  \<comment> \<open>what a player expects: left and right alternating, little-endian\<close>
  "pcm16 lrs = concat (map (\<lambda>(l, r). le16 l @ le16 r) lrs)"

lemma length_pcm16 [simp]: "length (pcm16 lrs) = 4 * length lrs"
  by (induction lrs) (auto simp: pcm16_def le16_def)

lemma i16_id: "residual_ok 16 x \<Longrightarrow> i16 x = x"
  by (simp add: i16_def residual_ok_def signed_take_bit_int_eq_self)

lemma i16_i32: "i16 (i32 x) = i16 x"
  by (simp add: i16_def i32_def signed_take_bit_signed_take_bit)

lemma weighted_part:
  fixes d w m :: int
  assumes "0 \<le> w" "w \<le> m" "0 < m"
  shows "min 0 d \<le> d * w div m" "d * w div m \<le> max 0 d"
proof -
  have "min 0 d * m \<le> d * w"
  proof (cases "0 \<le> d")
    case True
    then show ?thesis using assms by simp
  next
    case False
    then have "d * m \<le> d * w" using assms(2) by (intro mult_left_mono_neg) simp_all
    then show ?thesis using False by simp
  qed
  then have "min 0 d * m div m \<le> d * w div m" using assms(3) by (intro zdiv_mono1)
  then show "min 0 d \<le> d * w div m" using assms(3) by simp
  have "d * w \<le> max 0 d * m"
  proof (cases "0 \<le> d")
    case True
    then show ?thesis using assms by (simp add: mult_left_mono)
  next
    case False
    then have "d * w \<le> 0" using assms(1) by (simp add: mult_nonpos_nonneg)
    then show ?thesis using False by simp
  qed
  then have "d * w div m \<le> max 0 d * m div m" using assms(3) by (intro zdiv_mono1)
  then show "d * w div m \<le> max 0 d" using assms(3) by simp
qed

lemma residual_16: "residual_ok 16 x \<longleftrightarrow> - 32768 \<le> x \<and> x \<le> 32767"
  by (auto simp: residual_ok_def)

lemma residual_17: "residual_ok 17 x \<longleftrightarrow> - 65536 \<le> x \<and> x \<le> 65535"
  by (auto simp: residual_ok_def)

lemma mixed_ok:
  assumes "residual_ok 16 l" "residual_ok 16 r" "weight_ok shift weight"
  shows "residual_ok 17 (fst (mixed shift weight (l, r)))" "residual_ok 17 (snd (mixed shift weight (l, r)))"
proof -
  show "residual_ok 17 (snd (mixed shift weight (l, r)))"
    using assms(1,2) by (auto simp: mixed_def residual_16 residual_17)
  show "residual_ok 17 (fst (mixed shift weight (l, r)))"
  proof (cases "weight = 0")
    case True
    then show ?thesis using assms(1) by (simp add: mixed_def residual_16 residual_17)
  next
    case False
    then have "uint weight \<le> 2 ^ unat shift" using assms(3) by (simp add: weight_ok_def)
    then have "min 0 (l - r) \<le> (l - r) * uint weight div 2 ^ unat shift"
      "(l - r) * uint weight div 2 ^ unat shift \<le> max 0 (l - r)"
      using weighted_part [of "uint weight" "2 ^ unat shift" "l - r"] by simp_all
    then show ?thesis using False assms(1,2)
      by (simp add: mixed_def residual_16 residual_17 min_def max_def split: if_splits)
  qed
qed

lemma unmixed:
  assumes "residual_ok 16 l" "residual_ok 16 r" "weight_ok shift weight" "weight \<noteq> 0"
    "(a, b) = mixed shift weight (l, r)"
  shows "\<exists>x. weighted shift weight a b = Some x \<and> i16 x = r \<and> i16 (i32 (r + b)) = l"
proof -
  have ab: "a = r + (l - r) * uint weight div 2 ^ unat shift" "b = l - r"
    using assms(4,5) by (simp_all add: mixed_def)
  have s: "unat shift < 32" "uint weight < 256"
    using assms(3,4) uint_lt2p [of weight] by (simp_all add: weight_ok_def)
  have "\<bar>b\<bar> * uint weight \<le> 65535 * 255"
    using assms(1,2) s(2) by (intro mult_mono) (auto simp: ab(2) residual_16)
  moreover have "\<bar>b * uint weight\<bar> = \<bar>b\<bar> * uint weight" by (simp add: abs_mult)
  ultimately have "\<bar>b * uint weight\<bar> \<le> 65535 * 255" by linarith
  then have "i32 (b * uint weight) = b * uint weight" by (intro i32_id) linarith+
  moreover have "uint shift < 32" using s(1) by (metis of_nat_less_iff of_nat_numeral uint_nat)
  ultimately have "weighted shift weight a b = Some (i32 (a - b * uint weight div 2 ^ unat shift))"
    by (simp add: weighted_def shr_def)
  also have "a - b * uint weight div 2 ^ unat shift = r" by (simp add: ab)
  finally have "weighted shift weight a b = Some (i32 r)" .
  then show ?thesis
    using assms(1,2) by (simp add: i16_i32 i16_id ab(2))
qed

lemma put16_eq:
  assumes "2 * i + 1 < length out"
  shows "put16 out (int i) v = Some (write_at (2 * i) (le16 v) out)"
proof -
  have "(out[2 * i := a])[Suc (2 * i) := b] = write_at (2 * i) [a, b] out" for a b :: byte
    using assms list_update_write_at [of "2 * i" out a] list_update_write_at [of "Suc (2 * i)" "write_at (2 * i) [a] out" b]
      write_at_append [of "2 * i" "[a]" "[b]" out]
    by simp
  moreover have "set_cell out (2 * int i) (word_of_int v) = Some (out[2 * i := word_of_int v])"
    using assms set_cell_nth [of "2 * i" out] by simp
  moreover have "set_cell (out[2 * i := a]) (2 * int i + 1) b = Some ((out[2 * i := a])[Suc (2 * i) := b])" for a b :: byte
    using assms set_cell_Suc [of "2 * i" "out[2 * i := a]"] by simp
  ultimately show ?thesis
    by (simp add: put16_def le16_def)
qed

lemma deinterlaced:
  assumes "\<And>i. i < length lrs \<Longrightarrow> i < length as \<and> i < length bs \<and> (as ! i, bs ! i) = mixed shift weight (lrs ! i)"
    "list_all (\<lambda>(l, r). residual_ok 16 l \<and> residual_ok 16 r) lrs" "weight_ok shift weight"
    "4 * length lrs \<le> length out"
  shows "deinterlace_16 as bs out 2 (int (length lrs)) shift weight
    = Some (pcm16 lrs @ drop (4 * length lrs) out)"
proof -
  define P where "P = (\<lambda>i out'. out' = write_at 0 (pcm16 (take (nat i) lrs)) out)"
  define f where "f = (\<lambda>i out. do {
        a \<leftarrow> cell as i;
        b \<leftarrow> cell bs i;
        (left, right) \<leftarrow> (if weight \<noteq> 0 then do {
            r \<leftarrow> weighted shift weight a b;
            Some (i16 (i32 (i16 r + b)), i16 r)
          } else Some (i16 a, i16 b));
        out \<leftarrow> put16 out (i * 2) left;
        put16 out (i * 2 + 1) right
      })"
  have "\<exists>out'. for_range 0 (int (length lrs)) f out = Some out' \<and> P (int (length lrs)) out'"
  proof (rule for_range_invariant)
    show "P 0 out" by (simp add: P_def pcm16_def)
    fix j out'
    assume j: "0 \<le> j" "j < int (length lrs)" and P: "P j out'"
    define i where "i = nat j"
    have i: "j = int i" "i < length lrs" using j by (simp_all add: i_def)
    obtain l r where lr: "lrs ! i = (l, r)" by (cases "lrs ! i")
    have ok: "residual_ok 16 l" "residual_ok 16 r" using assms(2) i(2) lr by (auto simp: list_all_length)
    have ab: "cell as j = Some (as ! i)" "cell bs j = Some (bs ! i)" "(as ! i, bs ! i) = mixed shift weight (l, r)"
      using assms(1)[OF i(2)] lr i(1) by simp_all
    have "(if weight \<noteq> 0 then do {
            r \<leftarrow> weighted shift weight (as ! i) (bs ! i);
            Some (i16 (i32 (i16 r + bs ! i)), i16 r)
          } else Some (i16 (as ! i), i16 (bs ! i))) = Some (l, r)"
      using unmixed [OF ok assms(3) _ ab(3)] ab(3) ok by (auto simp: mixed_def i16_id)
    moreover have len: "length out' = length out" using P assms(4) i by (simp add: P_def)
    then have "put16 out' (j * 2) l = Some (write_at (4 * i) (le16 l) out')"
      using put16_eq [of "2 * i" out' l] assms(4) i by (simp add: ac_simps)
    moreover have "put16 (write_at (4 * i) (le16 l) out') (j * 2 + 1) r = Some (write_at (4 * i) (le16 l @ le16 r) out')"
      using put16_eq [of "2 * i + 1" "write_at (4 * i) (le16 l) out'" r] len assms(4) i
      by (simp add: ac_simps le16_def write_at_append)
    ultimately have "f j out' = Some (write_at (4 * i) (le16 l @ le16 r) out')"
      by (simp add: f_def ab)
    moreover have "write_at (4 * i) (le16 l @ le16 r) out' = write_at 0 (pcm16 (take (Suc i) lrs)) out"
    proof -
      have "pcm16 (take (Suc i) lrs) = pcm16 (take i lrs) @ le16 l @ le16 r"
        using i(2) lr by (simp add: take_Suc_conv_app_nth pcm16_def)
      then show ?thesis using P i assms(4) by (simp add: P_def write_at_append le16_def)
    qed
    ultimately show "\<exists>out''. f j out' = Some out'' \<and> P (j + 1) out''"
      using i by (simp add: P_def nat_add_distrib)
  qed simp
  then have "for_range 0 (int (length lrs)) f out = Some (pcm16 lrs @ drop (4 * length lrs) out)"
    by (simp add: P_def write_at_def)
  then show ?thesis
    by (cases lrs) (simp_all add: deinterlace_16_def f_def pcm16_def)
qed


section \<open>Frames\<close>

definition twos16 :: "int \<Rightarrow> bool list" where
  "twos16 c = nbits 16 (nat (c mod 65536))"

definition channel_bits :: "alac_channel \<Rightarrow> bool list" where
  "channel_bits ch = nbits 4 (nat (prediction_type ch)) @ nbits 4 (nat (prediction_quantitization ch))
     @ nbits 3 (nat (ricemodifier ch)) @ nbits 5 (length (predictor_coef_table ch))
     @ concat (map twos16 (predictor_coef_table ch))"

definition frame_header_bits :: "bool \<Rightarrow> nat \<Rightarrow> bool \<Rightarrow> bool list" where
  "frame_header_bits hassize n raw = nbits 4 0 @ nbits 12 0 @ nbits 1 (of_bool hassize) @ nbits 2 0
     @ nbits 1 (of_bool raw) @ (if hassize then nbits 32 n else [])"

definition rice_mult :: "alac_file \<Rightarrow> alac_channel \<Rightarrow> int" where
  "rice_mult al ch = ricemodifier ch * uint (rice_historymult al) div 4"

definition channel_data :: "alac_file \<Rightarrow> alac_channel \<Rightarrow> int list \<Rightarrow> bool list" where
  \<comment> \<open>the coded residuals of one channel, of 17 bits\<close>
  "channel_data al ch samples =
     rice_bits 17 (uint (rice_kmodifier al)) (rice_mult al ch) (2 ^ unat (rice_kmodifier al) - 1)
       (uint (rice_initialhistory al)) 0
       (residuals 17 (prediction_quantitization ch) (predictor_coef_table ch) samples)"

definition stereo_frame ::
  "alac_file \<Rightarrow> bool \<Rightarrow> byte \<Rightarrow> byte \<Rightarrow> alac_channel \<Rightarrow> alac_channel \<Rightarrow> (int \<times> int) list \<Rightarrow> bool list" where
  "stereo_frame al hassize shift weight ch_a ch_b lrs =
     nbits 3 1 @ frame_header_bits hassize (length lrs) False
     @ nbits 8 (unat shift) @ nbits 8 (unat weight) @ channel_bits ch_a @ channel_bits ch_b
     @ channel_data al ch_a (map (fst \<circ> mixed shift weight) lrs)
     @ channel_data al ch_b (map (snd \<circ> mixed shift weight) lrs)"

definition channel_ok :: "alac_file \<Rightarrow> alac_channel \<Rightarrow> bool" where
  "channel_ok al ch \<longleftrightarrow> prediction_type ch = 0
     \<and> 1 \<le> prediction_quantitization ch \<and> prediction_quantitization ch \<le> 15
     \<and> 0 \<le> ricemodifier ch \<and> ricemodifier ch \<le> 7 \<and> 0 < rice_mult al ch \<and> rice_mult al ch < 64
     \<and> length (predictor_coef_table ch) \<le> 31
     \<and> list_all (residual_ok 16) (predictor_coef_table ch)"

definition stereo16 :: "nat \<Rightarrow> alac_file \<Rightarrow> bool" where
  \<comment> \<open>a decoder for 16-bit stereo whose buffers hold \<open>cap\<close> samples\<close>
  "stereo16 cap al \<longleftrightarrow> setinfo_sample_size al = 16 \<and> numchannels al = 2 \<and> bytespersample al = 4
     \<and> rice_initialhistory al \<noteq> 0 \<and> 0 < unat (rice_kmodifier al) \<and> unat (rice_kmodifier al) \<le> 30
     \<and> length (predicterror_a al) = cap \<and> length (predicterror_b al) = cap
     \<and> length (outputsamples_a al) = cap \<and> length (outputsamples_b al) = cap \<and> 32 \<le> cap"

lemma parses_bind_nbits:
  assumes "0 < n" "n \<le> 32" "v < 2 ^ n" "k = int n" "parses (g (of_nat v)) cs w"
  shows "parses (\<lambda>al. readbits al k \<bind> (\<lambda>(x, al). g x al)) (nbits n v @ cs) w"
  unfolding assms(4) using parses_readbits [OF assms(2,3,1)] assms(5) by (rule parses_bind)

lemma sint_twos16:
  assumes "residual_ok 16 c"
  shows "sint (ucast (of_nat (nat (c mod 65536)) :: u32) :: u16) = c"
proof -
  have "ucast (word_of_int k :: u32) = (word_of_int k :: u16)" for k
    by (rule bit_word_eqI) (auto simp: bit_simps)
  then have "sint (ucast (of_nat (nat (c mod 65536)) :: u32) :: u16) = signed_take_bit 15 (c mod 65536)"
    by (simp add: signed_of_int)
  moreover have "c mod 65536 = take_bit 16 c" by (simp add: take_bit_eq_mod)
  then have "signed_take_bit 15 (c mod 65536) = c"
    using assms by (simp add: signed_take_bit_take_bit residual_ok_def signed_take_bit_int_eq_self)
  ultimately show ?thesis by simp
qed

lemma parses_coef: "residual_ok 16 c \<Longrightarrow> parses read_coef (twos16 c) c"
  unfolding read_coef_def twos16_def
  using parses_readbits [of 16 "nat (c mod 65536)"] sint_twos16 [of c]
  by (intro parses_map [where v = "of_nat (nat (c mod 65536))"]) (simp_all add: nat_less_iff)

lemma parses_coefs:
  "list_all (residual_ok 16) cs \<Longrightarrow> parses (read_list (length cs) read_coef) (concat (map twos16 cs)) cs"
  by (rule parses_list) (simp add: list_all2_conv_all_nth list_all_length parses_coef)

lemma sint_of_int_small: "0 \<le> v \<Longrightarrow> v < 256 \<Longrightarrow> sint (word_of_int v :: u32) = v"
  by (simp add: signed_of_int signed_take_bit_int_eq_self)

lemma parses_channel_header:
  assumes "channel_ok al0 ch"
  shows "parses channel_header (channel_bits ch) ch"
proof -
  note ok = assms[unfolded channel_ok_def]
  have n: "unat (of_nat (length (predictor_coef_table ch)) :: u32) = length (predictor_coef_table ch)"
    using ok by (simp add: unsigned_of_nat take_bit_nat_eq_self)
  have "parses (\<lambda>al. read_list (length (predictor_coef_table ch)) read_coef al \<bind> (\<lambda>(coefs, al).
      Some (\<lparr>prediction_type = 0, prediction_quantitization = prediction_quantitization ch,
             ricemodifier = ricemodifier ch, predictor_coef_table = coefs\<rparr>, al)))
      (concat (map twos16 (predictor_coef_table ch))) ch"
    using ok by (intro parses_map [where v = "predictor_coef_table ch"] parses_coefs) auto
  then show ?thesis
    unfolding channel_header_def channel_bits_def
    using ok by (intro parses_bind_nbits) (simp_all add: sint_of_int_small nat_less_iff n)
qed

lemma parses_frame_header:
  assumes "n < 2 ^ 31"
  shows "parses (frame_header outputsamples) (frame_header_bits hassize n raw)
    (0, raw, if hassize then int n else outputsamples)"
proof -
  have "parses (\<lambda>al. if hassize then readbits al 32 \<bind> (\<lambda>(n, al). Some ((0, raw, sint n), al))
         else Some ((0, raw, outputsamples), al)) (if hassize then nbits 32 n else [])
      (0, raw, if hassize then int n else outputsamples)"
    using assms parses_readbits [of 32 n]
    by (auto intro!: parses_map [where v = "of_nat n"] parses_return simp: sint_small)
  then show ?thesis
    unfolding frame_header_def frame_header_bits_def
    by (intro parses_bind_nbits) (simp_all cong: if_cong)
qed


lemma sdiv_nonneg: "0 \<le> (a::int) \<Longrightarrow> a sdiv 4 = a div 4"
  by (cases "a = 0") (simp_all add: signed_divide_int_def)

lemma channel_decodes:
  assumes "channel_ok al ch" "rice_initialhistory al \<noteq> 0" "0 < unat (rice_kmodifier al)" "unat (rice_kmodifier al) \<le> 30"
    "samples \<noteq> []" "list_all (residual_ok 17) samples" "length samples < 65536"
    "length samples \<le> cap" "length errors = cap" "length out = cap" "32 \<le> cap"
    "ahead al (channel_data al ch samples)"
  shows "\<exists>es xs. decode_channel ch (int (length samples)) 17 errors out al
      = Some ((es, xs), seek al (length (channel_data al ch samples)))
      \<and> length es = cap \<and> length xs = cap \<and> take (length samples) xs = samples"
proof -
  note ok = assms(1)[unfolded channel_ok_def]
  define res where "res = residuals 17 (prediction_quantitization ch) (predictor_coef_table ch) samples"
  define j where "j = unat (rice_kmodifier al)"
  have j: "0 < j" "j \<le> 30" "uint (rice_kmodifier al) = int j" using assms(3,4) by (simp_all add: j_def)
  have mk: "i32 (2 ^ j - 1) = 2 ^ j - 1" "mask_ok (2 ^ j - 1)"
  proof -
    define P :: int where "P = 2 ^ j"
    have "P \<le> 2 ^ 30" unfolding P_def using j(2) by (intro power_increasing) simp_all
    moreover have "0 < P" by (simp add: P_def)
    ultimately show "i32 (2 ^ j - 1) = 2 ^ j - 1" by (simp flip: P_def)
    show "mask_ok (2 ^ j - 1)" using j(1) by (auto simp: mask_ok_def intro!: exI [of _ j])
  qed
  have mult: "(ricemodifier ch * uint (rice_historymult al)) sdiv 4 = rice_mult al ch"
    using ok by (simp add: rice_mult_def sdiv_nonneg)
  have h: "0 < uint (rice_initialhistory al)" "uint (rice_initialhistory al) < 256"
    using assms(2) uint_lt2p [of "rice_initialhistory al"] by (simp_all add: word_neq_0_conv word_less_def)
  have res: "list_all (residual_ok 17) res" "length res = length samples"
    unfolding res_def using residuals_ok [OF assms(6)] by simp_all
  have "entropy_rice_decode al errors (int (length res)) (int 17) (uint (rice_initialhistory al)) (int j)
      (rice_mult al ch) (2 ^ j - 1) = Some (res @ drop (length res) errors,
        seek al (length (rice_bits 17 (int j) (rice_mult al ch) (2 ^ j - 1) (uint (rice_initialhistory al)) 0 res)))"
  proof (rule rice_loop_entropy)
    show "rice_params 17 (int j) (rice_mult al ch) (2 ^ j - 1)" using j mk(2) ok by (simp add: rice_params_def)
    show "ahead al (rice_bits 17 (int j) (rice_mult al ch) (2 ^ j - 1) (uint (rice_initialhistory al)) 0 res)"
      using assms(12) by (simp add: channel_data_def res_def j(3) flip: j_def)
  qed (use assms(7-9) res h in simp_all)
  then have entropy: "entropy_rice_decode al errors (int (length samples)) 17 (uint (rice_initialhistory al)) (int j)
      (rice_mult al ch) (2 ^ j - 1) = Some (res @ drop (length samples) errors, seek al (length (channel_data al ch samples)))"
    using res(2) by (simp add: channel_data_def res_def j(3) flip: j_def)
  have "\<exists>xs. predictor_decompress_fir_adapt (res @ drop (length samples) errors) out (int (length samples)) (int 17)
      (predictor_coef_table ch) (prediction_quantitization ch) = Some xs
      \<and> length xs = length out \<and> take (length samples) xs = samples"
    using assms ok res by (intro samples_restored) (simp_all add: res_def)
  then show ?thesis
    using entropy j mk(1) ok assms(8-10) res(2) mult by (auto simp: decode_channel_def)
qed


lemma ahead_split:
  "ahead al (bs @ cs) \<Longrightarrow> ahead al bs \<and> ahead (seek al (length bs)) cs"
  using ahead_prefix ahead_seek by blast

lemma seek_update [simp]:
  "seek (al\<lparr>predicterror_a := x\<rparr>) n = (seek al n)\<lparr>predicterror_a := x\<rparr>"
  "seek (al\<lparr>outputsamples_a := x\<rparr>) n = (seek al n)\<lparr>outputsamples_a := x\<rparr>"
  "seek (al\<lparr>predicterror_b := x\<rparr>) n = (seek al n)\<lparr>predicterror_b := x\<rparr>"
  "seek (al\<lparr>outputsamples_b := x\<rparr>) n = (seek al n)\<lparr>outputsamples_b := x\<rparr>"
  by (simp_all add: seek_def position_def)

lemma ahead_update [simp]:
  "ahead (al\<lparr>predicterror_a := x\<rparr>) bs = ahead al bs"
  "ahead (al\<lparr>outputsamples_a := x\<rparr>) bs = ahead al bs"
  by (simp_all add: ahead_def at_bit_def unread_def position_def)

lemma ahead_start:
  assumes "stream_bits inbuffer = bs @ rest" "24 \<le> length rest"
  shows "ahead (al\<lparr>inbuf := inbuffer, inptr := 0, bitaccumulator := 0\<rparr>) bs"
  using assms by (auto simp: ahead_def at_bit_def unread_def position_def)

definition settings :: "alac_file \<Rightarrow> u32 \<times> byte \<times> byte \<times> byte" where
  "settings al = (max_samples_per_frame al, rice_historymult al, rice_initialhistory al, rice_kmodifier al)"

lemma mixed_samples:
  assumes "list_all (\<lambda>(l, r). residual_ok 16 l \<and> residual_ok 16 r) lrs" "weight_ok shift weight"
  shows "list_all (residual_ok 17) (map (fst \<circ> mixed shift weight) lrs)"
    "list_all (residual_ok 17) (map (snd \<circ> mixed shift weight) lrs)"
  using assms mixed_ok by (auto simp: list_all_iff split: prod.splits)

lemma take_map_nth: "take n xs = map f ys \<Longrightarrow> i < length ys \<Longrightarrow> n = length ys \<Longrightarrow> i < length xs \<and> xs ! i = f (ys ! i)"
  by (metis length_map length_take min_less_iff_conj nth_map nth_take)

lemma channel_data_cong:
  "settings al' = settings al \<Longrightarrow> channel_data al' ch = channel_data al ch \<and> channel_ok al' ch = channel_ok al ch"
  by (simp add: settings_def channel_data_def channel_ok_def rice_mult_def fun_eq_iff)

lemma settings_seek [simp]: "settings (seek al n) = settings al"
  by (simp add: settings_def)

lemma settings_update [simp]:
  "settings (al\<lparr>inbuf := b, inptr := i, bitaccumulator := k\<rparr>) = settings al"
  "settings (al\<lparr>predicterror_a := x\<rparr>) = settings al" "settings (al\<lparr>outputsamples_a := x\<rparr>) = settings al"
  "settings (al\<lparr>predicterror_b := x\<rparr>) = settings al" "settings (al\<lparr>outputsamples_b := x\<rparr>) = settings al"
  by (simp_all add: settings_def)

lemma stereo16_seek [simp]: "stereo16 cap (seek al n) = stereo16 cap al"
  by (simp add: stereo16_def)

lemma stereo16_channel_decodes:
  assumes "stereo16 cap al" "channel_ok al0 ch" "settings al = settings al0"
    "samples \<noteq> []" "list_all (residual_ok 17) samples" "length samples < 65536" "length samples \<le> cap"
    "length errors = cap" "length out = cap" "ahead al (channel_data al0 ch samples)"
  obtains es xs where "decode_channel ch (int (length samples)) 17 errors out al
      = Some ((es, xs), seek al (length (channel_data al0 ch samples)))"
    "length es = cap" "length xs = cap" "take (length samples) xs = samples"
  using channel_decodes [of al ch samples cap errors out] assms channel_data_cong [OF assms(3)]
  by (auto simp: stereo16_def)

lemma stereo_decodes:
  assumes "stereo16 cap al" "channel_ok al ch_a" "channel_ok al ch_b" "weight_ok shift weight"
    "lrs \<noteq> []" "list_all (\<lambda>(l, r). residual_ok 16 l \<and> residual_ok 16 r) lrs"
    "length lrs \<le> cap" "length lrs < 65536" "hassize \<or> max_samples_per_frame al = of_nat (length lrs)"
    "4 * length lrs \<le> length out"
    "stream_bits inbuffer = stereo_frame al hassize shift weight ch_a ch_b lrs @ rest" "24 \<le> length rest"
  shows "\<exists>al'. alac_decode_frame al inbuffer out
      = Some (al', pcm16 lrs @ drop (4 * length lrs) out, 4 * int (length lrs))
      \<and> stereo16 cap al' \<and> settings al' = settings al"
proof -
  note st = assms(1)[unfolded stereo16_def]
  define n as bs where "n = length lrs" and "as = map (fst \<circ> mixed shift weight) lrs"
    and "bs = map (snd \<circ> mixed shift weight) lrs"
  define al0 where "al0 = al\<lparr>inbuf := inbuffer, inptr := 0, bitaccumulator := 0\<rparr>"
  define B1 B2 B3 B4 B5 B6 B7 B8 where B: "B1 = nbits 3 1" "B2 = frame_header_bits hassize n False"
    "B3 = nbits 8 (unat shift)" "B4 = nbits 8 (unat weight)" "B5 = channel_bits ch_a" "B6 = channel_bits ch_b"
    "B7 = channel_data al ch_a as" "B8 = channel_data al ch_b bs"
  define p2 p3 p4 p5 p6 p7 p8 where p: "p2 = seek al0 (length B1)" "p3 = seek p2 (length B2)"
    "p4 = seek p3 (length B3)" "p5 = seek p4 (length B4)" "p6 = seek p5 (length B5)" "p7 = seek p6 (length B6)"
    "p8 = seek p7 (length B7)"
  have "ahead al0 (B1 @ B2 @ B3 @ B4 @ B5 @ B6 @ B7 @ B8)"
    using ahead_start [OF assms(11,12), of al] by (simp add: stereo_frame_def al0_def B n_def as_def bs_def)
  then have ah: "ahead al0 B1" "ahead p2 B2" "ahead p3 B3" "ahead p4 B4" "ahead p5 B5" "ahead p6 B6" "ahead p7 B7" "ahead p8 B8"
    unfolding p by (blast dest: ahead_split)+
  have N: "(if hassize then int n else sint (max_samples_per_frame al)) = int n"
    using assms(8,9) by (auto simp: n_def sint_small)
  have r1: "readbits al0 3 = Some (1, p2)"
    using parsesD [OF parses_readbits_numeral ah(1)[unfolded B]] by (simp add: p B)
  have r2: "frame_header (sint (max_samples_per_frame al)) p2 = Some ((0, False, int n), p3)"
    using parsesD [OF parses_frame_header ah(2)[unfolded B]] assms(8) N by (simp add: p B n_def)
  have r3: "readbits p3 8 = Some (of_nat (unat shift), p4)"
    using parsesD [OF parses_readbits_numeral ah(3)[unfolded B]] unsigned_less [of shift, where 'a = nat] by (simp add: p B)
  have r4: "readbits p4 8 = Some (of_nat (unat weight), p5)"
    using parsesD [OF parses_readbits_numeral ah(4)[unfolded B]] unsigned_less [of weight, where 'a = nat] by (simp add: p B)
  have r5: "channel_header p5 = Some (ch_a, p6)"
    using parsesD [OF parses_channel_header [OF assms(2)] ah(5)[unfolded B]] by (simp add: p B)
  have r6: "channel_header p6 = Some (ch_b, p7)"
    using parsesD [OF parses_channel_header [OF assms(3)] ah(6)[unfolded B]] by (simp add: p B)
  have len: "length as = n" "length bs = n" "as \<noteq> []" "bs \<noteq> []" "n < 65536" "n \<le> cap"
    "list_all (residual_ok 17) as" "list_all (residual_ok 17) bs"
    using assms(5,7,8) mixed_samples [OF assms(6,4)] by (simp_all add: as_def bs_def n_def)
  have al0: "stereo16 cap al0" "settings al0 = settings al"
    using assms(1) by (simp_all add: al0_def stereo16_def)
  have s7: "stereo16 cap p7" "settings p7 = settings al" using al0 by (simp_all add: p)
  obtain es xs where r7: "decode_channel ch_a (int n) 17 (predicterror_a p7) (outputsamples_a p7) p7 = Some ((es, xs), p8)"
    "length es = cap" "length xs = cap" "take n xs = as"
  proof (rule stereo16_channel_decodes [OF s7(1) assms(2) s7(2) len(3,7)])
    show "ahead p7 (channel_data al ch_a as)" using ah(7) by (simp add: B)
    show "length (predicterror_a p7) = cap" "length (outputsamples_a p7) = cap"
      using s7(1) by (simp_all add: stereo16_def)
  qed (simp_all add: len p(7) B(7))
  define q where "q = p8\<lparr>predicterror_a := es, outputsamples_a := xs\<rparr>"
  have sq: "stereo16 cap q" "settings q = settings al"
    using s7 r7(2,3) by (simp_all add: q_def p(7) stereo16_def)
  obtain fs ys where r8: "decode_channel ch_b (int n) 17 (predicterror_b q) (outputsamples_b q) q = Some ((fs, ys), seek q (length B8))"
    "length fs = cap" "length ys = cap" "take n ys = bs"
  proof (rule stereo16_channel_decodes [OF sq(1) assms(3) sq(2) len(4,8)])
    show "ahead q (channel_data al ch_b bs)" using ah(8) by (simp add: B q_def)
    show "length (predicterror_b q) = cap" "length (outputsamples_b q) = cap"
      using sq(1) by (simp_all add: stereo16_def)
  qed (simp_all add: len B(8))
  define al' where "al' = (seek q (length B8))\<lparr>predicterror_b := fs, outputsamples_b := ys\<rparr>"
  have fields: "setinfo_sample_size al' = 16" "numchannels al' = 2" "bytespersample p3 = 4" "setinfo_sample_size p3 = 16"
    "outputsamples_a al' = xs" "outputsamples_b al' = ys"
    using st by (simp_all add: al'_def q_def p al0_def)
  have "i < length xs \<and> i < length ys \<and> (xs ! i, ys ! i) = mixed shift weight (lrs ! i)" if "i < length lrs" for i
    using take_map_nth [OF r7(4)[unfolded as_def] that] take_map_nth [OF r8(4)[unfolded bs_def] that] by (simp add: n_def)
  then have out: "deinterlace_16 xs ys out 2 (int n) shift weight = Some (pcm16 lrs @ drop (4 * n) out)"
    unfolding n_def using assms by (intro deinterlaced) auto
  have q: "predicterror_b q = predicterror_b p8" "outputsamples_b q = outputsamples_b p8" by (simp_all add: q_def)
  have byte: "ucast (ucast x :: u32) = x" for x :: byte by (rule bit_word_eqI) (auto simp: bit_simps)
  have "alac_decode_frame al inbuffer out = Some (al', pcm16 lrs @ drop (4 * n) out, 4 * int n)"
    using r1 r2 r3 r4 r5 r6 r7(1) r8(1)[unfolded q] out fields assms(8)
    by (simp add: byte alac_decode_frame_def decode_stereo_def al0_def [symmetric] q_def [symmetric] al'_def [symmetric] n_def)
  moreover have "stereo16 cap al'" "settings al' = settings al"
    using sq r8(2,3) by (simp_all add: stereo16_def al'_def)
  ultimately show ?thesis by (auto simp: n_def)
qed


section \<open>Frames that are not compressed\<close>

definition raw_frame :: "bool \<Rightarrow> (int \<times> int) list \<Rightarrow> bool list" where
  "raw_frame hassize lrs =
     nbits 3 1 @ frame_header_bits hassize (length lrs) True @ concat (map (\<lambda>(l, r). twos16 l @ twos16 r) lrs)"

lemma length_twos16 [simp]: "length (twos16 c) = 16"
  by (simp add: twos16_def)

lemma raw_sample_16:
  assumes "residual_ok 16 c" "setinfo_sample_size al = 16" "ahead al (twos16 c)"
  shows "raw_sample al = Some (c, seek al 16)"
proof -
  define v where "v = nat (c mod 65536)"
  have v: "v < 2 ^ 16" "int v = c mod 65536" by (simp_all add: v_def nat_less_iff)
  have "readbits al 16 = Some (of_nat v, seek al 16)"
    using parsesD [OF parses_readbits [of 16 v] assms(3)[unfolded twos16_def v_def [symmetric]]] v(1) by simp
  moreover have "sint (of_nat v :: u32) = c mod 65536" using sint_small [of v] v by simp
  moreover have "sign_extended32 (c mod 65536) (int 16) = Some (signed_take_bit 15 (take_bit 16 c))"
    by (subst sign_extended32_eq) (simp_all add: take_bit_eq_mod)
  then have "sign_extended32 (c mod 65536) 16 = Some c"
    using assms(1) by (simp add: signed_take_bit_take_bit residual_ok_def signed_take_bit_int_eq_self)
  ultimately show ?thesis by (simp add: raw_sample_def assms(2))
qed

definition raw_step :: "int \<Rightarrow> alac_file \<Rightarrow> alac_file option" where
  "raw_step i al = do {
     (v, al) \<leftarrow> raw_sample al;
     (w, al) \<leftarrow> raw_sample al;
     xs \<leftarrow> set_cell (outputsamples_a al) i v;
     ys \<leftarrow> set_cell (outputsamples_b al) i w;
     Some (al\<lparr>outputsamples_a := xs, outputsamples_b := ys\<rparr>)
   }"

lemma ahead_update_b [simp]: "ahead (al\<lparr>outputsamples_b := x\<rparr>) bs = ahead al bs"
  by (simp add: ahead_def at_bit_def unread_def position_def)

lemma raw_loop:
  "list_all (\<lambda>(l, r). residual_ok 16 l \<and> residual_ok 16 r) lrs \<Longrightarrow>
    ahead al (concat (map (\<lambda>(l, r). twos16 l @ twos16 r) lrs)) \<Longrightarrow> i + length lrs \<le> cap \<Longrightarrow> stereo16 cap al \<Longrightarrow>
    \<exists>xs ys. for_loop (length lrs) raw_step (int i) al
        = Some ((seek al (32 * length lrs))\<lparr>outputsamples_a := xs, outputsamples_b := ys\<rparr>)
      \<and> length xs = cap \<and> length ys = cap \<and> take i xs = take i (outputsamples_a al) \<and> take i ys = take i (outputsamples_b al)
      \<and> take (length lrs) (drop i xs) = map fst lrs \<and> take (length lrs) (drop i ys) = map snd lrs"
proof (induction lrs arbitrary: al i)
  case Nil
  then have "at_bit al" by (simp add: ahead_def)
  then show ?case using Nil
    by - (rule exI [of _ "outputsamples_a al"], rule exI [of _ "outputsamples_b al"], simp add: stereo16_def)
next
  case (Cons lr lrs)
  obtain l r where lr: "lr = (l, r)" by (cases lr)
  define rest where "rest = concat (map (\<lambda>(l, r). twos16 l @ twos16 r) lrs)"
  have ok: "residual_ok 16 l" "residual_ok 16 r" using Cons.prems(1) lr by simp_all
  have "ahead al (twos16 l @ twos16 r @ rest)" using Cons.prems(2) lr by (simp add: rest_def)
  then have ah: "ahead al (twos16 l)" "ahead (seek al 16) (twos16 r)" "ahead (seek al 32) rest"
    using ahead_split [of al "twos16 l" "twos16 r @ rest"] ahead_split [of "seek al 16" "twos16 r" rest] by simp_all
  note st = Cons.prems(4)[unfolded stereo16_def]
  define xs0 ys0 where "xs0 = (outputsamples_a al)[i := l]" and "ys0 = (outputsamples_b al)[i := r]"
  define al1 where "al1 = (seek al 32)\<lparr>outputsamples_a := xs0, outputsamples_b := ys0\<rparr>"
  have step: "raw_step (int i) al = Some al1"
    using raw_sample_16 [OF ok(1) _ ah(1)] raw_sample_16 [OF ok(2) _ ah(2)] st Cons.prems(3)
    by (simp add: raw_step_def al1_def xs0_def ys0_def)
  have st1: "stereo16 cap al1" using st by (simp add: stereo16_def al1_def xs0_def ys0_def)
  obtain xs ys where IH: "for_loop (length lrs) raw_step (int (Suc i)) al1
        = Some ((seek al1 (32 * length lrs))\<lparr>outputsamples_a := xs, outputsamples_b := ys\<rparr>)"
    "length xs = cap" "length ys = cap" "take (Suc i) xs = take (Suc i) xs0" "take (Suc i) ys = take (Suc i) ys0"
    "take (length lrs) (drop (Suc i) xs) = map fst lrs" "take (length lrs) (drop (Suc i) ys) = map snd lrs"
    using Cons.IH [of al1 "Suc i"] Cons.prems(1,3) ah(3) st1 by (auto simp: al1_def rest_def)
  have at: "xs ! i = l" "ys ! i = r" "i < cap"
    using nth_of_take [OF IH(4), of i] nth_of_take [OF IH(5), of i] st Cons.prems(3) by (simp_all add: xs0_def ys0_def)
  have pre: "take i xs = take i (outputsamples_a al)" "take i ys = take i (outputsamples_b al)"
    using arg_cong [OF IH(4), of "take i"] arg_cong [OF IH(5), of "take i"] by (simp_all add: xs0_def ys0_def)
  have "take (Suc (length lrs)) (drop i xs) = l # map fst lrs" "take (Suc (length lrs)) (drop i ys) = r # map snd lrs"
    using IH(2,3,6,7) at by (simp_all add: Cons_nth_drop_Suc [symmetric])
  then show ?case
    using step IH(1-3) pre lr
    by - (rule exI [of _ xs], rule exI [of _ ys], simp add: al1_def ac_simps)
qed


section \<open>Concrete frames\<close>

definition demo_alac :: alac_file where
  "demo_alac = the (alac_set_info (\<lambda>j i. 0) (alac_create_file 16 2)
     (replicate 24 0 @ [0, 0, 0, 32, 0, 16, 40, 10, 14, 2, 0, 255] @ replicate 8 0 @ [0, 0, 172, 68]))"

definition demo_channel :: alac_channel where
  "demo_channel = \<lparr>prediction_type = 0, prediction_quantitization = 4, ricemodifier = 4, predictor_coef_table = [8, -3]\<rparr>"

definition demo_samples :: "(int \<times> int) list" where
  "demo_samples = [(0, 0), (0, 0), (0, 0), (7, 7), (1000, -300), (-32768, 32767)]"

lemma nbits_numeral:
  "nbits (numeral k) v = odd (v div 2 ^ pred_numeral k) # nbits (pred_numeral k) v"
  "nbits (Suc 0) v = [odd v]"
  by (simp_all add: numeral_eq_Suc bit_iff_odd)

lemma leading_zeros_numeral:
  "leading_zeros (numeral k) x = (if odd (x div 2 ^ pred_numeral k) then 0 else 1 + leading_zeros (pred_numeral k) x)"
  "leading_zeros (Suc 0) x = (if odd x then 0 else 1)"
  by (simp_all add: numeral_eq_Suc bit_iff_odd)

lemmas code_eval = rice_bits.simps value_bits_def modulus_def sample_k_def width_def leading_zeros_numeral
  next_history_def zigzag_def run_k_def nbits_numeral

definition demo_frame :: "byte list" where
  "demo_frame = [32, 0, 16, 0, 0, 0, 12, 4, 2, 9, 4, 0, 17, 255, 250, 9, 4, 0, 17, 255, 250, 31, 252, 0, 27, 255,
     0, 21, 127, 207, 252, 130, 127, 193, 68, 255, 255, 215, 112, 0, 0, 0]"

definition demo_raw :: "byte list" where
  "demo_raw = [32, 0, 18, 0, 0, 0, 12, 0, 0, 0, 0, 0, 0, 0, 0, 0, 0, 0, 0, 0, 14, 0, 14, 7, 209, 253, 169, 0, 0,
     255, 254, 0, 0, 0]"

lemma demo_ok: "stereo16 32 demo_alac" "channel_ok demo_alac demo_channel"
  "list_all (\<lambda>(l, r). residual_ok 16 l \<and> residual_ok 16 r) demo_samples" "weight_ok 2 1"
  by code_simp+

lemma demo_rice: "rice_bits 17 (uint (rice_kmodifier demo_alac)) (rice_mult demo_alac demo_channel)
    (2 ^ unat (rice_kmodifier demo_alac) - 1) (uint (rice_initialhistory demo_alac)) 0 es
  = rice_bits 17 14 40 16383 10 0 es"
proof -
  have "rice_kmodifier demo_alac = 14" "rice_initialhistory demo_alac = 10" "rice_mult demo_alac demo_channel = 40"
    by code_simp+
  then show ?thesis by simp
qed

lemma demo_residuals:
  "residuals 17 (prediction_quantitization demo_channel) (predictor_coef_table demo_channel)
     (map (fst \<circ> mixed 2 1) demo_samples) = [0, 0, 0, 7, 21, 16370]"
  "residuals 17 (prediction_quantitization demo_channel) (predictor_coef_table demo_channel)
     (map (snd \<circ> mixed 2 1) demo_samples) = [0, 0, 0, 0, 1300, 64887]"
  by code_simp+

lemma replicate_more: "replicate (numeral k) x = x # replicate (pred_numeral k) x"
  by (simp add: numeral_eq_Suc)

lemmas bits_eval = channel_bits_def demo_channel_def twos16_def nbits_numeral frame_header_bits_def replicate_more
  byte_bits_def stream_bits_def upt_rec bit_0

lemma demo_frame_bits:
  "stream_bits demo_frame = stereo_frame demo_alac True 2 1 demo_channel demo_channel demo_samples @ replicate 27 False"
  unfolding stereo_frame_def channel_data_def demo_rice demo_residuals
  by (simp add: code_eval bits_eval demo_frame_def demo_samples_def Let_def)

lemma demo_raw_stream: "stream_bits demo_raw = raw_frame True demo_samples @ replicate 25 False"
  unfolding raw_frame_def by (simp add: bits_eval demo_raw_def demo_samples_def)

section \<open>Properties\<close>

text \<open>
  C9. Decoding is lossless: for every frame a stereo encoder writes from 16-bit samples (any weight between the
  channels, any predictor and any adaptation of it, runs of zeros and escapes in the entropy code),
  \<open>alac_decode_frame\<close> returns exactly those samples as little-endian PCM and their size, touches nothing behind
  them, and leaves the decoder ready for the next frame with its settings unchanged.
\<close>
theorem stereo_frame_lossless:
  assumes "stereo16 cap al" "channel_ok al ch_a" "channel_ok al ch_b" "weight_ok shift weight"
    "lrs \<noteq> []" "list_all (\<lambda>(l, r). residual_ok 16 l \<and> residual_ok 16 r) lrs"
    "length lrs \<le> cap" "length lrs < 65536" "hassize \<or> max_samples_per_frame al = of_nat (length lrs)"
    "4 * length lrs \<le> length out"
    "stream_bits inbuffer = stereo_frame al hassize shift weight ch_a ch_b lrs @ rest" "24 \<le> length rest"
  shows "\<exists>al'. alac_decode_frame al inbuffer out
      = Some (al', pcm16 lrs @ drop (4 * length lrs) out, 4 * int (length lrs))
      \<and> stereo16 cap al' \<and> settings al' = settings al"
  using assms by (rule stereo_decodes)

text \<open>
  C26. Frames sent without compression come out unchanged as well: the samples of a raw 16-bit stereo frame are
  returned as they were sent, for every number of samples the buffers hold.
\<close>
theorem raw_frame_unchanged:
  assumes "stereo16 cap al" "lrs \<noteq> []" "list_all (\<lambda>(l, r). residual_ok 16 l \<and> residual_ok 16 r) lrs"
    "length lrs \<le> cap" "length lrs < 65536" "hassize \<or> max_samples_per_frame al = of_nat (length lrs)"
    "4 * length lrs \<le> length out"
    "stream_bits inbuffer = raw_frame hassize lrs @ rest" "24 \<le> length rest"
  shows "\<exists>al'. alac_decode_frame al inbuffer out
      = Some (al', pcm16 lrs @ drop (4 * length lrs) out, 4 * int (length lrs))
      \<and> stereo16 cap al' \<and> settings al' = settings al"
proof -
  note st = assms(1)[unfolded stereo16_def]
  define n where "n = length lrs"
  define al0 where "al0 = al\<lparr>inbuf := inbuffer, inptr := 0, bitaccumulator := 0\<rparr>"
  define B1 B2 B3 where B: "B1 = nbits 3 1" "B2 = frame_header_bits hassize n True"
    "B3 = concat (map (\<lambda>(l, r). twos16 l @ twos16 r) lrs)"
  define p2 p3 where p: "p2 = seek al0 (length B1)" "p3 = seek p2 (length B2)"
  have "ahead al0 (B1 @ B2 @ B3)"
    using ahead_start [OF assms(8,9), of al] by (simp add: raw_frame_def al0_def B n_def)
  then have ah: "ahead al0 B1" "ahead p2 B2" "ahead p3 B3"
    unfolding p by (blast dest: ahead_split)+
  have N: "(if hassize then int n else sint (max_samples_per_frame al)) = int n"
    using assms(5,6) by (auto simp: n_def sint_small)
  have r1: "readbits al0 3 = Some (1, p2)"
    using parsesD [OF parses_readbits_numeral ah(1)[unfolded B]] by (simp add: p B)
  have r2: "frame_header (sint (max_samples_per_frame al)) p2 = Some ((0, True, int n), p3)"
    using parsesD [OF parses_frame_header ah(2)[unfolded B]] assms(5) N by (simp add: p B n_def)
  have al0: "stereo16 cap al0" "settings al0 = settings al" using assms(1) by (simp_all add: al0_def stereo16_def)
  then have s3: "stereo16 cap p3" by (simp add: p)
  obtain xs ys where loop: "for_loop n raw_step 0 p3
      = Some ((seek p3 (32 * n))\<lparr>outputsamples_a := xs, outputsamples_b := ys\<rparr>)"
    "length xs = cap" "length ys = cap" "take n xs = map fst lrs" "take n ys = map snd lrs"
    using raw_loop [OF assms(3) ah(3)[unfolded B] _ s3, of 0] assms(4) by (auto simp: n_def)
  define al' where "al' = (seek p3 (32 * n))\<lparr>outputsamples_a := xs, outputsamples_b := ys\<rparr>"
  have raw: "for_range 0 (int n) raw_step p3 = Some al'" using loop(1) by (simp add: for_range_def al'_def)
  have fields: "setinfo_sample_size al' = 16" "numchannels al' = 2" "bytespersample p3 = 4" "setinfo_sample_size p3 = 16"
    "outputsamples_a al' = xs" "outputsamples_b al' = ys"
    using s3 by (simp_all add: al'_def stereo16_def)
  have "i < length xs \<and> i < length ys \<and> (xs ! i, ys ! i) = mixed 0 0 (lrs ! i)" if "i < length lrs" for i
    using take_map_nth [OF loop(4) that] take_map_nth [OF loop(5) that]
    by (cases "lrs ! i") (simp add: n_def mixed_def)
  then have out: "deinterlace_16 xs ys out 2 (int n) 0 0 = Some (pcm16 lrs @ drop (4 * n) out)"
    unfolding n_def using assms by (intro deinterlaced) (auto simp: weight_ok_def)
  have "alac_decode_frame al inbuffer out = Some (al', pcm16 lrs @ drop (4 * n) out, 4 * int n)"
    using r1 r2 raw out fields assms(5)
    by (simp add: alac_decode_frame_def decode_stereo_def raw_step_def [abs_def, symmetric] al0_def [symmetric] n_def)
  moreover have "stereo16 cap al'" "settings al' = settings al"
    using s3 loop(2,3) al0(2) by (simp_all add: stereo16_def al'_def p)
  ultimately show ?thesis by (auto simp: n_def)
qed

theorem stereo_frame_lossless_witness:
  "\<exists>al'. alac_decode_frame demo_alac demo_frame (replicate 26 9)
      = Some (al', pcm16 demo_samples @ [9, 9], 24) \<and> stereo16 32 al' \<and> settings al' = settings demo_alac"
  using stereo_frame_lossless [OF demo_ok(1,2,2,4) _ demo_ok(3) _ _ _ _ demo_frame_bits, of "replicate 26 9"]
  by (simp add: demo_samples_def replicate_more)

theorem raw_frame_unchanged_witness:
  "\<exists>al'. alac_decode_frame demo_alac demo_raw (replicate 26 9)
      = Some (al', pcm16 demo_samples @ [9, 9], 24) \<and> stereo16 32 al' \<and> settings al' = settings demo_alac"
  using raw_frame_unchanged [OF demo_ok(1) _ demo_ok(3) _ _ _ _ demo_raw_stream, of "replicate 26 9"]
  by (simp add: demo_samples_def replicate_more)

end
