(* ===== verification/Alac_Bounds.thy ===== *)
theory Alac_Bounds
  imports Alac_Lossless
begin

text \<open>
  What the audio decoder does with a frame no encoder writes: \<open>alac_decode_frame\<close> takes the number of samples
  from the stream and never compares it with the size of its buffers. Every run over a frame that claims more
  samples than the buffers hold is shown to end in an access out of bounds.
\<close>

section \<open>Readers leave the buffers alone\<close>

definition bufs :: "alac_file \<Rightarrow> int list \<times> int list" where
  "bufs al = (predicterror_a al, outputsamples_a al)"

definition keeps_bufs :: "(alac_file \<Rightarrow> ('a \<times> alac_file) option) \<Rightarrow> bool" where
  "keeps_bufs f \<longleftrightarrow> (\<forall>al v al'. f al = Some (v, al') \<longrightarrow> bufs al' = bufs al)"

lemma keeps_bufsD: "keeps_bufs f \<Longrightarrow> f al = Some (v, al') \<Longrightarrow> bufs al' = bufs al"
  unfolding keeps_bufs_def by blast

lemma keeps_bufs_bind:
  assumes "keeps_bufs f" "\<And>x. keeps_bufs (g x)"
  shows "keeps_bufs (\<lambda>al. f al \<bind> (\<lambda>(x, al). g x al))"
  unfolding keeps_bufs_def
proof (intro allI impI)
  fix al v al'
  assume "f al \<bind> (\<lambda>(x, al). g x al) = Some (v, al')"
  then obtain x al1 where "f al = Some (x, al1)" "g x al1 = Some (v, al')" by (auto split: Option.bind_splits)
  then show "bufs al' = bufs al" using assms keeps_bufsD by metis
qed

lemma keeps_bufs_return: "keeps_bufs (\<lambda>al. Some (v, al))"
  by (simp add: keeps_bufs_def)

lemma keeps_bufs_readbits_16: "keeps_bufs (\<lambda>al. readbits_16 al n)"
  by (auto simp: keeps_bufs_def readbits_16_def bufs_def Let_def split: Option.bind_splits if_splits)

lemma keeps_bufs_readbits: "keeps_bufs (\<lambda>al. readbits al n)"
proof (cases "n > 16 \<and> n - 16 \<le> 31")
  case True
  then show ?thesis
    by (simp add: readbits_def Let_def) (intro keeps_bufs_bind keeps_bufs_readbits_16 keeps_bufs_return)
next
  case False
  then show ?thesis
    using keeps_bufs_readbits_16 [of n]
    by (auto simp: keeps_bufs_def readbits_def Let_def split: Option.bind_splits)
qed

lemma keeps_bufs_list: "keeps_bufs f \<Longrightarrow> keeps_bufs (read_list n f)"
proof (induction n)
  case (Suc n)
  then have "keeps_bufs (\<lambda>al. f al \<bind> (\<lambda>(x, al). read_list n f al \<bind> (\<lambda>(xs, al). Some (x # xs, al))))"
    by (intro keeps_bufs_bind keeps_bufs_return) simp_all
  then show ?case by simp
qed (simp add: keeps_bufs_def)

lemma keeps_bufs_channel_header: "keeps_bufs channel_header"
  unfolding channel_header_def read_coef_def
  by (intro keeps_bufs_bind keeps_bufs_readbits keeps_bufs_list keeps_bufs_return)

lemma keeps_bufs_frame_header: "keeps_bufs (frame_header n)"
  unfolding frame_header_def
proof (intro keeps_bufs_bind keeps_bufs_readbits)
  fix hassize ub raw :: u32
  show "keeps_bufs (\<lambda>al. if hassize \<noteq> 0 then readbits al 32 \<bind>
      (\<lambda>(n, al). Some ((sint ub, raw \<noteq> 0, sint n), al)) else Some ((sint ub, raw \<noteq> 0, n), al))"
    by (cases "hassize = 0") (simp_all add: keeps_bufs_return keeps_bufs_bind keeps_bufs_readbits)
qed

lemma keeps_bufs_raw_sample: "keeps_bufs raw_sample"
proof -
  have "keeps_bufs (\<lambda>al. raw_sample al)"
    using keeps_bufsD [OF keeps_bufs_readbits]
    by (auto simp: keeps_bufs_def raw_sample_def Let_def split: Option.bind_splits if_splits; metis)
  then show ?thesis .
qed

section \<open>Every sample is written\<close>

lemma for_loop_all:
  assumes "for_loop n f i s = Some s'" "P s"
    "\<And>j s s'. i \<le> j \<Longrightarrow> j < i + int n \<Longrightarrow> P s \<Longrightarrow> f j s = Some s' \<Longrightarrow> P s' \<and> Q j"
  shows "P s' \<and> (\<forall>j. i \<le> j \<and> j < i + int n \<longrightarrow> Q j)"
  using assms
proof (induction n arbitrary: i s)
  case (Suc n)
  obtain s1 where s1: "f i s = Some s1" "for_loop n f (i + 1) s1 = Some s'"
    using Suc.prems(1) by (auto split: Option.bind_splits)
  have a: "P s1 \<and> Q i" using Suc.prems(3) [of i s s1] Suc.prems(2) s1(1) by simp
  have rest: "P s' \<and> (\<forall>j. i + 1 \<le> j \<and> j < i + 1 + int n \<longrightarrow> Q j)"
  proof (rule Suc.IH [OF s1(2)])
    show "P s1" using a by simp
    fix j t t'
    assume "i + 1 \<le> j" "j < i + 1 + int n" "P t" "f j t = Some t'"
    then show "P t' \<and> Q j" using Suc.prems(3) [of j t t'] by simp
  qed
  have "Q j" if "i \<le> j" "j < i + int (Suc n)" for j
    using that rest a by (cases "j = i") simp_all
  then show ?case using rest by simp
qed auto

lemma rice_step_bounds:
  "rice_step N ss kmod mult mk (al, buf, n, h, sm) = Some (al', buf', n', h', sm') \<Longrightarrow>
    length buf' = length buf \<and> n' \<le> int (length buf)"
  by (auto simp: rice_step_def set_cell_def clear_cells_def Let_def split: Option.bind_splits if_splits)

lemma rice_loop_bounds:
  "rice_loop N ss kmod mult mk (al, buf, n, h, sm) = Some (buf', al') \<Longrightarrow> n \<le> int (length buf) \<Longrightarrow>
    N \<le> int (length buf)"
proof (induction N ss kmod mult mk "(al, buf, n, h, sm)" arbitrary: al buf n h sm rule: rice_loop.induct)
  case (1 N ss kmod mult mk al buf n h sm)
  show ?case
  proof (cases "n < N")
    case True
    then obtain al1 buf1 n1 h1 sm1 where step: "rice_step N ss kmod mult mk (al, buf, n, h, sm) = Some (al1, buf1, n1, h1, sm1)"
      "rice_loop N ss kmod mult mk (al1, buf1, n1, h1, sm1) = Some (buf', al')"
      using "1.prems"(1) by (auto simp: rice_loop.simps [of N] split: Option.bind_splits)
    then show ?thesis using "1.hyps" [OF True step(1)] rice_step_bounds [OF step(1)] by simp
  next
    case False
    then show ?thesis using "1.prems"(2) by simp
  qed
qed

lemma decode_channel_bounds:
  "decode_channel ch N ss errors out al = Some (r, al') \<Longrightarrow> N \<le> int (length errors)"
  by (auto simp: decode_channel_def entropy_rice_decode_def split: Option.bind_splits if_splits dest: rice_loop_bounds)


lemma stereo_oversized:
  assumes "frame_header k al = Some ((ub, raw, N), al1)" "0 \<le> N"
    "int (length (predicterror_a al)) < N" "int (length (outputsamples_a al)) < N"
  shows "decode_stereo al out k = None"
proof (rule ccontr)
  assume "decode_stereo al out k \<noteq> None"
  then obtain r where r: "decode_stereo al out k = Some r" by auto
  have b1: "bufs al1 = bufs al" using keeps_bufsD [OF keeps_bufs_frame_header assms(1)] .
  define cap where "cap = length (outputsamples_a al)"
  show False
  proof (cases raw)
    case True
    then obtain al2 where "for_range 0 N raw_step al1 = Some al2"
      using r assms(1) by (auto simp: decode_stereo_def raw_step_def [abs_def, symmetric] Let_def split: Option.bind_splits)
    then have loop: "for_loop (nat N) raw_step 0 al1 = Some al2" by (simp add: for_range_def)
    have "\<forall>j. 0 \<le> j \<and> j < 0 + int (nat N) \<longrightarrow> j < int cap"
    proof (rule conjunct2, rule for_loop_all [OF loop, where P = "\<lambda>al. length (outputsamples_a al) = cap"])
      show "length (outputsamples_a al1) = cap" using b1 by (simp add: bufs_def cap_def)
      fix j s s'
      assume s: "length (outputsamples_a s) = cap" "raw_step j s = Some s'"
      then obtain v s1 w s2 xs ys where "raw_sample s = Some (v, s1)" "raw_sample s1 = Some (w, s2)"
        "set_cell (outputsamples_a s2) j v = Some xs" "s' = s2\<lparr>outputsamples_a := xs, outputsamples_b := ys\<rparr>"
        by (auto simp: raw_step_def split: Option.bind_splits)
      moreover from this have "outputsamples_a s2 = outputsamples_a s"
        using keeps_bufsD [OF keeps_bufs_raw_sample] by (metis bufs_def prod.inject)
      ultimately show "length (outputsamples_a s') = cap \<and> j < int cap"
        using s(1) by (auto simp: set_cell_def split: if_splits)
    qed
    then show False using assms(2,4) by (auto simp: cap_def dest: spec [of _ "int cap"])
  next
    case False
    then obtain w1 a1 w2 a2 ch_a a3 ch_b a4 a5 r1 a6 where reads: "readbits al1 8 = Some (w1, a1)" "readbits a1 8 = Some (w2, a2)"
      "channel_header a2 = Some (ch_a, a3)" "channel_header a3 = Some (ch_b, a4)"
      and bytes: "(if ub \<noteq> 0 then for_range 0 N (\<lambda>i al. do {
                   (w, al) \<leftarrow> readbits al (ub * 8);
                   xs \<leftarrow> set_cell (uncompressed_a al) i (sint w);
                   (w, al) \<leftarrow> readbits al (ub * 8);
                   ys \<leftarrow> set_cell (uncompressed_b al) i (sint w);
                   Some (al\<lparr>uncompressed_a := xs, uncompressed_b := ys\<rparr>)
                 }) a4 else Some a4) = Some a5"
      and dec: "decode_channel ch_a N (uint (setinfo_sample_size al1) - ub * 8 + 1) (predicterror_a a5) (outputsamples_a a5) a5 = Some (r1, a6)"
      using r assms(1) by (auto simp: decode_stereo_def Let_def split: Option.bind_splits)
    have "bufs a4 = bufs al"
      using reads b1 keeps_bufsD [OF keeps_bufs_readbits] keeps_bufsD [OF keeps_bufs_channel_header] by metis
    moreover have "bufs a5 = bufs a4"
    proof (cases "ub = 0")
      case False
      define g where "g = (\<lambda>i al. do {
                   (w, al) \<leftarrow> readbits al (ub * 8);
                   xs \<leftarrow> set_cell (uncompressed_a al) i (sint w);
                   (w, al) \<leftarrow> readbits al (ub * 8);
                   ys \<leftarrow> set_cell (uncompressed_b al) i (sint w);
                   Some (al\<lparr>uncompressed_a := xs, uncompressed_b := ys\<rparr>)
                 })"
      have "for_loop (nat N) g 0 a4 = Some a5" using bytes False by (simp add: for_range_def g_def)
      then have "bufs a5 = bufs a4 \<and> (\<forall>j. 0 \<le> j \<and> j < 0 + int (nat N) \<longrightarrow> True)"
      proof (rule for_loop_all)
        fix j s s'
        assume s: "bufs s = bufs a4" "g j s = Some s'"
        then obtain w s1 w' s2 s3 xs ys where "readbits s (ub * 8) = Some (w, s1)"
          "readbits s1 (ub * 8) = Some (w', s2)" "s' = s2\<lparr>uncompressed_a := xs, uncompressed_b := ys\<rparr>"
          by (auto simp: g_def split: Option.bind_splits)
        then show "bufs s' = bufs a4 \<and> True"
          using s(1) keeps_bufsD [OF keeps_bufs_readbits] by (simp add: bufs_def)
      qed simp
      then show ?thesis by simp
    qed (use bytes in simp)
    ultimately have "N \<le> int (length (predicterror_a al))"
      using decode_channel_bounds [OF dec] by (simp add: bufs_def)
    then show False using assms(3) by simp
  qed
qed


section \<open>Properties\<close>

text \<open>
  C27. The number of samples is taken from the stream unchecked: for a stereo frame that claims more samples than the
  buffers of the decoder hold, compressed or not and whatever its bits are, no run of \<open>alac_decode_frame\<close> has
  defined behaviour; one that is not stopped by the end of its input writes behind a heap block.
\<close>
theorem oversized_frame_overruns:
  assumes "stereo16 cap al" "cap < n" "n < 2 ^ 31"
    "stream_bits inbuffer = nbits 3 1 @ frame_header_bits True n raw @ rest" "24 \<le> length rest"
  shows "alac_decode_frame al inbuffer out = None"
proof -
  define al0 where "al0 = al\<lparr>inbuf := inbuffer, inptr := 0, bitaccumulator := 0\<rparr>"
  have "ahead al0 (nbits 3 1 @ frame_header_bits True n raw)"
    using ahead_start [of inbuffer "nbits 3 1 @ frame_header_bits True n raw" rest al] assms(4,5) by (simp add: al0_def)
  then have ah: "ahead al0 (nbits 3 1)" "ahead (seek al0 3) (frame_header_bits True n raw)"
    using ahead_split [of al0 "nbits 3 1"] by simp_all
  have "readbits al0 3 = Some (1, seek al0 3)"
    using parsesD [OF parses_readbits_numeral ah(1)] by simp
  moreover have "frame_header (sint (max_samples_per_frame al)) (seek al0 3)
      = Some ((0, raw, int n), seek (seek al0 3) (length (frame_header_bits True n raw)))"
    using parsesD [OF parses_frame_header [OF assms(3)] ah(2)] by simp
  then have "decode_stereo (seek al0 3) out (sint (max_samples_per_frame al)) = None"
    using assms(1,2) by (intro stereo_oversized) (auto simp: stereo16_def al0_def)
  ultimately show ?thesis by (simp add: alac_decode_frame_def al0_def [symmetric])
qed

theorem oversized_frame_overruns_witness:
  "alac_decode_frame demo_alac [32, 0, 16, 0, 0, 7, 208, 0, 0, 0] (replicate 128 0) = None"
proof -
  have "stream_bits [32, 0, 16, 0, 0, 7, 208, 0, 0, 0] = nbits 3 1 @ frame_header_bits True 1000 False @ replicate 25 False"
    by (simp add: bits_eval)
  then show ?thesis by (rule oversized_frame_overruns [OF demo_ok(1) _ _, rotated 2]) simp_all
qed

end
