(* ===== verification/Alac_Stream.thy ===== *)
theory Alac_Stream
  imports Alac_Lossless Encrypted_Audio Http_Response
begin

text \<open>
  The audio decoder where the program puts it: \<open>raop_buffer.c\<close> creates it, hands it its configuration as 48
  bytes and lets it decode every packet into the packet's place. \<open>with_alac\<close> is the codec the jitter buffer
  takes as an argument, made of \<open>aes.c\<close> and \<open>alac.c\<close>: \<open>stack\<close> is what lies in \<open>packetbuf\<close> behind the packet,
  which the bit reader may look at, and \<open>undefined_run\<close> stands for a decoder run without defined behaviour.
\<close>

definition with_alac ::
  "(nat \<Rightarrow> nat \<Rightarrow> int) \<Rightarrow> byte list \<Rightarrow> (alac_file \<Rightarrow> byte list \<Rightarrow> byte list \<Rightarrow> alac_file \<times> byte list \<times> int)
    \<Rightarrow> alac_file codec \<Rightarrow> alac_file codec" where
  "with_alac junk stack undefined_run cdc =
     cdc\<lparr>aes_cbc_decrypt := decrypt_block,
         alac_create := (\<lambda>depth channels. Some (alac_create_file (uint depth) (uint channels))),
         alac_set_info_cb := (\<lambda>al info. case alac_set_info junk al info of Some al \<Rightarrow> al | None \<Rightarrow> al),
         alac_decode := (\<lambda>al packet buf len. case alac_decode_frame al (packet @ stack) buf of
            Some r \<Rightarrow> r | None \<Rightarrow> undefined_run al packet buf)\<rparr>"

section \<open>Configuration\<close>








section \<open>The format line\<close>














section \<open>Packets\<close>

lemma queued_packet:
  assumes "rb_wf rb" "valid_datalen datalen" "s = queue_seqnum rb data use_seqnum"
    "rb_is_empty rb \<or> rb_offset rb s < 32768"
    "\<not> (e_available (rb_entries rb ! slot s) \<and> e_seqnum (rb_entries rb ! slot s) = s)"
  obtains rb' where "raop_buffer_queue cdc rb data datalen use_seqnum = (1, rb')" "rb_wf rb'"
    "rb_lookup rb' s = Some (payload (queue_entry cdc rb data (unat datalen) s))"
    "rb_decoder rb' = fst (queue_decode cdc rb data (unat datalen) s)"
proof -
  define r where "r = make_room rb s"
  have acc: "rb_accepts r s" unfolding r_def by (rule make_room_accepts [OF assms(1,4)])
  have "\<not> (e_available (rb_entries r ! slot s) \<and> e_seqnum (rb_entries r ! slot s) = s)"
    using assms(1,5) by (auto simp: r_def make_room_def rb_wf_def)
  then have "raop_buffer_queue cdc rb data datalen use_seqnum
      = (1, rb_store r s (queue_entry cdc r data (unat datalen) s) (fst (queue_decode cdc r data (unat datalen) s)))"
    using queue_timely [OF assms(2,1), of data use_seqnum cdc] assms(3,4) by (simp add: Let_def r_def)
  moreover have "rb_lookup (rb_store r s (queue_entry cdc r data (unat datalen) s)
        (fst (queue_decode cdc r data (unat datalen) s))) s = Some (payload (queue_entry cdc rb data (unat datalen) s))"
    using lookup_store(1) [OF acc] payload_make_room [OF assms(1)] by (simp add: r_def)
  moreover have "queue_decode cdc r data (unat datalen) s = queue_decode cdc rb data (unat datalen) s"
    unfolding r_def by (rule queue_decode_make_room [OF assms(1)])
  ultimately show ?thesis using that rb_wf_queue [OF assms(1), of cdc data datalen use_seqnum] by simp
qed

section \<open>Properties\<close>


text \<open>
  C10. From the network to the player: a packet whose payload is a frame a stereo encoder wrote, encrypted by the
  sender with the session key, is decrypted, decoded and stored under its sequence number with exactly the
  samples of the encoder, and the decoder stays ready for the next packet. The cipher is that of \<open>aes.c\<close>, the
  decoder that of \<open>alac.c\<close>.
\<close>
theorem encoded_packet_is_stored:
  assumes "rb_wf rb" "rb_cn rb = 1" "length (rb_aeskey rb) = 16" "length (rb_aesiv rb) = 16"
    "length header = 12" "unat datalen = 12 + length packet" "unat datalen \<le> RAOP_PACKET_LEN"
    "s = be16 (header ! 2) (header ! 3)" "rb_is_empty rb \<or> rb_offset rb s < 32768"
    "\<not> (e_available (rb_entries rb ! slot s) \<and> e_seqnum (rb_entries rb ! slot s) = s)"
    "stereo16 cap (rb_decoder rb)" "channel_ok (rb_decoder rb) ch_a" "channel_ok (rb_decoder rb) ch_b"
    "weight_ok shift weight" "lrs \<noteq> []" "list_all (\<lambda>(l, r). residual_ok 16 l \<and> residual_ok 16 r) lrs"
    "length lrs \<le> cap" "length lrs < 65536"
    "hassize \<or> max_samples_per_frame (rb_decoder rb) = of_nat (length lrs)"
    "4 * length lrs \<le> length (e_audio_buffer (rb_entries rb ! slot s))"
    "stream_bits (packet @ stack) = stereo_frame (rb_decoder rb) hassize shift weight ch_a ch_b lrs @ rest"
    "24 \<le> length rest"
  shows "\<exists>rb'. raop_buffer_queue (with_alac junk stack undefined_run cdc) rb
        (header @ (if rb_et rb \<noteq> 0 then encrypt_payload (rb_aeskey rb) (rb_aesiv rb) packet else packet)) datalen True
      = (1, rb') \<and> rb_wf rb'
    \<and> rb_lookup rb' s = Some (header ! 0, header ! 1, be32 (header ! 4) (header ! 5) (header ! 6) (header ! 7),
        be32 (header ! 8) (header ! 9) (header ! 10) (header ! 11), 4 * int (length lrs),
        pcm16 lrs @ drop (4 * length lrs) (e_audio_buffer (rb_entries rb ! slot s)))
    \<and> stereo16 cap (rb_decoder rb') \<and> settings (rb_decoder rb') = settings (rb_decoder rb)"
proof -
  define cdc' where "cdc' = with_alac junk stack undefined_run cdc"
  define data where "data = header @ (if rb_et rb \<noteq> 0 then encrypt_payload (rb_aeskey rb) (rb_aesiv rb) packet else packet)"
  have head: "data ! i = header ! i" if "i < 12" for i using that assms(5) by (simp add: data_def nth_append)
  have s: "s = queue_seqnum rb data True" by (simp add: queue_seqnum_def head assms(8))
  have valid: "valid_datalen datalen" using assms(6,7) by (simp add: valid_datalen_def)
  have dec: "decrypt_packet cdc' rb data (unat datalen) = packet"
    unfolding data_def assms(6) using assms(3-5)
    by (intro packet_decrypted) (simp_all add: cdc'_def with_alac_def)
  obtain al' where al': "alac_decode_frame (rb_decoder rb) (packet @ stack) (e_audio_buffer (rb_entries rb ! slot s))
      = Some (al', pcm16 lrs @ drop (4 * length lrs) (e_audio_buffer (rb_entries rb ! slot s)), 4 * int (length lrs))"
    "stereo16 cap al'" "settings al' = settings (rb_decoder rb)"
    using stereo_decodes [OF assms(11-22)] by blast
  have run: "alac_decode cdc' = (\<lambda>al packet buf len. case alac_decode_frame al (packet @ stack) buf of
      Some r \<Rightarrow> r | None \<Rightarrow> undefined_run al packet buf)"
    by (simp add: cdc'_def with_alac_def)
  have qd: "queue_decode cdc' rb data (unat datalen) s
      = (al', pcm16 lrs @ drop (4 * length lrs) (e_audio_buffer (rb_entries rb ! slot s)), 4 * int (length lrs))"
    by (simp add: queue_decode_def assms(2) dec Let_def run al'(1))
  obtain rb' where rb': "raop_buffer_queue cdc' rb data datalen True = (1, rb')" "rb_wf rb'"
    "rb_lookup rb' s = Some (payload (queue_entry cdc' rb data (unat datalen) s))"
    "rb_decoder rb' = fst (queue_decode cdc' rb data (unat datalen) s)"
    using queued_packet [OF assms(1) valid s assms(9,10)] by blast
  then show ?thesis
    using al'(2,3) unfolding cdc'_def [symmetric] data_def [symmetric]
    by (simp add: payload_def queue_entry_def qd head)
qed


section \<open>Concrete streams\<close>

definition stream_codec :: "alac_file codec" where
  "stream_codec = with_alac (\<lambda>j i. 0) [] (\<lambda>al packet buf. (al, buf, 0))
     \<lparr>aes_cbc_decrypt = (\<lambda>key iv xs. xs), alac_create = (\<lambda>depth channels. None), alac_set_info_cb = (\<lambda>d info. d),
      alac_decode = (\<lambda>d packet buf len. (d, buf, len)), aac_create = demo_alac,
      aac_decode = (\<lambda>d packet buf len. (d, buf, len))\<rparr>"



definition stream_rb :: "alac_file raop_buffer" where
  "stream_rb = \<lparr>rb_aeskey = replicate 16 1, rb_aesiv = replicate 16 2, rb_config = zero_config,
     rb_decoder = demo_alac, rb_et = 1, rb_cn = 1, rb_is_empty = True, rb_first = 0, rb_last = 0,
     rb_entries = replicate 32 (demo_entry\<lparr>e_audio_buffer_size := 26, e_audio_buffer := replicate 26 9\<rparr>),
     rb_buffer_size = 832\<rparr>"

theorem encoded_packet_is_stored_witness:
  "\<exists>rb'. raop_buffer_queue stream_codec stream_rb
      ([128, 96, 0, 5, 0, 0, 0, 7, 0, 0, 0, 1] @ encrypt_payload (replicate 16 1) (replicate 16 2) demo_frame) 54 True = (1, rb')
    \<and> rb_wf rb' \<and> rb_lookup rb' 5 = Some (128, 96, 7, 1, 24, pcm16 demo_samples @ [9, 9])
    \<and> stereo16 32 (rb_decoder rb') \<and> settings (rb_decoder rb') = settings demo_alac"
proof -
  define header :: "byte list" where "header = [128, 96, 0, 5, 0, 0, 0, 7, 0, 0, 0, 1]"
  have len: "length header = 12" "unat (54 :: u16) = 12 + length demo_frame" "unat (54 :: u16) \<le> RAOP_PACKET_LEN"
    by (simp_all add: header_def demo_frame_def)
  have seq: "5 = be16 (header ! 2) (header ! 3)" by (simp add: header_def be16_def)
  have rb: "rb_wf stream_rb" "rb_cn stream_rb = 1" "length (rb_aeskey stream_rb) = 16" "length (rb_aesiv stream_rb) = 16"
    "rb_is_empty stream_rb \<or> rb_offset stream_rb 5 < 32768" "rb_decoder stream_rb = demo_alac" "rb_et stream_rb = 1"
    "\<not> (e_available (rb_entries stream_rb ! slot 5) \<and> e_seqnum (rb_entries stream_rb ! slot 5) = 5)"
    "e_audio_buffer (rb_entries stream_rb ! slot 5) = replicate 26 9"
    "rb_aeskey stream_rb = replicate 16 1" "rb_aesiv stream_rb = replicate 16 2"
    by (simp_all add: stream_rb_def rb_wf_def demo_entry_def)
  have samples: "demo_samples \<noteq> []" "length demo_samples = 6" by (simp_all add: demo_samples_def)
  note dem = demo_ok [folded rb(6)] and str = demo_frame_bits [folded rb(6)]
  have "be32 0 0 0 7 = 7" "be32 0 0 0 1 = 1" by (simp_all add: be32_def)
  then show ?thesis
    using encoded_packet_is_stored [OF rb(1-4) len seq rb(5,8) dem(1,2,2,4) samples(1) demo_ok(3), of True "[]"
        "replicate 27 False" "\<lambda>j i. 0" "\<lambda>al packet buf. (al, buf, 0)"
        "\<lparr>aes_cbc_decrypt = (\<lambda>key iv xs. xs), alac_create = (\<lambda>depth channels. None), alac_set_info_cb = (\<lambda>d info. d),
          alac_decode = (\<lambda>d packet buf len. (d, buf, len)), aac_create = demo_alac,
          aac_decode = (\<lambda>d packet buf len. (d, buf, len))\<rparr>"] str rb samples
    by (simp add: header_def replicate_more flip: stream_codec_def)
qed

end
