(* ===== verification/Spec2Isabelle.thy ===== *)
theory Spec2Isabelle
  imports Utils_C Raop_Rtp Ring_Buffer Http_Response Httpd Sdp Base64 Digest Hmac Plist Airdata Rsakey Raop_Properties Rc4 Encrypted_Audio Airplay_Messages New_Aes Alac_Bounds Alac_Stream
begin

text \<open>
  Verification development for the native AirPlay receiver under \<open>src/libairplay\<close>, the C library of an
  Android application that shows audio, video and screens sent by Apple clients.

  \<^bold>\<open>The program.\<close> The library runs three servers built on one connection server (\<open>httpd.c\<close>). The first
  speaks the remote audio protocol (\<open>raop.c\<close>): a client pairs, announces or sets up an audio or a screen
  stream, and the server starts an audio receiver (\<open>raop_rtp.c\<close>) that takes RTP packets over UDP or TCP,
  decrypts and orders them in a jitter buffer (\<open>raop_buffer.c\<close>) and hands samples to the player, which reads
  them from a byte ring (\<open>jniinterface/ring_buffer.c\<close>). Screen frames come over connections the connection
  server reads itself and are decrypted in counter mode. The second speaks the video protocol (\<open>airplay.c\<close>): a
  client sends an address or playlists, which are translated (\<open>utils.c\<close>), and controls the player. Requests
  are collected by \<open>http_request.c\<close>, responses built by \<open>http_response.c\<close>, session descriptions parsed by
  \<open>sdp.c\<close>, passwords checked by \<open>digest.c\<close>, and \<open>libairplay/crypt\<close> holds the digests and ciphers.

  \<^bold>\<open>Theories and files\<close> (an operation keeps the name of its C function; a record its struct):
  \<^item> \<open>Airplay_Prelude\<close>, \<open>C_Float\<close>: integer types as words, byte order, C strings and their library calls, the
    drain loop of both receivers as a locale \<open>drainable\<close>, floating point values without rounding.
  \<^item> \<open>Utils_C\<close> and \<open>Hls\<close>: \<open>utils.c\<close>, its helpers and its playlist translator \<open>trans\<close>.
  \<^item> \<open>Raop_Buffer\<close>: \<open>raop_buffer.c\<close>. The abstract buffer is a window of places, each lost or holding a packet;
    the locale \<open>jitter\<close> states what its client relies on.
  \<^item> \<open>Raop_Rtp\<close>: \<open>raop_rtp.c\<close>, the mailbox, both threads one turn at a time, start and stop.
  \<^item> \<open>Ring_Buffer\<close>: \<open>ring_buffer.c\<close>; the abstract ring is a byte queue (locale \<open>byte_fifo\<close>).
  \<^item> \<open>Http_Response\<close>, \<open>Http_Request\<close>, \<open>Httpd\<close>: the files of those names; the server is a table of
    connections, one turn of its thread a function of what the system calls answer.
  \<^item> \<open>Sdp\<close>, \<open>Plist\<close>, \<open>Base64\<close>, \<open>Digest\<close>: \<open>sdp.c\<close>, the readers of \<open>plist.c\<close>, \<open>base64.c\<close>, \<open>digest.c\<close>.
  \<^item> \<open>Block_Hash\<close>, \<open>Md5\<close>, \<open>Sha1\<close>, \<open>Hmac\<close>, \<open>Rc4\<close>, \<open>Aes\<close>, \<open>Aes_Ctr\<close>, \<open>Rsakey\<close>: \<open>libairplay/crypt\<close>. A streaming
    digest is a locale \<open>stream_hash\<close>, a block cipher the locale \<open>block_cipher\<close>.
  \<^item> \<open>Aes_Tables\<close>, \<open>New_Aes\<close>: \<open>crypt/new_aes.c\<close>, the table-driven cipher of the mirror stream, its tables and
    its equality with \<open>Aes\<close>.
  \<^item> \<open>Alac\<close>: \<open>alac/alac.c\<close>, the lossless audio decoder; \<open>Alac_Bits\<close> its bit reader, \<open>Alac_Entropy\<close> and
    \<open>Alac_Predictor\<close> its two stages against the encoder that inverts them, \<open>Alac_Lossless\<close> whole
    frames, \<open>Alac_Bounds\<close> frames no encoder writes, \<open>Alac_Stream\<close> the decoder inside the jitter buffer.
  \<^item> \<open>Encrypted_Audio\<close>: the jitter buffer composed with the cipher it calls.
  \<^item> \<open>Fairplay\<close>, \<open>Pairing\<close>, \<open>Airdata\<close>: \<open>dmr/playfair.c\<close> and \<open>fairplay.c\<close>, the pair-verify exchange, the event channel.
  \<^item> \<open>Raop\<close>: \<open>raop.c\<close>, one function per handler, composed by \<open>conn_request\<close>. A handler maps the frame of a
    request (server, connection, response, body, events) to the next frame or to the error that ends the
    process. \<open>Raop_State\<close> has the reachable states, \<open>Raop_Response\<close> the text of a response,
    \<open>Raop_Properties\<close> what the handlers do.
  \<^item> \<open>Airplay\<close>: \<open>airplay.c\<close> in the same way; \<open>Airplay_Properties\<close> and \<open>Airplay_Messages\<close> hold its properties.

  \<^bold>\<open>What the lemmas show.\<close> Each stateful component has an invariant that every operation keeps
  (\<open>rb_wf\<close>, \<open>rg_wf\<close>, the table of \<open>Httpd\<close>, \<open>raop_ok\<close>) and a theorem over all histories or interleavings. The jitter
  buffer, the ring and the session description refine abstract specifications on every branch; the digests,
  the counter mode and base64 equal reference definitions however their input is cut; AES, base64 and OAEP
  round-trip; lossless audio comes out as its encoder took it in, also through the cipher and the jitter buffer.
  The handlers are proved to answer completely, to keep all sizes, to let an unauthorized request take effect
  although it is answered 401, and to agree on keys with a client that follows the protocol. Some theorems show
  defects: a condensed playlist with a segment has no defined translation, pipelined requests after a
  disconnecting response end the process, an oversized audio frame overruns the decoder. Where the code can fail its
  theorem says when: aborts, faults and endless waits are values of the model and are not hidden behind
  hypotheses that exclude them, except where a property names its conditions.

  \<^bold>\<open>Conventions.\<close> Integers are words of their C width with wrap-around; where the code converts to a
  signed type the conversion is written. \<open>char\<close> is unsigned and \<open>long\<close> has 64 bits, as on the 64-bit ARM
  targets. Assertions are taken as compiled (a build that defines \<open>NDEBUG\<close> goes on where the model stops),
  except in \<open>Airplay\<close>, where the assertions of the property list library are a parameter. Undefined behaviour
  (access out of bounds, NULL, uninitialised values, signed overflow, a \<open>sprintf\<close> into one of its own arguments) is
  an error value or \<open>None\<close>, except that the signed arithmetic of the audio decoder wraps, as it does on the
  targets. What lies behind an object the code reads past is an argument (\<open>w_behind\<close>, \<open>aw_behind\<close>); where it is
  not readable the read is an error. Allocations the code does not check succeed. System calls, time, random bytes, the AAC decoder, the player, the parsers of
  binary and XML property lists, \<open>http_parser\<close>, the elliptic curves, SHA-512 and modular exponentiation are
  arguments; the laws a property needs of them (sizes, agreement of a key exchange, verification of a genuine
  signature) are its hypotheses, and its witness instantiates them.

  \<^bold>\<open>Bounds and termination.\<close> Loops are structural recursions or functions with a measure: the drain loop of
  the receivers takes at most 32 rounds, since each round frees one of the 32 places; loops over text
  consume it. Loops driven by the network recurse over the list of answers the system calls give, so a model
  run ends when the answers do; \<open>stalled_sender_blocks_server\<close> shows that the real loop need not.

  \<^bold>\<open>Not modelled.\<close> \<open>libairplay/mdnsresponder\<close>, \<open>aac\<close>, \<open>include\<close> (OpenSSL, Oboe), \<open>plist\<close> apart from its readers,
  \<open>ed25519\<close>, \<open>crypt/bigint.c\<close> and \<open>http_parser.c\<close> are third-party code vendored into the repository;
  \<open>dmr/omg_hax.c\<close>, \<open>hand_garble.c\<close>, \<open>sap_hash.c\<close>, \<open>modified_md5.c\<close> are obfuscated tables without a contract.
  \<open>jniinterface/*.cpp\<close> and the Java sources bind the library to Android; \<open>dnssd.c\<close>, \<open>netutils.c\<close>, \<open>thread\<close>
  and logging macros, the clock and file reading are system calls.
\<close>

end
